(* ===== verification/Prelude.thy ===== *)
theory Prelude
  imports Main "HOL-Library.Word"
begin

text \<open>
  Shared vocabulary of the development: the machine types of the native profiler
  (bytes, 32-bit words, HRESULTs), reads that may leave a buffer, the little-endian
  layout of integers, and the interface of a self-delimiting byte code, which the
  compressed metadata integers, the UTF-8 and UTF-16 code points and the fixed width
  integers all implement.
\<close>

unbundle bit_operations_syntax

named_theorems token_simps \<open>the constants of metadata tokens\<close>

section \<open>Machine types\<close>

type_synonym byte = "8 word"
type_synonym u16 = "16 word"
type_synonym u32 = "32 word"
type_synonym u64 = "64 word"
type_synonym hresult = "32 word"

text \<open>
  An HRESULT is a signed 32-bit integer; \<open>FAILED\<close> tests the sign bit. The constants
  are those of the platform headers the sources include.
\<close>

definition FAILED :: "hresult \<Rightarrow> bool" where
  "FAILED hr \<longleftrightarrow> sint hr < 0"

definition SUCCEEDED :: "hresult \<Rightarrow> bool" where
  "SUCCEEDED hr \<longleftrightarrow> 0 \<le> sint hr"

abbreviation (input) S_OK :: hresult where "S_OK \<equiv> 0"
abbreviation (input) S_FALSE :: hresult where "S_FALSE \<equiv> 1"
abbreviation (input) E_FAIL :: hresult where "E_FAIL \<equiv> 0x80004005"
abbreviation (input) E_OUTOFMEMORY :: hresult where "E_OUTOFMEMORY \<equiv> 0x8007000E"
abbreviation (input) E_NOINTERFACE :: hresult where "E_NOINTERFACE \<equiv> 0x80004002"
abbreviation (input) META_E_BAD_SIGNATURE :: hresult where "META_E_BAD_SIGNATURE \<equiv> 0x80131192"
abbreviation (input) COR_E_INVALIDPROGRAM :: hresult where "COR_E_INVALIDPROGRAM \<equiv> 0x8013153A"

lemma FAILED_consts [simp]:
  "\<not> FAILED S_OK" "\<not> FAILED S_FALSE" "FAILED E_FAIL" "FAILED E_OUTOFMEMORY"
  "FAILED E_NOINTERFACE" "FAILED META_E_BAD_SIGNATURE" "FAILED COR_E_INVALIDPROGRAM"
  by (simp_all add: FAILED_def)

lemma SUCCEEDED_iff: "SUCCEEDED hr \<longleftrightarrow> \<not> FAILED hr"
  by (auto simp: SUCCEEDED_def FAILED_def)

section \<open>Equality of words, bit by bit\<close>

text \<open>
  Identities between shifts, masks and casts are proved one bit position at a time:
  \<open>rule u32_eqI\<close> (or \<open>byte_eqI\<close>) and \<open>simp add: bit_simps\<close>, with the positions
  known to be clear as extra rules.
\<close>

lemma high_bit_clear:
  fixes x :: "'a::len word"
  assumes "unat x < 2 ^ k" "k \<le> n"
  shows "\<not> bit x n"
proof
  assume b: "bit x n"
  have "unat x < 2 ^ n"
    using assms by (meson less_le_trans one_le_numeral power_increasing)
  then have "\<not> bit (unat x) n" by (simp add: bit_iff_odd)
  moreover have "bit (unat x) n"
    using b by (simp add: bit_unsigned_iff)
  ultimately show False by simp
qed
lemma low_bits_bound:
  fixes x :: "'a::len word"
  assumes "\<And>n. k \<le> n \<Longrightarrow> \<not> bit x n"
  shows "unat x < 2 ^ k"
proof -
  have "take_bit k x = x"
    using assms by (intro bit_word_eqI) (meson bit_take_bit_iff linorder_not_le)
  then have "unat x = take_bit k (unat x)"
    by (metis unsigned_take_bit_eq)
  then show ?thesis
    by (metis take_bit_nat_less_exp)
qed

lemma positions_32:
  "k < 32 \<longleftrightarrow> k \<in> {0, 1, 2, 3, 4, 5, 6, 7, 8, 9, 10, 11, 12, 13, 14, 15, 16, 17, 18, 19, 20, 21,
    22, 23, 24, 25, 26, 27, 28, 29, 30, 31 :: nat}"
  by (simp only: insert_iff empty_iff) arith

lemma u32_eqI:
  fixes x y :: u32
  assumes "bit x 0 = bit y 0" "bit x 1 = bit y 1" "bit x 2 = bit y 2" "bit x 3 = bit y 3"
    "bit x 4 = bit y 4" "bit x 5 = bit y 5" "bit x 6 = bit y 6" "bit x 7 = bit y 7"
    "bit x 8 = bit y 8" "bit x 9 = bit y 9" "bit x 10 = bit y 10" "bit x 11 = bit y 11"
    "bit x 12 = bit y 12" "bit x 13 = bit y 13" "bit x 14 = bit y 14" "bit x 15 = bit y 15"
    "bit x 16 = bit y 16" "bit x 17 = bit y 17" "bit x 18 = bit y 18" "bit x 19 = bit y 19"
    "bit x 20 = bit y 20" "bit x 21 = bit y 21" "bit x 22 = bit y 22" "bit x 23 = bit y 23"
    "bit x 24 = bit y 24" "bit x 25 = bit y 25" "bit x 26 = bit y 26" "bit x 27 = bit y 27"
    "bit x 28 = bit y 28" "bit x 29 = bit y 29" "bit x 30 = bit y 30" "bit x 31 = bit y 31"
  shows "x = y"
proof (rule bit_word_eqI)
  fix n assume "n < LENGTH(32)"
  then have "n < 32" by simp
  with assms show "bit x n = bit y n"
    unfolding positions_32 insert_iff empty_iff by (elim disjE) simp_all
qed

lemma u32_low_bits:
  assumes "list_all (\<lambda>n. \<not> bit (x :: u32) n) [k..<32]"
  shows "unat x < 2 ^ k"
proof (rule low_bits_bound)
  fix n assume "k \<le> n"
  then show "\<not> bit x n" using assms by (cases "n < 32") (auto simp: list_all_iff dest: bit_imp_le_length)
qed

lemma positions_8:
  "k < 8 \<longleftrightarrow> k \<in> {0, 1, 2, 3, 4, 5, 6, 7 :: nat}"
  by (simp only: insert_iff empty_iff) arith

lemma byte_eqI:
  fixes x y :: byte
  assumes "bit x 0 = bit y 0" "bit x 1 = bit y 1" "bit x 2 = bit y 2" "bit x 3 = bit y 3"
    "bit x 4 = bit y 4" "bit x 5 = bit y 5" "bit x 6 = bit y 6" "bit x 7 = bit y 7"
  shows "x = y"
proof (rule bit_word_eqI)
  fix n assume "n < LENGTH(8)"
  then have "n < 8" by simp
  with assms show "bit x n = bit y n"
    unfolding positions_8 insert_iff empty_iff by (elim disjE) simp_all
qed

section \<open>Words and natural numbers\<close>

lemma unat_byte_less [simp]: "unat (b :: byte) < 256"
  using unsigned_less [of b] by simp

text \<open>A fact about every byte is checked on all of them.\<close>

lemma byte_all:
  assumes "list_all (\<lambda>n. P (word_of_int n)) [0..255]"
  shows "P (b :: byte)"
proof -
  have "uint b \<in> set [0..255]" using uint_lt2p [of b] by simp
  then have "P (word_of_int (uint b))" using assms unfolding list_all_iff by blast
  then show ?thesis by (simp only: word_of_int_uint)
qed

lemma unat_of_nat_u32: "n < 2 ^ 32 \<Longrightarrow> unat (word_of_nat n :: u32) = n"
  by (simp add: unat_of_nat)

lemma unat_ucast_byte_u32 [simp]: "unat (ucast (b :: byte) :: u32) = unat b"
proof -
  have "unat b < 2 ^ 32" using unat_byte_less [of b] by (rule less_le_trans) simp
  then show ?thesis by (simp add: unsigned_ucast_eq take_bit_nat_eq_self)
qed

lemma ucast_byte_u32_eq:
  "unat w < 256 \<Longrightarrow> (ucast (b :: byte) :: u32) = w \<longleftrightarrow> b = word_of_nat (unat w)"
  by (simp add: word_unat_eq_iff [where 'a = 32] word_unat_eq_iff [where 'a = 8] unat_of_nat
        del: of_nat_unat)

lemma ucast_word_of_nat:
  "n < 2 ^ LENGTH('b) \<Longrightarrow> ucast (word_of_nat n :: 'b::len word) = (word_of_nat n :: 'c::len word)"
  by (simp add: word_unat_eq_iff unsigned_ucast_eq unat_of_nat take_bit_nat_eq_self)
    (simp add: take_bit_eq_mod)

lemma word_of_nat_of_unat: "unat w = n \<Longrightarrow> w = word_of_nat n"
  by auto

section \<open>Little-endian layout\<close>

fun le_bytes :: "nat \<Rightarrow> nat \<Rightarrow> byte list" where
  "le_bytes 0 n = []"
| "le_bytes (Suc k) n = word_of_nat (n mod 256) # le_bytes k (n div 256)"

fun le_nat :: "byte list \<Rightarrow> nat" where
  "le_nat [] = 0"
| "le_nat (b # bs) = unat b + 256 * le_nat bs"

lemma length_le_bytes [simp]: "length (le_bytes k n) = k"
  by (induction k arbitrary: n) auto

lemma unat_of_nat_byte [simp]: "unat (word_of_nat n :: byte) = n mod 256"
  by (simp add: unat_of_nat)

lemma le_nat_le_bytes: "le_nat (le_bytes k n) = n mod 256 ^ k"
proof (induction k arbitrary: n)
  case 0
  then show ?case by simp
next
  case (Suc k)
  have "n mod 256 + 256 * (n div 256 mod 256 ^ k) = n mod 256 ^ Suc k"
    using mod_mult2_eq [of n 256 "256 ^ k"] by simp
  with Suc show ?case by simp
qed

lemma le_bytes_mod: "le_bytes k (n mod 256 ^ k) = le_bytes k n"
proof (induction k arbitrary: n)
  case (Suc k)
  have "n mod 256 ^ Suc k mod 256 = n mod 256" by (simp add: mod_mult2_eq)
  moreover have "n mod 256 ^ Suc k div 256 = n div 256 mod 256 ^ k"
    by (simp add: mod_mult2_eq)
  ultimately show ?case using Suc by simp
qed simp

text \<open>The low bytes of a wider word.\<close>

lemma le_bytes_ucast:
  "le_bytes 2 (unat (ucast (b :: u64) :: u16)) = le_bytes 2 (unat b)"
  "le_bytes 4 (unat (ucast (b :: u64) :: u32)) = le_bytes 4 (unat b)"
  "[ucast (b :: u64)] = le_bytes 1 (unat b)"
  using le_bytes_mod [of 2 "unat b"] le_bytes_mod [of 4 "unat b"]
  by (simp_all add: unsigned_ucast_eq take_bit_eq_mod word_unat_eq_iff [where 'a = 8])

lemma le_nat_bound: "le_nat bs < 256 ^ length bs"
proof (induction bs)
  case Nil
  then show ?case by simp
next
  case (Cons b bs)
  have "unat b + 256 * le_nat bs < 256 * Suc (le_nat bs)"
    using unat_byte_less [of b] by simp
  also have "\<dots> \<le> 256 * 256 ^ length bs"
    using Cons.IH by (simp only: mult_le_mono2 Suc_le_eq)
  finally show ?case by simp
qed

lemma le_bytes_le_nat: "le_bytes (length bs) (le_nat bs) = bs"
proof (induction bs)
  case Nil
  then show ?case by simp
next
  case (Cons b bs)
  have "(unat b + 256 * le_nat bs) mod 256 = unat b"
    and "(unat b + 256 * le_nat bs) div 256 = le_nat bs"
    using unat_byte_less [of b] by (simp_all del: unat_byte_less)
  with Cons show ?case by simp
qed

section \<open>Self-delimiting codes\<close>

text \<open>
  A writer \<open>enc\<close> and a reader \<open>dec\<close> agree when the reader takes back what was
  written and stops exactly at its end, whatever follows. The lemmas below are what
  every client uses: injectivity, unique parsing, and reading back a sequence.
\<close>

locale self_delimiting =
  fixes enc :: "'a \<Rightarrow> 'c list"
    and dec :: "'c list \<Rightarrow> ('a \<times> 'c list) option"
    and ok :: "'a \<Rightarrow> bool"
  assumes dec_enc: "ok x \<Longrightarrow> dec (enc x @ rest) = Some (x, rest)"
begin

lemma enc_eq_iff:
  assumes "ok x" "ok y"
  shows "enc x @ r = enc y @ s \<longleftrightarrow> x = y \<and> r = s"
proof
  assume "enc x @ r = enc y @ s"
  then have "dec (enc x @ r) = dec (enc y @ s)" by (rule arg_cong)
  then show "x = y \<and> r = s"
    unfolding dec_enc [OF assms(1)] dec_enc [OF assms(2)] by simp
qed simp

lemma enc_inject: "ok x \<Longrightarrow> ok y \<Longrightarrow> enc x = enc y \<longleftrightarrow> x = y"
  using enc_eq_iff [of x y "[]" "[]"] by simp

lemma concat_enc_inject:
  "list_all ok xs \<Longrightarrow> list_all ok ys \<Longrightarrow> length xs = length ys \<Longrightarrow>
   concat (map enc xs) @ r = concat (map enc ys) @ s \<longleftrightarrow> xs = ys \<and> r = s"
proof (induction xs ys rule: list_induct2')
  case (4 x xs y ys)
  then show ?case by (auto simp: enc_eq_iff)
qed auto

end

text \<open>Reading \<open>n\<close> items one after the other, stopping at the first that fails.\<close>

fun dec_n :: "('c list \<Rightarrow> ('a \<times> 'c list) option) \<Rightarrow> nat \<Rightarrow> 'c list \<Rightarrow> ('a list \<times> 'c list) option" where
  "dec_n dec 0 bs = Some ([], bs)"
| "dec_n dec (Suc n) bs =
     (case dec bs of
        None \<Rightarrow> None
      | Some (x, bs') \<Rightarrow>
          (case dec_n dec n bs' of None \<Rightarrow> None | Some (xs, r) \<Rightarrow> Some (x # xs, r)))"

context self_delimiting begin

lemma dec_n_enc:
  "list_all ok xs \<Longrightarrow> dec_n dec (length xs) (concat (map enc xs) @ rest) = Some (xs, rest)"
  by (induction xs) (auto simp: dec_enc)

end

end
