(* ===== verification/Cor_Sig.thy ===== *)
theory Cor_Sig
  imports Prelude
begin

text \<open>
  The compressed integers and tokens of metadata signatures: the inline functions
  \<open>CorSig...\<close> of lib/coreclr/src/inc/cor.h, which every signature routine of the
  profiler calls, and the token macros of corhdr.h.

  A \<open>PCCOR_SIGNATURE\<close> is the list of the bytes that can be read from the pointer on.
  The code has no length to check against; a read past the last byte is the result
  \<open>None\<close> here. A function that advances its pointer returns the remaining bytes.
\<close>

section \<open>Metadata tokens\<close>

type_synonym mdToken = u32

abbreviation (input) mdtTypeRef :: mdToken where "mdtTypeRef \<equiv> 0x01000000"
abbreviation (input) mdtTypeDef :: mdToken where "mdtTypeDef \<equiv> 0x02000000"
abbreviation (input) mdtMethodDef :: mdToken where "mdtMethodDef \<equiv> 0x06000000"
abbreviation (input) mdtMemberRef :: mdToken where "mdtMemberRef \<equiv> 0x0a000000"
abbreviation (input) mdtModuleRef :: mdToken where "mdtModuleRef \<equiv> 0x1a000000"
abbreviation (input) mdtTypeSpec :: mdToken where "mdtTypeSpec \<equiv> 0x1b000000"
abbreviation (input) mdtAssemblyRef :: mdToken where "mdtAssemblyRef \<equiv> 0x23000000"
abbreviation (input) mdtMethodSpec :: mdToken where "mdtMethodSpec \<equiv> 0x2b000000"
abbreviation (input) mdtBaseType :: mdToken where "mdtBaseType \<equiv> 0x72000000"
abbreviation (input) mdTokenNil :: mdToken where "mdTokenNil \<equiv> 0"
abbreviation (input) mdTypeRefNil :: mdToken where "mdTypeRefNil \<equiv> mdtTypeRef"
abbreviation (input) mdMemberRefNil :: mdToken where "mdMemberRefNil \<equiv> mdtMemberRef"
abbreviation (input) mdAssemblyRefNil :: mdToken where "mdAssemblyRefNil \<equiv> mdtAssemblyRef"
abbreviation (input) mdMethodSpecNil :: mdToken where "mdMethodSpecNil \<equiv> mdtMethodSpec"

definition TokenFromRid :: "u32 \<Rightarrow> mdToken \<Rightarrow> mdToken" where
  "TokenFromRid rid tktype = rid OR tktype"

definition RidFromToken :: "mdToken \<Rightarrow> u32" where
  "RidFromToken tk = tk AND 0x00ffffff"

definition TypeFromToken :: "mdToken \<Rightarrow> mdToken" where
  "TypeFromToken tk = tk AND 0xff000000"

definition IsNilToken :: "mdToken \<Rightarrow> bool" where
  "IsNilToken tk \<longleftrightarrow> RidFromToken tk = 0"

definition g_tkCorEncodeToken :: "mdToken list" where
  "g_tkCorEncodeToken = [mdtTypeDef, mdtTypeRef, mdtTypeSpec, mdtBaseType]"

section \<open>Writing\<close>

text \<open>
  The writers return the number of bytes, \<open>(ULONG)-1\<close> for a value out of range, and
  the bytes stored from \<open>pDataOut\<close> on.
\<close>

definition CorSigCompressData :: "u32 \<Rightarrow> u32 \<times> byte list" where
  "CorSigCompressData iLen =
     (if iLen \<le> 0x7F then (1, [ucast iLen])
      else if iLen \<le> 0x3FFF then
        (2, [ucast (drop_bit 8 iLen OR 0x80), ucast (iLen AND 0xff)])
      else if iLen \<le> 0x1FFFFFFF then
        (4, [ucast (drop_bit 24 iLen OR 0xC0), ucast (drop_bit 16 iLen AND 0xff),
             ucast (drop_bit 8 iLen AND 0xff), ucast (iLen AND 0xff)])
      else (-1, []))"

definition CorSigCompressToken :: "mdToken \<Rightarrow> u32 \<times> byte list" where
  "CorSigCompressToken tk =
     (let rid = RidFromToken tk; ulTyp = TypeFromToken tk in
      if rid > 0x3FFFFFF then (-1, [])
      else
        (let rid = push_bit 2 rid;
             rid = (if ulTyp = g_tkCorEncodeToken ! 1 then rid OR 1
                    else if ulTyp = g_tkCorEncodeToken ! 2 then rid OR 2
                    else if ulTyp = g_tkCorEncodeToken ! 3 then rid OR 3
                    else rid)
         in CorSigCompressData rid))"

section \<open>Reading\<close>

text \<open>
  \<open>CorSigUncompressData(pData, len, pDataOut, pDataLen)\<close>: the HRESULT and the two
  values stored. The first byte is read before \<open>len\<close> is looked at.
\<close>

fun CorSigUncompressData_len :: "byte list \<Rightarrow> u32 \<Rightarrow> (hresult \<times> u32 \<times> u32) option" where
  "CorSigUncompressData_len [] len = None"
| "CorSigUncompressData_len (b0 # bs) len =
     (if b0 AND 0x80 = 0 then
        (if len < 1 then Some (META_E_BAD_SIGNATURE, 0, 0) else Some (S_OK, ucast b0, 1))
      else if b0 AND 0xC0 = 0x80 then
        (if len < 2 then Some (META_E_BAD_SIGNATURE, 0, 0)
         else (case bs of
                 b1 # _ \<Rightarrow> Some (S_OK, push_bit 8 (ucast (b0 AND 0x3f)) OR ucast b1, 2)
               | [] \<Rightarrow> None))
      else if b0 AND 0xE0 = 0xC0 then
        (if len < 4 then Some (META_E_BAD_SIGNATURE, 0, 0)
         else (case bs of
                 b1 # b2 # b3 # _ \<Rightarrow>
                   Some (S_OK, push_bit 24 (ucast (b0 AND 0x1f)) OR push_bit 16 (ucast b1) OR
                               push_bit 8 (ucast b2) OR ucast b3, 4)
               | _ \<Rightarrow> None))
      else Some (META_E_BAD_SIGNATURE, 0, 0))"

text \<open>\<open>CorSigUncompressData(pData, pDataOut)\<close>: the return value and \<open>*pDataOut\<close>.\<close>

definition CorSigUncompressData :: "byte list \<Rightarrow> (u32 \<times> u32) option" where
  "CorSigUncompressData p =
     (case CorSigUncompressData_len p 0xff of
        None \<Rightarrow> None
      | Some (hr, out, sz) \<Rightarrow> if FAILED hr then Some (-1, 0) else Some (sz, out))"

text \<open>\<open>CorSigUncompressToken(pData, pToken)\<close>: the return value and \<open>*pToken\<close>.\<close>

definition CorSigUncompressToken :: "byte list \<Rightarrow> (u32 \<times> mdToken) option" where
  "CorSigUncompressToken p =
     (case CorSigUncompressData p of
        None \<Rightarrow> None
      | Some (cb, tk) \<Rightarrow>
          (let tkType = g_tkCorEncodeToken ! unat (tk AND 0x3)
           in Some (cb, TokenFromRid (drop_bit 2 tk) tkType)))"

text \<open>
  The overloads that take the pointer by reference and advance it do not check the
  lead byte: whatever is not a one or two byte form is read as a four byte one.
\<close>

fun CorSigUncompressBigData :: "byte list \<Rightarrow> (u32 \<times> byte list) option" where
  "CorSigUncompressBigData [] = None"
| "CorSigUncompressBigData (b0 # bs) =
     (if b0 AND 0xC0 = 0x80 then
        (case bs of
           b1 # r \<Rightarrow> Some (push_bit 8 (ucast (b0 AND 0x3f)) OR ucast b1, r)
         | [] \<Rightarrow> None)
      else
        (case bs of
           b1 # b2 # b3 # r \<Rightarrow>
             Some (push_bit 24 (ucast (b0 AND 0x1f)) OR push_bit 16 (ucast b1) OR
                   push_bit 8 (ucast b2) OR ucast b3, r)
         | _ \<Rightarrow> None))"

fun CorSigUncompressData_ref :: "byte list \<Rightarrow> (u32 \<times> byte list) option" where
  "CorSigUncompressData_ref [] = None"
| "CorSigUncompressData_ref (b0 # bs) =
     (if b0 AND 0x80 = 0 then Some (ucast b0, bs)
      else CorSigUncompressBigData (b0 # bs))"

definition CorSigUncompressToken_ref :: "byte list \<Rightarrow> (mdToken \<times> byte list) option" where
  "CorSigUncompressToken_ref p =
     (case CorSigUncompressData_ref p of
        None \<Rightarrow> None
      | Some (tk, r) \<Rightarrow>
          (let tkType = g_tkCorEncodeToken ! unat (tk AND 0x3)
           in Some (TokenFromRid (drop_bit 2 tk) tkType, r)))"


section \<open>Reading back what was written\<close>

text \<open>
  The values \<open>CorSigCompressData\<close> can represent, and the shape of each of its three
  forms, as the reader's tests see it.
\<close>

definition compressible :: "u32 \<Rightarrow> bool" where
  "compressible x \<longleftrightarrow> x \<le> 0x1FFFFFFF"

lemma one_byte_form:
  fixes x :: u32
  assumes "x \<le> 0x7F"
  shows "(ucast x :: byte) AND 0x80 = 0" and "ucast (ucast x :: byte) = x"
proof -
  have h: "\<not> bit x n" if "7 \<le> n" for n
    using assms(1) that high_bit_clear [of x 7 n] by (simp add: word_le_nat_alt)
  show "(ucast x :: byte) AND 0x80 = 0" by (rule byte_eqI; simp add: bit_simps h)
  show "ucast (ucast x :: byte) = x" by (rule u32_eqI; simp add: bit_simps h)
qed

lemma two_byte_form:
  fixes x :: u32
  assumes "x \<le> 0x3FFF"
  defines "b \<equiv> (ucast (drop_bit 8 x OR 0x80) :: byte)"
  shows "b AND 0x80 = 0x80" and "b AND 0xC0 = 0x80"
    and "push_bit 8 (ucast (b AND 0x3f)) OR ucast (ucast (x AND 0xff) :: byte) = x"
proof -
  have h: "\<not> bit x n" if "14 \<le> n" for n
    using assms(1) that high_bit_clear [of x 14 n] by (simp add: word_le_nat_alt)
  show "b AND 0x80 = 0x80" unfolding b_def by (rule byte_eqI; simp add: bit_simps h)
  show "b AND 0xC0 = 0x80" unfolding b_def by (rule byte_eqI; simp add: bit_simps h)
  show "push_bit 8 (ucast (b AND 0x3f)) OR ucast (ucast (x AND 0xff) :: byte) = x"
    unfolding b_def by (rule u32_eqI; simp add: bit_simps h)
qed

lemma four_byte_form:
  fixes x :: u32
  assumes "x \<le> 0x1FFFFFFF"
  defines "b \<equiv> (ucast (drop_bit 24 x OR 0xC0) :: byte)"
  shows "b AND 0x80 = 0x80" and "b AND 0xC0 = 0xC0" and "b AND 0xE0 = 0xC0"
    and "push_bit 24 (ucast (b AND 0x1f)) OR
         push_bit 16 (ucast (ucast (drop_bit 16 x AND 0xff) :: byte)) OR
         push_bit 8 (ucast (ucast (drop_bit 8 x AND 0xff) :: byte)) OR
         ucast (ucast (x AND 0xff) :: byte) = x"
proof -
  have h: "\<not> bit x n" if "29 \<le> n" for n
    using assms(1) that high_bit_clear [of x 29 n] by (simp add: word_le_nat_alt)
  show "b AND 0x80 = 0x80" unfolding b_def by (rule byte_eqI; simp add: bit_simps h)
  show "b AND 0xC0 = 0xC0" unfolding b_def by (rule byte_eqI; simp add: bit_simps h)
  show "b AND 0xE0 = 0xC0" unfolding b_def by (rule byte_eqI; simp add: bit_simps h)
  show "push_bit 24 (ucast (b AND 0x1f)) OR
         push_bit 16 (ucast (ucast (drop_bit 16 x AND 0xff) :: byte)) OR
         push_bit 8 (ucast (ucast (drop_bit 8 x AND 0xff) :: byte)) OR
         ucast (ucast (x AND 0xff) :: byte) = x"
    unfolding b_def by (rule u32_eqI; simp add: bit_simps h)
qed

lemmas compressed_forms = one_byte_form two_byte_form four_byte_form

lemma CorSigUncompressData_Compress:
  "compressible x \<Longrightarrow>
   CorSigUncompressData (snd (CorSigCompressData x) @ rest) = Some (fst (CorSigCompressData x), x)"
  by (simp add: CorSigCompressData_def CorSigUncompressData_def compressible_def compressed_forms)

lemma CorSigUncompressData_ref_Compress:
  "compressible x \<Longrightarrow>
   CorSigUncompressData_ref (snd (CorSigCompressData x) @ rest) = Some (x, rest)"
  by (simp add: CorSigCompressData_def compressible_def compressed_forms)

lemma CorSigCompressData_length:
  "compressible x \<Longrightarrow> unat (fst (CorSigCompressData x)) = length (snd (CorSigCompressData x))"
  by (simp add: CorSigCompressData_def compressible_def)

lemma CorSigCompressData_size_cases:
  "fst (CorSigCompressData x) \<in> {1, 2, 4, -1}"
  by (simp add: CorSigCompressData_def)

interpretation sig_number: self_delimiting
  "\<lambda>x. snd (CorSigCompressData x)" CorSigUncompressData_ref compressible
  by unfold_locales (rule CorSigUncompressData_ref_Compress)

section \<open>What a read returns\<close>

lemma CorSigUncompressData_cases:
  assumes "CorSigUncompressData p = Some (cb, v)"
  shows "cb = -1 \<and> v = 0 \<or>
         cb \<in> {1, 2, 4} \<and> unat cb \<le> length p \<and> CorSigUncompressData_ref p = Some (v, drop (unat cb) p)"
  using assms
  by (cases p)
     (auto simp: CorSigUncompressData_def split: if_splits list.splits)

lemma CorSigUncompressData_progress:
  assumes "CorSigUncompressData p = Some (cb, v)" "cb \<noteq> -1"
  shows "0 < unat cb" "unat cb \<le> length p"
  using CorSigUncompressData_cases [OF assms(1)] assms(2) by auto


section \<open>Tokens\<close>

text \<open>
  Only TypeDef, TypeRef, TypeSpec and BaseType tokens have an encoding. The reader
  gives those back exactly; any other token is read back as a TypeDef with its row.
\<close>

definition sig_token :: "mdToken \<Rightarrow> bool" where
  "sig_token tk \<longleftrightarrow> TypeFromToken tk \<in> set g_tkCorEncodeToken"

definition token_tag :: "mdToken \<Rightarrow> u32" where
  "token_tag tk =
     (if TypeFromToken tk = mdtTypeRef then 1
      else if TypeFromToken tk = mdtTypeSpec then 2
      else if TypeFromToken tk = mdtBaseType then 3 else 0)"

definition coded_token :: "mdToken \<Rightarrow> u32" where
  "coded_token tk = push_bit 2 (RidFromToken tk) OR token_tag tk"

lemma token_tag_range: "token_tag tk \<in> {0, 1, 2, 3}"
  by (simp add: token_tag_def)

lemma RidFromToken_high_bits: "24 \<le> n \<Longrightarrow> \<not> bit (RidFromToken tk) n"
  using high_bit_clear [of "0x00ffffff :: u32" 24 n]
  by (simp add: RidFromToken_def bit_and_iff)

lemma coded_token_compressible: "compressible (coded_token tk)"
proof -
  have "\<not> bit (coded_token tk) n" if "26 \<le> n" for n
  proof -
    have "\<not> bit (token_tag tk) n"
      using that token_tag_range [of tk] by (intro high_bit_clear [of _ 2]) auto
    moreover have "\<not> bit (RidFromToken tk) (n - 2)"
      using that by (intro RidFromToken_high_bits) simp
    ultimately show ?thesis
      by (simp add: coded_token_def bit_or_iff bit_push_bit_iff)
  qed
  then have "unat (coded_token tk) < 2 ^ 26" by (rule low_bits_bound)
  then show ?thesis by (simp add: compressible_def word_le_nat_alt)
qed

lemma coded_token_tag: "coded_token tk AND 3 = token_tag tk"
  using token_tag_range [of tk] unfolding coded_token_def
  by (intro u32_eqI) (auto simp: bit_simps)

lemma coded_token_rid: "drop_bit 2 (coded_token tk) = RidFromToken tk"
  using token_tag_range [of tk] unfolding coded_token_def RidFromToken_def
  by (intro u32_eqI) (auto simp: bit_simps)

lemma token_split: "TokenFromRid (RidFromToken tk) (TypeFromToken tk) = tk"
  unfolding TokenFromRid_def RidFromToken_def TypeFromToken_def
  by (rule u32_eqI; simp add: bit_simps; blast)

lemma RidFromToken_bound: "\<not> RidFromToken tk > 0x3FFFFFF"
proof -
  have "unat (RidFromToken tk) < 2 ^ 24"
    by (rule low_bits_bound) (rule RidFromToken_high_bits)
  then show ?thesis by (simp add: word_less_nat_alt)
qed

lemma CorSigCompressToken_eq: "CorSigCompressToken tk = CorSigCompressData (coded_token tk)"
  using RidFromToken_bound [of tk]
  by (simp add: CorSigCompressToken_def coded_token_def token_tag_def g_tkCorEncodeToken_def Let_def)

lemma token_tag_type:
  "g_tkCorEncodeToken ! unat (token_tag tk) = (if sig_token tk then TypeFromToken tk else mdtTypeDef)"
  by (auto simp: token_tag_def sig_token_def g_tkCorEncodeToken_def)

lemma CorSigUncompressToken_Compress:
  "CorSigUncompressToken (snd (CorSigCompressToken tk) @ rest) =
     Some (fst (CorSigCompressToken tk),
           if sig_token tk then tk else TokenFromRid (RidFromToken tk) mdtTypeDef)"
  unfolding CorSigUncompressToken_def CorSigCompressToken_eq
  by (simp add: CorSigUncompressData_Compress coded_token_compressible coded_token_tag coded_token_rid token_tag_type token_split)

lemma CorSigUncompressToken_ref_Compress:
  "CorSigUncompressToken_ref (snd (CorSigCompressToken tk) @ rest) =
     Some (if sig_token tk then tk else TokenFromRid (RidFromToken tk) mdtTypeDef, rest)"
  unfolding CorSigUncompressToken_ref_def CorSigCompressToken_eq
  by (simp add: CorSigUncompressData_ref_Compress coded_token_compressible coded_token_tag coded_token_rid token_tag_type token_split)

lemma CorSigCompressToken_length:
  "unat (fst (CorSigCompressToken tk)) = length (snd (CorSigCompressToken tk))"
  unfolding CorSigCompressToken_eq
  by (rule CorSigCompressData_length) (rule coded_token_compressible)

lemma CorSigCompressToken_size: "length (snd (CorSigCompressToken tk)) \<in> {1, 2, 4}"
  using coded_token_compressible [of tk]
  unfolding CorSigCompressToken_eq by (auto simp: CorSigCompressData_def compressible_def)

interpretation sig_token_code: self_delimiting
  "\<lambda>tk. snd (CorSigCompressToken tk)" CorSigUncompressToken_ref sig_token
  by unfold_locales (simp add: CorSigUncompressToken_ref_Compress)

lemma CorSigUncompressToken_cases:
  assumes "CorSigUncompressToken p = Some (cb, tk)"
  shows "cb = -1 \<and> tk = mdtTypeDef \<or>
         cb \<in> {1, 2, 4} \<and> unat cb \<le> length p"
  using assms CorSigUncompressData_cases [of p]
  by (auto simp: CorSigUncompressToken_def Let_def g_tkCorEncodeToken_def TokenFromRid_def
        split: option.splits)

section \<open>Properties\<close>

text \<open>
  C31. A metadata token written by \<open>CorSigCompressToken\<close> and read by
  \<open>CorSigUncompressToken\<close>: the reader reports the number of bytes that were written,
  whatever follows them, and returns the token itself when its table is TypeDef, TypeRef,
  TypeSpec or BaseType; a token of any other table comes back as a TypeDef with its row.
\<close>

theorem CorSigToken_roundtrip:
  "CorSigUncompressToken (snd (CorSigCompressToken tk) @ rest) =
     Some (word_of_nat (length (snd (CorSigCompressToken tk))),
           if TypeFromToken tk \<in> {mdtTypeDef, mdtTypeRef, mdtTypeSpec, mdtBaseType} then tk
           else TokenFromRid (RidFromToken tk) mdtTypeDef)"
  by (simp add: CorSigUncompressToken_Compress sig_token_def g_tkCorEncodeToken_def
        CorSigCompressToken_length [symmetric])

text \<open>
  A number below 2^29 written by \<open>CorSigCompressData\<close> takes one, two or four bytes,
  the least its size allows; both readers give it back, and stop at its end; a greater
  number writes nothing and returns -1.
\<close>

theorem CorSigData_roundtrip:
  "(if x \<le> 0x1FFFFFFF then
      (let (cb, bs) = CorSigCompressData x
       in length bs = (if x \<le> 0x7F then 1 else if x \<le> 0x3FFF then 2 else 4) \<and>
          unat cb = length bs \<and>
          CorSigUncompressData (bs @ rest) = Some (cb, x) \<and>
          CorSigUncompressData_ref (bs @ rest) = Some (x, rest))
    else CorSigCompressData x = (-1, []))"
proof (cases "x \<le> 0x1FFFFFFF")
  case True
  then have "compressible x" by (simp add: compressible_def)
  from CorSigUncompressData_Compress [OF this] CorSigUncompressData_ref_Compress [OF this]
    CorSigCompressData_length [OF this] True
  show ?thesis by (auto simp: split_beta CorSigCompressData_def)
qed (auto simp: CorSigCompressData_def word_le_nat_alt)

end
