(* ===== verification/Sig_Parser.thy ===== *)
theory Sig_Parser
  imports Cor_Sig
begin

text \<open>
  The signature parser of sig_helpers.cpp. Each routine takes the address of a pointer,
  says whether it recognised what it was called for, and leaves the pointer after it.

  The result of a routine is \<open>Parsed x r\<close> (it returned true, stored \<open>x\<close>, and left the
  pointer at \<open>r\<close>), \<open>Rejected\<close> (it returned false; no caller uses the pointer then),
  \<open>Overrun\<close> (it read past the bytes the caller gave, which the code does not guard
  against) or \<open>Exhausted\<close> (the fuel of the recursion ran out, which the last section
  shows never happens to \<open>ParseType\<close>).
\<close>

section \<open>Element types\<close>

abbreviation (input) ELEMENT_TYPE_END :: byte where "ELEMENT_TYPE_END \<equiv> 0x00"
abbreviation (input) ELEMENT_TYPE_VOID :: byte where "ELEMENT_TYPE_VOID \<equiv> 0x01"
abbreviation (input) ELEMENT_TYPE_BOOLEAN :: byte where "ELEMENT_TYPE_BOOLEAN \<equiv> 0x02"
abbreviation (input) ELEMENT_TYPE_CHAR :: byte where "ELEMENT_TYPE_CHAR \<equiv> 0x03"
abbreviation (input) ELEMENT_TYPE_I1 :: byte where "ELEMENT_TYPE_I1 \<equiv> 0x04"
abbreviation (input) ELEMENT_TYPE_U1 :: byte where "ELEMENT_TYPE_U1 \<equiv> 0x05"
abbreviation (input) ELEMENT_TYPE_I2 :: byte where "ELEMENT_TYPE_I2 \<equiv> 0x06"
abbreviation (input) ELEMENT_TYPE_U2 :: byte where "ELEMENT_TYPE_U2 \<equiv> 0x07"
abbreviation (input) ELEMENT_TYPE_I4 :: byte where "ELEMENT_TYPE_I4 \<equiv> 0x08"
abbreviation (input) ELEMENT_TYPE_U4 :: byte where "ELEMENT_TYPE_U4 \<equiv> 0x09"
abbreviation (input) ELEMENT_TYPE_I8 :: byte where "ELEMENT_TYPE_I8 \<equiv> 0x0a"
abbreviation (input) ELEMENT_TYPE_U8 :: byte where "ELEMENT_TYPE_U8 \<equiv> 0x0b"
abbreviation (input) ELEMENT_TYPE_R4 :: byte where "ELEMENT_TYPE_R4 \<equiv> 0x0c"
abbreviation (input) ELEMENT_TYPE_R8 :: byte where "ELEMENT_TYPE_R8 \<equiv> 0x0d"
abbreviation (input) ELEMENT_TYPE_STRING :: byte where "ELEMENT_TYPE_STRING \<equiv> 0x0e"
abbreviation (input) ELEMENT_TYPE_PTR :: byte where "ELEMENT_TYPE_PTR \<equiv> 0x0f"
abbreviation (input) ELEMENT_TYPE_BYREF :: byte where "ELEMENT_TYPE_BYREF \<equiv> 0x10"
abbreviation (input) ELEMENT_TYPE_VALUETYPE :: byte where "ELEMENT_TYPE_VALUETYPE \<equiv> 0x11"
abbreviation (input) ELEMENT_TYPE_CLASS :: byte where "ELEMENT_TYPE_CLASS \<equiv> 0x12"
abbreviation (input) ELEMENT_TYPE_VAR :: byte where "ELEMENT_TYPE_VAR \<equiv> 0x13"
abbreviation (input) ELEMENT_TYPE_ARRAY :: byte where "ELEMENT_TYPE_ARRAY \<equiv> 0x14"
abbreviation (input) ELEMENT_TYPE_GENERICINST :: byte where "ELEMENT_TYPE_GENERICINST \<equiv> 0x15"
abbreviation (input) ELEMENT_TYPE_TYPEDBYREF :: byte where "ELEMENT_TYPE_TYPEDBYREF \<equiv> 0x16"
abbreviation (input) ELEMENT_TYPE_I :: byte where "ELEMENT_TYPE_I \<equiv> 0x18"
abbreviation (input) ELEMENT_TYPE_U :: byte where "ELEMENT_TYPE_U \<equiv> 0x19"
abbreviation (input) ELEMENT_TYPE_FNPTR :: byte where "ELEMENT_TYPE_FNPTR \<equiv> 0x1b"
abbreviation (input) ELEMENT_TYPE_OBJECT :: byte where "ELEMENT_TYPE_OBJECT \<equiv> 0x1c"
abbreviation (input) ELEMENT_TYPE_SZARRAY :: byte where "ELEMENT_TYPE_SZARRAY \<equiv> 0x1d"
abbreviation (input) ELEMENT_TYPE_MVAR :: byte where "ELEMENT_TYPE_MVAR \<equiv> 0x1e"
abbreviation (input) ELEMENT_TYPE_CMOD_REQD :: byte where "ELEMENT_TYPE_CMOD_REQD \<equiv> 0x1f"
abbreviation (input) ELEMENT_TYPE_CMOD_OPT :: byte where "ELEMENT_TYPE_CMOD_OPT \<equiv> 0x20"
abbreviation (input) ELEMENT_TYPE_SENTINEL :: byte where "ELEMENT_TYPE_SENTINEL \<equiv> 0x41"

abbreviation (input) CALLCONV_DEFAULT :: byte where "CALLCONV_DEFAULT \<equiv> 0x00"
abbreviation (input) CALLCONV_LOCAL_SIG :: byte where "CALLCONV_LOCAL_SIG \<equiv> 0x07"
abbreviation (input) CALLCONV_GENERIC :: byte where "CALLCONV_GENERIC \<equiv> 0x10"
abbreviation (input) CALLCONV_HASTHIS :: byte where "CALLCONV_HASTHIS \<equiv> 0x20"

section \<open>Results\<close>

datatype 'a parse = Parsed 'a "byte list" | Rejected | Overrun | Exhausted

fun and_then :: "'a parse \<Rightarrow> ('a \<Rightarrow> byte list \<Rightarrow> 'b parse) \<Rightarrow> 'b parse" where
  "and_then (Parsed x r) k = k x r"
| "and_then Rejected k = Rejected"
| "and_then Overrun k = Overrun"
| "and_then Exhausted k = Exhausted"

section \<open>Numbers, tokens and custom modifiers\<close>

definition ParseNumber :: "byte list \<Rightarrow> u32 parse" where
  "ParseNumber p =
     (case CorSigUncompressData p of
        None \<Rightarrow> Overrun
      | Some (result, number) \<Rightarrow>
          if result = -1 then Rejected else Parsed number (drop (unat result) p))"

definition ParseTypeDefOrRefEncoded :: "byte list \<Rightarrow> unit parse" where
  "ParseTypeDefOrRefEncoded p =
     (case CorSigUncompressToken p of
        None \<Rightarrow> Overrun
      | Some (result, type_token) \<Rightarrow>
          if result = -1 then Rejected else Parsed () (drop (unat result) p))"

fun ParseCustomMod :: "byte list \<Rightarrow> unit parse" where
  "ParseCustomMod [] = Overrun"
| "ParseCustomMod (b # p) =
     (if b = ELEMENT_TYPE_CMOD_OPT \<or> b = ELEMENT_TYPE_CMOD_REQD
      then ParseTypeDefOrRefEncoded p else Rejected)"

lemma ParseNumber_drop:
  "ParseNumber p = Parsed v r \<Longrightarrow> \<exists>k. r = drop k p \<and> 0 < k \<and> k \<le> length p"
  using CorSigUncompressData_progress [of p]
  by (fastforce simp: ParseNumber_def split: option.splits if_splits)

lemma ParseNumber_shorter: "ParseNumber p = Parsed v r \<Longrightarrow> length r < length p"
  by (drule ParseNumber_drop) auto

lemma CorSigUncompressToken_progress:
  assumes "CorSigUncompressToken p = Some (cb, tk)" "cb \<noteq> -1"
  shows "0 < unat cb" "unat cb \<le> length p"
  using CorSigUncompressToken_cases [OF assms(1)] assms(2) by auto

lemma ParseTypeDefOrRefEncoded_shorter:
  assumes "ParseTypeDefOrRefEncoded p = Parsed u r"
  shows "length r < length p"
proof -
  obtain cb tk where "CorSigUncompressToken p = Some (cb, tk)" "cb \<noteq> -1" "r = drop (unat cb) p"
    using assms by (auto simp: ParseTypeDefOrRefEncoded_def split: option.splits if_splits)
  with CorSigUncompressToken_progress [of p cb tk] show ?thesis by simp
qed

lemma ParseCustomMod_shorter: "ParseCustomMod p = Parsed u r \<Longrightarrow> length r < length p"
  by (cases p) (auto split: if_splits dest: ParseTypeDefOrRefEncoded_shorter less_SucI)

text \<open>
  The \<open>while (true)\<close> of \<open>ParseOptionalCustomMods\<close>: each turn that goes on has consumed
  a modifier, so the loop ends.
\<close>

function ParseOptionalCustomMods :: "byte list \<Rightarrow> unit parse" where
  "ParseOptionalCustomMods p =
     (case p of
        [] \<Rightarrow> Overrun
      | b # _ \<Rightarrow>
          if b = ELEMENT_TYPE_CMOD_OPT \<or> b = ELEMENT_TYPE_CMOD_REQD then
            (case ParseCustomMod p of
               Parsed u r \<Rightarrow> ParseOptionalCustomMods r
             | Rejected \<Rightarrow> Rejected
             | Overrun \<Rightarrow> Overrun
             | Exhausted \<Rightarrow> Exhausted)
          else Parsed () p)"
  by pat_completeness auto
termination
  by (relation "measure length") (auto split: if_splits dest: ParseTypeDefOrRefEncoded_shorter)

declare ParseOptionalCustomMods.simps [simp del]

text \<open>The two counted loops of \<open>ParseArrayShape\<close> over \<open>ParseNumber\<close>.\<close>

fun ParseNumbers :: "nat \<Rightarrow> byte list \<Rightarrow> unit parse" where
  "ParseNumbers 0 p = Parsed () p"
| "ParseNumbers (Suc n) p = and_then (ParseNumber p) (\<lambda>_. ParseNumbers n)"

definition ParseArrayShape :: "byte list \<Rightarrow> unit parse" where
  "ParseArrayShape p =
     and_then (ParseNumber p) (\<lambda>rank p.
     and_then (ParseNumber p) (\<lambda>numsizes p.
     and_then (ParseNumbers (unat numsizes) p) (\<lambda>_ p.
     and_then (ParseNumber p) (\<lambda>numsizes p.
     ParseNumbers (unat numsizes) p))))"

section \<open>Types\<close>

text \<open>
  \<open>ParseType\<close> calls itself directly and through \<open>ParseRetType\<close>, \<open>ParseParam\<close> and
  \<open>ParseMethod\<close>. Each routine is written with the \<open>ParseType\<close> it calls as an argument;
  the recursion is tied below. \<open>ParseParams\<close> and \<open>ParseTypes\<close> are the \<open>for\<close> loops of
  \<open>ParseMethod\<close> and of the GENERICINST case.
\<close>

definition simple_element_type :: "byte \<Rightarrow> bool" where
  "simple_element_type b \<longleftrightarrow>
     b \<in> {ELEMENT_TYPE_VOID, ELEMENT_TYPE_BOOLEAN, ELEMENT_TYPE_CHAR, ELEMENT_TYPE_I1,
          ELEMENT_TYPE_U1, ELEMENT_TYPE_I2, ELEMENT_TYPE_U2, ELEMENT_TYPE_I4, ELEMENT_TYPE_U4,
          ELEMENT_TYPE_I8, ELEMENT_TYPE_U8, ELEMENT_TYPE_R4, ELEMENT_TYPE_R8,
          ELEMENT_TYPE_STRING, ELEMENT_TYPE_OBJECT}"

type_synonym type_parser = "byte list \<Rightarrow> unit parse"

definition ParseRetType :: "type_parser \<Rightarrow> byte list \<Rightarrow> unit parse" where
  "ParseRetType ParseType p =
     and_then (ParseOptionalCustomMods p) (\<lambda>_ p.
       case p of
         [] \<Rightarrow> Overrun
       | b # p' \<Rightarrow>
           if b = ELEMENT_TYPE_TYPEDBYREF \<or> b = ELEMENT_TYPE_VOID then Parsed () p'
           else if b = ELEMENT_TYPE_BYREF then ParseType p'
           else ParseType p)"

definition ParseParam :: "type_parser \<Rightarrow> byte list \<Rightarrow> unit parse" where
  "ParseParam ParseType p =
     and_then (ParseOptionalCustomMods p) (\<lambda>_ p.
       case p of
         [] \<Rightarrow> Overrun
       | b # p' \<Rightarrow>
           if b = ELEMENT_TYPE_TYPEDBYREF then Parsed () p'
           else if b = ELEMENT_TYPE_BYREF then ParseType p'
           else ParseType p)"

fun ParseParams :: "type_parser \<Rightarrow> nat \<Rightarrow> bool \<Rightarrow> byte list \<Rightarrow> unit parse" where
  "ParseParams ParseType 0 sentinel_found p = Parsed () p"
| "ParseParams ParseType (Suc n) sentinel_found p =
     (case p of
        [] \<Rightarrow> Overrun
      | b # p' \<Rightarrow>
          if b = ELEMENT_TYPE_SENTINEL then
            (if sentinel_found then Rejected
             else and_then (ParseParam ParseType p') (\<lambda>_. ParseParams ParseType n True))
          else and_then (ParseParam ParseType p) (\<lambda>_. ParseParams ParseType n sentinel_found))"

definition ParseMethod :: "type_parser \<Rightarrow> byte list \<Rightarrow> unit parse" where
  "ParseMethod ParseType p =
     (case p of
        [] \<Rightarrow> Overrun
      | b # p' \<Rightarrow>
          and_then (if b = CALLCONV_GENERIC
                    then and_then (ParseNumber p') (\<lambda>generic_count p. Parsed () p)
                    else Parsed () p) (\<lambda>_ p.
          and_then (ParseNumber p) (\<lambda>param_count p.
          and_then (ParseRetType ParseType p) (\<lambda>_ p.
          ParseParams ParseType (unat param_count) False p))))"

fun ParseTypes :: "type_parser \<Rightarrow> nat \<Rightarrow> byte list \<Rightarrow> unit parse" where
  "ParseTypes ParseType 0 p = Parsed () p"
| "ParseTypes ParseType (Suc n) p = and_then (ParseType p) (\<lambda>_. ParseTypes ParseType n)"

definition ParseGenericInst :: "type_parser \<Rightarrow> byte list \<Rightarrow> unit parse" where
  "ParseGenericInst ParseType p =
     (case p of
        [] \<Rightarrow> Overrun
      | c # p' \<Rightarrow>
          if c \<noteq> ELEMENT_TYPE_VALUETYPE \<and> c \<noteq> ELEMENT_TYPE_CLASS then Rejected
          else and_then (ParseTypeDefOrRefEncoded p') (\<lambda>_ p.
               and_then (ParseNumber p) (\<lambda>number p.
               ParseTypes ParseType (unat number) p)))"

definition ParseType_body :: "type_parser \<Rightarrow> byte list \<Rightarrow> unit parse" where
  "ParseType_body ParseType q =
     (case q of
        [] \<Rightarrow> Overrun
      | b # p \<Rightarrow>
          if simple_element_type b then Parsed () p
          else if b = ELEMENT_TYPE_PTR then
            and_then (ParseOptionalCustomMods p) (\<lambda>_ p.
              case p of
                [] \<Rightarrow> Overrun
              | c # p' \<Rightarrow> if c = ELEMENT_TYPE_VOID then Parsed () p' else ParseType p)
          else if b = ELEMENT_TYPE_VALUETYPE \<or> b = ELEMENT_TYPE_CLASS then
            ParseTypeDefOrRefEncoded p
          else if b = ELEMENT_TYPE_FNPTR then ParseMethod ParseType p
          else if b = ELEMENT_TYPE_ARRAY then
            and_then (ParseType p) (\<lambda>_. ParseArrayShape)
          else if b = ELEMENT_TYPE_SZARRAY then
            and_then (ParseOptionalCustomMods p) (\<lambda>_. ParseType)
          else if b = ELEMENT_TYPE_GENERICINST then ParseGenericInst ParseType p
          else if b = ELEMENT_TYPE_VAR \<or> b = ELEMENT_TYPE_MVAR then
            and_then (ParseNumber p) (\<lambda>number p. Parsed () p)
          else Rejected)"

text \<open>
  The recursion with a bound on its depth. A nested call starts at least one byte
  further, so the length of the input bounds the depth.
\<close>

fun ParseType_f :: "nat \<Rightarrow> byte list \<Rightarrow> unit parse" where
  "ParseType_f 0 = (\<lambda>p. Exhausted)"
| "ParseType_f (Suc f) = ParseType_body (ParseType_f f)"

definition ParseType :: "byte list \<Rightarrow> unit parse" where
  "ParseType p = ParseType_f (Suc (length p)) p"

section \<open>The recursion as the code has it\<close>

text \<open>
  A parser that never grows its input, and two parsers that agree on short inputs.
\<close>

definition nongrowing :: "(byte list \<Rightarrow> 'a parse) \<Rightarrow> bool" where
  "nongrowing P \<longleftrightarrow> (\<forall>p v r. P p = Parsed v r \<longrightarrow> length r \<le> length p)"

definition agree :: "nat \<Rightarrow> type_parser \<Rightarrow> type_parser \<Rightarrow> bool" where
  "agree n F G \<longleftrightarrow> (\<forall>q. length q \<le> n \<longrightarrow> F q = G q)"

lemma agreeD: "agree n F G \<Longrightarrow> length q \<le> n \<Longrightarrow> F q = G q"
  by (simp add: agree_def)

lemma nongrowingI: "(\<And>p v r. P p = Parsed v r \<Longrightarrow> length r \<le> length p) \<Longrightarrow> nongrowing P"
  by (auto simp: nongrowing_def)

lemma nongrowingD: "nongrowing P \<Longrightarrow> P p = Parsed v r \<Longrightarrow> length r \<le> length p"
  by (simp add: nongrowing_def)

lemma and_then_Parsed:
  "and_then m k = Parsed v r \<longleftrightarrow> (\<exists>x s. m = Parsed x s \<and> k x s = Parsed v r)"
  by (cases m) auto

lemma and_thenE [elim!]:
  assumes "and_then m k = Parsed v r"
  obtains x s where "m = Parsed x s" "k x s = Parsed v r"
  using assms by (auto simp: and_then_Parsed)

lemma and_then_return: "and_then m Parsed = m"
  by (cases m) auto

lemma and_then_Exhausted:
  "and_then m k = Exhausted \<longleftrightarrow> m = Exhausted \<or> (\<exists>x s. m = Parsed x s \<and> k x s = Exhausted)"
  by (cases m) auto

lemma and_then_cong:
  "m = m' \<Longrightarrow> (\<And>x r. m' = Parsed x r \<Longrightarrow> k x r = k' x r) \<Longrightarrow> and_then m k = and_then m' k'"
  by (cases m') auto

lemma ParseOptionalCustomMods_step:
  assumes "ParseOptionalCustomMods p = Parsed u r"
  obtains (stop) b p' where "p = b # p'" "r = p" "b \<noteq> ELEMENT_TYPE_CMOD_OPT" "b \<noteq> ELEMENT_TYPE_CMOD_REQD"
  | (skip) b p' q where "p = b # p'" "b \<in> {ELEMENT_TYPE_CMOD_OPT, ELEMENT_TYPE_CMOD_REQD}"
      "ParseTypeDefOrRefEncoded p' = Parsed () q" "ParseOptionalCustomMods q = Parsed () r"
proof (cases p)
  case Nil
  with assms show ?thesis by (simp add: ParseOptionalCustomMods.simps)
next
  case (Cons b p')
  with assms that show ?thesis
    unfolding ParseOptionalCustomMods.simps [of p]
    by (auto split: if_split_asm parse.split_asm)
qed

lemma ParseOptionalCustomMods_shorter:
  "ParseOptionalCustomMods p = Parsed u r \<Longrightarrow> length r \<le> length p"
proof (induction "length p" arbitrary: p rule: less_induct)
  case less
  from less.prems show ?case
  proof (cases rule: ParseOptionalCustomMods_step)
    case stop
    then show ?thesis by simp
  next
    case (skip b p' q)
    with ParseTypeDefOrRefEncoded_shorter [of p' "()" q] less.hyps [of q] show ?thesis by simp
  qed
qed

lemmas parse_shorter =
  ParseNumber_shorter [THEN less_imp_le] ParseTypeDefOrRefEncoded_shorter [THEN less_imp_le]
  ParseOptionalCustomMods_shorter

lemma ParseNumbers_shorter: "ParseNumbers n p = Parsed u r \<Longrightarrow> length r \<le> length p"
  by (induction n arbitrary: p) (fastforce dest: parse_shorter)+

lemma ParseArrayShape_shorter: "ParseArrayShape p = Parsed u r \<Longrightarrow> length r \<le> length p"
  by (fastforce simp: ParseArrayShape_def
        dest: ParseNumbers_shorter parse_shorter)

lemma ParseRetType_shorter:
  "nongrowing F \<Longrightarrow> ParseRetType F p = Parsed u r \<Longrightarrow> length r \<le> length p"
  by (auto simp: ParseRetType_def split: list.split_asm if_split_asm
        dest!: nongrowingD [of F, rotated] parse_shorter)

lemma ParseParam_shorter:
  "nongrowing F \<Longrightarrow> ParseParam F p = Parsed u r \<Longrightarrow> length r \<le> length p"
  by (auto simp: ParseParam_def split: list.split_asm if_split_asm
        dest!: nongrowingD [of F, rotated] parse_shorter)

lemma ParseParams_shorter:
  "nongrowing F \<Longrightarrow> ParseParams F n s p = Parsed u r \<Longrightarrow> length r \<le> length p"
  by (induction n arbitrary: s p)
     (fastforce split: list.split_asm if_split_asm dest: ParseParam_shorter)+

lemma ParseMethod_shorter:
  "nongrowing F \<Longrightarrow> ParseMethod F p = Parsed u r \<Longrightarrow> length r \<le> length p"
  by (auto simp: ParseMethod_def split: list.split_asm if_split_asm
        dest!: ParseRetType_shorter [rotated] ParseParams_shorter [rotated] parse_shorter)

lemma ParseTypes_shorter:
  "nongrowing F \<Longrightarrow> ParseTypes F n p = Parsed u r \<Longrightarrow> length r \<le> length p"
  by (induction n arbitrary: p) (fastforce dest: nongrowingD)+

lemma ParseGenericInst_shorter:
  "nongrowing F \<Longrightarrow> ParseGenericInst F p = Parsed u r \<Longrightarrow> length r \<le> length p"
  by (fastforce simp: ParseGenericInst_def split: list.split_asm if_split_asm
        dest: ParseTypes_shorter parse_shorter)

lemma ParseType_body_shorter:
  "nongrowing F \<Longrightarrow> ParseType_body F p = Parsed u r \<Longrightarrow> length r \<le> length p"
  by (auto simp: ParseType_body_def split: list.split_asm if_split_asm
        dest!: nongrowingD [of F, rotated] ParseMethod_shorter [rotated]
          ParseGenericInst_shorter [rotated] ParseArrayShape_shorter parse_shorter)

lemma nongrowing_ParseType_f: "nongrowing (ParseType_f f)"
proof (induction f)
  case 0
  then show ?case by (simp add: nongrowing_def)
next
  case (Suc f)
  then show ?case by (auto intro: nongrowingI ParseType_body_shorter)
qed

text \<open>
  Each routine, on an input of length \<open>n\<close>, depends on its \<open>ParseType\<close> on inputs of at
  most that length only, and \<open>ParseType_body\<close> on strictly shorter ones.
\<close>

lemma agree_mono: "agree n F G \<Longrightarrow> m \<le> n \<Longrightarrow> agree m F G"
  by (auto simp: agree_def)

lemma ParseRetType_agree:
  assumes "agree n F G" "length p \<le> n"
  shows "ParseRetType F p = ParseRetType G p"
  unfolding ParseRetType_def using assms
  by (auto intro!: and_then_cong split: list.split
        dest!: ParseOptionalCustomMods_shorter simp: agreeD)

lemma ParseParam_agree:
  assumes "agree n F G" "length p \<le> n"
  shows "ParseParam F p = ParseParam G p"
  unfolding ParseParam_def using assms
  by (auto intro!: and_then_cong split: list.split
        dest!: ParseOptionalCustomMods_shorter simp: agreeD)

lemma ParseTypes_agree:
  assumes "agree n F G" "nongrowing G"
  shows "length p \<le> n \<Longrightarrow> ParseTypes F k p = ParseTypes G k p"
proof (induction k arbitrary: p)
  case (Suc k)
  have "F p = G p" using assms(1) Suc.prems by (rule agreeD)
  with Suc assms(2) show ?case
    by (auto intro!: and_then_cong dest!: nongrowingD [of G, rotated])
qed simp

lemma ParseParams_agree:
  assumes "agree n F G" "nongrowing G"
  shows "length p \<le> n \<Longrightarrow> ParseParams F k s p = ParseParams G k s p"
proof (induction k arbitrary: p s)
  case (Suc k)
  have "ParseParam F q = ParseParam G q" if "length q \<le> n" for q
    using assms(1) that by (rule ParseParam_agree)
  with Suc assms(2) show ?case
    by (auto intro!: and_then_cong split: list.split dest!: ParseParam_shorter [of G, rotated])
qed simp

lemma ParseMethod_agree:
  assumes "agree n F G" "nongrowing G" "length p \<le> n"
  shows "ParseMethod F p = ParseMethod G p"
proof -
  have tail: "and_then (ParseRetType F q) (\<lambda>_. ParseParams F k False) =
        and_then (ParseRetType G q) (\<lambda>_. ParseParams G k False)" if "length q \<le> n" for q k
    using that ParseRetType_agree [OF assms(1) that] ParseParams_agree [OF assms(1,2)]
    by (auto intro!: and_then_cong dest!: ParseRetType_shorter [OF assms(2)])
  show ?thesis
    unfolding ParseMethod_def using assms(3)
    by (auto intro!: and_then_cong tail split: list.split dest!: parse_shorter)
qed

lemma ParseGenericInst_agree:
  assumes "agree n F G" "nongrowing G" "length p \<le> n"
  shows "ParseGenericInst F p = ParseGenericInst G p"
  unfolding ParseGenericInst_def using assms(3)
  by (auto intro!: and_then_cong ParseTypes_agree [OF assms(1,2)] split: list.split
        dest!: parse_shorter)

lemma ParseType_body_agree:
  assumes "agree n F G" "nongrowing G" "length p \<le> Suc n"
  shows "ParseType_body F p = ParseType_body G p"
  unfolding ParseType_body_def using assms(3) agreeD [OF assms(1)]
  by (auto intro!: and_then_cong ParseMethod_agree [OF assms(1,2)]
        ParseGenericInst_agree [OF assms(1,2)] split: list.split dest!: parse_shorter)

lemma ParseType_f_agree: "length p < f \<Longrightarrow> length p < g \<Longrightarrow> ParseType_f f p = ParseType_f g p"
proof (induction f arbitrary: g p)
  case (Suc f)
  then obtain g' where g: "g = Suc g'" by (cases g) auto
  show ?case
  proof (cases p)
    case Nil
    then show ?thesis by (simp add: g ParseType_body_def)
  next
    case (Cons b q)
    have "agree (length q) (ParseType_f f) (ParseType_f g')"
      unfolding agree_def using Suc.prems by (auto simp: g Cons intro!: Suc.IH)
    then show ?thesis
      using nongrowing_ParseType_f [of g'] by (auto simp: g Cons intro: ParseType_body_agree)
  qed
qed simp

lemma nongrowing_ParseType: "nongrowing ParseType"
  by (rule nongrowingI) (auto simp: ParseType_def dest!: nongrowingD [OF nongrowing_ParseType_f] simp del: ParseType_f.simps)

text \<open>\<open>ParseType\<close> satisfies the equation the source defines it by.\<close>

lemma ParseType_rec: "ParseType p = ParseType_body ParseType p"
proof (cases p)
  case Nil
  then show ?thesis by (simp add: ParseType_def ParseType_body_def)
next
  case (Cons b q)
  have "agree (length q) (ParseType_f (length p)) ParseType"
    unfolding agree_def
    by (auto simp: ParseType_def Cons simp del: ParseType_f.simps intro!: ParseType_f_agree)
  then have "ParseType_body (ParseType_f (length p)) p = ParseType_body ParseType p"
    by (rule ParseType_body_agree [OF _ nongrowing_ParseType]) (simp add: Cons)
  then show ?thesis by (simp add: ParseType_def)
qed

section \<open>Never out of fuel\<close>

lemma ParseNumber_total: "ParseNumber p \<noteq> Exhausted"
  by (auto simp: ParseNumber_def split: option.split)

lemma ParseTypeDefOrRefEncoded_total: "ParseTypeDefOrRefEncoded p \<noteq> Exhausted"
  by (auto simp: ParseTypeDefOrRefEncoded_def split: option.split)

lemma ParseOptionalCustomMods_total: "ParseOptionalCustomMods p \<noteq> Exhausted"
proof (induction "length p" arbitrary: p rule: less_induct)
  case less
  have "ParseOptionalCustomMods r \<noteq> Exhausted" if "ParseCustomMod p = Parsed u r" for u r
    using less [of r] ParseCustomMod_shorter [OF that] by simp
  moreover have "ParseCustomMod p \<noteq> Exhausted"
    by (cases p) (auto simp: ParseTypeDefOrRefEncoded_total)
  ultimately show ?case
    unfolding ParseOptionalCustomMods.simps [of p] by (auto split: list.split parse.split)
qed

lemmas parse_total = ParseNumber_total ParseTypeDefOrRefEncoded_total ParseOptionalCustomMods_total

lemma ParseNumbers_total: "ParseNumbers n p \<noteq> Exhausted"
  by (induction n arbitrary: p) (auto simp: and_then_Exhausted parse_total)

lemma ParseArrayShape_total: "ParseArrayShape p \<noteq> Exhausted"
  by (auto simp: ParseArrayShape_def and_then_Exhausted ParseNumbers_total parse_total)

text \<open>A routine is exhausted only where the \<open>ParseType\<close> it calls is.\<close>

definition never_exhausted :: "nat \<Rightarrow> type_parser \<Rightarrow> bool" where
  "never_exhausted n F \<longleftrightarrow> (\<forall>q. length q \<le> n \<longrightarrow> F q \<noteq> Exhausted)"

lemma ParseRetType_total:
  "never_exhausted n F \<Longrightarrow> length p \<le> n \<Longrightarrow> ParseRetType F p \<noteq> Exhausted"
  by (auto simp: ParseRetType_def and_then_Exhausted parse_total never_exhausted_def
        split: list.split_asm if_split_asm dest!: parse_shorter)

lemma ParseParam_total:
  "never_exhausted n F \<Longrightarrow> length p \<le> n \<Longrightarrow> ParseParam F p \<noteq> Exhausted"
  by (auto simp: ParseParam_def and_then_Exhausted parse_total never_exhausted_def
        split: list.split_asm if_split_asm dest!: parse_shorter)

lemma ParseTypes_total:
  "never_exhausted n F \<Longrightarrow> nongrowing F \<Longrightarrow> length p \<le> n \<Longrightarrow> ParseTypes F k p \<noteq> Exhausted"
  by (induction k arbitrary: p)
     (fastforce simp: and_then_Exhausted never_exhausted_def dest: nongrowingD)+

lemma ParseParams_total:
  "never_exhausted n F \<Longrightarrow> nongrowing F \<Longrightarrow> length p \<le> n \<Longrightarrow> ParseParams F k s p \<noteq> Exhausted"
proof (induction k arbitrary: p s)
  case (Suc k)
  from Suc.prems ParseParam_total [OF Suc.prems(1)] show ?case
    by (auto simp: and_then_Exhausted Suc.IH split: list.split
          dest!: ParseParam_shorter [rotated])
qed simp

lemma ParseMethod_total:
  assumes "never_exhausted n F" "nongrowing F" "length p \<le> n"
  shows "ParseMethod F p \<noteq> Exhausted"
proof -
  have "and_then (ParseNumber q) (\<lambda>k p. and_then (ParseRetType F p) (\<lambda>_. ParseParams F (unat k) False))
        \<noteq> Exhausted" if "length q \<le> n" for q
    using that ParseRetType_total [OF assms(1)] ParseParams_total [OF assms(1,2)]
    by (fastforce simp: and_then_Exhausted ParseNumber_total
          dest: ParseRetType_shorter [OF assms(2)] parse_shorter)
  with assms(3) show ?thesis
    by (auto simp: ParseMethod_def and_then_Exhausted [where k = "\<lambda>_. _"] ParseNumber_total
          split: list.split dest!: parse_shorter)
qed

lemma ParseGenericInst_total:
  assumes "never_exhausted n F" "nongrowing F" "length p \<le> n"
  shows "ParseGenericInst F p \<noteq> Exhausted"
  using assms(3) ParseTypes_total [OF assms(1,2)]
  by (auto simp: ParseGenericInst_def and_then_Exhausted parse_total
        split: list.split dest!: parse_shorter)

lemma ParseType_body_total:
  assumes "never_exhausted n F" "nongrowing F" "length p \<le> Suc n"
  shows "ParseType_body F p \<noteq> Exhausted"
proof (cases p)
  case (Cons b q)
  with assms(3) have "length q \<le> n" by simp
  with Cons assms ParseMethod_total [OF assms(1,2)] ParseGenericInst_total [OF assms(1,2)]
  show ?thesis
    by (auto simp: ParseType_body_def and_then_Exhausted parse_total ParseArrayShape_total
          never_exhausted_def split: list.split_asm if_split_asm dest!: parse_shorter)
qed (simp add: ParseType_body_def)

lemma ParseType_never_exhausted: "never_exhausted n ParseType"
proof (induction n)
  case 0
  then show ?case by (simp add: never_exhausted_def ParseType_rec [of "[]"] ParseType_body_def)
next
  case (Suc n)
  then show ?case
    using ParseType_body_total [OF Suc nongrowing_ParseType]
    by (simp add: never_exhausted_def ParseType_rec [symmetric])
qed

section \<open>The grammar the parser accepts\<close>

text \<open>
  A compressed number in any of its three forms (the code takes longer forms than needed).
\<close>

inductive number_code :: "u32 \<Rightarrow> byte list \<Rightarrow> bool" where
  one: "b AND 0x80 = 0 \<Longrightarrow> number_code (ucast b) [b]"
| two: "b AND 0xC0 = 0x80 \<Longrightarrow> number_code (push_bit 8 (ucast (b AND 0x3f)) OR ucast c) [b, c]"
| four: "b AND 0xE0 = 0xC0 \<Longrightarrow>
     number_code (push_bit 24 (ucast (b AND 0x1f)) OR push_bit 16 (ucast c) OR
                  push_bit 8 (ucast d) OR ucast e) [b, c, d, e]"

inductive numbers_code :: "nat \<Rightarrow> byte list \<Rightarrow> bool" where
  none: "numbers_code 0 []"
| more: "number_code n ns \<Longrightarrow> numbers_code k ks \<Longrightarrow> numbers_code (Suc k) (ns @ ks)"

inductive mods_code :: "byte list \<Rightarrow> bool" where
  none: "mods_code []"
| more: "b \<in> {ELEMENT_TYPE_CMOD_OPT, ELEMENT_TYPE_CMOD_REQD} \<Longrightarrow> number_code n ns \<Longrightarrow>
     mods_code ms \<Longrightarrow> mods_code (b # ns @ ms)"

inductive shape_code :: "byte list \<Rightarrow> bool" where
  "number_code rank rs \<Longrightarrow> number_code sizes ss \<Longrightarrow> numbers_code (unat sizes) xs \<Longrightarrow>
   number_code lows ls \<Longrightarrow> numbers_code (unat lows) ys \<Longrightarrow> shape_code (rs @ ss @ xs @ ls @ ys)"

text \<open>
  The sequences of bytes of a type, of \<open>k\<close> types, of a return type, a parameter, \<open>k\<close>
  parameters (the flag: a sentinel has been seen) and a method signature.
\<close>

inductive type_code :: "byte list \<Rightarrow> bool"
  and types_code :: "nat \<Rightarrow> byte list \<Rightarrow> bool"
  and ret_code :: "byte list \<Rightarrow> bool"
  and param_code :: "byte list \<Rightarrow> bool"
  and params_code :: "nat \<Rightarrow> bool \<Rightarrow> byte list \<Rightarrow> bool"
  and method_code :: "byte list \<Rightarrow> bool"
where
  simple: "simple_element_type b \<Longrightarrow> type_code [b]"
| pointer: "mods_code ms \<Longrightarrow> type_code t \<Longrightarrow> type_code (ELEMENT_TYPE_PTR # ms @ t)"
| class_type: "b \<in> {ELEMENT_TYPE_VALUETYPE, ELEMENT_TYPE_CLASS} \<Longrightarrow> number_code n ns \<Longrightarrow>
     type_code (b # ns)"
| fnptr: "method_code m \<Longrightarrow> type_code (ELEMENT_TYPE_FNPTR # m)"
| array: "type_code t \<Longrightarrow> shape_code s \<Longrightarrow> type_code (ELEMENT_TYPE_ARRAY # t @ s)"
| szarray: "mods_code ms \<Longrightarrow> type_code t \<Longrightarrow> type_code (ELEMENT_TYPE_SZARRAY # ms @ t)"
| generic: "b \<in> {ELEMENT_TYPE_VALUETYPE, ELEMENT_TYPE_CLASS} \<Longrightarrow> number_code n ns \<Longrightarrow>
     number_code k ks \<Longrightarrow> types_code (unat k) ts \<Longrightarrow>
     type_code (ELEMENT_TYPE_GENERICINST # b # ns @ ks @ ts)"
| var: "b \<in> {ELEMENT_TYPE_VAR, ELEMENT_TYPE_MVAR} \<Longrightarrow> number_code n ns \<Longrightarrow> type_code (b # ns)"
| no_types: "types_code 0 []"
| more_types: "type_code t \<Longrightarrow> types_code k ts \<Longrightarrow> types_code (Suc k) (t @ ts)"
| ret_typedref: "mods_code ms \<Longrightarrow> ret_code (ms @ [ELEMENT_TYPE_TYPEDBYREF])"
| ret_byref: "mods_code ms \<Longrightarrow> type_code t \<Longrightarrow> ret_code (ms @ ELEMENT_TYPE_BYREF # t)"
| ret_type: "mods_code ms \<Longrightarrow> type_code t \<Longrightarrow> ret_code (ms @ t)"
| par_typedref: "mods_code ms \<Longrightarrow> param_code (ms @ [ELEMENT_TYPE_TYPEDBYREF])"
| par_byref: "mods_code ms \<Longrightarrow> type_code t \<Longrightarrow> param_code (ms @ ELEMENT_TYPE_BYREF # t)"
| par_type: "mods_code ms \<Longrightarrow> type_code t \<Longrightarrow> param_code (ms @ t)"
| no_params: "params_code 0 s []"
| more_params: "param_code x \<Longrightarrow> params_code k s xs \<Longrightarrow> params_code (Suc k) s (x @ xs)"
| sentinel: "param_code x \<Longrightarrow> params_code k True xs \<Longrightarrow>
     params_code (Suc k) False (ELEMENT_TYPE_SENTINEL # x @ xs)"
| plain_method: "number_code k ks \<Longrightarrow> hd ks \<noteq> CALLCONV_GENERIC \<Longrightarrow> ret_code r \<Longrightarrow>
     params_code (unat k) False ps \<Longrightarrow> method_code (ks @ r @ ps)"
| generic_method: "number_code g gs \<Longrightarrow> number_code k ks \<Longrightarrow> ret_code r \<Longrightarrow>
     params_code (unat k) False ps \<Longrightarrow> method_code (CALLCONV_GENERIC # gs @ ks @ r @ ps)"

section \<open>The parser accepts exactly the grammar\<close>

lemma number_code_nonempty: "number_code n bs \<Longrightarrow> bs \<noteq> []"
  by (auto elim: number_code.cases)

lemma lead_byte_two:
  fixes b :: byte
  assumes "b AND 0xC0 = 0x80"
  shows "b AND 0x80 \<noteq> 0"
proof -
  have "b AND 0x80 = (b AND 0xC0) AND 0x80" by (rule byte_eqI; simp add: bit_simps)
  with assms show ?thesis by simp
qed

lemma lead_byte_four:
  fixes b :: byte
  assumes "b AND 0xE0 = 0xC0"
  shows "b AND 0x80 \<noteq> 0" "b AND 0xC0 \<noteq> 0x80"
proof -
  have "b AND 0xC0 = (b AND 0xE0) AND 0xC0" "b AND 0x80 = (b AND 0xE0) AND 0x80"
    by (rule byte_eqI; simp add: bit_simps)+
  with assms show "b AND 0x80 \<noteq> 0" "b AND 0xC0 \<noteq> 0x80" by simp_all
qed

lemma ParseNumber_number_code: "number_code n bs \<Longrightarrow> ParseNumber (bs @ r) = Parsed n r"
  by (induction rule: number_code.induct)
     (auto simp: ParseNumber_def CorSigUncompressData_def simp: lead_byte_two lead_byte_four)

lemma ParseNumber_sound:
  assumes "ParseNumber p = Parsed n r"
  obtains bs where "p = bs @ r" "number_code n bs"
  using assms
  by (cases p)
     (fastforce simp: ParseNumber_def CorSigUncompressData_def
        split: if_split_asm list.split_asm intro: number_code.intros)+

lemma ParseTypeDefOrRefEncoded_number:
  "ParseTypeDefOrRefEncoded p = Parsed u r \<longleftrightarrow> (\<exists>n. ParseNumber p = Parsed n r)"
  by (auto simp: ParseTypeDefOrRefEncoded_def ParseNumber_def CorSigUncompressToken_def Let_def
        split: option.split if_split_asm)

lemma mods_code_parse:
  "mods_code ms \<Longrightarrow> b \<notin> {ELEMENT_TYPE_CMOD_OPT, ELEMENT_TYPE_CMOD_REQD} \<Longrightarrow>
   ParseOptionalCustomMods (ms @ b # r) = Parsed () (b # r)"
proof (induction rule: mods_code.induct)
  case none
  then show ?case by (simp add: ParseOptionalCustomMods.simps)
next
  case (more c n ns ms)
  have "ParseTypeDefOrRefEncoded (ns @ ms @ b # r) = Parsed () (ms @ b # r)"
    using more.hyps(2) by (auto simp: ParseTypeDefOrRefEncoded_number ParseNumber_number_code)
  with more show ?case by (auto simp: ParseOptionalCustomMods.simps [of "c # _"])
qed

lemma mods_code_sound:
  "ParseOptionalCustomMods p = Parsed u r \<Longrightarrow> \<exists>ms. p = ms @ r \<and> mods_code ms"
proof (induction "length p" arbitrary: p rule: less_induct)
  case less
  from less.prems show ?case
  proof (cases rule: ParseOptionalCustomMods_step)
    case stop
    then show ?thesis using mods_code.none by force
  next
    case (skip b p' q)
    obtain n ns where ns: "p' = ns @ q" "number_code n ns"
      using skip(3) by (auto simp: ParseTypeDefOrRefEncoded_number elim: ParseNumber_sound)
    obtain ms where "q = ms @ r" "mods_code ms"
      using less.hyps [of q] skip(1,4) ParseTypeDefOrRefEncoded_shorter [OF skip(3)] by auto
    with ns skip(1,2) show ?thesis
      by (intro exI [of _ "b # ns @ ms"]) (auto intro: mods_code.more)
  qed
qed

lemma numbers_code_iff:
  "ParseNumbers k p = Parsed u r \<longleftrightarrow> (\<exists>ns. p = ns @ r \<and> numbers_code k ns)"
proof
  show "ParseNumbers k p = Parsed u r \<Longrightarrow> \<exists>ns. p = ns @ r \<and> numbers_code k ns"
  proof (induction k arbitrary: p)
    case 0
    then show ?case by (auto intro: numbers_code.none)
  next
    case (Suc k)
    then obtain x q where q: "ParseNumber p = Parsed x q" "ParseNumbers k q = Parsed u r" by auto
    obtain bs where bs: "p = bs @ q" "number_code x bs" using q(1) by (rule ParseNumber_sound)
    obtain ns where ns: "q = ns @ r" "numbers_code k ns" using Suc.IH [OF q(2)] by auto
    from numbers_code.more [OF bs(2) ns(2)] bs(1) ns(1) show ?case by force
  qed
  have "ParseNumbers k (ns @ r) = Parsed () r" if "numbers_code k ns" for ns
    using that by (induction rule: numbers_code.induct) (auto simp: ParseNumber_number_code)
  then show "\<exists>ns. p = ns @ r \<and> numbers_code k ns \<Longrightarrow> ParseNumbers k p = Parsed u r" by auto
qed

lemma shape_code_iff:
  "ParseArrayShape p = Parsed u r \<longleftrightarrow> (\<exists>ss. p = ss @ r \<and> shape_code ss)"
proof
  assume "ParseArrayShape p = Parsed u r"
  then obtain k1 p1 k2 p2 p3 k3 p4 where
    n: "ParseNumber p = Parsed k1 p1" "ParseNumber p1 = Parsed k2 p2"
       "ParseNumber p3 = Parsed k3 p4"
    and ns: "ParseNumbers (unat k2) p2 = Parsed () p3" "ParseNumbers (unat k3) p4 = Parsed u r"
    by (auto simp: ParseArrayShape_def)
  obtain b1 where b1: "p = b1 @ p1" "number_code k1 b1" using n(1) by (rule ParseNumber_sound)
  obtain b2 where b2: "p1 = b2 @ p2" "number_code k2 b2" using n(2) by (rule ParseNumber_sound)
  obtain b4 where b4: "p3 = b4 @ p4" "number_code k3 b4" using n(3) by (rule ParseNumber_sound)
  obtain b3 b5 where "p2 = b3 @ p3" "numbers_code (unat k2) b3"
    and "p4 = b5 @ r" "numbers_code (unat k3) b5"
    using ns by (auto simp: numbers_code_iff)
  with b1 b2 b4 show "\<exists>ss. p = ss @ r \<and> shape_code ss"
    using shape_code.intros [of k1 b1 k2 b2 b3 k3 b4 b5] by force
next
  have "ParseArrayShape (ss @ r) = Parsed () r" if "shape_code ss" for ss
    using that
  proof cases
    case (1 k1 rs k2 ss xs k3 ls ys)
    have "ParseNumbers (unat k2) (xs @ ls @ ys @ r) = Parsed () (ls @ ys @ r)"
      "ParseNumbers (unat k3) (ys @ r) = Parsed () r"
      using 1 by (auto simp: numbers_code_iff)
    with 1 show ?thesis by (simp add: ParseArrayShape_def ParseNumber_number_code)
  qed
  then show "\<exists>ss. p = ss @ r \<and> shape_code ss \<Longrightarrow> ParseArrayShape p = Parsed u r" by auto
qed

lemma type_code_head:
  assumes "type_code t"
  shows "\<exists>b q. t = b # q \<and> b \<notin> {ELEMENT_TYPE_CMOD_OPT, ELEMENT_TYPE_CMOD_REQD,
    ELEMENT_TYPE_BYREF, ELEMENT_TYPE_TYPEDBYREF, ELEMENT_TYPE_SENTINEL}"
  using assms by (cases rule: type_code.cases) (auto simp: simple_element_type_def)

lemma mods_head:
  assumes "mods_code ms" "b \<noteq> ELEMENT_TYPE_SENTINEL"
  shows "\<exists>c q'. ms @ b # q = c # q' \<and> c \<noteq> ELEMENT_TYPE_SENTINEL"
  using assms by (cases rule: mods_code.cases) auto

lemma param_code_head:
  assumes "param_code x"
  obtains b q where "x = b # q" "b \<noteq> ELEMENT_TYPE_SENTINEL"
proof -
  have "\<exists>b q. x = b # q \<and> b \<noteq> ELEMENT_TYPE_SENTINEL"
    using assms
  proof (cases rule: param_code.cases)
    case (par_type ms t)
    obtain c q where "t = c # q" "c \<noteq> ELEMENT_TYPE_SENTINEL"
      using type_code_head [OF par_type(3)] by auto
    with par_type mods_head [of ms c q] show ?thesis by simp
  qed (use mods_head in force)+
  with that show thesis by auto
qed

lemma mods_then_type:
  assumes "mods_code ms" "type_code t"
  shows "ParseOptionalCustomMods (ms @ t @ r) = Parsed () (t @ r)"
  using type_code_head [OF assms(2)] by (auto simp: mods_code_parse [OF assms(1)])

lemma class_parse:
  "number_code n ns \<Longrightarrow> ParseTypeDefOrRefEncoded (ns @ r) = Parsed () r"
  by (auto simp: ParseTypeDefOrRefEncoded_number ParseNumber_number_code)

lemma grammar_accepted:
  "type_code t \<Longrightarrow> (\<forall>r. ParseType (t @ r) = Parsed () r)"
  "types_code k ts \<Longrightarrow> (\<forall>r. ParseTypes ParseType k (ts @ r) = Parsed () r)"
  "ret_code x \<Longrightarrow> (\<forall>r. ParseRetType ParseType (x @ r) = Parsed () r)"
  "param_code x \<Longrightarrow> (\<forall>r. ParseParam ParseType (x @ r) = Parsed () r)"
  "params_code k s xs \<Longrightarrow> (\<forall>r. ParseParams ParseType k s (xs @ r) = Parsed () r)"
  "method_code m \<Longrightarrow> (\<forall>r. ParseMethod ParseType (m @ r) = Parsed () r)"
proof (induction rule: type_code_types_code_ret_code_param_code_params_code_method_code.inducts)
  case (simple b)
  then show ?case by (simp add: ParseType_rec [of "b # _"] ParseType_body_def)
next
  case (pointer ms t)
  show ?case
  proof
    fix r
    have "ParseType (t @ r) = Parsed () r" using pointer.IH by simp
    moreover have "ParseType (t @ r) = Parsed () q" if "t @ r = ELEMENT_TYPE_VOID # q" for q
      using that by (simp add: ParseType_rec [of "_ # _"] ParseType_body_def simple_element_type_def)
    ultimately show "ParseType ((ELEMENT_TYPE_PTR # ms @ t) @ r) = Parsed () r"
      using type_code_head [OF pointer.hyps(2)] mods_then_type [OF pointer.hyps]
      by (auto simp: ParseType_rec [of "ELEMENT_TYPE_PTR # _"] ParseType_body_def
            simple_element_type_def split: list.split)
  qed
next
  case (class_type b n ns)
  then show ?case
    by (auto simp: ParseType_rec [of "_ # _"] ParseType_body_def simple_element_type_def class_parse)
next
  case (fnptr m)
  then show ?case
    by (auto simp: ParseType_rec [of "ELEMENT_TYPE_FNPTR # _"] ParseType_body_def simple_element_type_def)
next
  case (array t s)
  then show ?case
    by (auto simp: ParseType_rec [of "ELEMENT_TYPE_ARRAY # _"] ParseType_body_def
          simple_element_type_def shape_code_iff)
next
  case (szarray ms t)
  then show ?case
    by (auto simp: ParseType_rec [of "ELEMENT_TYPE_SZARRAY # _"] ParseType_body_def
          simple_element_type_def mods_then_type)
next
  case (generic b n ns k ks ts)
  then show ?case
    by (auto simp: ParseType_rec [of "ELEMENT_TYPE_GENERICINST # _"] ParseType_body_def
          simple_element_type_def ParseGenericInst_def class_parse ParseNumber_number_code)
next
  case (var b n ns)
  then show ?case
    by (auto simp: ParseType_rec [of "_ # _"] ParseType_body_def simple_element_type_def
          ParseNumber_number_code)
next
  case (ret_byref ms t)
  then show ?case by (auto simp: ParseRetType_def mods_code_parse)
next
  case (ret_type ms t)
  show ?case
  proof
    fix r
    have "ParseType (t @ r) = Parsed () r" using ret_type.IH by simp
    moreover have "ParseType (t @ r) = Parsed () q" if "t @ r = ELEMENT_TYPE_VOID # q" for q
      using that by (simp add: ParseType_rec [of "_ # _"] ParseType_body_def simple_element_type_def)
    ultimately show "ParseRetType ParseType ((ms @ t) @ r) = Parsed () r"
      using type_code_head [OF ret_type.hyps(2)] mods_then_type [OF ret_type.hyps]
      by (auto simp: ParseRetType_def split: list.split)
  qed
next
  case (par_type ms t)
  obtain b q where "t = b # q" "b \<noteq> ELEMENT_TYPE_TYPEDBYREF" "b \<noteq> ELEMENT_TYPE_BYREF"
    using type_code_head [OF par_type.hyps(2)] by auto
  with par_type.IH mods_then_type [OF par_type.hyps] show ?case
    by (auto simp: ParseParam_def)
next
  case (more_params x k s xs)
  then show ?case by (auto elim!: param_code_head)
next
  case (plain_method k ks r ps)
  then show ?case
    using number_code_nonempty [of k ks] ParseNumber_number_code [of k ks]
    by (cases ks) (auto simp: ParseMethod_def)
qed (auto simp: ParseRetType_def ParseParam_def mods_code_parse ParseMethod_def ParseNumber_number_code)

text \<open>Conversely, what a routine consumes is derived by the grammar.\<close>

definition derives :: "type_parser \<Rightarrow> bool" where
  "derives F \<longleftrightarrow> (\<forall>p r. F p = Parsed () r \<longrightarrow> (\<exists>t. p = t @ r \<and> type_code t))"

lemma derivesE:
  assumes "derives F" "F p = Parsed u r"
  obtains t where "p = t @ r" "type_code t"
  using assms by (auto simp: derives_def)

lemma ParseRetType_derives:
  assumes F: "derives F" and p: "ParseRetType F p = Parsed u r"
  obtains x where "p = x @ r" "ret_code x"
proof -
  obtain b q where mods: "ParseOptionalCustomMods p = Parsed () (b # q)"
    and tail: "b \<in> {ELEMENT_TYPE_TYPEDBYREF, ELEMENT_TYPE_VOID} \<and> q = r \<or>
               b = ELEMENT_TYPE_BYREF \<and> F q = Parsed () r \<or> F (b # q) = Parsed () r"
    using p by (auto simp: ParseRetType_def split: list.split_asm if_split_asm)
  obtain ms where ms: "p = ms @ b # q" "mods_code ms" using mods_code_sound [OF mods] by auto
  from tail consider "b = ELEMENT_TYPE_TYPEDBYREF" "q = r"
    | "b = ELEMENT_TYPE_VOID" "q = r"
    | "b = ELEMENT_TYPE_BYREF" "F q = Parsed () r" | "F (b # q) = Parsed () r" by auto
  then show thesis
  proof cases
    case 1
    with that [of "ms @ [ELEMENT_TYPE_TYPEDBYREF]"] ms ret_typedref show thesis by simp
  next
    case 2
    with that [of "ms @ [ELEMENT_TYPE_VOID]"] ms ret_type [OF ms(2) simple, of ELEMENT_TYPE_VOID]
    show thesis by (simp add: simple_element_type_def)
  next
    case 3
    then obtain t where "q = t @ r" "type_code t" using derivesE [OF F] by blast
    with 3 that [of "ms @ ELEMENT_TYPE_BYREF # t"] ms ret_byref show thesis by simp
  next
    case 4
    then obtain t where "b # q = t @ r" "type_code t" using derivesE [OF F] by blast
    with that [of "ms @ t"] ms ret_type show thesis by simp
  qed
qed

lemma ParseParam_derives:
  assumes F: "derives F" and p: "ParseParam F p = Parsed u r"
  obtains x where "p = x @ r" "param_code x"
proof -
  obtain b q where mods: "ParseOptionalCustomMods p = Parsed () (b # q)"
    and tail: "b = ELEMENT_TYPE_TYPEDBYREF \<and> q = r \<or>
               b = ELEMENT_TYPE_BYREF \<and> F q = Parsed () r \<or> F (b # q) = Parsed () r"
    using p by (auto simp: ParseParam_def split: list.split_asm if_split_asm)
  obtain ms where ms: "p = ms @ b # q" "mods_code ms" using mods_code_sound [OF mods] by auto
  from tail consider "b = ELEMENT_TYPE_TYPEDBYREF" "q = r"
    | "b = ELEMENT_TYPE_BYREF" "F q = Parsed () r" | "F (b # q) = Parsed () r" by auto
  then show thesis
  proof cases
    case 1
    with that [of "ms @ [ELEMENT_TYPE_TYPEDBYREF]"] ms par_typedref show thesis by simp
  next
    case 2
    then obtain t where "q = t @ r" "type_code t" using derivesE [OF F] by blast
    with 2 that [of "ms @ ELEMENT_TYPE_BYREF # t"] ms par_byref show thesis by simp
  next
    case 3
    then obtain t where "b # q = t @ r" "type_code t" using derivesE [OF F] by blast
    with that [of "ms @ t"] ms par_type show thesis by simp
  qed
qed

lemma ParseTypes_derives:
  assumes F: "derives F"
  shows "ParseTypes F k p = Parsed u r \<Longrightarrow> \<exists>ts. p = ts @ r \<and> types_code k ts"
proof (induction k arbitrary: p)
  case 0
  then show ?case using no_types by auto
next
  case (Suc k)
  then obtain q where q: "F p = Parsed () q" "ParseTypes F k q = Parsed u r" by auto
  obtain t where "p = t @ q" "type_code t" using derivesE [OF F q(1)] by blast
  with Suc.IH [OF q(2)] show ?case using more_types by force
qed

lemma ParseParams_derives:
  assumes F: "derives F"
  shows "ParseParams F k s p = Parsed u r \<Longrightarrow> \<exists>xs. p = xs @ r \<and> params_code k s xs"
proof (induction k arbitrary: p s)
  case 0
  then show ?case using no_params by auto
next
  case (Suc k)
  then obtain b p' where p: "p = b # p'" by (cases p) auto
  show ?case
  proof (cases "b = ELEMENT_TYPE_SENTINEL")
    case True
    with Suc.prems p obtain q where s: "\<not> s"
      and q: "ParseParam F p' = Parsed () q" "ParseParams F k True q = Parsed u r"
      by (auto split: if_split_asm)
    obtain x where "p' = x @ q" "param_code x" using ParseParam_derives [OF F q(1)] by blast
    moreover obtain xs where "q = xs @ r" "params_code k True xs" using Suc.IH [OF q(2)] by auto
    ultimately show ?thesis
      using sentinel [of x k xs] p s True by (intro exI [of _ "b # x @ xs"]) auto
  next
    case False
    with Suc.prems p obtain q
      where q: "ParseParam F p = Parsed () q" "ParseParams F k s q = Parsed u r"
      by (auto split: if_split_asm)
    obtain x where "p = x @ q" "param_code x" using ParseParam_derives [OF F q(1)] by blast
    with Suc.IH [OF q(2)] show ?thesis using more_params by force
  qed
qed

lemma ParseMethod_derives:
  assumes F: "derives F" and p: "ParseMethod F p = Parsed u r"
  shows "\<exists>m. p = m @ r \<and> method_code m"
proof -
  obtain b p' where b: "p = b # p'" using p by (cases p) (auto simp: ParseMethod_def)
  obtain q k p1 p2
    where lead: "b = CALLCONV_GENERIC \<and> (\<exists>g. ParseNumber p' = Parsed g q) \<or>
                 b \<noteq> CALLCONV_GENERIC \<and> q = p"
      and q: "ParseNumber q = Parsed k p1" "ParseRetType F p1 = Parsed () p2"
             "ParseParams F (unat k) False p2 = Parsed u r"
    using p by (auto simp: ParseMethod_def b split: if_split_asm)
  obtain ks where ks: "q = ks @ p1" "number_code k ks" using q(1) by (rule ParseNumber_sound)
  obtain x where x: "p1 = x @ p2" "ret_code x" using ParseRetType_derives [OF F q(2)] by blast
  obtain ps where ps: "p2 = ps @ r" "params_code (unat k) False ps"
    using ParseParams_derives [OF F q(3)] by auto
  from lead show ?thesis
  proof (elim disjE conjE exE)
    fix g assume g: "b = CALLCONV_GENERIC" "ParseNumber p' = Parsed g q"
    obtain gs where "p' = gs @ q" "number_code g gs" using g(2) by (rule ParseNumber_sound)
    with generic_method [of g gs k ks x ps] g(1) ks x ps b show ?thesis
      by (intro exI [of _ "b # gs @ ks @ x @ ps"]) auto
  next
    assume "b \<noteq> CALLCONV_GENERIC" "q = p"
    with ks number_code_nonempty [OF ks(2)] b have "hd ks \<noteq> CALLCONV_GENERIC" by (cases ks) auto
    with plain_method [of k ks x ps] \<open>q = p\<close> ks x ps show ?thesis
      by (intro exI [of _ "ks @ x @ ps"]) auto
  qed
qed

lemma class_sound:
  assumes "ParseTypeDefOrRefEncoded p = Parsed u r"
  obtains n ns where "p = ns @ r" "number_code n ns"
  using assms by (auto simp: ParseTypeDefOrRefEncoded_number elim: ParseNumber_sound)

lemma ParseGenericInst_derives:
  assumes F: "derives F" and p: "ParseGenericInst F p = Parsed u r"
  shows "\<exists>t. ELEMENT_TYPE_GENERICINST # p = t @ r \<and> type_code t"
proof -
  obtain b p1 p2 k p3
    where b: "p = b # p1" "b \<in> {ELEMENT_TYPE_VALUETYPE, ELEMENT_TYPE_CLASS}"
      and q: "ParseTypeDefOrRefEncoded p1 = Parsed () p2" "ParseNumber p2 = Parsed k p3"
             "ParseTypes F (unat k) p3 = Parsed u r"
    using p by (auto simp: ParseGenericInst_def split: list.split_asm if_split_asm)
  obtain n ns where ns: "p1 = ns @ p2" "number_code n ns" using q(1) by (rule class_sound)
  obtain ks where ks: "p2 = ks @ p3" "number_code k ks" using q(2) by (rule ParseNumber_sound)
  obtain ts where ts: "p3 = ts @ r" "types_code (unat k) ts"
    using ParseTypes_derives [OF F q(3)] by auto
  from generic [OF b(2) ns(2) ks(2) ts(2)] b ns ks ts show ?thesis by force
qed

lemma mods_then_derives:
  assumes F: "derives F" and "and_then (ParseOptionalCustomMods p) (\<lambda>_. F) = Parsed u r"
  obtains ms t where "p = ms @ t @ r" "mods_code ms" "type_code t"
proof -
  obtain q where q: "ParseOptionalCustomMods p = Parsed () q" "F q = Parsed () r"
    using assms(2) by auto
  obtain ms where "p = ms @ q" "mods_code ms" using mods_code_sound [OF q(1)] by auto
  moreover obtain t where "q = t @ r" "type_code t" using derivesE [OF F q(2)] by blast
  ultimately show thesis using that by auto
qed

lemma ParsePtr_derives:
  assumes F: "derives F"
    and p: "and_then (ParseOptionalCustomMods p) (\<lambda>_ p.
              case p of [] \<Rightarrow> Overrun
              | c # p' \<Rightarrow> if c = ELEMENT_TYPE_VOID then Parsed () p' else F p) = Parsed u r"
  obtains ms t where "p = ms @ t @ r" "mods_code ms" "type_code t"
proof -
  obtain c q where q: "ParseOptionalCustomMods p = Parsed () (c # q)"
    and tail: "c = ELEMENT_TYPE_VOID \<and> q = r \<or> F (c # q) = Parsed () r"
    using p by (auto split: list.split_asm if_split_asm)
  obtain ms where ms: "p = ms @ c # q" "mods_code ms" using mods_code_sound [OF q] by auto
  from tail show thesis
  proof
    assume "c = ELEMENT_TYPE_VOID \<and> q = r"
    with that [of ms "[ELEMENT_TYPE_VOID]"] ms show thesis
      using simple [of ELEMENT_TYPE_VOID] by (simp add: simple_element_type_def)
  next
    assume "F (c # q) = Parsed () r"
    then obtain t where "c # q = t @ r" "type_code t" using derivesE [OF F] by blast
    with that [of ms t] ms show thesis by simp
  qed
qed

lemma ParseType_body_derives:
  assumes F: "derives F"
  shows "derives (ParseType_body F)"
  unfolding derives_def
proof (intro allI impI)
  fix p r assume body: "ParseType_body F p = Parsed () r"
  then obtain b q where p: "p = b # q" by (cases p) (auto simp: ParseType_body_def)
  note body = body [unfolded p ParseType_body_def list.case]
  consider "simple_element_type b"
    | "b = ELEMENT_TYPE_PTR" | "b \<in> {ELEMENT_TYPE_VALUETYPE, ELEMENT_TYPE_CLASS}"
    | "b = ELEMENT_TYPE_FNPTR" | "b = ELEMENT_TYPE_ARRAY" | "b = ELEMENT_TYPE_SZARRAY"
    | "b = ELEMENT_TYPE_GENERICINST" | "b \<in> {ELEMENT_TYPE_VAR, ELEMENT_TYPE_MVAR}"
    using body by (auto split: if_split_asm)
  then show "\<exists>t. p = t @ r \<and> type_code t"
  proof cases
    case 1
    with body p simple [of b] show ?thesis by (intro exI [of _ "[b]"]) simp
  next
    case 2
    then have "and_then (ParseOptionalCustomMods q) (\<lambda>_ p.
        case p of [] \<Rightarrow> Overrun
        | c # p' \<Rightarrow> if c = ELEMENT_TYPE_VOID then Parsed () p' else F p) = Parsed () r"
      using body by (simp add: simple_element_type_def)
    then obtain ms t where "q = ms @ t @ r" "mods_code ms" "type_code t"
      by (rule ParsePtr_derives [OF F])
    with pointer [of ms t] 2 p show ?thesis by (intro exI [of _ "b # ms @ t"]) simp
  next
    case 3
    then have "ParseTypeDefOrRefEncoded q = Parsed () r"
      using body by (auto simp: simple_element_type_def)
    then obtain n ns where "q = ns @ r" "number_code n ns" by (rule class_sound)
    with class_type [OF 3] p show ?thesis by (intro exI [of _ "b # ns"]) simp
  next
    case 4
    then have "ParseMethod F q = Parsed () r" using body by (simp add: simple_element_type_def)
    then obtain m where "q = m @ r" "method_code m" using ParseMethod_derives [OF F] by blast
    with fnptr [of m] 4 p show ?thesis by (intro exI [of _ "b # m"]) simp
  next
    case 5
    then obtain q' where q': "F q = Parsed () q'" "ParseArrayShape q' = Parsed () r"
      using body by (auto simp: simple_element_type_def)
    obtain t where "q = t @ q'" "type_code t" using derivesE [OF F q'(1)] by blast
    moreover obtain ss where "q' = ss @ r" "shape_code ss" using q'(2) by (auto simp: shape_code_iff)
    ultimately show ?thesis using array [of t ss] 5 p by (intro exI [of _ "b # t @ ss"]) simp
  next
    case 6
    then have "and_then (ParseOptionalCustomMods q) (\<lambda>_. F) = Parsed () r"
      using body by (simp add: simple_element_type_def)
    then obtain ms t where "q = ms @ t @ r" "mods_code ms" "type_code t"
      by (rule mods_then_derives [OF F])
    with szarray [of ms t] 6 p show ?thesis by (intro exI [of _ "b # ms @ t"]) simp
  next
    case 7
    then have "ParseGenericInst F q = Parsed () r" using body by (simp add: simple_element_type_def)
    from ParseGenericInst_derives [OF F this] 7 p show ?thesis by simp
  next
    case 8
    then obtain n where "ParseNumber q = Parsed n r"
      using body by (auto simp: simple_element_type_def)
    then obtain ns where "q = ns @ r" "number_code n ns" by (rule ParseNumber_sound)
    with var [OF 8] p show ?thesis by (intro exI [of _ "b # ns"]) simp
  qed
qed

lemma derives_ParseType: "derives ParseType"
proof -
  have "derives (ParseType_f f)" for f
    by (induction f) (simp add: derives_def, simp add: ParseType_body_derives)
  then show ?thesis by (auto simp: derives_def ParseType_def simp del: ParseType_f.simps)
qed

lemma ParseType_iff_type_code:
  "ParseType p = Parsed u r \<longleftrightarrow> (\<exists>t. p = t @ r \<and> type_code t)"
  using derivesE [OF derives_ParseType, of p u r] grammar_accepted(1) by auto

lemma ParseMethod_iff_method_code:
  "ParseMethod ParseType p = Parsed u r \<longleftrightarrow> (\<exists>m. p = m @ r \<and> method_code m)"
  using ParseMethod_derives [OF derives_ParseType, of p u r] grammar_accepted(6) by auto

text \<open>
  The reader of one type skips it and stops at its end: types are a self-delimiting
  code, so a sequence of them has one reading only.
\<close>

definition read_type :: "byte list \<Rightarrow> (byte list \<times> byte list) option" where
  "read_type p =
     (case ParseType p of
        Parsed _ r \<Rightarrow> Some (take (length p - length r) p, r)
      | _ \<Rightarrow> None)"

interpretation sig_type: self_delimiting "\<lambda>t. t" read_type type_code
  by unfold_locales (simp add: read_type_def grammar_accepted(1) [rule_format])

text \<open>
  The recursion of \<open>ParseType\<close> ends on every input, and satisfies the equation of
  the source: one call of the body, with \<open>ParseType\<close> itself for the nested calls.
\<close>

lemma ParseType_terminates:
  "ParseType p \<noteq> Exhausted \<and> ParseType p = ParseType_body ParseType p"
  using ParseType_never_exhausted [of "length p"] ParseType_rec [of p]
  unfolding never_exhausted_def by blast

text \<open>
  \<open>ParseMethod\<close> skips the calling convention only when it is GENERIC. For the
  signature of a function pointer with the default convention it takes the convention's
  zero for the number of parameters and the number of parameters for the element type of
  the return type: a pointer to a function of one parameter that returns void is
  accepted after three bytes and its return and parameter types are left unread.
\<close>

lemma ParseType_fnptr_default:
  "ParseType (ELEMENT_TYPE_FNPTR # CALLCONV_DEFAULT # p) =
     ParseRetType ParseType p \<and>
   ParseType [ELEMENT_TYPE_FNPTR, CALLCONV_DEFAULT, 1, ELEMENT_TYPE_VOID, ELEMENT_TYPE_I4] =
     Parsed () [ELEMENT_TYPE_VOID, ELEMENT_TYPE_I4]"
proof -
  have n: "ParseNumber (0 # q) = Parsed 0 q" for q
    using ParseNumber_number_code [OF number_code.one [of 0], of q] by simp
  have none: "ParseParams ParseType 0 False = Parsed ()" by (rule ext) simp
  have fn: "ParseType (ELEMENT_TYPE_FNPTR # CALLCONV_DEFAULT # q) = ParseRetType ParseType q" for q
    by (subst ParseType_rec)
       (simp add: ParseType_body_def simple_element_type_def ParseMethod_def n none and_then_return del: ParseParams.simps)
  moreover have "ParseRetType ParseType [1, ELEMENT_TYPE_VOID, ELEMENT_TYPE_I4] =
      Parsed () [ELEMENT_TYPE_VOID, ELEMENT_TYPE_I4]"
    by (simp add: ParseRetType_def ParseOptionalCustomMods.simps)
  ultimately show ?thesis by simp
qed

section \<open>The documented format\<close>

text \<open>
  The format of a type as the comments of sig\_helpers.cpp give it, before \<open>ParseType\<close> and in
  \<open>ParseMethod\<close>. The code departs from it in three places, so the grammar has a set of options:
  whether the native integers I and U are types, whether VOID is a type by itself (and not only
  behind PTR and as a return type), and whether the signature behind FNPTR starts with a byte for
  the calling convention or has none but for GENERIC.
\<close>

datatype format_option = Native_integers | Plain_void | Convention_byte | No_convention_byte

abbreviation "documented \<equiv> {Native_integers, Convention_byte}"
abbreviation "implemented \<equiv> {Plain_void, No_convention_byte}"

inductive type_format :: "format_option set \<Rightarrow> byte list \<Rightarrow> bool"
  and types_format :: "format_option set \<Rightarrow> nat \<Rightarrow> byte list \<Rightarrow> bool"
  and ret_format :: "format_option set \<Rightarrow> byte list \<Rightarrow> bool"
  and param_format :: "format_option set \<Rightarrow> byte list \<Rightarrow> bool"
  and params_format :: "format_option set \<Rightarrow> nat \<Rightarrow> bool \<Rightarrow> byte list \<Rightarrow> bool"
  and method_format :: "format_option set \<Rightarrow> byte list \<Rightarrow> bool"
for X where
  f_primitive: "b \<in> {ELEMENT_TYPE_BOOLEAN, ELEMENT_TYPE_CHAR, ELEMENT_TYPE_I1, ELEMENT_TYPE_U1, ELEMENT_TYPE_I2, ELEMENT_TYPE_U2,
     ELEMENT_TYPE_I4, ELEMENT_TYPE_U4, ELEMENT_TYPE_I8, ELEMENT_TYPE_U8, ELEMENT_TYPE_R4, ELEMENT_TYPE_R8, ELEMENT_TYPE_STRING,
     ELEMENT_TYPE_OBJECT} \<Longrightarrow> type_format X [b]"
| f_native: "Native_integers \<in> X \<Longrightarrow> b \<in> {ELEMENT_TYPE_I, ELEMENT_TYPE_U} \<Longrightarrow> type_format X [b]"
| f_void: "Plain_void \<in> X \<Longrightarrow> type_format X [ELEMENT_TYPE_VOID]"
| f_class: "b \<in> {ELEMENT_TYPE_VALUETYPE, ELEMENT_TYPE_CLASS} \<Longrightarrow> number_code n ns \<Longrightarrow> type_format X (b # ns)"
| f_ptr_void: "mods_code ms \<Longrightarrow> type_format X (ELEMENT_TYPE_PTR # ms @ [ELEMENT_TYPE_VOID])"
| f_ptr: "mods_code ms \<Longrightarrow> type_format X t \<Longrightarrow> type_format X (ELEMENT_TYPE_PTR # ms @ t)"
| f_fnptr: "method_format X m \<Longrightarrow> type_format X (ELEMENT_TYPE_FNPTR # m)"
| f_array: "type_format X t \<Longrightarrow> shape_code s \<Longrightarrow> type_format X (ELEMENT_TYPE_ARRAY # t @ s)"
| f_szarray: "mods_code ms \<Longrightarrow> type_format X t \<Longrightarrow> type_format X (ELEMENT_TYPE_SZARRAY # ms @ t)"
| f_generic: "b \<in> {ELEMENT_TYPE_VALUETYPE, ELEMENT_TYPE_CLASS} \<Longrightarrow> number_code n ns \<Longrightarrow> number_code k ks \<Longrightarrow>
     types_format X (unat k) ts \<Longrightarrow> type_format X (ELEMENT_TYPE_GENERICINST # b # ns @ ks @ ts)"
| f_var: "b \<in> {ELEMENT_TYPE_VAR, ELEMENT_TYPE_MVAR} \<Longrightarrow> number_code n ns \<Longrightarrow> type_format X (b # ns)"
| f_no_types: "types_format X 0 []"
| f_more_types: "type_format X t \<Longrightarrow> types_format X k ts \<Longrightarrow> types_format X (Suc k) (t @ ts)"
| f_ret_typedref: "mods_code ms \<Longrightarrow> ret_format X (ms @ [ELEMENT_TYPE_TYPEDBYREF])"
| f_ret_void: "mods_code ms \<Longrightarrow> ret_format X (ms @ [ELEMENT_TYPE_VOID])"
| f_ret_byref: "mods_code ms \<Longrightarrow> type_format X t \<Longrightarrow> ret_format X (ms @ ELEMENT_TYPE_BYREF # t)"
| f_ret_type: "mods_code ms \<Longrightarrow> type_format X t \<Longrightarrow> ret_format X (ms @ t)"
| f_par_typedref: "mods_code ms \<Longrightarrow> param_format X (ms @ [ELEMENT_TYPE_TYPEDBYREF])"
| f_par_byref: "mods_code ms \<Longrightarrow> type_format X t \<Longrightarrow> param_format X (ms @ ELEMENT_TYPE_BYREF # t)"
| f_par_type: "mods_code ms \<Longrightarrow> type_format X t \<Longrightarrow> param_format X (ms @ t)"
| f_no_params: "params_format X 0 s []"
| f_more_params: "param_format X x \<Longrightarrow> params_format X k s xs \<Longrightarrow> params_format X (Suc k) s (x @ xs)"
| f_sentinel: "param_format X x \<Longrightarrow> params_format X k True xs \<Longrightarrow>
     params_format X (Suc k) False (ELEMENT_TYPE_SENTINEL # x @ xs)"
| f_method: "Convention_byte \<in> X \<Longrightarrow> conv \<in> {0x00, 0x20, 0x60, 0x05, 0x25, 0x65} \<Longrightarrow> number_code k ks \<Longrightarrow> ret_format X r \<Longrightarrow>
     params_format X (unat k) False ps \<Longrightarrow> method_format X (conv # ks @ r @ ps)"
| f_generic_method: "Convention_byte \<in> X \<Longrightarrow> conv \<in> {0x10, 0x30, 0x70} \<Longrightarrow> number_code g gs \<Longrightarrow> number_code k ks \<Longrightarrow>
     ret_format X r \<Longrightarrow> params_format X (unat k) False ps \<Longrightarrow> method_format X (conv # gs @ ks @ r @ ps)"
| f_bare_method: "No_convention_byte \<in> X \<Longrightarrow> number_code k ks \<Longrightarrow> hd ks \<noteq> CALLCONV_GENERIC \<Longrightarrow> ret_format X r \<Longrightarrow>
     params_format X (unat k) False ps \<Longrightarrow> method_format X (ks @ r @ ps)"
| f_bare_generic_method: "No_convention_byte \<in> X \<Longrightarrow> number_code g gs \<Longrightarrow> number_code k ks \<Longrightarrow> ret_format X r \<Longrightarrow>
     params_format X (unat k) False ps \<Longrightarrow> method_format X (CALLCONV_GENERIC # gs @ ks @ r @ ps)"

lemmas format_intros = type_format_types_format_ret_format_param_format_params_format_method_format.intros
lemmas code_intros = type_code_types_code_ret_code_param_code_params_code_method_code.intros

text \<open>More options, more types; and what the parser was shown to accept is the format with the options of the code.\<close>

lemma type_format_mono:
  "type_format X t \<Longrightarrow> X \<subseteq> Y \<longrightarrow> type_format Y t"
  "types_format X k ts \<Longrightarrow> X \<subseteq> Y \<longrightarrow> types_format Y k ts"
  "ret_format X x \<Longrightarrow> X \<subseteq> Y \<longrightarrow> ret_format Y x"
  "param_format X x \<Longrightarrow> X \<subseteq> Y \<longrightarrow> param_format Y x"
  "params_format X k s xs \<Longrightarrow> X \<subseteq> Y \<longrightarrow> params_format Y k s xs"
  "method_format X m \<Longrightarrow> X \<subseteq> Y \<longrightarrow> method_format Y m"
  by (induction rule: type_format_types_format_ret_format_param_format_params_format_method_format.inducts)
    (blast intro: format_intros)+

lemma format_code:
  "type_format implemented t \<Longrightarrow> type_code t"
  "types_format implemented k ts \<Longrightarrow> types_code k ts"
  "ret_format implemented x \<Longrightarrow> ret_code x"
  "param_format implemented x \<Longrightarrow> param_code x"
  "params_format implemented k s xs \<Longrightarrow> params_code k s xs"
  "method_format implemented m \<Longrightarrow> method_code m"
proof -
  have void: "type_code [ELEMENT_TYPE_VOID]" by (rule simple) (simp add: simple_element_type_def)
  show "type_format implemented t \<Longrightarrow> type_code t" "types_format implemented k ts \<Longrightarrow> types_code k ts"
    "ret_format implemented x \<Longrightarrow> ret_code x" "param_format implemented x \<Longrightarrow> param_code x"
    "params_format implemented k s xs \<Longrightarrow> params_code k s xs" "method_format implemented m \<Longrightarrow> method_code m"
    by (induction rule: type_format_types_format_ret_format_param_format_params_format_method_format.inducts)
      (auto intro: code_intros void simp: simple_element_type_def)
qed

lemma code_format:
  "type_code t \<Longrightarrow> type_format implemented t"
  "types_code k ts \<Longrightarrow> types_format implemented k ts"
  "ret_code x \<Longrightarrow> ret_format implemented x"
  "param_code x \<Longrightarrow> param_format implemented x"
  "params_code k s xs \<Longrightarrow> params_format implemented k s xs"
  "method_code m \<Longrightarrow> method_format implemented m"
  by (induction rule: type_code_types_code_ret_code_param_code_params_code_method_code.inducts)
    (auto intro: format_intros simp: simple_element_type_def)

lemma implemented_iff: "type_format implemented t \<longleftrightarrow> type_code t"
  using format_code(1) code_format(1) by blast

section \<open>Properties\<close>

text \<open>
  C14. \<open>ParseType\<close> against the format that its comments document. It returns true with the
  pointer at \<open>r\<close> if and only if what it passed over is a type of the format with three
  changes: I and U are no types, VOID is one by itself, and the signature of a function pointer
  has no byte for its convention, except GENERIC. The end is then the only one such a type can
  have. So a type of the documented format without I, U and function pointers is passed over
  exactly. The three changes can be seen: I is rejected, VOID accepted, and of a pointer to a
  function from int to void, in the documented format, two bytes are left.
\<close>

theorem ParseType_accepts_grammar:
  "(ParseType p = Parsed u r \<longleftrightarrow>
     (\<exists>t. p = t @ r \<and> type_format implemented t \<and> (\<forall>t' r'. p = t' @ r' \<and> type_format implemented t' \<longrightarrow> r' = r))) \<and>
   (type_format {} t \<longrightarrow> type_format documented t \<and> ParseType (t @ r) = Parsed () r) \<and>
   type_format documented [ELEMENT_TYPE_I] \<and> ParseType (ELEMENT_TYPE_I # r) = Rejected \<and>
   \<not> type_format documented [ELEMENT_TYPE_VOID] \<and> ParseType (ELEMENT_TYPE_VOID # r) = Parsed () r \<and>
   type_format documented [ELEMENT_TYPE_FNPTR, CALLCONV_DEFAULT, 1, ELEMENT_TYPE_VOID, ELEMENT_TYPE_I4] \<and>
   ParseType [ELEMENT_TYPE_FNPTR, CALLCONV_DEFAULT, 1, ELEMENT_TYPE_VOID, ELEMENT_TYPE_I4] = Parsed () [ELEMENT_TYPE_VOID, ELEMENT_TYPE_I4]"
proof (intro conjI impI)
  have "r' = r" if "t @ r = t' @ r'" "type_code t" "type_code t'" for t t' r'
    using sig_type.enc_eq_iff [OF that(2,3)] that(1) by simp
  then show "ParseType p = Parsed u r \<longleftrightarrow>
     (\<exists>t. p = t @ r \<and> type_format implemented t \<and> (\<forall>t' r'. p = t' @ r' \<and> type_format implemented t' \<longrightarrow> r' = r))"
    unfolding ParseType_iff_type_code implemented_iff by metis
next
  assume t: "type_format {} t"
  show "type_format documented t" using type_format_mono(1) [OF t] by blast
  have "type_code t" using type_format_mono(1) [OF t] implemented_iff by blast
  then show "ParseType (t @ r) = Parsed () r" using grammar_accepted(1) by blast
next
  show "type_format documented [ELEMENT_TYPE_I]" by (rule f_native) simp_all
  show "ParseType (ELEMENT_TYPE_I # r) = Rejected" "ParseType (ELEMENT_TYPE_VOID # r) = Parsed () r"
    by (simp_all add: ParseType_rec [of "_ # _"] ParseType_body_def simple_element_type_def)
  show "\<not> type_format documented [ELEMENT_TYPE_VOID]" by (auto elim: type_format.cases)
  have "number_code 1 [1]" using number_code.one [of 1] by simp
  moreover have "ret_format documented [ELEMENT_TYPE_VOID]" using f_ret_void [OF mods_code.none] by simp
  moreover have "param_format documented [ELEMENT_TYPE_I4]"
    using f_par_type [OF mods_code.none f_primitive [of ELEMENT_TYPE_I4]] by simp
  then have "params_format documented 1 False [ELEMENT_TYPE_I4]"
    using f_more_params [OF _ f_no_params, of documented "[ELEMENT_TYPE_I4]"] by simp
  ultimately have "method_format documented [CALLCONV_DEFAULT, 1, ELEMENT_TYPE_VOID, ELEMENT_TYPE_I4]"
    using f_method [of documented CALLCONV_DEFAULT 1 "[1]" "[ELEMENT_TYPE_VOID]" "[ELEMENT_TYPE_I4]"] by simp
  then show "type_format documented [ELEMENT_TYPE_FNPTR, CALLCONV_DEFAULT, 1, ELEMENT_TYPE_VOID, ELEMENT_TYPE_I4]" by (rule f_fnptr)
  show "ParseType [ELEMENT_TYPE_FNPTR, CALLCONV_DEFAULT, 1, ELEMENT_TYPE_VOID, ELEMENT_TYPE_I4] =
      Parsed () [ELEMENT_TYPE_VOID, ELEMENT_TYPE_I4]"
    by (rule ParseType_fnptr_default [THEN conjunct2])
qed

theorem ParseType_accepts_grammar_witness:
  "ParseType [0x15, 0x12, 0x05, 0x01, 0x0e, 0x08] = Parsed () [0x08] \<and> type_format documented [0x15, 0x12, 0x05, 0x01, 0x0e]"
proof -
  have "type_format {} [0x0e]" by (rule f_primitive) simp
  then have one: "types_format {} (unat (1 :: u32)) [0x0e]"
    using f_more_types [OF _ f_no_types, of "{}" "[0x0e]"] by simp
  have "number_code 5 [0x05]" "number_code 1 [0x01]"
    using number_code.one [of 5] number_code.one [of 1] by simp_all
  with f_generic [of ELEMENT_TYPE_CLASS 5 "[0x05]" 1 "[0x01]" "{}" "[0x0e]"] one
  have "type_format {} [0x15, 0x12, 0x05, 0x01, 0x0e]" by simp
  then show ?thesis using ParseType_accepts_grammar [where t = "[0x15, 0x12, 0x05, 0x01, 0x0e]" and r = "[0x08]"] by simp
qed

end
