(* ===== verification/Opcodes.thy ===== *)
theory Opcodes
  imports Prelude
begin

text \<open>
  The opcode tables of the IL rewriter: opcode.def read as the two tables il_rewriter.cpp
  builds from it, \<open>s_OpCodeFlags\<close> (size of the operand, branch, switch) and
  \<open>k_rgnStackPushes\<close> (stack slots pushed), and the opcode constants the code names.
  Row \<open>i\<close> of opcode.def is the internal opcode \<open>i\<close>: the byte itself up to 0xFF, and
  0x100 plus the second byte for the opcodes after the lead byte 0xFE.
\<close>

section \<open>The rows of opcode.def\<close>

datatype push_kind = Push0 | Push1 | PushI | PushI4 | PushR4 | PushI8 | PushR8 | PushRef | VarPush

datatype args_kind =
    InlineNone | ShortInlineVar | InlineVar | ShortInlineI | InlineI | InlineI8 | ShortInlineR
  | InlineR | ShortInlineBrTarget | InlineBrTarget | InlineMethod | InlineField | InlineType
  | InlineString | InlineSig | InlineRVA | InlineTok | InlineSwitch

type_synonym opdef = "push_kind list \<times> args_kind"

definition opdefs_00 :: "opdef list" where
  "opdefs_00 = [
    ([Push0], InlineNone),  \<comment> \<open>CEE_NOP\<close>
    ([Push0], InlineNone),  \<comment> \<open>CEE_BREAK\<close>
    ([Push1], InlineNone),  \<comment> \<open>CEE_LDARG_0\<close>
    ([Push1], InlineNone),  \<comment> \<open>CEE_LDARG_1\<close>
    ([Push1], InlineNone),  \<comment> \<open>CEE_LDARG_2\<close>
    ([Push1], InlineNone),  \<comment> \<open>CEE_LDARG_3\<close>
    ([Push1], InlineNone),  \<comment> \<open>CEE_LDLOC_0\<close>
    ([Push1], InlineNone),  \<comment> \<open>CEE_LDLOC_1\<close>
    ([Push1], InlineNone),  \<comment> \<open>CEE_LDLOC_2\<close>
    ([Push1], InlineNone),  \<comment> \<open>CEE_LDLOC_3\<close>
    ([Push0], InlineNone),  \<comment> \<open>CEE_STLOC_0\<close>
    ([Push0], InlineNone),  \<comment> \<open>CEE_STLOC_1\<close>
    ([Push0], InlineNone),  \<comment> \<open>CEE_STLOC_2\<close>
    ([Push0], InlineNone),  \<comment> \<open>CEE_STLOC_3\<close>
    ([Push1], ShortInlineVar),  \<comment> \<open>CEE_LDARG_S\<close>
    ([PushI], ShortInlineVar),  \<comment> \<open>CEE_LDARGA_S\<close>
    ([Push0], ShortInlineVar),  \<comment> \<open>CEE_STARG_S\<close>
    ([Push1], ShortInlineVar),  \<comment> \<open>CEE_LDLOC_S\<close>
    ([PushI], ShortInlineVar),  \<comment> \<open>CEE_LDLOCA_S\<close>
    ([Push0], ShortInlineVar),  \<comment> \<open>CEE_STLOC_S\<close>
    ([PushRef], InlineNone),  \<comment> \<open>CEE_LDNULL\<close>
    ([PushI], InlineNone),  \<comment> \<open>CEE_LDC_I4_M1\<close>
    ([PushI], InlineNone),  \<comment> \<open>CEE_LDC_I4_0\<close>
    ([PushI], InlineNone),  \<comment> \<open>CEE_LDC_I4_1\<close>
    ([PushI], InlineNone),  \<comment> \<open>CEE_LDC_I4_2\<close>
    ([PushI], InlineNone),  \<comment> \<open>CEE_LDC_I4_3\<close>
    ([PushI], InlineNone),  \<comment> \<open>CEE_LDC_I4_4\<close>
    ([PushI], InlineNone),  \<comment> \<open>CEE_LDC_I4_5\<close>
    ([PushI], InlineNone),  \<comment> \<open>CEE_LDC_I4_6\<close>
    ([PushI], InlineNone),  \<comment> \<open>CEE_LDC_I4_7\<close>
    ([PushI], InlineNone),  \<comment> \<open>CEE_LDC_I4_8\<close>
    ([PushI], ShortInlineI),  \<comment> \<open>CEE_LDC_I4_S\<close>
    ([PushI], InlineI),  \<comment> \<open>CEE_LDC_I4\<close>
    ([PushI8], InlineI8),  \<comment> \<open>CEE_LDC_I8\<close>
    ([PushR4], ShortInlineR),  \<comment> \<open>CEE_LDC_R4\<close>
    ([PushR8], InlineR),  \<comment> \<open>CEE_LDC_R8\<close>
    ([Push0], InlineNone),  \<comment> \<open>CEE_UNUSED49\<close>
    ([Push1, Push1], InlineNone),  \<comment> \<open>CEE_DUP\<close>
    ([Push0], InlineNone),  \<comment> \<open>CEE_POP\<close>
    ([Push0], InlineMethod),  \<comment> \<open>CEE_JMP\<close>
    ([VarPush], InlineMethod),  \<comment> \<open>CEE_CALL\<close>
    ([VarPush], InlineSig),  \<comment> \<open>CEE_CALLI\<close>
    ([Push0], InlineNone),  \<comment> \<open>CEE_RET\<close>
    ([Push0], ShortInlineBrTarget),  \<comment> \<open>CEE_BR_S\<close>
    ([Push0], ShortInlineBrTarget),  \<comment> \<open>CEE_BRFALSE_S\<close>
    ([Push0], ShortInlineBrTarget),  \<comment> \<open>CEE_BRTRUE_S\<close>
    ([Push0], ShortInlineBrTarget),  \<comment> \<open>CEE_BEQ_S\<close>
    ([Push0], ShortInlineBrTarget),  \<comment> \<open>CEE_BGE_S\<close>
    ([Push0], ShortInlineBrTarget),  \<comment> \<open>CEE_BGT_S\<close>
    ([Push0], ShortInlineBrTarget),  \<comment> \<open>CEE_BLE_S\<close>
    ([Push0], ShortInlineBrTarget),  \<comment> \<open>CEE_BLT_S\<close>
    ([Push0], ShortInlineBrTarget),  \<comment> \<open>CEE_BNE_UN_S\<close>
    ([Push0], ShortInlineBrTarget),  \<comment> \<open>CEE_BGE_UN_S\<close>
    ([Push0], ShortInlineBrTarget),  \<comment> \<open>CEE_BGT_UN_S\<close>
    ([Push0], ShortInlineBrTarget),  \<comment> \<open>CEE_BLE_UN_S\<close>
    ([Push0], ShortInlineBrTarget),  \<comment> \<open>CEE_BLT_UN_S\<close>
    ([Push0], InlineBrTarget),  \<comment> \<open>CEE_BR\<close>
    ([Push0], InlineBrTarget),  \<comment> \<open>CEE_BRFALSE\<close>
    ([Push0], InlineBrTarget),  \<comment> \<open>CEE_BRTRUE\<close>
    ([Push0], InlineBrTarget),  \<comment> \<open>CEE_BEQ\<close>
    ([Push0], InlineBrTarget),  \<comment> \<open>CEE_BGE\<close>
    ([Push0], InlineBrTarget),  \<comment> \<open>CEE_BGT\<close>
    ([Push0], InlineBrTarget),  \<comment> \<open>CEE_BLE\<close>
    ([Push0], InlineBrTarget),  \<comment> \<open>CEE_BLT\<close>
    ([Push0], InlineBrTarget),  \<comment> \<open>CEE_BNE_UN\<close>
    ([Push0], InlineBrTarget),  \<comment> \<open>CEE_BGE_UN\<close>
    ([Push0], InlineBrTarget),  \<comment> \<open>CEE_BGT_UN\<close>
    ([Push0], InlineBrTarget),  \<comment> \<open>CEE_BLE_UN\<close>
    ([Push0], InlineBrTarget),  \<comment> \<open>CEE_BLT_UN\<close>
    ([Push0], InlineSwitch),  \<comment> \<open>CEE_SWITCH\<close>
    ([PushI], InlineNone),  \<comment> \<open>CEE_LDIND_I1\<close>
    ([PushI], InlineNone),  \<comment> \<open>CEE_LDIND_U1\<close>
    ([PushI], InlineNone),  \<comment> \<open>CEE_LDIND_I2\<close>
    ([PushI], InlineNone),  \<comment> \<open>CEE_LDIND_U2\<close>
    ([PushI], InlineNone),  \<comment> \<open>CEE_LDIND_I4\<close>
    ([PushI], InlineNone),  \<comment> \<open>CEE_LDIND_U4\<close>
    ([PushI8], InlineNone),  \<comment> \<open>CEE_LDIND_I8\<close>
    ([PushI], InlineNone),  \<comment> \<open>CEE_LDIND_I\<close>
    ([PushR4], InlineNone),  \<comment> \<open>CEE_LDIND_R4\<close>
    ([PushR8], InlineNone),  \<comment> \<open>CEE_LDIND_R8\<close>
    ([PushRef], InlineNone),  \<comment> \<open>CEE_LDIND_REF\<close>
    ([Push0], InlineNone),  \<comment> \<open>CEE_STIND_REF\<close>
    ([Push0], InlineNone),  \<comment> \<open>CEE_STIND_I1\<close>
    ([Push0], InlineNone),  \<comment> \<open>CEE_STIND_I2\<close>
    ([Push0], InlineNone),  \<comment> \<open>CEE_STIND_I4\<close>
    ([Push0], InlineNone),  \<comment> \<open>CEE_STIND_I8\<close>
    ([Push0], InlineNone),  \<comment> \<open>CEE_STIND_R4\<close>
    ([Push0], InlineNone),  \<comment> \<open>CEE_STIND_R8\<close>
    ([Push1], InlineNone),  \<comment> \<open>CEE_ADD\<close>
    ([Push1], InlineNone),  \<comment> \<open>CEE_SUB\<close>
    ([Push1], InlineNone),  \<comment> \<open>CEE_MUL\<close>
    ([Push1], InlineNone),  \<comment> \<open>CEE_DIV\<close>
    ([Push1], InlineNone),  \<comment> \<open>CEE_DIV_UN\<close>
    ([Push1], InlineNone),  \<comment> \<open>CEE_REM\<close>
    ([Push1], InlineNone),  \<comment> \<open>CEE_REM_UN\<close>
    ([Push1], InlineNone),  \<comment> \<open>CEE_AND\<close>
    ([Push1], InlineNone),  \<comment> \<open>CEE_OR\<close>
    ([Push1], InlineNone),  \<comment> \<open>CEE_XOR\<close>
    ([Push1], InlineNone),  \<comment> \<open>CEE_SHL\<close>
    ([Push1], InlineNone),  \<comment> \<open>CEE_SHR\<close>
    ([Push1], InlineNone),  \<comment> \<open>CEE_SHR_UN\<close>
    ([Push1], InlineNone),  \<comment> \<open>CEE_NEG\<close>
    ([Push1], InlineNone),  \<comment> \<open>CEE_NOT\<close>
    ([PushI], InlineNone),  \<comment> \<open>CEE_CONV_I1\<close>
    ([PushI], InlineNone),  \<comment> \<open>CEE_CONV_I2\<close>
    ([PushI], InlineNone),  \<comment> \<open>CEE_CONV_I4\<close>
    ([PushI8], InlineNone),  \<comment> \<open>CEE_CONV_I8\<close>
    ([PushR4], InlineNone),  \<comment> \<open>CEE_CONV_R4\<close>
    ([PushR8], InlineNone),  \<comment> \<open>CEE_CONV_R8\<close>
    ([PushI], InlineNone),  \<comment> \<open>CEE_CONV_U4\<close>
    ([PushI8], InlineNone),  \<comment> \<open>CEE_CONV_U8\<close>
    ([VarPush], InlineMethod),  \<comment> \<open>CEE_CALLVIRT\<close>
    ([Push0], InlineType),  \<comment> \<open>CEE_CPOBJ\<close>
    ([Push1], InlineType),  \<comment> \<open>CEE_LDOBJ\<close>
    ([PushRef], InlineString),  \<comment> \<open>CEE_LDSTR\<close>
    ([PushRef], InlineMethod),  \<comment> \<open>CEE_NEWOBJ\<close>
    ([PushRef], InlineType),  \<comment> \<open>CEE_CASTCLASS\<close>
    ([PushI], InlineType),  \<comment> \<open>CEE_ISINST\<close>
    ([PushR8], InlineNone),  \<comment> \<open>CEE_CONV_R_UN\<close>
    ([Push0], InlineNone),  \<comment> \<open>CEE_UNUSED58\<close>
    ([Push0], InlineNone),  \<comment> \<open>CEE_UNUSED1\<close>
    ([PushI], InlineType),  \<comment> \<open>CEE_UNBOX\<close>
    ([Push0], InlineNone),  \<comment> \<open>CEE_THROW\<close>
    ([Push1], InlineField),  \<comment> \<open>CEE_LDFLD\<close>
    ([PushI], InlineField),  \<comment> \<open>CEE_LDFLDA\<close>
    ([Push0], InlineField),  \<comment> \<open>CEE_STFLD\<close>
    ([Push1], InlineField),  \<comment> \<open>CEE_LDSFLD\<close>
    ([PushI], InlineField)]"

definition opdefs_80 :: "opdef list" where
  "opdefs_80 = [
    ([Push0], InlineField),  \<comment> \<open>CEE_STSFLD\<close>
    ([Push0], InlineType),  \<comment> \<open>CEE_STOBJ\<close>
    ([PushI], InlineNone),  \<comment> \<open>CEE_CONV_OVF_I1_UN\<close>
    ([PushI], InlineNone),  \<comment> \<open>CEE_CONV_OVF_I2_UN\<close>
    ([PushI], InlineNone),  \<comment> \<open>CEE_CONV_OVF_I4_UN\<close>
    ([PushI8], InlineNone),  \<comment> \<open>CEE_CONV_OVF_I8_UN\<close>
    ([PushI], InlineNone),  \<comment> \<open>CEE_CONV_OVF_U1_UN\<close>
    ([PushI], InlineNone),  \<comment> \<open>CEE_CONV_OVF_U2_UN\<close>
    ([PushI], InlineNone),  \<comment> \<open>CEE_CONV_OVF_U4_UN\<close>
    ([PushI8], InlineNone),  \<comment> \<open>CEE_CONV_OVF_U8_UN\<close>
    ([PushI], InlineNone),  \<comment> \<open>CEE_CONV_OVF_I_UN\<close>
    ([PushI], InlineNone),  \<comment> \<open>CEE_CONV_OVF_U_UN\<close>
    ([PushRef], InlineType),  \<comment> \<open>CEE_BOX\<close>
    ([PushRef], InlineType),  \<comment> \<open>CEE_NEWARR\<close>
    ([PushI], InlineNone),  \<comment> \<open>CEE_LDLEN\<close>
    ([PushI], InlineType),  \<comment> \<open>CEE_LDELEMA\<close>
    ([PushI], InlineNone),  \<comment> \<open>CEE_LDELEM_I1\<close>
    ([PushI], InlineNone),  \<comment> \<open>CEE_LDELEM_U1\<close>
    ([PushI], InlineNone),  \<comment> \<open>CEE_LDELEM_I2\<close>
    ([PushI], InlineNone),  \<comment> \<open>CEE_LDELEM_U2\<close>
    ([PushI], InlineNone),  \<comment> \<open>CEE_LDELEM_I4\<close>
    ([PushI], InlineNone),  \<comment> \<open>CEE_LDELEM_U4\<close>
    ([PushI8], InlineNone),  \<comment> \<open>CEE_LDELEM_I8\<close>
    ([PushI], InlineNone),  \<comment> \<open>CEE_LDELEM_I\<close>
    ([PushR4], InlineNone),  \<comment> \<open>CEE_LDELEM_R4\<close>
    ([PushR8], InlineNone),  \<comment> \<open>CEE_LDELEM_R8\<close>
    ([PushRef], InlineNone),  \<comment> \<open>CEE_LDELEM_REF\<close>
    ([Push0], InlineNone),  \<comment> \<open>CEE_STELEM_I\<close>
    ([Push0], InlineNone),  \<comment> \<open>CEE_STELEM_I1\<close>
    ([Push0], InlineNone),  \<comment> \<open>CEE_STELEM_I2\<close>
    ([Push0], InlineNone),  \<comment> \<open>CEE_STELEM_I4\<close>
    ([Push0], InlineNone),  \<comment> \<open>CEE_STELEM_I8\<close>
    ([Push0], InlineNone),  \<comment> \<open>CEE_STELEM_R4\<close>
    ([Push0], InlineNone),  \<comment> \<open>CEE_STELEM_R8\<close>
    ([Push0], InlineNone),  \<comment> \<open>CEE_STELEM_REF\<close>
    ([Push1], InlineType),  \<comment> \<open>CEE_LDELEM\<close>
    ([Push0], InlineType),  \<comment> \<open>CEE_STELEM\<close>
    ([Push1], InlineType),  \<comment> \<open>CEE_UNBOX_ANY\<close>
    ([Push0], InlineNone),  \<comment> \<open>CEE_UNUSED5\<close>
    ([Push0], InlineNone),  \<comment> \<open>CEE_UNUSED6\<close>
    ([Push0], InlineNone),  \<comment> \<open>CEE_UNUSED7\<close>
    ([Push0], InlineNone),  \<comment> \<open>CEE_UNUSED8\<close>
    ([Push0], InlineNone),  \<comment> \<open>CEE_UNUSED9\<close>
    ([Push0], InlineNone),  \<comment> \<open>CEE_UNUSED10\<close>
    ([Push0], InlineNone),  \<comment> \<open>CEE_UNUSED11\<close>
    ([Push0], InlineNone),  \<comment> \<open>CEE_UNUSED12\<close>
    ([Push0], InlineNone),  \<comment> \<open>CEE_UNUSED13\<close>
    ([Push0], InlineNone),  \<comment> \<open>CEE_UNUSED14\<close>
    ([Push0], InlineNone),  \<comment> \<open>CEE_UNUSED15\<close>
    ([Push0], InlineNone),  \<comment> \<open>CEE_UNUSED16\<close>
    ([Push0], InlineNone),  \<comment> \<open>CEE_UNUSED17\<close>
    ([PushI], InlineNone),  \<comment> \<open>CEE_CONV_OVF_I1\<close>
    ([PushI], InlineNone),  \<comment> \<open>CEE_CONV_OVF_U1\<close>
    ([PushI], InlineNone),  \<comment> \<open>CEE_CONV_OVF_I2\<close>
    ([PushI], InlineNone),  \<comment> \<open>CEE_CONV_OVF_U2\<close>
    ([PushI], InlineNone),  \<comment> \<open>CEE_CONV_OVF_I4\<close>
    ([PushI], InlineNone),  \<comment> \<open>CEE_CONV_OVF_U4\<close>
    ([PushI8], InlineNone),  \<comment> \<open>CEE_CONV_OVF_I8\<close>
    ([PushI8], InlineNone),  \<comment> \<open>CEE_CONV_OVF_U8\<close>
    ([Push0], InlineNone),  \<comment> \<open>CEE_UNUSED50\<close>
    ([Push0], InlineNone),  \<comment> \<open>CEE_UNUSED18\<close>
    ([Push0], InlineNone),  \<comment> \<open>CEE_UNUSED19\<close>
    ([Push0], InlineNone),  \<comment> \<open>CEE_UNUSED20\<close>
    ([Push0], InlineNone),  \<comment> \<open>CEE_UNUSED21\<close>
    ([Push0], InlineNone),  \<comment> \<open>CEE_UNUSED22\<close>
    ([Push0], InlineNone),  \<comment> \<open>CEE_UNUSED23\<close>
    ([PushI], InlineType),  \<comment> \<open>CEE_REFANYVAL\<close>
    ([PushR8], InlineNone),  \<comment> \<open>CEE_CKFINITE\<close>
    ([Push0], InlineNone),  \<comment> \<open>CEE_UNUSED24\<close>
    ([Push0], InlineNone),  \<comment> \<open>CEE_UNUSED25\<close>
    ([Push1], InlineType),  \<comment> \<open>CEE_MKREFANY\<close>
    ([Push0], InlineNone),  \<comment> \<open>CEE_UNUSED59\<close>
    ([Push0], InlineNone),  \<comment> \<open>CEE_UNUSED60\<close>
    ([Push0], InlineNone),  \<comment> \<open>CEE_UNUSED61\<close>
    ([Push0], InlineNone),  \<comment> \<open>CEE_UNUSED62\<close>
    ([Push0], InlineNone),  \<comment> \<open>CEE_UNUSED63\<close>
    ([Push0], InlineNone),  \<comment> \<open>CEE_UNUSED64\<close>
    ([Push0], InlineNone),  \<comment> \<open>CEE_UNUSED65\<close>
    ([Push0], InlineNone),  \<comment> \<open>CEE_UNUSED66\<close>
    ([Push0], InlineNone),  \<comment> \<open>CEE_UNUSED67\<close>
    ([PushI], InlineTok),  \<comment> \<open>CEE_LDTOKEN\<close>
    ([PushI], InlineNone),  \<comment> \<open>CEE_CONV_U2\<close>
    ([PushI], InlineNone),  \<comment> \<open>CEE_CONV_U1\<close>
    ([PushI], InlineNone),  \<comment> \<open>CEE_CONV_I\<close>
    ([PushI], InlineNone),  \<comment> \<open>CEE_CONV_OVF_I\<close>
    ([PushI], InlineNone),  \<comment> \<open>CEE_CONV_OVF_U\<close>
    ([Push1], InlineNone),  \<comment> \<open>CEE_ADD_OVF\<close>
    ([Push1], InlineNone),  \<comment> \<open>CEE_ADD_OVF_UN\<close>
    ([Push1], InlineNone),  \<comment> \<open>CEE_MUL_OVF\<close>
    ([Push1], InlineNone),  \<comment> \<open>CEE_MUL_OVF_UN\<close>
    ([Push1], InlineNone),  \<comment> \<open>CEE_SUB_OVF\<close>
    ([Push1], InlineNone),  \<comment> \<open>CEE_SUB_OVF_UN\<close>
    ([Push0], InlineNone),  \<comment> \<open>CEE_ENDFINALLY\<close>
    ([Push0], InlineBrTarget),  \<comment> \<open>CEE_LEAVE\<close>
    ([Push0], ShortInlineBrTarget),  \<comment> \<open>CEE_LEAVE_S\<close>
    ([Push0], InlineNone),  \<comment> \<open>CEE_STIND_I\<close>
    ([PushI], InlineNone),  \<comment> \<open>CEE_CONV_U\<close>
    ([Push0], InlineNone),  \<comment> \<open>CEE_UNUSED26\<close>
    ([Push0], InlineNone),  \<comment> \<open>CEE_UNUSED27\<close>
    ([Push0], InlineNone),  \<comment> \<open>CEE_UNUSED28\<close>
    ([Push0], InlineNone),  \<comment> \<open>CEE_UNUSED29\<close>
    ([Push0], InlineNone),  \<comment> \<open>CEE_UNUSED30\<close>
    ([Push0], InlineNone),  \<comment> \<open>CEE_UNUSED31\<close>
    ([Push0], InlineNone),  \<comment> \<open>CEE_UNUSED32\<close>
    ([Push0], InlineNone),  \<comment> \<open>CEE_UNUSED33\<close>
    ([Push0], InlineNone),  \<comment> \<open>CEE_UNUSED34\<close>
    ([Push0], InlineNone),  \<comment> \<open>CEE_UNUSED35\<close>
    ([Push0], InlineNone),  \<comment> \<open>CEE_UNUSED36\<close>
    ([Push0], InlineNone),  \<comment> \<open>CEE_UNUSED37\<close>
    ([Push0], InlineNone),  \<comment> \<open>CEE_UNUSED38\<close>
    ([Push0], InlineNone),  \<comment> \<open>CEE_UNUSED39\<close>
    ([Push0], InlineNone),  \<comment> \<open>CEE_UNUSED40\<close>
    ([Push0], InlineNone),  \<comment> \<open>CEE_UNUSED41\<close>
    ([Push0], InlineNone),  \<comment> \<open>CEE_UNUSED42\<close>
    ([Push0], InlineNone),  \<comment> \<open>CEE_UNUSED43\<close>
    ([Push0], InlineNone),  \<comment> \<open>CEE_UNUSED44\<close>
    ([Push0], InlineNone),  \<comment> \<open>CEE_UNUSED45\<close>
    ([Push0], InlineNone),  \<comment> \<open>CEE_UNUSED46\<close>
    ([Push0], InlineNone),  \<comment> \<open>CEE_UNUSED47\<close>
    ([Push0], InlineNone),  \<comment> \<open>CEE_UNUSED48\<close>
    ([Push0], InlineNone),  \<comment> \<open>CEE_PREFIX7\<close>
    ([Push0], InlineNone),  \<comment> \<open>CEE_PREFIX6\<close>
    ([Push0], InlineNone),  \<comment> \<open>CEE_PREFIX5\<close>
    ([Push0], InlineNone),  \<comment> \<open>CEE_PREFIX4\<close>
    ([Push0], InlineNone),  \<comment> \<open>CEE_PREFIX3\<close>
    ([Push0], InlineNone),  \<comment> \<open>CEE_PREFIX2\<close>
    ([Push0], InlineNone),  \<comment> \<open>CEE_PREFIX1\<close>
    ([Push0], InlineNone)]"

definition opdefs_FE :: "opdef list" where
  "opdefs_FE = [
    ([PushI], InlineNone),  \<comment> \<open>CEE_ARGLIST\<close>
    ([PushI], InlineNone),  \<comment> \<open>CEE_CEQ\<close>
    ([PushI], InlineNone),  \<comment> \<open>CEE_CGT\<close>
    ([PushI], InlineNone),  \<comment> \<open>CEE_CGT_UN\<close>
    ([PushI], InlineNone),  \<comment> \<open>CEE_CLT\<close>
    ([PushI], InlineNone),  \<comment> \<open>CEE_CLT_UN\<close>
    ([PushI], InlineMethod),  \<comment> \<open>CEE_LDFTN\<close>
    ([PushI], InlineMethod),  \<comment> \<open>CEE_LDVIRTFTN\<close>
    ([Push0], InlineNone),  \<comment> \<open>CEE_UNUSED56\<close>
    ([Push1], InlineVar),  \<comment> \<open>CEE_LDARG\<close>
    ([PushI], InlineVar),  \<comment> \<open>CEE_LDARGA\<close>
    ([Push0], InlineVar),  \<comment> \<open>CEE_STARG\<close>
    ([Push1], InlineVar),  \<comment> \<open>CEE_LDLOC\<close>
    ([PushI], InlineVar),  \<comment> \<open>CEE_LDLOCA\<close>
    ([Push0], InlineVar),  \<comment> \<open>CEE_STLOC\<close>
    ([PushI], InlineNone),  \<comment> \<open>CEE_LOCALLOC\<close>
    ([Push0], InlineNone),  \<comment> \<open>CEE_UNUSED57\<close>
    ([Push0], InlineNone),  \<comment> \<open>CEE_ENDFILTER\<close>
    ([Push0], ShortInlineI),  \<comment> \<open>CEE_UNALIGNED\<close>
    ([Push0], InlineNone),  \<comment> \<open>CEE_VOLATILE\<close>
    ([Push0], InlineNone),  \<comment> \<open>CEE_TAILCALL\<close>
    ([Push0], InlineType),  \<comment> \<open>CEE_INITOBJ\<close>
    ([Push0], InlineType),  \<comment> \<open>CEE_CONSTRAINED\<close>
    ([Push0], InlineNone),  \<comment> \<open>CEE_CPBLK\<close>
    ([Push0], InlineNone),  \<comment> \<open>CEE_INITBLK\<close>
    ([Push0], InlineNone),  \<comment> \<open>CEE_UNUSED69\<close>
    ([Push0], InlineNone),  \<comment> \<open>CEE_RETHROW\<close>
    ([Push0], InlineNone),  \<comment> \<open>CEE_UNUSED51\<close>
    ([PushI], InlineType),  \<comment> \<open>CEE_SIZEOF\<close>
    ([PushI], InlineNone),  \<comment> \<open>CEE_REFANYTYPE\<close>
    ([Push0], InlineNone),  \<comment> \<open>CEE_READONLY\<close>
    ([Push0], InlineNone),  \<comment> \<open>CEE_UNUSED53\<close>
    ([Push0], InlineNone),  \<comment> \<open>CEE_UNUSED54\<close>
    ([Push0], InlineNone),  \<comment> \<open>CEE_UNUSED55\<close>
    ([Push0], InlineNone),  \<comment> \<open>CEE_UNUSED70\<close>
    ([Push0], InlineNone),  \<comment> \<open>CEE_ILLEGAL\<close>
    ([Push0], InlineNone),  \<comment> \<open>CEE_MACRO_END\<close>
    ([Push0], InlineNone)]"

definition opdefs :: "opdef list" where
  "opdefs = opdefs_00 @ opdefs_80 @ opdefs_FE"

section \<open>The tables of il_rewriter.cpp\<close>

abbreviation (input) OPCODEFLAGS_SizeMask :: byte where "OPCODEFLAGS_SizeMask \<equiv> 0x0F"
abbreviation (input) OPCODEFLAGS_BranchTarget :: byte where "OPCODEFLAGS_BranchTarget \<equiv> 0x10"
abbreviation (input) OPCODEFLAGS_Switch :: byte where "OPCODEFLAGS_Switch \<equiv> 0x20"

fun args_flags :: "args_kind \<Rightarrow> byte" where
  "args_flags InlineNone = 0"
| "args_flags ShortInlineVar = 1"
| "args_flags InlineVar = 2"
| "args_flags ShortInlineI = 1"
| "args_flags InlineI = 4"
| "args_flags InlineI8 = 8"
| "args_flags ShortInlineR = 4"
| "args_flags InlineR = 8"
| "args_flags ShortInlineBrTarget = 1 OR OPCODEFLAGS_BranchTarget"
| "args_flags InlineBrTarget = 4 OR OPCODEFLAGS_BranchTarget"
| "args_flags InlineMethod = 4"
| "args_flags InlineField = 4"
| "args_flags InlineType = 4"
| "args_flags InlineString = 4"
| "args_flags InlineSig = 4"
| "args_flags InlineRVA = 4"
| "args_flags InlineTok = 4"
| "args_flags InlineSwitch = 0 OR OPCODEFLAGS_Switch"

fun push_count :: "push_kind \<Rightarrow> u32" where
  "push_count Push0 = 0"
| "push_count Push1 = 1"
| "push_count PushI = 1"
| "push_count PushI4 = 1"
| "push_count PushR4 = 1"
| "push_count PushI8 = 1"
| "push_count PushR8 = 1"
| "push_count PushRef = 1"
| "push_count VarPush = 1"

definition s_OpCodeFlags :: "byte list" where
  "s_OpCodeFlags = map (\<lambda>(push, args). args_flags args) opdefs @ [0, 4 OR OPCODEFLAGS_BranchTarget]"

definition k_rgnStackPushes :: "u32 list" where
  "k_rgnStackPushes = map (\<lambda>(push, args). sum_list (map push_count push)) opdefs @ [0, 0]"

type_synonym opcode = u32

abbreviation (input) CEE_NOP :: opcode where "CEE_NOP \<equiv> 0x00"
abbreviation (input) CEE_LDARG_0 :: opcode where "CEE_LDARG_0 \<equiv> 0x02"
abbreviation (input) CEE_LDARG_1 :: opcode where "CEE_LDARG_1 \<equiv> 0x03"
abbreviation (input) CEE_LDARG_2 :: opcode where "CEE_LDARG_2 \<equiv> 0x04"
abbreviation (input) CEE_LDARG_3 :: opcode where "CEE_LDARG_3 \<equiv> 0x05"
abbreviation (input) CEE_LDLOC_0 :: opcode where "CEE_LDLOC_0 \<equiv> 0x06"
abbreviation (input) CEE_LDARG_S :: opcode where "CEE_LDARG_S \<equiv> 0x0e"
abbreviation (input) CEE_LDNULL :: opcode where "CEE_LDNULL \<equiv> 0x14"
abbreviation (input) CEE_LDC_I4_0 :: opcode where "CEE_LDC_I4_0 \<equiv> 0x16"
abbreviation (input) CEE_LDC_I4_S :: opcode where "CEE_LDC_I4_S \<equiv> 0x1f"
abbreviation (input) CEE_LDC_I4 :: opcode where "CEE_LDC_I4 \<equiv> 0x20"
abbreviation (input) CEE_LDC_I8 :: opcode where "CEE_LDC_I8 \<equiv> 0x21"
abbreviation (input) CEE_DUP :: opcode where "CEE_DUP \<equiv> 0x25"
abbreviation (input) CEE_POP :: opcode where "CEE_POP \<equiv> 0x26"
abbreviation (input) CEE_CALL :: opcode where "CEE_CALL \<equiv> 0x28"
abbreviation (input) CEE_RET :: opcode where "CEE_RET \<equiv> 0x2a"
abbreviation (input) CEE_BR_S :: opcode where "CEE_BR_S \<equiv> 0x2b"
abbreviation (input) CEE_BLT_UN_S :: opcode where "CEE_BLT_UN_S \<equiv> 0x37"
abbreviation (input) CEE_BR :: opcode where "CEE_BR \<equiv> 0x38"
abbreviation (input) CEE_BLT_UN :: opcode where "CEE_BLT_UN \<equiv> 0x44"
abbreviation (input) CEE_SWITCH :: opcode where "CEE_SWITCH \<equiv> 0x45"
abbreviation (input) CEE_CALLVIRT :: opcode where "CEE_CALLVIRT \<equiv> 0x6f"
abbreviation (input) CEE_LDSTR :: opcode where "CEE_LDSTR \<equiv> 0x72"
abbreviation (input) CEE_NEWOBJ :: opcode where "CEE_NEWOBJ \<equiv> 0x73"
abbreviation (input) CEE_CASTCLASS :: opcode where "CEE_CASTCLASS \<equiv> 0x74"
abbreviation (input) CEE_BOX :: opcode where "CEE_BOX \<equiv> 0x8c"
abbreviation (input) CEE_NEWARR :: opcode where "CEE_NEWARR \<equiv> 0x8d"
abbreviation (input) CEE_STELEM_REF :: opcode where "CEE_STELEM_REF \<equiv> 0xa2"
abbreviation (input) CEE_UNBOX_ANY :: opcode where "CEE_UNBOX_ANY \<equiv> 0xa5"
abbreviation (input) CEE_LEAVE :: opcode where "CEE_LEAVE \<equiv> 0xdd"
abbreviation (input) CEE_LEAVE_S :: opcode where "CEE_LEAVE_S \<equiv> 0xde"
abbreviation (input) CEE_PREFIX7 :: opcode where "CEE_PREFIX7 \<equiv> 0xf8"
abbreviation (input) CEE_PREFIX2 :: opcode where "CEE_PREFIX2 \<equiv> 0xfd"
abbreviation (input) CEE_PREFIX1 :: opcode where "CEE_PREFIX1 \<equiv> 0xfe"
abbreviation (input) CEE_LDARG :: opcode where "CEE_LDARG \<equiv> 0x109"
abbreviation (input) CEE_INITOBJ :: opcode where "CEE_INITOBJ \<equiv> 0x115"
abbreviation (input) CEE_COUNT :: opcode where "CEE_COUNT \<equiv> 294"
abbreviation (input) CEE_SWITCH_ARG :: opcode where "CEE_SWITCH_ARG \<equiv> 295"

text \<open>Reading the tables by opcode; an index past their end is a read out of bounds.\<close>

definition opcode_flags :: "opcode \<Rightarrow> byte option" where
  "opcode_flags op = (if unat op < length s_OpCodeFlags then Some (s_OpCodeFlags ! unat op) else None)"

definition stack_pushes :: "opcode \<Rightarrow> u32 option" where
  "stack_pushes op =
     (if unat op < length k_rgnStackPushes then Some (k_rgnStackPushes ! unat op) else None)"

section \<open>Facts about the tables\<close>

lemma length_tables: "length opdefs = 294" "length s_OpCodeFlags = 296" "length k_rgnStackPushes = 296"
  by code_simp+

text \<open>Where the switch, the branches and the eight byte operands are, checked over the whole table.\<close>

definition row_ok :: "int \<Rightarrow> opdef \<Rightarrow> bool" where
  "row_ok n row \<longleftrightarrow>
     (case snd row of
        InlineSwitch \<Rightarrow> n = 0x45
      | ShortInlineBrTarget \<Rightarrow> 0x2b \<le> n \<and> n \<le> 0x37 \<or> n = 0xde
      | InlineBrTarget \<Rightarrow> 0x38 \<le> n \<and> n \<le> 0x44 \<or> n = 0xdd
      | InlineI8 \<Rightarrow> n = 0x21
      | InlineR \<Rightarrow> n = 0x23
      | _ \<Rightarrow> \<not> (0x2b \<le> n \<and> n \<le> 0x45) \<and> n \<noteq> 0xde \<and> n \<noteq> 0xdd)"

lemma rows_ok: "list_all (\<lambda>(n, row). row_ok n row) (zip [0..293] opdefs)"
  by code_simp

lemma push_kinds_ok: "list_all (\<lambda>(push, args). length push \<le> 2) opdefs"
  by code_simp

lemma row_ok_nth:
  assumes "n < 294"
  shows "row_ok (int n) (opdefs ! n)"
proof -
  have "(int n, opdefs ! n) \<in> set (zip [0..293] opdefs)"
    using assms by (auto simp: set_zip length_tables intro!: exI [of _ n])
  with rows_ok show ?thesis by (auto simp: list_all_iff)
qed

lemma args_flags_range: "args_flags a \<in> {0, 1, 2, 4, 8, 0x11, 0x14, 0x20}"
  by (cases a) simp_all

lemma opcode_flags_opdefs:
  assumes "unat op < 294"
  shows "opcode_flags op = Some (args_flags (snd (opdefs ! unat op)))"
  using assms
  by (auto simp: opcode_flags_def length_tables s_OpCodeFlags_def nth_append split_beta)

lemma opcode_flags_internal: "opcode_flags CEE_COUNT = Some 0" "opcode_flags CEE_SWITCH_ARG = Some 0x14"
  by (simp_all add: opcode_flags_def length_tables s_OpCodeFlags_def nth_append)

lemma opcode_flags_bound: "opcode_flags op = Some f \<Longrightarrow> unat op < 296"
  by (auto simp: opcode_flags_def length_tables split: if_split_asm)

text \<open>The flags an opcode of the table can have.\<close>

lemma opcode_flags_cases:
  assumes "opcode_flags op = Some f" "op < CEE_COUNT"
  shows "f \<in> {0, 1, 2, 4, 8, 0x11, 0x14, 0x20}"
    and "f = 0x20 \<longleftrightarrow> op = CEE_SWITCH"
    and "f = 0x11 \<longleftrightarrow> CEE_BR_S \<le> op \<and> op \<le> CEE_BLT_UN_S \<or> op = CEE_LEAVE_S"
    and "f = 0x14 \<longleftrightarrow> CEE_BR \<le> op \<and> op \<le> CEE_BLT_UN \<or> op = CEE_LEAVE"
    and "0x100 \<le> op \<Longrightarrow> f \<noteq> 8"
proof -
  have n: "unat op < 294" using assms(2) by (simp add: word_less_nat_alt)
  have f: "f = args_flags (snd (opdefs ! unat op))"
    using opcode_flags_opdefs [OF n] assms(1) by simp
  obtain k a where k: "k = uint op" and a: "a = snd (opdefs ! unat op)" by blast
  have "int (unat op) = k" by (simp add: k)
  with row_ok_nth [OF n] a have row: "case a of
        InlineSwitch \<Rightarrow> k = 0x45
      | ShortInlineBrTarget \<Rightarrow> 0x2b \<le> k \<and> k \<le> 0x37 \<or> k = 0xde
      | InlineBrTarget \<Rightarrow> 0x38 \<le> k \<and> k \<le> 0x44 \<or> k = 0xdd
      | InlineI8 \<Rightarrow> k = 0x21
      | InlineR \<Rightarrow> k = 0x23
      | _ \<Rightarrow> \<not> (0x2b \<le> k \<and> k \<le> 0x45) \<and> k \<noteq> 0xde \<and> k \<noteq> 0xdd"
    by (simp only: row_ok_def)
  have switch: "op = CEE_SWITCH \<longleftrightarrow> k = 0x45"
    and short: "CEE_BR_S \<le> op \<and> op \<le> CEE_BLT_UN_S \<or> op = CEE_LEAVE_S \<longleftrightarrow> 0x2b \<le> k \<and> k \<le> 0x37 \<or> k = 0xde"
    and long: "CEE_BR \<le> op \<and> op \<le> CEE_BLT_UN \<or> op = CEE_LEAVE \<longleftrightarrow> 0x38 \<le> k \<and> k \<le> 0x44 \<or> k = 0xdd"
    and two: "0x100 \<le> op \<longleftrightarrow> 0x100 \<le> k"
    by (simp_all add: word_uint_eq_iff word_le_def k)
  show "f \<in> {0, 1, 2, 4, 8, 0x11, 0x14, 0x20}" unfolding f by (rule args_flags_range)
  show "f = 0x20 \<longleftrightarrow> op = CEE_SWITCH"
    unfolding switch f a [symmetric] using row by (cases a) auto
  show "f = 0x11 \<longleftrightarrow> CEE_BR_S \<le> op \<and> op \<le> CEE_BLT_UN_S \<or> op = CEE_LEAVE_S"
    unfolding short f a [symmetric] using row by (cases a) auto
  show "f = 0x14 \<longleftrightarrow> CEE_BR \<le> op \<and> op \<le> CEE_BLT_UN \<or> op = CEE_LEAVE"
    unfolding long f a [symmetric] using row by (cases a) auto
  show "0x100 \<le> op \<Longrightarrow> f \<noteq> 8"
    unfolding two f a [symmetric] using row by (cases a) auto
qed

lemma opcode_flags_defined: "op < CEE_COUNT \<Longrightarrow> \<exists>f. opcode_flags op = Some f"
  using opcode_flags_opdefs [of op] by (simp add: word_less_nat_alt)

end
