(* ===== verification/IL_List.thy ===== *)
theory IL_List
  imports Cor_Sig Opcodes "HOL-Library.Monad_Syntax"
begin

text \<open>
  The instruction list of \<open>ILRewriter\<close> (il_rewriter.h, il_rewriter.cpp): a doubly linked
  cyclic list of heap cells whose sentinel is the member \<open>m_IL\<close>. The heap is a map from
  addresses; \<open>NULL\<close> is never allocated, and following an address that is not allocated
  is the result \<open>None\<close>. The second half shows that \<open>InsertBefore\<close> and \<open>InsertAfter\<close>
  insert into the sequence the list stands for, whatever the position.
\<close>

section \<open>State\<close>

type_synonym addr = nat

abbreviation (input) NULL :: addr where "NULL \<equiv> 0"
abbreviation (input) m_IL :: addr where "m_IL \<equiv> 2"

text \<open>
  The union of \<open>ILInstr\<close>: integers of one to eight bytes that share their low end, or a
  pointer. Reading an integer where a pointer was stored has no value here.
\<close>

datatype operand = Bits u64 | Target addr

record ILInstr =
  m_pNext :: addr
  m_pPrev :: addr
  m_opcode :: opcode
  m_offset :: u32
  m_operand :: operand

datatype eh_operand = ClassToken mdToken | Filter addr

record EHClause =
  m_Flags :: u32
  m_pTryBegin :: addr
  m_pTryEnd :: addr
  m_pHandlerBegin :: addr
  m_pHandlerEnd :: addr
  m_ClassToken :: eh_operand

text \<open>
  \<open>il_heap\<close> holds \<open>m_IL\<close> and the cells, \<open>il_brk\<close> the next address \<open>new\<close> returns;
  \<open>m_pICorProfilerFunctionControl\<close> is whether that pointer is not null.
\<close>

record ILRewriter =
  m_pICorProfilerFunctionControl :: bool
  m_moduleId :: u64
  m_tkMethod :: mdToken
  m_tkLocalVarSig :: mdToken
  m_maxStack :: u32
  m_flags :: u32
  m_fGenerateTinyHeader :: bool
  il_heap :: "addr \<Rightarrow> ILInstr option"
  il_brk :: addr
  m_nEH :: u32
  m_pEH :: "EHClause list"
  m_pOffsetToInstr :: "addr list"
  m_CodeSize :: u32
  m_nInstrs :: u32

fun m_Arg8 :: "operand \<Rightarrow> byte option" where
  "m_Arg8 (Bits b) = Some (ucast b)"
| "m_Arg8 (Target a) = None"

fun m_Arg16 :: "operand \<Rightarrow> u16 option" where
  "m_Arg16 (Bits b) = Some (ucast b)"
| "m_Arg16 (Target a) = None"

fun m_Arg32 :: "operand \<Rightarrow> u32 option" where
  "m_Arg32 (Bits b) = Some (ucast b)"
| "m_Arg32 (Target a) = None"

fun m_Arg64 :: "operand \<Rightarrow> u64 option" where
  "m_Arg64 (Bits b) = Some b"
| "m_Arg64 (Target a) = None"

text \<open>Assigning one of the integers leaves the other bytes of the union as they are.\<close>

fun set_Arg8 :: "byte \<Rightarrow> operand \<Rightarrow> operand option" where
  "set_Arg8 v (Bits b) = Some (Bits (b AND NOT 0xff OR ucast v))"
| "set_Arg8 v (Target a) = None"

fun set_Arg16 :: "u16 \<Rightarrow> operand \<Rightarrow> operand option" where
  "set_Arg16 v (Bits b) = Some (Bits (b AND NOT 0xffff OR ucast v))"
| "set_Arg16 v (Target a) = None"

fun set_Arg32 :: "u32 \<Rightarrow> operand \<Rightarrow> operand option" where
  "set_Arg32 v (Bits b) = Some (Bits (b AND NOT 0xffffffff OR ucast v))"
| "set_Arg32 v (Target a) = None"

fun set_Arg64 :: "u64 \<Rightarrow> operand \<Rightarrow> operand option" where
  "set_Arg64 v (Bits b) = Some (Bits v)"
| "set_Arg64 v (Target a) = None"

definition get_instr :: "addr \<Rightarrow> ILRewriter \<Rightarrow> ILInstr option" where
  "get_instr p rw = il_heap rw p"

definition set_instr :: "addr \<Rightarrow> ILInstr \<Rightarrow> ILRewriter \<Rightarrow> ILRewriter" where
  "set_instr p i rw = rw\<lparr>il_heap := (il_heap rw)(p \<mapsto> i)\<rparr>"

definition upd_instr :: "addr \<Rightarrow> (ILInstr \<Rightarrow> ILInstr) \<Rightarrow> ILRewriter \<Rightarrow> ILRewriter option" where
  "upd_instr p f rw = do { i \<leftarrow> il_heap rw p; Some (set_instr p (f i) rw) }"

section \<open>Operations\<close>

text \<open>The constructor. Members it leaves uninitialised are given as zero.\<close>

definition new_ILInstr :: ILInstr where
  "new_ILInstr = \<lparr>m_pNext = NULL, m_pPrev = NULL, m_opcode = 0, m_offset = 0, m_operand = Bits 0\<rparr>"

definition ILRewriter_init :: "bool \<Rightarrow> u64 \<Rightarrow> mdToken \<Rightarrow> ILRewriter" where
  "ILRewriter_init control moduleID tkMethod =
     \<lparr>m_pICorProfilerFunctionControl = control, m_moduleId = moduleID, m_tkMethod = tkMethod,
      m_tkLocalVarSig = 0, m_maxStack = 0, m_flags = 0, m_fGenerateTinyHeader = False,
      il_heap = [m_IL \<mapsto> new_ILInstr\<lparr>m_pNext := m_IL, m_pPrev := m_IL\<rparr>], il_brk = 3,
      m_nEH = 0, m_pEH = [], m_pOffsetToInstr = [], m_CodeSize = 0, m_nInstrs = 0\<rparr>"

definition InitializeTiny :: "ILRewriter \<Rightarrow> ILRewriter" where
  "InitializeTiny rw =
     rw\<lparr>m_tkLocalVarSig := 0, m_maxStack := 8, m_flags := 2, m_CodeSize := 0, m_nEH := 0,
        m_fGenerateTinyHeader := True\<rparr>"

definition SetTkLocalVarSig :: "mdToken \<Rightarrow> ILRewriter \<Rightarrow> ILRewriter" where
  "SetTkLocalVarSig tk rw = rw\<lparr>m_tkLocalVarSig := tk, m_fGenerateTinyHeader := False\<rparr>"

definition NewILInstr :: "ILRewriter \<Rightarrow> addr \<times> ILRewriter" where
  "NewILInstr rw =
     (il_brk rw,
      rw\<lparr>m_nInstrs := m_nInstrs rw + 1, il_heap := (il_heap rw)(il_brk rw \<mapsto> new_ILInstr),
         il_brk := il_brk rw + 1\<rparr>)"

definition AdjustState :: "addr \<Rightarrow> ILRewriter \<Rightarrow> ILRewriter option" where
  "AdjustState pNewInstr rw = do {
     i \<leftarrow> get_instr pNewInstr rw;
     n \<leftarrow> stack_pushes (m_opcode i);
     Some (rw\<lparr>m_maxStack := m_maxStack rw + n\<rparr>)
   }"

definition InsertBefore :: "addr \<Rightarrow> addr \<Rightarrow> ILRewriter \<Rightarrow> ILRewriter option" where
  "InsertBefore pWhere pWhat rw = do {
     rw \<leftarrow> upd_instr pWhat (m_pNext_update (\<lambda>_. pWhere)) rw;
     i \<leftarrow> get_instr pWhere rw;
     rw \<leftarrow> upd_instr pWhat (m_pPrev_update (\<lambda>_. m_pPrev i)) rw;
     w \<leftarrow> get_instr pWhat rw;
     rw \<leftarrow> upd_instr (m_pNext w) (m_pPrev_update (\<lambda>_. pWhat)) rw;
     w \<leftarrow> get_instr pWhat rw;
     rw \<leftarrow> upd_instr (m_pPrev w) (m_pNext_update (\<lambda>_. pWhat)) rw;
     AdjustState pWhat rw
   }"

definition InsertAfter :: "addr \<Rightarrow> addr \<Rightarrow> ILRewriter \<Rightarrow> ILRewriter option" where
  "InsertAfter pWhere pWhat rw = do {
     i \<leftarrow> get_instr pWhere rw;
     rw \<leftarrow> upd_instr pWhat (m_pNext_update (\<lambda>_. m_pNext i)) rw;
     rw \<leftarrow> upd_instr pWhat (m_pPrev_update (\<lambda>_. pWhere)) rw;
     w \<leftarrow> get_instr pWhat rw;
     rw \<leftarrow> upd_instr (m_pNext w) (m_pPrev_update (\<lambda>_. pWhat)) rw;
     w \<leftarrow> get_instr pWhat rw;
     rw \<leftarrow> upd_instr (m_pPrev w) (m_pNext_update (\<lambda>_. pWhat)) rw;
     AdjustState pWhat rw
   }"

text \<open>
  The walk of the \<open>for\<close> loops over the list, from \<open>p\<close> along \<open>m_pNext\<close> to the sentinel.
  No more cells can be passed than have been allocated.
\<close>

fun walk :: "nat \<Rightarrow> (addr \<Rightarrow> ILInstr option) \<Rightarrow> addr \<Rightarrow> addr list option" where
  "walk 0 h p = None"
| "walk (Suc n) h p =
     (if p = m_IL then Some []
      else do { i \<leftarrow> h p; ps \<leftarrow> walk n h (m_pNext i); Some (p # ps) })"

definition GetILList :: "ILRewriter \<Rightarrow> addr list option" where
  "GetILList rw = do { i \<leftarrow> il_heap rw m_IL; walk (il_brk rw) (il_heap rw) (m_pNext i) }"

section \<open>The sequence a heap stands for\<close>

definition nx :: "(addr \<Rightarrow> ILInstr option) \<Rightarrow> addr \<Rightarrow> addr option" where
  "nx h a = map_option m_pNext (h a)"

definition pv :: "(addr \<Rightarrow> ILInstr option) \<Rightarrow> addr \<Rightarrow> addr option" where
  "pv h a = map_option m_pPrev (h a)"

definition linked :: "(addr \<Rightarrow> ILInstr option) \<Rightarrow> addr \<Rightarrow> addr \<Rightarrow> bool" where
  "linked h a b \<longleftrightarrow> nx h a = Some b \<and> pv h b = Some a"

fun chain :: "(addr \<Rightarrow> ILInstr option) \<Rightarrow> addr list \<Rightarrow> bool" where
  "chain h [] = True"
| "chain h [a] = True"
| "chain h (a # b # r) = (linked h a b \<and> chain h (b # r))"

text \<open>
  The cells lie between the sentinel and \<open>il_brk\<close>, and \<open>m_nInstrs\<close> counts them.
  \<open>rw\<close> holds the sequence \<open>xs\<close>: the sentinel, \<open>xs\<close> and the sentinel again are linked in
  both directions, without repetition, in allocated cells.
\<close>

definition heap_ok :: "ILRewriter \<Rightarrow> bool" where
  "heap_ok rw \<longleftrightarrow> il_heap rw m_IL \<noteq> None \<and>
     (\<forall>a. il_heap rw a \<noteq> None \<longrightarrow> m_IL \<le> a \<and> a < il_brk rw) \<and>
     m_nInstrs rw = word_of_nat (il_brk rw - 3)"

definition il_list :: "ILRewriter \<Rightarrow> addr list \<Rightarrow> bool" where
  "il_list rw xs \<longleftrightarrow> heap_ok rw \<and> distinct (m_IL # xs) \<and> chain (il_heap rw) (m_IL # xs @ [m_IL])"

text \<open>A cell that has been allocated and is not in the list.\<close>

definition detached :: "ILRewriter \<Rightarrow> addr list \<Rightarrow> addr \<Rightarrow> bool" where
  "detached rw xs w \<longleftrightarrow> il_heap rw w \<noteq> None \<and> w \<noteq> m_IL \<and> w \<notin> set xs"

lemma chain_append:
  "as \<noteq> [] \<Longrightarrow> bs \<noteq> [] \<Longrightarrow>
   chain h (as @ bs) \<longleftrightarrow> chain h as \<and> linked h (last as) (hd bs) \<and> chain h bs"
proof (induction h as rule: chain.induct)
  case (2 h a)
  then show ?case by (cases bs) auto
qed auto

lemma chain_frame:
  "(\<And>x. x \<in> set (butlast xs) \<Longrightarrow> nx h' x = nx h x) \<Longrightarrow>
   (\<And>y. y \<in> set (tl xs) \<Longrightarrow> pv h' y = pv h y) \<Longrightarrow> chain h xs \<Longrightarrow> chain h' xs"
proof (induction h xs rule: chain.induct)
  case (3 h a b r)
  then have "linked h' a b" by (simp add: linked_def)
  moreover have "chain h' (b # r)"
    using "3.prems" by (intro "3.IH") (auto split: if_split_asm)
  ultimately show ?case by simp
qed auto

lemma chain_next:
  assumes "chain h (as @ a # b # bs)"
  shows "nx h a = Some b" "pv h b = Some a"
  using assms chain_append [of "as @ [a]" "b # bs" h] by (simp_all add: linked_def)

lemma chain_allocated:
  assumes "chain h (m_IL # xs @ [m_IL])" "x \<in> set xs"
  shows "h x \<noteq> None"
proof -
  obtain as bs where "xs = as @ x # bs" using assms(2) by (meson split_list)
  then obtain y ys where "m_IL # xs @ [m_IL] = (m_IL # as) @ x # y # ys"
    by (cases bs) auto
  with chain_next(1) [of h "m_IL # as" x y ys] assms(1) show ?thesis by (auto simp: nx_def)
qed

lemma il_list_allocated: "il_list rw xs \<Longrightarrow> x \<in> set xs \<Longrightarrow> il_heap rw x \<noteq> None"
  by (auto simp: il_list_def dest: chain_allocated)

text \<open>Putting \<open>w\<close> between \<open>a\<close> and \<open>b\<close>, where \<open>a\<close> ends the first part and \<open>b\<close> starts the second.\<close>

lemma chain_insert:
  assumes c: "chain h (as @ bs)" "as \<noteq> []" "bs \<noteq> []"
    and d: "distinct as" "distinct (tl as @ bs)" "w \<notin> set as" "w \<notin> set bs"
      "last as \<notin> set (butlast bs)"
    and nx: "nx h' w = Some (hd bs)" "nx h' (last as) = Some w"
      "\<And>x. x \<noteq> w \<Longrightarrow> x \<noteq> last as \<Longrightarrow> nx h' x = nx h x"
    and pv: "pv h' w = Some (last as)" "pv h' (hd bs) = Some w"
      "\<And>x. x \<noteq> w \<Longrightarrow> x \<noteq> hd bs \<Longrightarrow> pv h' x = pv h x"
  shows "chain h' (as @ w # bs)"
proof -
  note parts = c(1) [unfolded chain_append [OF c(2,3)]]
  have "chain h' as"
  proof (rule chain_frame [of as h' h])
    fix x assume x: "x \<in> set (butlast as)"
    with d(1) c(2) have "x \<noteq> last as"
      by (metis append_butlast_last_id distinct.simps(2) distinct1_rotate rotate1.simps(2))
    moreover have "x \<noteq> w" using x d(3) by (auto dest: in_set_butlastD)
    ultimately show "nx h' x = nx h x" using nx(3) by simp
  next
    fix y assume y: "y \<in> set (tl as)"
    with d(2) c(3) have "y \<noteq> hd bs" by (auto simp: hd_in_set)
    moreover have "y \<noteq> w" using y d(3) c(2) by (auto dest: list.set_sel(2))
    ultimately show "pv h' y = pv h y" using pv(3) by simp
  qed (use parts in simp)
  moreover have "chain h' bs"
  proof (rule chain_frame [of bs h' h])
    fix x assume x: "x \<in> set (butlast bs)"
    with d(4,5) show "nx h' x = nx h x" by (intro nx(3)) (auto dest: in_set_butlastD)
  next
    fix y assume y: "y \<in> set (tl bs)"
    with d(2,4) c(3) show "pv h' y = pv h y" by (intro pv(3)) (cases bs; auto)+
  qed (use parts in simp)
  moreover have "linked h' (last as) w" "linked h' w (hd bs)"
    using nx(1,2) pv(1,2) by (simp_all add: linked_def)
  ultimately show ?thesis
    using c(2,3) by (cases bs) (auto simp: chain_append)
qed

lemma nx_upd [simp]:
  "nx (h(p \<mapsto> i)) x = (if x = p then Some (m_pNext i) else nx h x)"
  "pv (h(p \<mapsto> i)) x = (if x = p then Some (m_pPrev i) else pv h x)"
  by (auto simp: nx_def pv_def)

lemma chain_append_single: "chain h (as @ [a, b]) \<longleftrightarrow> chain h (as @ [a]) \<and> linked h a b"
  using chain_append [of "as @ [a]" "[b]" h] by simp

text \<open>The heap after the four pointer assignments, for an insertion between \<open>a\<close> and \<open>b\<close>.\<close>

definition modify :: "(addr \<Rightarrow> ILInstr option) \<Rightarrow> addr \<Rightarrow> (ILInstr \<Rightarrow> ILInstr) \<Rightarrow> addr \<Rightarrow> ILInstr option" where
  "modify h p f = (\<lambda>x. if x = p then map_option f (h x) else h x)"

lemma modify_simps [simp]:
  "modify h p f p = map_option f (h p)"
  "x \<noteq> p \<Longrightarrow> modify h p f x = h x"
  "modify h p f x = None \<longleftrightarrow> h x = None"
  by (auto simp: modify_def)

lemma upd_instr_eq:
  "il_heap rw p \<noteq> None \<Longrightarrow> upd_instr p f rw = Some (rw\<lparr>il_heap := modify (il_heap rw) p f\<rparr>)"
  by (auto simp: upd_instr_def set_instr_def modify_def fun_eq_iff bind_eq_Some_conv
        intro!: ILRewriter.equality)

definition link_between :: "addr \<Rightarrow> addr \<Rightarrow> addr \<Rightarrow> (addr \<Rightarrow> ILInstr option) \<Rightarrow> addr \<Rightarrow> ILInstr option" where
  "link_between a w b h =
     modify (modify (modify (modify h w (m_pNext_update (\<lambda>_. b))) w (m_pPrev_update (\<lambda>_. a)))
        b (m_pPrev_update (\<lambda>_. w))) a (m_pNext_update (\<lambda>_. w))"

lemma link_between_None: "link_between a w b h x = None \<longleftrightarrow> h x = None"
  by (simp add: link_between_def)

lemma link_between_nx:
  "h w \<noteq> None \<Longrightarrow> a \<noteq> w \<Longrightarrow> nx (link_between a w b h) w = Some b"
  "h a \<noteq> None \<Longrightarrow> nx (link_between a w b h) a = Some w"
  "x \<noteq> w \<Longrightarrow> x \<noteq> a \<Longrightarrow> nx (link_between a w b h) x = nx h x"
  by (auto simp: link_between_def nx_def modify_def option.map_comp o_def)

lemma link_between_pv:
  "h w \<noteq> None \<Longrightarrow> b \<noteq> w \<Longrightarrow> pv (link_between a w b h) w = Some a"
  "h b \<noteq> None \<Longrightarrow> pv (link_between a w b h) b = Some w"
  "x \<noteq> w \<Longrightarrow> x \<noteq> b \<Longrightarrow> pv (link_between a w b h) x = pv h x"
  by (auto simp: link_between_def pv_def modify_def option.map_comp o_def)

text \<open>What the instructions are, apart from their links, is not changed.\<close>

definition content :: "ILInstr \<Rightarrow> opcode \<times> u32 \<times> operand" where
  "content i = (m_opcode i, m_offset i, m_operand i)"

lemma content_links [simp]:
  "content (m_pNext_update f i) = content i" "content (m_pPrev_update f i) = content i"
  by (simp_all add: content_def)

lemma link_between_content:
  "map_option content (link_between a w b h x) = map_option content (h x)"
  by (auto simp: link_between_def modify_def option.map_comp o_def)

lemma il_list_insert:
  assumes l: "il_list rw (as @ bs)" and w: "detached rw (as @ bs) w"
    and a: "a = last (m_IL # as)" and b: "b = hd (bs @ [m_IL])"
    and h: "il_heap rw' = link_between a w b (il_heap rw)" and brk: "il_brk rw' = il_brk rw"
    and n: "m_nInstrs rw' = m_nInstrs rw"
  shows "il_list rw' (as @ w # bs)"
proof -
  let ?h = "il_heap rw"
  note c = l [unfolded il_list_def]
  have alloc: "?h x \<noteq> None" if "x \<in> set (m_IL # as @ bs)" for x
    using that l il_list_allocated [OF l, of x] by (auto simp: il_list_def heap_ok_def)
  have "a \<in> set (m_IL # as)" unfolding a by (rule last_in_set) simp
  then have a': "a \<noteq> w" "?h a \<noteq> None"
    using w alloc [of a] by (auto simp: detached_def)
  have "b \<in> set (bs @ [m_IL])" unfolding b by (rule hd_in_set) simp
  then have b': "b \<noteq> w" "?h b \<noteq> None"
    using w alloc [of b] by (auto simp: detached_def)
  have w': "?h w \<noteq> None" "w \<noteq> m_IL" "w \<notin> set (as @ bs)"
    using w by (auto simp: detached_def)
  have a_eq: "(if as = [] then m_IL else last as) = a" "last (m_IL # as) = a"
    by (simp_all add: a)
  have "a \<notin> set bs" using c \<open>a \<in> set (m_IL # as)\<close> by auto
  then have "chain (il_heap rw') ((m_IL # as) @ w # bs @ [m_IL])"
    using c w'
    by (intro chain_insert [of ?h])
       (simp_all add: h a [symmetric] b [symmetric] link_between_nx link_between_pv a' b' a_eq)
  with c w' show ?thesis
    by (simp add: il_list_def heap_ok_def brk n h link_between_None)
qed

lemma InsertBefore_heap:
  assumes p: "il_heap rw p = Some i" and w: "il_heap rw w = Some iw" "w \<noteq> p"
    and a: "m_pPrev i = a" "il_heap rw a \<noteq> None" "a \<noteq> w"
    and n: "stack_pushes (m_opcode iw) = Some n"
  shows "InsertBefore p w rw =
    Some (rw\<lparr>il_heap := link_between a w p (il_heap rw), m_maxStack := m_maxStack rw + n\<rparr>)"
  using assms
  by (simp add: InsertBefore_def AdjustState_def upd_instr_eq get_instr_def link_between_def)

lemma InsertAfter_heap:
  assumes p: "il_heap rw p = Some i" and w: "il_heap rw w = Some iw" "w \<noteq> p"
    and b: "m_pNext i = b" "il_heap rw b \<noteq> None" "b \<noteq> w"
    and n: "stack_pushes (m_opcode iw) = Some n"
  shows "InsertAfter p w rw =
    Some (rw\<lparr>il_heap := link_between p w b (il_heap rw), m_maxStack := m_maxStack rw + n\<rparr>)"
  using assms
  by (simp add: InsertAfter_def AdjustState_def upd_instr_eq get_instr_def link_between_def)

text \<open>The ends of the two parts of the list, as the pointers of the heap have them.\<close>

lemma il_list_ends:
  assumes "il_list rw (as @ bs)" "a = last (m_IL # as)" "b = hd (bs @ [m_IL])"
  obtains ia ib where "il_heap rw a = Some ia" "m_pNext ia = b" "il_heap rw b = Some ib" "m_pPrev ib = a"
proof -
  have "linked (il_heap rw) (last (m_IL # as)) (hd (bs @ [m_IL]))"
    using assms(1) chain_append [of "m_IL # as" "bs @ [m_IL]" "il_heap rw"]
    by (simp add: il_list_def)
  with assms(2,3) that show thesis by (auto simp: linked_def nx_def pv_def)
qed

lemma detached_ends:
  assumes "detached rw (as @ bs) w"
  shows "last (m_IL # as) \<noteq> w" "hd (bs @ [m_IL]) \<noteq> w"
  using assms last_in_set [of "m_IL # as"] hd_in_set [of "bs @ [m_IL]"] by (auto simp: detached_def)

lemma InsertBefore_il_list:
  assumes l: "il_list rw (as @ bs)" and w: "detached rw (as @ bs) w"
    and p: "p = hd (bs @ [m_IL])"
    and n: "stack_pushes (m_opcode (the (il_heap rw w))) = Some n"
  shows "\<exists>h. InsertBefore p w rw = Some (rw\<lparr>il_heap := h, m_maxStack := m_maxStack rw + n\<rparr>) \<and>
    il_list (rw\<lparr>il_heap := h, m_maxStack := m_maxStack rw + n\<rparr>) (as @ w # bs) \<and>
    (\<forall>x. map_option content (h x) = map_option content (il_heap rw x))"
proof -
  define a where "a = last (m_IL # as)"
  obtain ia ip where i: "il_heap rw a = Some ia" "il_heap rw p = Some ip" "m_pPrev ip = a"
    by (rule il_list_ends [OF l a_def p]) auto
  obtain iw where iw: "il_heap rw w = Some iw" using w by (auto simp: detached_def)
  have "InsertBefore p w rw =
      Some (rw\<lparr>il_heap := link_between a w p (il_heap rw), m_maxStack := m_maxStack rw + n\<rparr>)"
    using i iw n detached_ends [OF w] by (intro InsertBefore_heap) (auto simp: a_def p)
  moreover have "il_list (rw\<lparr>il_heap := link_between a w p (il_heap rw), m_maxStack := m_maxStack rw + n\<rparr>)
      (as @ w # bs)"
    by (rule il_list_insert [OF l w a_def p]) simp_all
  ultimately show ?thesis using link_between_content [of a w p "il_heap rw"] by blast
qed

lemma InsertAfter_il_list:
  assumes l: "il_list rw (as @ bs)" and w: "detached rw (as @ bs) w"
    and p: "p = last (m_IL # as)"
    and n: "stack_pushes (m_opcode (the (il_heap rw w))) = Some n"
  shows "\<exists>h. InsertAfter p w rw = Some (rw\<lparr>il_heap := h, m_maxStack := m_maxStack rw + n\<rparr>) \<and>
    il_list (rw\<lparr>il_heap := h, m_maxStack := m_maxStack rw + n\<rparr>) (as @ w # bs) \<and>
    (\<forall>x. map_option content (h x) = map_option content (il_heap rw x))"
proof -
  define b where "b = hd (bs @ [m_IL])"
  obtain ip ib where i: "il_heap rw b = Some ib" "il_heap rw p = Some ip" "m_pNext ip = b"
    by (rule il_list_ends [OF l p b_def]) auto
  obtain iw where iw: "il_heap rw w = Some iw" using w by (auto simp: detached_def)
  have "InsertAfter p w rw =
      Some (rw\<lparr>il_heap := link_between p w b (il_heap rw), m_maxStack := m_maxStack rw + n\<rparr>)"
    using i iw n detached_ends [OF w] by (intro InsertAfter_heap) (auto simp: b_def p)
  moreover have "il_list (rw\<lparr>il_heap := link_between p w b (il_heap rw), m_maxStack := m_maxStack rw + n\<rparr>)
      (as @ w # bs)"
    by (rule il_list_insert [OF l w p b_def]) simp_all
  ultimately show ?thesis using link_between_content [of p w b "il_heap rw"] by blast
qed

section \<open>Walking the list\<close>

lemma walk_chain:
  "chain h (p # ps @ [m_IL]) \<Longrightarrow> m_IL \<notin> set (p # ps) \<Longrightarrow> length ps + 1 < n \<Longrightarrow>
   walk n h p = Some (p # ps)"
proof (induction ps arbitrary: n p)
  case Nil
  then obtain m i where "n = Suc (Suc m)" "h p = Some i" "m_pNext i = m_IL"
    by (cases n; cases "n - 1") (auto simp: linked_def nx_def)
  then show ?case using Nil by simp
next
  case (Cons q ps)
  then obtain m i where "n = Suc m" "h p = Some i" "m_pNext i = q"
    by (cases n) (auto simp: linked_def nx_def)
  with Cons show ?case by simp
qed

lemma il_list_length:
  assumes "il_list rw xs"
  shows "length xs + 3 \<le> il_brk rw"
proof -
  have h: "il_heap rw m_IL \<noteq> None" "\<And>a. il_heap rw a \<noteq> None \<Longrightarrow> m_IL \<le> a \<and> a < il_brk rw"
    using assms by (simp_all add: il_list_def heap_ok_def)
  have "set (m_IL # xs) \<subseteq> {m_IL..<il_brk rw}"
  proof
    fix x assume "x \<in> set (m_IL # xs)"
    then have "il_heap rw x \<noteq> None" using h(1) il_list_allocated [OF assms, of x] by auto
    with h(2) [of x] show "x \<in> {m_IL..<il_brk rw}" by simp
  qed
  then have "card (set (m_IL # xs)) \<le> card {m_IL..<il_brk rw}" by (rule card_mono [rotated]) simp
  moreover have "card (set (m_IL # xs)) = length xs + 1"
    using assms distinct_card [of "m_IL # xs"] by (simp add: il_list_def)
  moreover have "2 < il_brk rw" using h(1) h(2) [of m_IL] by simp
  ultimately show ?thesis by simp
qed

lemma GetILList_il_list:
  assumes "il_list rw xs"
  shows "GetILList rw = Some xs"
proof -
  have c: "chain (il_heap rw) (m_IL # xs @ [m_IL])" "m_IL \<notin> set xs"
    using assms by (simp_all add: il_list_def)
  obtain i where i: "il_heap rw m_IL = Some i" "m_pNext i = hd (xs @ [m_IL])"
    using il_list_ends [of rw "[]" xs m_IL "hd (xs @ [m_IL])"] assms by auto
  obtain k where k: "il_brk rw = Suc k" using il_list_length [OF assms] by (cases "il_brk rw") auto
  show ?thesis
  proof (cases xs)
    case Nil
    with i k show ?thesis by (simp add: GetILList_def)
  next
    case (Cons y ys)
    with c have "chain (il_heap rw) (y # ys @ [m_IL])" by simp
    then have "walk (il_brk rw) (il_heap rw) y = Some (y # ys)"
      using c(2) il_list_length [OF assms] by (intro walk_chain) (auto simp: Cons)
    with i Cons show ?thesis by (simp add: GetILList_def)
  qed
qed

lemma il_list_unique: "il_list rw xs \<Longrightarrow> il_list rw ys \<Longrightarrow> xs = ys"
  by (drule GetILList_il_list, drule GetILList_il_list) simp

section \<open>Emitting instructions\<close>

text \<open>
  The interface the code generators use: an instruction is created, given its opcode and
  operand, and inserted before a position. Emitting one after the other before the same
  position puts them there in order.
\<close>

fun emit_all :: "('a \<Rightarrow> 'i \<Rightarrow> 's \<Rightarrow> ('a \<times> 's) option) \<Rightarrow> 'a \<Rightarrow> 'i list \<Rightarrow> 's \<Rightarrow> ('a list \<times> 's) option" where
  "emit_all emit p [] s = Some ([], s)"
| "emit_all emit p (i # is) s = do {
     (w, s) \<leftarrow> emit p i s;
     (ws, s) \<leftarrow> emit_all emit p is s;
     Some (w # ws, s)
   }"

locale instruction_sequence =
  fixes seq :: "'s \<Rightarrow> 'a list \<Rightarrow> bool"
    and code_at :: "'s \<Rightarrow> 'a \<Rightarrow> 'i option"
    and rest :: "'s \<Rightarrow> 'r"
    and sentinel :: 'a
    and emit :: "'a \<Rightarrow> 'i \<Rightarrow> 's \<Rightarrow> ('a \<times> 's) option"
    and ok :: "'i \<Rightarrow> bool"
  assumes emit_before:
    "seq s (as @ bs) \<Longrightarrow> p = hd (bs @ [sentinel]) \<Longrightarrow> ok i \<Longrightarrow>
     \<exists>w s'. emit p i s = Some (w, s') \<and> seq s' (as @ w # bs) \<and> w \<notin> set (as @ bs) \<and>
       code_at s' w = Some i \<and> (\<forall>x \<in> set (as @ bs). code_at s' x = code_at s x) \<and> rest s' = rest s"
begin

lemma emit_all_before:
  "seq s (as @ bs) \<Longrightarrow> p = hd (bs @ [sentinel]) \<Longrightarrow> list_all ok is \<Longrightarrow>
   \<exists>ws s'. emit_all emit p is s = Some (ws, s') \<and> seq s' (as @ ws @ bs) \<and>
     map (code_at s') ws = map Some is \<and> (\<forall>x \<in> set (as @ bs). code_at s' x = code_at s x) \<and>
     rest s' = rest s"
proof (induction "is" arbitrary: s as)
  case Nil
  then show ?case by simp
next
  case (Cons i "is")
  obtain w s1 where w: "emit p i s = Some (w, s1)" "seq s1 (as @ w # bs)" "code_at s1 w = Some i"
      "\<forall>x \<in> set (as @ bs). code_at s1 x = code_at s x" "rest s1 = rest s"
    using emit_before [OF Cons.prems(1,2), of i] Cons.prems(3) by auto
  obtain ws s' where ws: "emit_all emit p is s1 = Some (ws, s')" "seq s' ((as @ [w]) @ ws @ bs)"
      "map (code_at s') ws = map Some is" "\<forall>x \<in> set ((as @ [w]) @ bs). code_at s' x = code_at s1 x"
      "rest s' = rest s1"
    using Cons.IH [of s1 "as @ [w]"] w(2) Cons.prems(2,3) by auto
  from w ws show ?case by (intro exI [of _ "w # ws"] exI [of _ s']) auto
qed

lemma emit_all_append:
  "seq s as \<Longrightarrow> list_all ok is \<Longrightarrow>
   \<exists>ws s'. emit_all emit sentinel is s = Some (ws, s') \<and> seq s' (as @ ws) \<and>
     map (code_at s') ws = map Some is \<and> (\<forall>x \<in> set as. code_at s' x = code_at s x) \<and>
     rest s' = rest s"
  using emit_all_before [of s as "[]" sentinel "is"] by simp

end

definition instr_code :: "ILRewriter \<Rightarrow> addr \<Rightarrow> (opcode \<times> operand) option" where
  "instr_code rw p = map_option (\<lambda>i. (m_opcode i, m_operand i)) (il_heap rw p)"

definition emit :: "addr \<Rightarrow> opcode \<times> operand \<Rightarrow> ILRewriter \<Rightarrow> (addr \<times> ILRewriter) option" where
  "emit pWhere code rw =
     (let (pNewInstr, rw) = NewILInstr rw in do {
        rw \<leftarrow> upd_instr pNewInstr (\<lambda>i. i\<lparr>m_opcode := fst code, m_operand := snd code\<rparr>) rw;
        rw \<leftarrow> InsertBefore pWhere pNewInstr rw;
        Some (pNewInstr, rw)
      })"

definition code_ok :: "opcode \<times> operand \<Rightarrow> bool" where
  "code_ok c \<longleftrightarrow> stack_pushes (fst c) \<noteq> None"

text \<open>Every insertion allocates one cell.\<close>

lemma upd_instr_brk: "upd_instr p f rw = Some rw' \<Longrightarrow> il_brk rw' = il_brk rw"
  by (auto simp: upd_instr_def set_instr_def bind_eq_Some_conv)

lemma NewILInstr_brk: "NewILInstr rw = (w, rw') \<Longrightarrow> il_brk rw' = il_brk rw + 1"
  by (auto simp: NewILInstr_def)

lemma InsertBefore_brk: "InsertBefore a b rw = Some rw' \<Longrightarrow> il_brk rw' = il_brk rw"
  by (auto simp: InsertBefore_def AdjustState_def bind_eq_Some_conv dest!: upd_instr_brk)

lemma InsertAfter_brk: "InsertAfter a b rw = Some rw' \<Longrightarrow> il_brk rw' = il_brk rw"
  by (auto simp: InsertAfter_def AdjustState_def bind_eq_Some_conv dest!: upd_instr_brk)

lemmas instr_brk = upd_instr_brk NewILInstr_brk InsertBefore_brk InsertAfter_brk

lemma emit_brk: "emit p c rw = Some (w, rw') \<Longrightarrow> il_brk rw' = il_brk rw + 1"
  by (auto simp: emit_def bind_eq_Some_conv split: prod.splits dest!: instr_brk)

lemma emit_all_brk: "emit_all emit p is rw = Some (ws, rw') \<Longrightarrow> il_brk rw' = il_brk rw + length is"
  by (induction "is" arbitrary: rw ws) (auto simp: bind_eq_Some_conv dest!: emit_brk)

text \<open>The members insertions leave as they are.\<close>

definition rw_rest :: "ILRewriter \<Rightarrow> _" where
  "rw_rest rw = rw\<lparr>m_maxStack := 0, il_heap := (\<lambda>_. None), il_brk := 0, m_nInstrs := 0\<rparr>"

lemma NewILInstr_il_list:
  assumes "il_list rw xs" "NewILInstr rw = (w, rw')"
  shows "il_list rw' xs" "detached rw' xs w"
    and "\<And>x. x \<in> set xs \<Longrightarrow> il_heap rw' x = il_heap rw x" "w \<notin> set xs"
    and "rw_rest rw' = rw_rest rw"
proof -
  have w: "w = il_brk rw" and rw': "rw' = rw\<lparr>m_nInstrs := m_nInstrs rw + 1,
      il_heap := (il_heap rw)(il_brk rw \<mapsto> new_ILInstr), il_brk := il_brk rw + 1\<rparr>"
    using assms(2) by (auto simp: NewILInstr_def)
  have fresh: "il_brk rw \<notin> set (m_IL # xs)"
  proof
    assume "il_brk rw \<in> set (m_IL # xs)"
    then have "il_heap rw (il_brk rw) \<noteq> None"
      using assms(1) il_list_allocated [OF assms(1)] by (auto simp: il_list_def heap_ok_def)
    with assms(1) show False by (auto simp: il_list_def heap_ok_def)
  qed
  have brk: "3 \<le> il_brk rw" using il_list_length [OF assms(1)] by simp
  have count: "m_nInstrs rw + 1 = word_of_nat (il_brk rw + 1 - 3)"
  proof -
    have "il_brk rw + 1 - 3 = Suc (il_brk rw - 3)" using brk by simp
    moreover have "m_nInstrs rw = word_of_nat (il_brk rw - 3)"
      using assms(1) by (simp add: il_list_def heap_ok_def)
    ultimately show ?thesis by simp
  qed
  have c: "chain (il_heap rw) (m_IL # xs @ [m_IL])" using assms(1) by (simp add: il_list_def)
  have c': "chain (il_heap rw') (m_IL # xs @ [m_IL])"
  proof (rule chain_frame [OF _ _ c])
    fix x assume "x \<in> set (butlast (m_IL # xs @ [m_IL]))"
    then have "x \<in> set (m_IL # xs)" by (simp add: butlast_append split: if_split_asm)
    with fresh show "nx (il_heap rw') x = nx (il_heap rw) x" by (auto simp: rw')
  next
    fix x assume "x \<in> set (tl (m_IL # xs @ [m_IL]))"
    then have "x \<in> set (m_IL # xs)" by auto
    with fresh show "pv (il_heap rw') x = pv (il_heap rw) x" by (auto simp: rw')
  qed
  have "distinct (m_IL # xs)" and h: "il_heap rw m_IL \<noteq> None"
    "\<And>a. il_heap rw a \<noteq> None \<Longrightarrow> m_IL \<le> a \<and> a < il_brk rw"
    using assms(1) by (simp_all add: il_list_def heap_ok_def)
  moreover have "heap_ok rw'"
    unfolding heap_ok_def
  proof (intro conjI allI impI)
    show "il_heap rw' m_IL \<noteq> None" using h(1) by (simp add: rw')
    show "m_nInstrs rw' = word_of_nat (il_brk rw' - 3)" using count by (simp add: rw')
    fix a assume "il_heap rw' a \<noteq> None"
    with h(2) [of a] brk show "m_IL \<le> a" "a < il_brk rw'"
      by (simp_all add: rw' less_Suc_eq split: if_split_asm)
  qed
  ultimately show "il_list rw' xs" using c' by (simp add: il_list_def)
  show "detached rw' xs w" using fresh by (simp add: detached_def w rw')
  show "x \<in> set xs \<Longrightarrow> il_heap rw' x = il_heap rw x" for x using fresh by (auto simp: rw')
  show "w \<notin> set xs" using fresh by (simp add: w)
  show "rw_rest rw' = rw_rest rw" by (simp add: rw_rest_def rw')
qed

lemma stack_pushes_defined: "code_ok c \<longleftrightarrow> unat (fst c) < 296"
  by (simp add: code_ok_def stack_pushes_def length_tables)

text \<open>Changing the contents of a cell, not its links, keeps the list.\<close>

lemma modify_il_list:
  assumes l: "il_list rw xs"
    and f: "\<And>i. m_pNext (f i) = m_pNext i" "\<And>i. m_pPrev (f i) = m_pPrev i"
  shows "il_list (rw\<lparr>il_heap := modify (il_heap rw) w f\<rparr>) xs"
proof -
  have fr: "nx (modify (il_heap rw) w f) x = nx (il_heap rw) x"
    "pv (modify (il_heap rw) w f) x = pv (il_heap rw) x" for x
    by (auto simp: nx_def pv_def modify_def option.map_comp o_def f)
  have "chain (il_heap rw) (m_IL # xs @ [m_IL])" using l by (simp add: il_list_def)
  from chain_frame [OF fr(1) fr(2) this]
  have "chain (modify (il_heap rw) w f) (m_IL # xs @ [m_IL])" .
  with l show "il_list (rw\<lparr>il_heap := modify (il_heap rw) w f\<rparr>) xs"
    by (simp add: il_list_def heap_ok_def)
qed

lemma detached_modify:
  "detached rw xs w \<Longrightarrow> detached (rw\<lparr>il_heap := modify (il_heap rw) v f\<rparr>) xs w"
  by (simp add: detached_def)

text \<open>The members outside the heap and the maximal stack do not matter to the list.\<close>

lemma il_list_cong:
  "il_heap rw' = il_heap rw \<Longrightarrow> il_brk rw' = il_brk rw \<Longrightarrow> m_nInstrs rw' = m_nInstrs rw \<Longrightarrow>
   il_list rw' xs \<longleftrightarrow> il_list rw xs"
  by (simp add: il_list_def heap_ok_def)

lemma content_code:
  "map_option content (h x) = map_option content (h' x) \<Longrightarrow>
   map_option (\<lambda>i. (m_opcode i, m_operand i)) (h x) = map_option (\<lambda>i. (m_opcode i, m_operand i)) (h' x)"
  by (cases "h x"; cases "h' x") (auto simp: content_def)

lemma emit_before_il_list:
  assumes l: "il_list rw (as @ bs)" and p: "p = hd (bs @ [m_IL])" and c: "code_ok c"
  shows "\<exists>w rw'. emit p c rw = Some (w, rw') \<and> il_list rw' (as @ w # bs) \<and> w \<notin> set (as @ bs) \<and>
    instr_code rw' w = Some c \<and> (\<forall>x \<in> set (as @ bs). instr_code rw' x = instr_code rw x) \<and>
    rw_rest rw' = rw_rest rw"
proof -
  obtain w rw1 where w: "NewILInstr rw = (w, rw1)" by (cases "NewILInstr rw")
  note new = NewILInstr_il_list [OF l w]
  let ?f = "\<lambda>i :: ILInstr. i\<lparr>m_opcode := fst c, m_operand := snd c\<rparr>"
  define rw2 where "rw2 = rw1\<lparr>il_heap := modify (il_heap rw1) w ?f\<rparr>"
  have l2: "il_list rw2 (as @ bs)" "detached rw2 (as @ bs) w"
    unfolding rw2_def using new(1,2) by (simp_all add: modify_il_list detached_modify)
  have u: "upd_instr w ?f rw1 = Some rw2"
    using new(2) by (auto simp: rw2_def detached_def intro: upd_instr_eq)
  obtain n where n: "stack_pushes (fst c) = Some n" using c by (auto simp: code_ok_def)
  obtain iw where iw: "il_heap rw1 w = Some iw" using new(2) by (auto simp: detached_def)
  have n': "stack_pushes (m_opcode (the (il_heap rw2 w))) = Some n"
    using n iw by (simp add: rw2_def)
  obtain h where h: "InsertBefore p w rw2 = Some (rw2\<lparr>il_heap := h, m_maxStack := m_maxStack rw2 + n\<rparr>)"
      "il_list (rw2\<lparr>il_heap := h, m_maxStack := m_maxStack rw2 + n\<rparr>) (as @ w # bs)"
      "\<And>x. map_option content (h x) = map_option content (il_heap rw2 x)"
    using InsertBefore_il_list [OF l2 p n'] by blast
  have code: "instr_code (rw2\<lparr>il_heap := h, m_maxStack := m_maxStack rw2 + n\<rparr>) x = instr_code rw2 x" for x
    using content_code [of h x "il_heap rw2"] h(3) [of x] by (simp add: instr_code_def)
  have "instr_code rw2 w = Some c" using iw by (simp add: instr_code_def rw2_def)
  moreover have "instr_code rw2 x = instr_code rw x" if "x \<in> set (as @ bs)" for x
    using that new(3,4) by (cases "x = w") (simp_all add: instr_code_def rw2_def)
  moreover have "rw_rest (rw2\<lparr>il_heap := h, m_maxStack := m_maxStack rw2 + n\<rparr>) = rw_rest rw"
    using new(5) by (simp add: rw_rest_def rw2_def)
  ultimately show ?thesis
    using h(1,2) w u new(4) code by (simp add: emit_def)
qed

interpretation il: instruction_sequence il_list instr_code rw_rest m_IL emit code_ok
  by unfold_locales (rule emit_before_il_list)

lemma ILRewriter_init_il_list: "il_list (ILRewriter_init control moduleID tkMethod) []"
  by (simp add: il_list_def heap_ok_def ILRewriter_init_def linked_def nx_def pv_def)

text \<open>The same, with the opcode set in a separate assignment of the new cell.\<close>

lemma NewILInstr_upd:
  assumes "NewILInstr rw = (w, rw')" "f new_ILInstr = g new_ILInstr"
  shows "upd_instr w f rw' = upd_instr w g rw'"
  using assms by (auto simp: NewILInstr_def upd_instr_def set_instr_def)

lemma append_instr:
  assumes l: "il_list rw xs" and op: "unat op < 296" and w: "NewILInstr rw = (w, rw1)"
  shows "\<exists>rw2 rw3. upd_instr w (m_opcode_update (\<lambda>_. op)) rw1 = Some rw2 \<and>
    InsertBefore m_IL w rw2 = Some rw3 \<and> il_list rw3 (xs @ [w]) \<and> w \<notin> set xs \<and>
    instr_code rw3 w = Some (op, Bits 0) \<and> (\<forall>x \<in> set xs. instr_code rw3 x = instr_code rw x) \<and>
    rw_rest rw3 = rw_rest rw \<and> il_brk rw3 = il_brk rw + 1"
proof -
  have u: "upd_instr w (\<lambda>i. i\<lparr>m_opcode := op, m_operand := Bits 0\<rparr>) rw1 =
      upd_instr w (m_opcode_update (\<lambda>_. op)) rw1"
    by (rule NewILInstr_upd [OF w]) (simp add: new_ILInstr_def)
  obtain v rw3 where e: "emit m_IL (op, Bits 0) rw = Some (v, rw3)" "il_list rw3 (xs @ [v])"
      "v \<notin> set xs" "instr_code rw3 v = Some (op, Bits 0)"
      "\<forall>x \<in> set xs. instr_code rw3 x = instr_code rw x" "rw_rest rw3 = rw_rest rw"
    using il.emit_before [of rw xs "[]" m_IL "(op, Bits 0)"] l op by (auto simp: stack_pushes_defined)
  have v: "v = w" using e(1) w by (auto simp: emit_def bind_eq_Some_conv)
  from e(1) u w obtain rw2 where "upd_instr w (m_opcode_update (\<lambda>_. op)) rw1 = Some rw2"
      "InsertBefore m_IL w rw2 = Some rw3"
    by (auto simp: emit_def bind_eq_Some_conv)
  with e v emit_brk [OF e(1)] show ?thesis by blast
qed


section \<open>The destructor\<close>

text \<open>The loop that deletes the cells; reading a deleted one, or deleting twice, is \<open>None\<close>.\<close>

fun delete_list :: "nat \<Rightarrow> (addr \<Rightarrow> ILInstr option) \<Rightarrow> addr \<Rightarrow> (addr \<Rightarrow> ILInstr option) option" where
  "delete_list 0 h p = None"
| "delete_list (Suc n) h p =
     (if p = m_IL then Some h else do { i \<leftarrow> h p; delete_list n (h(p := None)) (m_pNext i) })"

definition delete_ILRewriter :: "ILRewriter \<Rightarrow> ILRewriter option" where
  "delete_ILRewriter rw = do {
     i \<leftarrow> get_instr m_IL rw;
     h \<leftarrow> delete_list (il_brk rw) (il_heap rw) (m_pNext i);
     Some (rw\<lparr>il_heap := h\<rparr>)
   }"

lemma delete_list_chain:
  "chain h (p # ps @ [m_IL]) \<Longrightarrow> distinct (m_IL # p # ps) \<Longrightarrow> length ps + 1 < n \<Longrightarrow>
   delete_list n h p = Some (\<lambda>x. if x \<in> set (p # ps) then None else h x)"
proof (induction ps arbitrary: n h p)
  case Nil
  then obtain m i where "n = Suc (Suc m)" "h p = Some i" "m_pNext i = m_IL"
    by (cases n; cases "n - 1") (auto simp: linked_def nx_def)
  then show ?case using Nil by auto
next
  case (Cons q ps)
  then obtain m i where m: "n = Suc m" "h p = Some i" "m_pNext i = q"
    by (cases n) (auto simp: linked_def nx_def)
  have "chain h (q # ps @ [m_IL])" using Cons.prems(1) by simp
  moreover have "pv (h(p := None)) x = pv h x" "nx (h(p := None)) x = nx h x" if "x \<noteq> p" for x
    using that by (simp_all add: pv_def nx_def)
  moreover have "p \<notin> set (q # ps @ [m_IL])" using Cons.prems(2) by auto
  ultimately have "chain (h(p := None)) (q # ps @ [m_IL])"
    by (elim chain_frame [rotated 2]) (metis in_set_butlastD, metis list.set_sel(2) list.sel(3) in_set_conv_decomp list.set_intros(2) tl_append2 list.discI list.sel(3))
  with Cons.prems(2,3) m(1)
  have "delete_list m (h(p := None)) q = Some (\<lambda>x. if x \<in> set (q # ps) then None else (h(p := None)) x)"
    by (intro Cons.IH) (simp_all del: fun_upd_apply)
  moreover have "(\<lambda>x. if x \<in> set (q # ps) then None else (h(p := None)) x) =
      (\<lambda>x. if x \<in> set (p # q # ps) then None else h x)" by auto
  ultimately show ?case using m Cons.prems(2) by (simp del: fun_upd_apply)
qed

text \<open>
  The rewriter owns its instructions: for every well-formed list the destructor returns,
  frees each cell of the list exactly once (a second visit would read a freed cell), and
  frees nothing else.
\<close>

theorem delete_ILRewriter_frees:
  assumes "il_list rw xs"
  shows "delete_ILRewriter rw = Some (rw\<lparr>il_heap := (\<lambda>x. if x \<in> set xs then None else il_heap rw x)\<rparr>)"
proof -
  have c: "chain (il_heap rw) (m_IL # xs @ [m_IL])" "distinct (m_IL # xs)"
    using assms by (simp_all add: il_list_def)
  obtain i where i: "il_heap rw m_IL = Some i" "m_pNext i = hd (xs @ [m_IL])"
    using il_list_ends [of rw "[]" xs m_IL "hd (xs @ [m_IL])"] assms by auto
  note len = il_list_length [OF assms]
  then obtain k where k: "il_brk rw = Suc k" by (cases "il_brk rw") auto
  have "delete_list (il_brk rw) (il_heap rw) (hd (xs @ [m_IL])) = Some (\<lambda>x. if x \<in> set xs then None else il_heap rw x)"
  proof (cases xs)
    case (Cons y ys)
    then show ?thesis using delete_list_chain [of "il_heap rw" y ys "il_brk rw"] c len by simp
  qed (simp add: k)
  then show ?thesis using i by (simp add: delete_ILRewriter_def get_instr_def)
qed

theorem delete_ILRewriter_frees_witness:
  "il_list (ILRewriter_init False 0 0) [] \<and>
   delete_ILRewriter (ILRewriter_init False 0 0) = Some (ILRewriter_init False 0 0)"
  using delete_ILRewriter_frees [OF ILRewriter_init_il_list, of False 0 0] ILRewriter_init_il_list by simp

text \<open>
  C30. Inserting keeps the instruction list well formed: InsertBefore puts a fresh instruction
  in front of the given position (the sentinel means at the end), InsertAfter behind it;
  GetILList then yields the old list with that one element added, no opcode, offset or
  operand changes, and the stack estimate grows by the pushes of the new opcode.
\<close>

theorem insert_into_il_list:
  assumes "il_list rw (as @ bs)" "detached rw (as @ bs) w" "il_heap rw w = Some iw"
    "stack_pushes (m_opcode iw) = Some n"
  shows "\<exists>rw1 rw2. InsertBefore (hd (bs @ [m_IL])) w rw = Some rw1 \<and> InsertAfter (last (m_IL # as)) w rw = Some rw2 \<and>
    (\<forall>rw' \<in> {rw1, rw2}. il_list rw' (as @ w # bs) \<and> GetILList rw' = Some (as @ w # bs) \<and>
      m_maxStack rw' = m_maxStack rw + n \<and>
      (\<forall>x. map_option content (il_heap rw' x) = map_option content (il_heap rw x)))"
proof -
  have n: "stack_pushes (m_opcode (the (il_heap rw w))) = Some n" using assms(3,4) by simp
  from InsertBefore_il_list [OF assms(1,2) refl n] InsertAfter_il_list [OF assms(1,2) refl n]
  show ?thesis by (auto simp: GetILList_il_list)
qed


theorem insert_into_il_list_witness:
  "let rw = snd (NewILInstr (ILRewriter_init False 0 0))
   in detached rw [] 3 \<and> (\<exists>rw1 rw2. InsertBefore m_IL 3 rw = Some rw1 \<and> GetILList rw1 = Some [3] \<and>
     InsertAfter m_IL 3 rw = Some rw2 \<and> GetILList rw2 = Some [3])"
proof -
  obtain w rw where n: "NewILInstr (ILRewriter_init False 0 0) = (w, rw)" by fastforce
  have w: "w = 3" using n by (simp add: NewILInstr_def ILRewriter_init_def)
  note new = NewILInstr_il_list [OF ILRewriter_init_il_list n]
  have iw: "il_heap rw 3 = Some new_ILInstr" using n by (auto simp: NewILInstr_def ILRewriter_init_def)
  have "stack_pushes (m_opcode new_ILInstr) = Some 0" by code_simp
  from insert_into_il_list [of rw "[]" "[]" 3, OF _ _ iw this] new(1,2)
  show ?thesis by (auto simp: n w Let_def)
qed

end
