(* ===== verification/IL_Code.thy ===== *)
theory IL_Code
  imports IL_List
begin

text \<open>
  The byte code of a method as a function of the instruction sequence, and back: what
  the importer and the exporter are compared with. A decoded instruction has the offset
  it starts at (none for the targets of a switch, which follow it as pseudo instructions),
  its opcode and its operand; a relative target is decoded as the offset it points to.
\<close>

section \<open>Decoding\<close>

type_synonym raw = "nat option \<times> opcode \<times> u64"

fun decode_opcode :: "byte list \<Rightarrow> (opcode \<times> byte list) option" where
  "decode_opcode [] = None"
| "decode_opcode (b # r) =
     (if b = 0xFE then (case r of [] \<Rightarrow> None | c # r \<Rightarrow> Some (0x100 + ucast c, r))
      else Some (ucast b, r))"

definition valid_opcode :: "opcode \<Rightarrow> bool" where
  "valid_opcode op \<longleftrightarrow> \<not> (CEE_PREFIX7 \<le> op \<and> op \<le> CEE_PREFIX2) \<and> op < CEE_COUNT"

definition branch_flags :: "byte \<Rightarrow> bool" where
  "branch_flags f \<longleftrightarrow> f AND OPCODEFLAGS_BranchTarget \<noteq> 0"

definition flags_size :: "byte \<Rightarrow> nat" where
  "flags_size f = unat (f AND OPCODEFLAGS_SizeMask)"

fun decode_targets :: "nat \<Rightarrow> byte list \<Rightarrow> u32 \<Rightarrow> (raw list \<times> byte list) option" where
  "decode_targets 0 r base = Some ([], r)"
| "decode_targets (Suc n) r base =
     (if length r < 4 then None
      else map_option (\<lambda>(ts, r'). ((None, CEE_SWITCH_ARG, ucast (base + word_of_nat (le_nat (take 4 r)))) # ts, r'))
             (decode_targets n (drop 4 r) base))"

text \<open>The operand at offset \<open>off\<close>: its bits, the pseudo instructions of a switch, and what is left.\<close>

definition decode_operand :: "byte \<Rightarrow> nat \<Rightarrow> byte list \<Rightarrow> (u64 \<times> raw list \<times> byte list) option" where
  "decode_operand f off r =
     (if length r < flags_size f then None
      else if f = 0x11 then Some (ucast (word_of_nat off + 1 + scast (hd r) :: u32), [], drop 1 r)
      else if f = 0x14 then
        Some (ucast (word_of_nat off + 4 + word_of_nat (le_nat (take 4 r)) :: u32), [], drop 4 r)
      else if f = 0x20 then
        (if length r < 4 then None
         else (let n = (word_of_nat (le_nat (take 4 r)) :: u32)
               in map_option (\<lambda>(ts, r'). (ucast n, ts, r'))
                    (decode_targets (unat n) (drop 4 r) (word_of_nat off + 4 + n * 4))))
      else Some (word_of_nat (le_nat (take (flags_size f) r)), [], drop (flags_size f) r))"

fun decode :: "nat \<Rightarrow> nat \<Rightarrow> byte list \<Rightarrow> raw list option" where
  "decode fuel off [] = Some []"
| "decode 0 off (b # p) = None"
| "decode (Suc n) off (b # p) =
     (case decode_opcode (b # p) of
        None \<Rightarrow> None
      | Some (op, r) \<Rightarrow>
          if \<not> valid_opcode op then None
          else
            (case opcode_flags op of
               None \<Rightarrow> None
             | Some f \<Rightarrow>
                 (case decode_operand f (off + (length (b # p) - length r)) r of
                    None \<Rightarrow> None
                  | Some (arg, ts, r') \<Rightarrow>
                      map_option (\<lambda>is. (Some off, op, arg) # ts @ is)
                        (decode n (off + (length (b # p) - length r')) r'))))"

definition decode_il :: "byte list \<Rightarrow> raw list option" where
  "decode_il p = decode (length p) 0 p"

section \<open>Encoding\<close>

definition op_flags :: "opcode \<Rightarrow> byte" where
  "op_flags op = (case opcode_flags op of Some f \<Rightarrow> f | None \<Rightarrow> 0)"

definition opcode_bytes :: "opcode \<Rightarrow> byte list" where
  "opcode_bytes op =
     (if op < CEE_COUNT then (if 0x100 \<le> op then [0xFE, ucast (op AND 0xFF)] else [ucast (op AND 0xFF)])
      else [])"

definition operand_size :: "opcode \<Rightarrow> nat" where
  "operand_size op = (if op_flags op = 0x20 then 4 else flags_size (op_flags op))"

definition instr_size :: "opcode \<Rightarrow> nat" where
  "instr_size op = length (opcode_bytes op) + operand_size op"

definition code_size :: "(opcode \<times> operand) list \<Rightarrow> nat" where
  "code_size is = sum_list (map (instr_size \<circ> fst) is)"

text \<open>The bits of an operand that is not a pointer, and the address of one that is.\<close>

definition op_bits :: "operand \<Rightarrow> nat" where
  "op_bits x = (case x of Bits b \<Rightarrow> unat b | Target t \<Rightarrow> 0)"

definition op_target :: "operand \<Rightarrow> addr" where
  "op_target x = (case x of Bits b \<Rightarrow> NULL | Target t \<Rightarrow> t)"

text \<open>
  The bytes of one instruction at offset \<open>k\<close>, with \<open>L\<close> the offset of each label and \<open>base\<close>
  the base of the enclosing switch. \<open>head\<close> is the part that does not depend on \<open>L\<close>.
\<close>

definition head :: "opcode \<times> operand \<Rightarrow> byte list" where
  "head i = opcode_bytes (fst i) @
     (if op_flags (fst i) \<in> {0x11, 0x14} then []
      else le_bytes (operand_size (fst i)) (op_bits (snd i)))"

definition displacement :: "(addr \<Rightarrow> u32) \<Rightarrow> nat \<Rightarrow> opcode \<times> operand \<Rightarrow> u32" where
  "displacement L k i = L (op_target (snd i)) - word_of_nat (k + instr_size (fst i))"

definition tail :: "(addr \<Rightarrow> u32) \<Rightarrow> nat \<Rightarrow> u32 \<Rightarrow> opcode \<times> operand \<Rightarrow> byte list" where
  "tail L k base i =
     (if fst i = CEE_SWITCH_ARG then le_bytes 4 (unat (L (op_target (snd i)) - base))
      else if op_flags (fst i) = 0x11 then [ucast (displacement L k i)]
      else if op_flags (fst i) = 0x14 then le_bytes 4 (unat (displacement L k i))
      else [])"

definition switch_base :: "nat \<Rightarrow> u32 \<Rightarrow> opcode \<times> operand \<Rightarrow> u32" where
  "switch_base k base i =
     (if fst i = CEE_SWITCH then word_of_nat k + 1 + 4 * (word_of_nat (op_bits (snd i)) + 1) else base)"

fun assemble :: "(addr \<Rightarrow> u32) \<Rightarrow> nat \<Rightarrow> u32 \<Rightarrow> (opcode \<times> operand) list \<Rightarrow> byte list" where
  "assemble L k base [] = []"
| "assemble L k base (i # is) =
     head i @ tail L k base i @ assemble L (k + instr_size (fst i)) (switch_base k base i) is"

text \<open>The short branches reach their targets.\<close>

fun short_branches_fit :: "(addr \<Rightarrow> u32) \<Rightarrow> nat \<Rightarrow> (opcode \<times> operand) list \<Rightarrow> bool" where
  "short_branches_fit L k [] = True"
| "short_branches_fit L k (i # is) =
     ((op_flags (fst i) = 0x11 \<longrightarrow> scast (ucast (displacement L k i) :: byte) = displacement L k i) \<and>
      short_branches_fit L (k + instr_size (fst i)) is)"

text \<open>\<open>L\<close> places the labels \<open>xs\<close> at the offsets of the instructions, the sentinel at the end.\<close>

fun layout :: "(addr \<Rightarrow> u32) \<Rightarrow> nat \<Rightarrow> addr list \<Rightarrow> (opcode \<times> operand) list \<Rightarrow> bool" where
  "layout L k (x # xs) (i # is) = (L x = word_of_nat k \<and> layout L (k + instr_size (fst i)) xs is)"
| "layout L k [] [] = (L m_IL = word_of_nat k)"
| "layout L k _ _ = False"

definition operand_ok :: "opcode \<times> operand \<Rightarrow> bool" where
  "operand_ok i \<longleftrightarrow> unat (fst i) < 296 \<and> fst i \<noteq> CEE_COUNT \<and>
     (op_flags (fst i) \<in> {0x11, 0x14} \<longleftrightarrow> (\<exists>t. snd i = Target t))"

lemma operand_ok_code [code]:
  "operand_ok i \<longleftrightarrow> unat (fst i) < 296 \<and> fst i \<noteq> CEE_COUNT \<and>
     (op_flags (fst i) \<in> {0x11, 0x14} \<longleftrightarrow> (case snd i of Target t \<Rightarrow> True | Bits b \<Rightarrow> False))"
  by (cases "snd i") (simp_all add: operand_ok_def)

lemma opcode_cases_bound:
  assumes "unat op < 296"
  obtains "op < CEE_COUNT" | "op = CEE_COUNT" | "op = CEE_SWITCH_ARG"
  using assms by (fastforce simp: word_less_nat_alt word_unat_eq_iff)

lemma op_flags_eq: "opcode_flags op = Some f \<Longrightarrow> op_flags op = f"
  by (simp add: op_flags_def)

lemma op_flags_some: "unat op < 296 \<Longrightarrow> opcode_flags op = Some (op_flags op)"
  by (simp add: op_flags_def opcode_flags_def length_tables)

lemma op_flags_range:
  assumes "unat op < 296"
  shows "op_flags op \<in> {0, 1, 2, 4, 8, 0x11, 0x14, 0x20}"
  using assms
proof (cases rule: opcode_cases_bound)
  case 1
  from opcode_flags_cases(1) [OF op_flags_some [OF assms] 1] show ?thesis .
qed (simp_all add: op_flags_def opcode_flags_internal)

lemma op_flags_switch_arg [simp]: "op_flags CEE_SWITCH_ARG = 0x14"
  by (simp add: op_flags_def opcode_flags_internal)

lemma op_flags_switch:
  assumes "unat op < 296" "op \<noteq> CEE_COUNT"
  shows "op_flags op = 0x20 \<longleftrightarrow> op = CEE_SWITCH"
  using assms(1)
proof (cases rule: opcode_cases_bound)
  case 1
  from opcode_flags_cases(2) [OF op_flags_some [OF assms(1)] 1] show ?thesis .
qed (use assms(2) in simp_all)

lemma instr_size_bound:
  assumes "unat op < 296"
  shows "instr_size op \<le> 10"
  using op_flags_range [OF assms]
  by (auto simp: instr_size_def opcode_bytes_def operand_size_def flags_size_def)

lemma code_size_simps [simp]:
  "code_size [] = 0" "code_size (i # is) = instr_size (fst i) + code_size is"
  by (simp_all add: code_size_def)

lemma code_size_bound:
  "list_all operand_ok is \<Longrightarrow> code_size is \<le> 10 * length is"
  by (induction "is") (auto simp: operand_ok_def dest!: instr_size_bound)

lemma length_head_tail:
  assumes "operand_ok i"
  shows "length (head i) + length (tail L k base i) = instr_size (fst i)"
  using assms op_flags_range [of "fst i"]
  by (auto simp: head_def tail_def instr_size_def operand_size_def operand_ok_def flags_size_def)

lemma length_assemble:
  "list_all operand_ok is \<Longrightarrow> length (assemble L k base is) = code_size is"
  by (induction "is" arbitrary: k base) (auto simp: length_head_tail add.assoc [symmetric])

end
