(* ===== verification/IL_Export.thy ===== *)
theory IL_Export
  imports IL_Code
begin

text \<open>
  \<open>ILRewriter::Export\<close> (il_rewriter.cpp): the instruction list becomes the bytes of a
  method body. One pass lays the instructions out and writes all but the targets, a
  second one writes the targets and widens the short branches that do not reach; both are
  run again until none is widened. Then the tiny or the fat header and the exception
  clauses are put around the code.

  \<open>None\<close> is an access the program does not guard: a null pointer, a write past the buffer,
  a pointer read as an integer. Memory the program does not initialise is a parameter.
\<close>

section \<open>Writing to the buffer\<close>

definition write_bytes :: "u32 \<Rightarrow> byte list \<Rightarrow> byte list \<Rightarrow> byte list option" where
  "write_bytes offset bs buf =
     (if unat offset + length bs \<le> length buf
      then Some (take (unat offset) buf @ bs @ drop (unat offset + length bs) buf) else None)"

fun m_pTarget :: "operand \<Rightarrow> addr option" where
  "m_pTarget (Target t) = Some t"
| "m_pTarget (Bits b) = None"

section \<open>First pass\<close>

definition export_opcode :: "opcode \<Rightarrow> byte list \<Rightarrow> u32 \<Rightarrow> (byte list \<times> u32) option" where
  "export_opcode opcode buf offset =
     (if opcode < CEE_COUNT then do {
        (buf, offset) \<leftarrow>
          (if opcode \<ge> 0x100 then map_option (\<lambda>buf. (buf, offset + 1)) (write_bytes offset [0xFE] buf)
           else Some (buf, offset));
        buf \<leftarrow> write_bytes offset [ucast (opcode AND 0xFF)] buf;
        Some (buf, offset + 1) }
      else Some (buf, offset))"

text \<open>The \<open>switch (flags)\<close>: the buffer, the offset and whether \<open>fBranch\<close> is set.\<close>

definition export_operand :: "byte \<Rightarrow> operand \<Rightarrow> byte list \<Rightarrow> u32 \<Rightarrow> (byte list \<times> u32 \<times> bool) option" where
  "export_operand flags arg buf offset =
     (if flags = 0 then Some (buf, offset, False)
      else if flags = 1 then do {
        v \<leftarrow> m_Arg8 arg; buf \<leftarrow> write_bytes offset [v] buf; Some (buf, offset, False) }
      else if flags = 2 then do {
        v \<leftarrow> m_Arg16 arg; buf \<leftarrow> write_bytes offset (le_bytes 2 (unat v)) buf; Some (buf, offset, False) }
      else if flags = 4 then do {
        v \<leftarrow> m_Arg32 arg; buf \<leftarrow> write_bytes offset (le_bytes 4 (unat v)) buf; Some (buf, offset, False) }
      else if flags = 8 then do {
        v \<leftarrow> m_Arg64 arg; buf \<leftarrow> write_bytes offset (le_bytes 8 (unat v)) buf; Some (buf, offset, False) }
      else if flags = 1 OR OPCODEFLAGS_BranchTarget then Some (buf, offset, True)
      else if flags = 4 OR OPCODEFLAGS_BranchTarget then Some (buf, offset, True)
      else if flags = 0 OR OPCODEFLAGS_Switch then do {
        v \<leftarrow> m_Arg32 arg; buf \<leftarrow> write_bytes offset (le_bytes 4 (unat v)) buf; Some (buf, offset + 4, False) }
      else Some (buf, offset, False))"

fun export_layout :: "addr list \<Rightarrow> byte list \<Rightarrow> u32 \<Rightarrow> bool \<Rightarrow> ILRewriter \<Rightarrow> (byte list \<times> u32 \<times> bool \<times> ILRewriter) option" where
  "export_layout [] buf offset fBranch rw = Some (buf, offset, fBranch, rw)"
| "export_layout (p # ps) buf offset fBranch rw = do {
     rw \<leftarrow> upd_instr p (m_offset_update (\<lambda>_. offset)) rw;
     i \<leftarrow> get_instr p rw;
     (buf, offset) \<leftarrow> export_opcode (m_opcode i) buf offset;
     flags \<leftarrow> opcode_flags (m_opcode i);
     (buf, offset, br) \<leftarrow> export_operand flags (m_operand i) buf offset;
     export_layout ps buf (offset + ucast (flags AND OPCODEFLAGS_SizeMask)) (fBranch \<or> br) rw
   }"

section \<open>Second pass\<close>

definition offset_at :: "addr \<Rightarrow> ILRewriter \<Rightarrow> u32 option" where
  "offset_at p rw = map_option m_offset (get_instr p rw)"

definition long_branch :: "opcode \<Rightarrow> opcode" where
  "long_branch opcode = (if opcode = CEE_LEAVE_S then CEE_LEAVE else opcode - CEE_BR_S + CEE_BR)"

definition fits_int8 :: "u32 \<Rightarrow> bool" where
  "fits_int8 delta \<longleftrightarrow> scast (ucast delta :: byte) = delta"

fun export_targets :: "addr list \<Rightarrow> byte list \<Rightarrow> u32 \<Rightarrow> bool \<Rightarrow> ILRewriter \<Rightarrow> (byte list \<times> bool \<times> ILRewriter) option" where
  "export_targets [] buf switchBase fTryAgain rw = Some (buf, fTryAgain, rw)"
| "export_targets (p # ps) buf switchBase fTryAgain rw = do {
     i \<leftarrow> get_instr p rw;
     if m_opcode i = CEE_SWITCH then do {
       n \<leftarrow> m_Arg32 (m_operand i);
       export_targets ps buf (m_offset i + 1 + 4 * (n + 1)) fTryAgain rw }
     else if m_opcode i = CEE_SWITCH_ARG then do {
       t \<leftarrow> m_pTarget (m_operand i);
       target \<leftarrow> offset_at t rw;
       buf \<leftarrow> write_bytes (m_offset i) (le_bytes 4 (unat (target - switchBase))) buf;
       export_targets ps buf switchBase fTryAgain rw }
     else do {
       flags \<leftarrow> opcode_flags (m_opcode i);
       if flags AND OPCODEFLAGS_BranchTarget \<noteq> 0 then do {
         t \<leftarrow> m_pTarget (m_operand i);
         target \<leftarrow> offset_at t rw;
         next \<leftarrow> offset_at (m_pNext i) rw;
         let delta = target - next;
         if flags = 1 OR OPCODEFLAGS_BranchTarget then
           (if \<not> fits_int8 delta then do {
              rw \<leftarrow> upd_instr p (m_opcode_update (\<lambda>_. long_branch (m_opcode i))) rw;
              export_targets ps buf switchBase True rw }
            else do {
              buf \<leftarrow> write_bytes (next - 1) [ucast delta] buf;
              export_targets ps buf switchBase fTryAgain rw })
         else if flags = 4 OR OPCODEFLAGS_BranchTarget then do {
           buf \<leftarrow> write_bytes (next - 4) (le_bytes 4 (unat delta)) buf;
           export_targets ps buf switchBase fTryAgain rw }
         else export_targets ps buf switchBase fTryAgain rw }
       else export_targets ps buf switchBase fTryAgain rw }
   }"

text \<open>
  From the label \<open>again\<close> on. Each repetition has widened a branch, so their number is
  bounded by the number of instructions.
\<close>

fun export_again :: "nat \<Rightarrow> byte list \<Rightarrow> ILRewriter \<Rightarrow> (byte list \<times> u32 \<times> ILRewriter) option" where
  "export_again 0 buf rw = None"
| "export_again (Suc n) buf rw = do {
     ps \<leftarrow> GetILList rw;
     (buf, offset, fBranch, rw) \<leftarrow> export_layout ps buf 0 False rw;
     rw \<leftarrow> upd_instr m_IL (m_offset_update (\<lambda>_. offset)) rw;
     if fBranch then do {
       (buf, fTryAgain, rw) \<leftarrow> export_targets ps buf 0 False rw;
       if fTryAgain then export_again n buf rw else Some (buf, offset, rw) }
     else Some (buf, offset, rw)
   }"

text \<open>\<open>new BYTE[maxSize]\<close> is not initialised: \<open>mem\<close> gives what it holds.\<close>

definition uninitialised :: "(nat \<Rightarrow> byte) \<Rightarrow> nat \<Rightarrow> byte list" where
  "uninitialised mem n = map mem [0..<n]"

definition export_buffer :: "(nat \<Rightarrow> byte) \<Rightarrow> ILRewriter \<Rightarrow> (byte list \<times> u32 \<times> ILRewriter) option" where
  "export_buffer mem rw =
     (let maxSize = m_nInstrs rw * 10
      in export_again (il_brk rw) (uninitialised mem (unat maxSize)) rw)"

section \<open>Header and exception clauses\<close>

abbreviation (input) CorILMethod_TinyFormat :: u32 where "CorILMethod_TinyFormat \<equiv> 2"
abbreviation (input) CorILMethod_FatFormat :: u32 where "CorILMethod_FatFormat \<equiv> 3"
abbreviation (input) CorILMethod_MoreSects :: u32 where "CorILMethod_MoreSects \<equiv> 8"
abbreviation (input) CorILMethod_InitLocals :: u32 where "CorILMethod_InitLocals \<equiv> 16"
abbreviation (input) CorILMethod_Sect_EHTable :: byte where "CorILMethod_Sect_EHTable \<equiv> 1"
abbreviation (input) CorILMethod_Sect_FatFormat :: byte where "CorILMethod_Sect_FatFormat \<equiv> 0x40"

definition dword :: "u32 \<Rightarrow> byte list" where
  "dword w = le_bytes 4 (unat w)"

definition export_clause :: "EHClause \<Rightarrow> ILRewriter \<Rightarrow> byte list option" where
  "export_clause c rw = do {
     tryBegin \<leftarrow> offset_at (m_pTryBegin c) rw;
     tryEnd \<leftarrow> offset_at (m_pTryEnd c) rw;
     handlerBegin \<leftarrow> offset_at (m_pHandlerBegin c) rw;
     handlerEnd \<leftarrow> get_instr (m_pHandlerEnd c) rw;
     afterHandler \<leftarrow> offset_at (m_pNext handlerEnd) rw;
     last \<leftarrow>
       (case m_ClassToken c of
          ClassToken tk \<Rightarrow> if m_Flags c AND 1 = 0 then Some tk else None
        | Filter p \<Rightarrow> if m_Flags c AND 1 = 0 then None else offset_at p rw);
     Some (dword (m_Flags c) @ dword tryBegin @ dword (tryEnd - tryBegin) @ dword handlerBegin @
           dword (afterHandler - handlerBegin) @ dword last)
   }"

fun export_clauses :: "EHClause list \<Rightarrow> ILRewriter \<Rightarrow> byte list option" where
  "export_clauses [] rw = Some []"
| "export_clauses (c # cs) rw = do {
     b \<leftarrow> export_clause c rw;
     bs \<leftarrow> export_clauses cs rw;
     Some (b @ bs)
   }"

text \<open>
  \<open>IMAGE_COR_ILMETHOD_FAT\<close>: twelve bits of flags, four of header size in double words, the
  maximal stack in sixteen bits, the code size and the token of the locals.
\<close>

definition fat_header :: "u32 \<Rightarrow> u32 \<Rightarrow> u32 \<Rightarrow> mdToken \<Rightarrow> byte list" where
  "fat_header flags maxStack codeSize tkLocalVarSig =
     le_bytes 2 (unat (flags AND 0xfff OR push_bit 12 3)) @ le_bytes 2 (unat maxStack) @
     dword codeSize @ dword tkLocalVarSig"

definition eh_section_header :: "u32 \<Rightarrow> byte list" where
  "eh_section_header nEH =
     (CorILMethod_Sect_EHTable OR CorILMethod_Sect_FatFormat) # le_bytes 3 (unat (4 + 24 * nEH))"

text \<open>
  What the profiling interface answers: \<open>GetILFunctionBodyAllocator\<close>, \<open>Alloc\<close> (whether not null)
  and the two \<open>SetILFunctionBody\<close>, which get the body.
\<close>

record il_env =
  GetILFunctionBodyAllocator :: hresult
  Alloc :: bool
  SetILFunctionBody_rejit :: "byte list \<Rightarrow> hresult"
  SetILFunctionBody_info :: "u64 \<Rightarrow> mdToken \<Rightarrow> byte list \<Rightarrow> hresult"

definition AllocateILMemory :: "il_env \<Rightarrow> ILRewriter \<Rightarrow> bool" where
  "AllocateILMemory env rw =
     (if m_pICorProfilerFunctionControl rw then True
      else if FAILED (GetILFunctionBodyAllocator env) then False else Alloc env)"

definition SetILFunctionBody :: "il_env \<Rightarrow> ILRewriter \<Rightarrow> byte list \<Rightarrow> hresult" where
  "SetILFunctionBody env rw pBody =
     (let hr = (if m_pICorProfilerFunctionControl rw then SetILFunctionBody_rejit env pBody
                else SetILFunctionBody_info env (m_moduleId rw) (m_tkMethod rw) pBody)
      in if FAILED hr then hr else S_OK)"

definition tiny_body :: "byte list \<Rightarrow> u32 \<Rightarrow> byte list" where
  "tiny_body buf codeSize = ucast (CorILMethod_TinyFormat OR push_bit 2 codeSize) # take (unat codeSize) buf"

text \<open>\<open>pad\<close> is what the allocated body holds between the end of the code and its alignment.\<close>

definition fat_body :: "(nat \<Rightarrow> byte) \<Rightarrow> byte list \<Rightarrow> u32 \<Rightarrow> ILRewriter \<Rightarrow> byte list option" where
  "fat_body pad buf codeSize rw = do {
     let alignedCodeSize = (codeSize + 3) AND NOT 3;
     let flags = m_flags rw OR (if m_nEH rw \<noteq> 0 then CorILMethod_MoreSects else 0) OR CorILMethod_FatFormat;
     eh \<leftarrow> (if m_nEH rw \<noteq> 0
           then map_option (\<lambda>cs. eh_section_header (m_nEH rw) @ cs) (export_clauses (m_pEH rw) rw)
           else Some []);
     Some (fat_header flags (m_maxStack rw) codeSize (m_tkLocalVarSig rw) @ take (unat codeSize) buf @
           uninitialised pad (unat alignedCodeSize - unat codeSize) @ eh)
   }"

text \<open>\<open>Export\<close>: the HRESULT, the body handed over (if it got that far) and the state.\<close>

definition Export :: "(nat \<Rightarrow> byte) \<Rightarrow> (nat \<Rightarrow> byte) \<Rightarrow> il_env \<Rightarrow> ILRewriter \<Rightarrow> (hresult \<times> byte list option \<times> ILRewriter) option" where
  "Export mem pad env rw = do {
     (buf, codeSize, rw) \<leftarrow> export_buffer mem rw;
     if m_fGenerateTinyHeader rw \<and> codeSize \<ge> 64 then Some (E_FAIL, None, rw)
     else if \<not> AllocateILMemory env rw then Some (E_OUTOFMEMORY, None, rw)
     else do {
       pBody \<leftarrow> (if m_fGenerateTinyHeader rw then Some (tiny_body buf codeSize)
                else fat_body pad buf codeSize rw);
       Some (SetILFunctionBody env rw pBody, Some pBody, rw)
     }
   }"

section \<open>Writes and slices of the buffer\<close>

lemma write_bytes_take:
  assumes "write_bytes (word_of_nat k) bs buf = Some buf'" "k < 2 ^ 32"
  shows "length buf' = length buf" "take k buf' = take k buf" "take (length bs) (drop k buf') = bs"
    "take (k + length bs) buf' = take k buf @ bs" "drop (k + length bs) buf' = drop (k + length bs) buf"
    "k + length bs \<le> length buf"
proof -
  have u: "unat (word_of_nat k :: u32) = k" using assms(2) by (rule unat_of_nat_u32)
  then have le: "k + length bs \<le> length buf" and buf': "buf' = take k buf @ bs @ drop (k + length bs) buf"
    using assms(1) by (auto simp: write_bytes_def split: if_split_asm)
  have l: "length (take k buf) = k" using le by simp
  show "k + length bs \<le> length buf" by (rule le)
  show "length buf' = length buf" "take k buf' = take k buf" "take (length bs) (drop k buf') = bs"
    "take (k + length bs) buf' = take k buf @ bs" "drop (k + length bs) buf' = drop (k + length bs) buf"
    unfolding buf' using le l by simp_all
qed

lemma write_bytes_some:
  "k + length bs \<le> length buf \<Longrightarrow> k < 2 ^ 32 \<Longrightarrow> \<exists>buf'. write_bytes (word_of_nat k) bs buf = Some buf'"
  by (simp add: write_bytes_def unat_of_nat_u32)

text \<open>The instructions' bytes that do not depend on the layout are at their places.\<close>

fun heads_at :: "byte list \<Rightarrow> nat \<Rightarrow> (opcode \<times> operand) list \<Rightarrow> bool" where
  "heads_at buf k [] = True"
| "heads_at buf k (i # is) =
     (take (length (head i)) (drop k buf) = head i \<and> heads_at buf (k + instr_size (fst i)) is)"

lemma heads_at_drop:
  "drop k buf = drop k buf' \<Longrightarrow> heads_at buf k is = heads_at buf' k is"
proof (induction "is" arbitrary: k)
  case (Cons i "is")
  have "drop (k + n) buf = drop (k + n) buf'" for n
    using Cons.prems by (metis add.commute drop_drop)
  with Cons show ?case by simp
qed simp

lemma slice_take:
  "take m buf = take m buf' \<Longrightarrow> k + n \<le> m \<Longrightarrow> take n (drop k buf) = take n (drop k buf')"
proof -
  assume a: "take m buf = take m buf'" and "k + n \<le> m"
  then have "take (k + n) buf = take (k + n) buf'" by (metis min.absorb1 take_take)
  then show ?thesis by (metis add.commute add_diff_cancel_right' drop_take)
qed

section \<open>What the passes keep\<close>

text \<open>Only the heap changes, and neither the links nor, but for the cells named, the code.\<close>

definition links_same :: "ILRewriter \<Rightarrow> ILRewriter \<Rightarrow> bool" where
  "links_same rw rw' \<longleftrightarrow> rw' = rw\<lparr>il_heap := il_heap rw'\<rparr> \<and>
     (\<forall>x. nx (il_heap rw') x = nx (il_heap rw) x \<and> pv (il_heap rw') x = pv (il_heap rw) x)"

lemma links_same_refl [simp]: "links_same rw rw"
  by (simp add: links_same_def)

lemma links_same_trans:
  assumes "links_same a b" "links_same b c"
  shows "links_same a c"
proof -
  obtain h where b: "b = a\<lparr>il_heap := h\<rparr>" using assms(1) by (auto simp: links_same_def)
  obtain h' where c: "c = b\<lparr>il_heap := h'\<rparr>" using assms(2) by (auto simp: links_same_def)
  have "c = a\<lparr>il_heap := il_heap c\<rparr>" by (simp add: b c)
  with assms show ?thesis unfolding links_same_def by simp
qed

lemma links_same_fields:
  assumes "links_same rw rw'"
  shows "il_brk rw' = il_brk rw" "m_nInstrs rw' = m_nInstrs rw" "rw_rest rw' = rw_rest rw"
    "m_maxStack rw' = m_maxStack rw"
proof -
  have eq: "rw' = rw\<lparr>il_heap := il_heap rw'\<rparr>" using assms by (simp add: links_same_def)
  show "il_brk rw' = il_brk rw" "m_nInstrs rw' = m_nInstrs rw" "rw_rest rw' = rw_rest rw"
    "m_maxStack rw' = m_maxStack rw"
    by (subst eq, simp add: rw_rest_def)+
qed

lemma links_same_alloc: "links_same rw rw' \<Longrightarrow> il_heap rw' x = None \<longleftrightarrow> il_heap rw x = None"
  by (auto simp: links_same_def nx_def) (metis option.map_disc_iff)+

lemma links_same_il_list:
  assumes s: "links_same rw rw'" and l: "il_list rw xs"
  shows "il_list rw' xs"
proof -
  have "chain (il_heap rw) (m_IL # xs @ [m_IL])" using l by (simp add: il_list_def)
  then have "chain (il_heap rw') (m_IL # xs @ [m_IL])"
    by (rule chain_frame [rotated 2]) (use s in \<open>simp_all add: links_same_def\<close>)
  with l show ?thesis
    using links_same_alloc [OF s] links_same_fields [OF s] by (simp add: il_list_def heap_ok_def)
qed

lemma upd_links_same:
  assumes "upd_instr p f rw = Some rw'"
    and "\<And>i. m_pNext (f i) = m_pNext i" "\<And>i. m_pPrev (f i) = m_pPrev i"
  shows "links_same rw rw'"
proof -
  obtain i where "il_heap rw p = Some i" "rw' = set_instr p (f i) rw"
    using assms(1) by (auto simp: upd_instr_def bind_eq_Some_conv)
  then show ?thesis using assms(2,3) by (auto simp: links_same_def set_instr_def nx_def pv_def)
qed

section \<open>The first pass\<close>

lemma export_opcode_spec:
  assumes "unat op < 296" "k + length (opcode_bytes op) \<le> length buf" "length buf < 2 ^ 32"
  shows "\<exists>buf'. export_opcode op buf (word_of_nat k) = Some (buf', word_of_nat (k + length (opcode_bytes op))) \<and>
    length buf' = length buf \<and> take (k + length (opcode_bytes op)) buf' = take k buf @ opcode_bytes op"
proof -
  consider "\<not> op < CEE_COUNT" | "op < CEE_COUNT" "op < 0x100" | "op < CEE_COUNT" "0x100 \<le> op"
    by fastforce
  then show ?thesis
  proof cases
    case 1
    then show ?thesis using assms by (auto simp: export_opcode_def opcode_bytes_def)
  next
    case 2
    let ?b = "[ucast (op AND 0xFF)] :: byte list"
    have bs: "opcode_bytes op = ?b" using 2 by (simp add: opcode_bytes_def)
    obtain buf' where w: "write_bytes (word_of_nat k) ?b buf = Some buf'"
      using write_bytes_some [of k ?b buf] assms bs by auto
    show ?thesis
      using 2 w write_bytes_take [OF w] assms bs by (auto simp: export_opcode_def)
  next
    case 3
    let ?b = "[ucast (op AND 0xFF)] :: byte list"
    have bs: "opcode_bytes op = [0xFE] @ ?b" using 3 by (simp add: opcode_bytes_def)
    obtain buf1 where w1: "write_bytes (word_of_nat k) [0xFE] buf = Some buf1"
      using write_bytes_some [of k "[0xFE]" buf] assms bs by auto
    have small: "k < 2 ^ 32" "Suc k < 2 ^ 32" using assms bs by simp_all
    note t1 = write_bytes_take [OF w1 small(1)]
    obtain buf2 where w2: "write_bytes (word_of_nat (Suc k)) ?b buf1 = Some buf2"
      using write_bytes_some [of "Suc k" ?b buf1] assms bs t1(1) small by auto
    note t2 = write_bytes_take [OF w2 small(2)]
    have inc: "word_of_nat k + 1 = (word_of_nat (Suc k) :: u32)" by simp
    have "export_opcode op buf (word_of_nat k) = Some (buf2, word_of_nat (k + 2))"
      using 3 w1 w2 by (simp add: export_opcode_def inc del: of_nat_Suc) simp
    then show ?thesis using t1 t2 bs by simp
  qed
qed

definition immediate :: "opcode \<times> operand \<Rightarrow> byte list" where
  "immediate i = (if op_flags (fst i) \<in> {0x11, 0x14} then []
     else le_bytes (operand_size (fst i)) (op_bits (snd i)))"

lemma head_immediate: "head i = opcode_bytes (fst i) @ immediate i"
  by (simp add: head_def immediate_def)

lemma export_operand_spec:
  assumes ok: "operand_ok i" and f: "f = op_flags (fst i)"
    and fits: "k + length (immediate i) \<le> length buf" "length buf < 2 ^ 32" "k < 2 ^ 32"
  shows "\<exists>buf'. export_operand f (snd i) buf (word_of_nat k) =
      Some (buf', word_of_nat (if f = 0x20 then k + 4 else k), f \<in> {0x11, 0x14}) \<and>
    length buf' = length buf \<and> take (k + length (immediate i)) buf' = take k buf @ immediate i"
proof -
  have range: "f \<in> {0, 1, 2, 4, 8, 0x11, 0x14, 0x20}"
    using ok op_flags_range [of "fst i"] by (simp add: operand_ok_def f)
  show ?thesis
  proof (cases "f \<in> {0x11, 0x14}")
    case True
    then show ?thesis using f by (auto simp: immediate_def export_operand_def)
  next
    case False
    then obtain b where b: "snd i = Bits b"
      using ok f by (cases "snd i") (auto simp: operand_ok_def)
    have imm: "immediate i = le_bytes (operand_size (fst i)) (unat b)"
      using False f b by (auto simp: immediate_def op_bits_def)
    obtain buf' where w: "write_bytes (word_of_nat k) (immediate i) buf = Some buf'"
      using write_bytes_some [OF fits(1,3)] by auto
    have size: "operand_size (fst i) = (if f = 0x20 then 4 else flags_size f)"
      by (simp add: operand_size_def f)
    have zero: "f = 0 \<Longrightarrow> immediate i = []" using imm size by (simp add: flags_size_def)
    have eq: "export_operand f (snd i) buf (word_of_nat k) =
        Some (if f = 0 then buf else buf', word_of_nat (if f = 0x20 then k + 4 else k), False)"
      using range False w imm size b
      by (auto simp: export_operand_def le_bytes_ucast flags_size_def)
    have "f = 0 \<Longrightarrow> buf' = buf" using w zero by (auto simp: write_bytes_def split: if_split_asm)
    then show ?thesis
      using eq write_bytes_take [OF w fits(3)] False by (cases "f = 0") auto
  qed
qed

fun offsets_from :: "nat \<Rightarrow> (opcode \<times> operand) list \<Rightarrow> u32 list" where
  "offsets_from k [] = []"
| "offsets_from k (i # is) = word_of_nat k # offsets_from (k + instr_size (fst i)) is"

definition is_branch :: "opcode \<times> operand \<Rightarrow> bool" where
  "is_branch i \<longleftrightarrow> op_flags (fst i) \<in> {0x11, 0x14}"

lemma upd_offset:
  assumes "instr_code rw p = Some c"
  shows "\<exists>rw' i. upd_instr p (m_offset_update (\<lambda>_. w)) rw = Some rw' \<and> links_same rw rw' \<and>
    (\<forall>x. instr_code rw' x = instr_code rw x) \<and> offset_at p rw' = Some w \<and>
    (\<forall>x. x \<noteq> p \<longrightarrow> offset_at x rw' = offset_at x rw) \<and>
    get_instr p rw' = Some i \<and> m_opcode i = fst c \<and> m_operand i = snd c"
proof -
  obtain i where i: "il_heap rw p = Some i" "c = (m_opcode i, m_operand i)"
    using assms by (auto simp: instr_code_def)
  define rw' where "rw' = rw\<lparr>il_heap := modify (il_heap rw) p (m_offset_update (\<lambda>_. w))\<rparr>"
  have u: "upd_instr p (m_offset_update (\<lambda>_. w)) rw = Some rw'"
    unfolding rw'_def using i(1) by (intro upd_instr_eq) simp
  moreover have "links_same rw rw'" by (rule upd_links_same [OF u]) simp_all
  ultimately show ?thesis
    using i
    by (intro exI [of _ rw'] exI [of _ "i\<lparr>m_offset := w\<rparr>"])
       (auto simp: rw'_def instr_code_def offset_at_def get_instr_def modify_def option.map_comp o_def)
qed

lemma export_layout_spec:
  "map (instr_code rw) ps = map Some is \<Longrightarrow> distinct ps \<Longrightarrow> list_all operand_ok is \<Longrightarrow>
   k + code_size is \<le> length buf \<Longrightarrow> length buf < 2 ^ 32 \<Longrightarrow>
   \<exists>buf' rw'. export_layout ps buf (word_of_nat k) fB rw =
       Some (buf', word_of_nat (k + code_size is), fB \<or> list_ex is_branch is, rw') \<and>
     length buf' = length buf \<and> take k buf' = take k buf \<and> heads_at buf' k is \<and> links_same rw rw' \<and>
     (\<forall>x. instr_code rw' x = instr_code rw x) \<and>
     (\<forall>x. x \<notin> set ps \<longrightarrow> offset_at x rw' = offset_at x rw) \<and>
     map (\<lambda>p. offset_at p rw') ps = map Some (offsets_from k is)"
proof (induction ps arbitrary: k buf fB rw "is")
  case Nil
  then show ?case by simp
next
  case (Cons p ps)
  then obtain i is' where i: "is = i # is'" by (cases "is") auto
  have code: "instr_code rw p = Some i" "map (instr_code rw) ps = map Some is'" and p: "p \<notin> set ps" "distinct ps"
    and ok: "operand_ok i" "list_all operand_ok is'"
    and fits: "k + instr_size (fst i) + code_size is' \<le> length buf" "length buf < 2 ^ 32"
    using Cons.prems by (auto simp: i)
  define f where "f = op_flags (fst i)"
  have op: "unat (fst i) < 296" using ok(1) by (simp add: operand_ok_def)
  have fl: "opcode_flags (fst i) = Some f" unfolding f_def by (rule op_flags_some [OF op])
  have sz: "instr_size (fst i) = length (opcode_bytes (fst i)) + operand_size (fst i)"
    by (simp add: instr_size_def)
  have imm: "length (immediate i) \<le> operand_size (fst i)" by (simp add: immediate_def)
  obtain rw1 ir where one: "upd_instr p (m_offset_update (\<lambda>_. word_of_nat k)) rw = Some rw1" "links_same rw rw1"
      "\<forall>x. instr_code rw1 x = instr_code rw x" "offset_at p rw1 = Some (word_of_nat k)"
      "\<forall>x. x \<noteq> p \<longrightarrow> offset_at x rw1 = offset_at x rw"
      "get_instr p rw1 = Some ir" "m_opcode ir = fst i" "m_operand ir = snd i"
    using upd_offset [OF code(1)] by metis
  let ?k1 = "k + length (opcode_bytes (fst i))"
  obtain buf1 where b1: "export_opcode (fst i) buf (word_of_nat k) = Some (buf1, word_of_nat ?k1)"
      "length buf1 = length buf" "take ?k1 buf1 = take k buf @ opcode_bytes (fst i)"
    using export_opcode_spec [OF op, of k buf] fits sz by auto
  have "?k1 + length (immediate i) \<le> length buf1" "length buf1 < 2 ^ 32" "?k1 < 2 ^ 32"
    using fits sz imm b1(2) by simp_all
  from export_operand_spec [OF ok(1) f_def this]
  obtain buf2 where b2: "export_operand f (snd i) buf1 (word_of_nat ?k1) =
        Some (buf2, word_of_nat (if f = 0x20 then ?k1 + 4 else ?k1), f \<in> {0x11, 0x14})"
      "length buf2 = length buf1" "take (?k1 + length (immediate i)) buf2 = take ?k1 buf1 @ immediate i"
    by auto
  let ?k2 = "k + instr_size (fst i)"
  have next_offset: "word_of_nat (if f = 0x20 then ?k1 + 4 else ?k1) + ucast (f AND OPCODEFLAGS_SizeMask) =
      (word_of_nat ?k2 :: u32)"
    by (simp add: sz operand_size_def f_def [symmetric] flags_size_def add.assoc)
  have "instr_code rw1 = instr_code rw" using one(3) by (intro ext) simp
  with code(2) have code1: "map (instr_code rw1) ps = map Some is'" by simp
  have "?k2 + code_size is' \<le> length buf2" "length buf2 < 2 ^ 32" using fits b1(2) b2(2) by simp_all
  from Cons.IH [OF code1 p(2) ok(2) this, of "fB \<or> f \<in> {0x11, 0x14}"]
  obtain buf' rw' where IH:
      "export_layout ps buf2 (word_of_nat ?k2) (fB \<or> f \<in> {0x11, 0x14}) rw1 =
         Some (buf', word_of_nat (?k2 + code_size is'), (fB \<or> f \<in> {0x11, 0x14}) \<or> list_ex is_branch is', rw')"
      "length buf' = length buf2" "take ?k2 buf' = take ?k2 buf2" "heads_at buf' ?k2 is'" "links_same rw1 rw'"
      "\<forall>x. instr_code rw' x = instr_code rw1 x"
      "\<forall>x. x \<notin> set ps \<longrightarrow> offset_at x rw' = offset_at x rw1"
      "map (\<lambda>p. offset_at p rw') ps = map Some (offsets_from ?k2 is')"
    by auto
  have kk: "k + length (head i) = ?k1 + length (immediate i)" by (simp add: head_immediate)
  have le: "k + length (head i) \<le> ?k2" using kk sz imm by simp
  have taken: "take (k + length (head i)) buf2 = take k buf @ head i"
    unfolding kk using b1(3) b2(3) by (simp add: head_immediate)
  have lk: "length (take k buf) = k" using fits by simp
  have sl: "take (length (head i)) (drop k buf') = take (length (head i)) (drop k buf2)"
    by (rule slice_take [OF IH(3) le])
  have "take (length (head i)) (drop k buf2) = head i"
    using arg_cong [OF taken, of "drop k"] lk by (simp add: drop_take)
  with sl have head: "take (length (head i)) (drop k buf') = head i" by simp
  have pre: "take k buf' = take k buf"
  proof -
    have "take k buf' = take k buf2"
      using arg_cong [OF IH(3), of "take k"] by (simp add: min_def)
    also have "\<dots> = take k buf"
      using arg_cong [OF taken, of "take k"] lk by simp
    finally show ?thesis .
  qed
  have step: "export_layout (p # ps) buf (word_of_nat k) fB rw =
      export_layout ps buf2 (word_of_nat ?k2) (fB \<or> f \<in> {0x11, 0x14}) rw1"
    using one(1,6,7,8) b1(1) fl b2(1) next_offset by simp
  show ?case
    unfolding step IH(1)
  proof (intro exI conjI)
    show "Some (buf', word_of_nat (?k2 + code_size is'), (fB \<or> f \<in> {0x11, 0x14}) \<or> list_ex is_branch is', rw') =
        Some (buf', word_of_nat (k + code_size is), fB \<or> list_ex is_branch is, rw')"
      by (simp add: i is_branch_def f_def add.assoc)
    show "length buf' = length buf" using IH(2) b1(2) b2(2) by simp
    show "take k buf' = take k buf" by (rule pre)
    show "heads_at buf' k is" using head IH(4) by (simp add: i)
    show "links_same rw rw'" by (rule links_same_trans [OF one(2) IH(5)])
    show "\<forall>x. instr_code rw' x = instr_code rw x" using IH(6) one(3) by simp
    show "\<forall>x. x \<notin> set (p # ps) \<longrightarrow> offset_at x rw' = offset_at x rw" using IH(7) one(5) by simp
    show "map (\<lambda>p. offset_at p rw') (p # ps) = map Some (offsets_from k is)"
      using IH(7,8) one(4) p(1) by (simp add: i)
  qed
qed

section \<open>The second pass\<close>

definition widened :: "opcode \<times> operand \<Rightarrow> opcode \<times> operand \<Rightarrow> bool" where
  "widened i i' \<longleftrightarrow> i' = i \<or> op_flags (fst i) = 0x11 \<and> i' = (long_branch (fst i), snd i)"

lemma layout_hd: "layout L k xs is \<Longrightarrow> L (hd (xs @ [m_IL])) = word_of_nat k"
  by (cases xs; cases "is") auto

text \<open>
  What the pass does to one instruction that it does not widen: the bytes of its target
  are written behind its head, in its own part of the buffer.
\<close>

lemma write_tail:
  assumes w: "write_bytes (word_of_nat j) bs buf = Some buf1" "j + length bs = m" "m < 2 ^ 32"
    and head: "k + length h = j" "take (length h) (drop k buf) = h"
  shows "length buf1 = length buf" "take k buf1 = take k buf" "drop m buf1 = drop m buf"
    "take m buf1 = take k buf @ h @ bs"
proof -
  have j: "j < 2 ^ 32" using w(2,3) by simp
  note t = write_bytes_take [OF w(1) j]
  show "length buf1 = length buf" by (rule t(1))
  have "take j buf = take k buf @ h"
    using head by (metis take_add)
  then show "take m buf1 = take k buf @ h @ bs" using t(4) w(2) by simp
  show "drop m buf1 = drop m buf" using t(5) w(2) by simp
  have "k \<le> j" using head(1) by simp
  then show "take k buf1 = take k buf" using arg_cong [OF t(2), of "take k"] by (simp add: min_def)
qed

lemma targets_step:
  assumes code: "instr_code rw p = Some i" and ok: "operand_ok i"
    and nxt: "nx (il_heap rw) p = Some q" "offset_at q rw = Some (word_of_nat (k + instr_size (fst i)))"
    and off: "offset_at p rw = Some (word_of_nat k)"
    and tgt: "\<And>t. snd i = Target t \<Longrightarrow> offset_at t rw = Some (L t)"
    and fits: "k + instr_size (fst i) \<le> length buf" "length buf < 2 ^ 32"
    and head: "take (length (head i)) (drop k buf) = head i"
  shows "if op_flags (fst i) = 0x11 \<and> \<not> fits_int8 (displacement L k i)
     then \<exists>rw1. export_targets (p # ps) buf base fT rw = export_targets ps buf (switch_base k base i) True rw1 \<and>
       upd_instr p (m_opcode_update (\<lambda>_. long_branch (fst i))) rw = Some rw1
     else \<exists>buf1. export_targets (p # ps) buf base fT rw = export_targets ps buf1 (switch_base k base i) fT rw \<and>
       length buf1 = length buf \<and> take k buf1 = take k buf \<and>
       drop (k + instr_size (fst i)) buf1 = drop (k + instr_size (fst i)) buf \<and>
       take (k + instr_size (fst i)) buf1 = take k buf @ head i @ tail L k base i"
proof -
  obtain ir where ir: "il_heap rw p = Some ir" "i = (m_opcode ir, m_operand ir)"
    using code by (auto simp: instr_code_def)
  have op: "unat (fst i) < 296" "fst i \<noteq> CEE_COUNT" using ok by (simp_all add: operand_ok_def)
  have fl: "opcode_flags (m_opcode ir) = Some (op_flags (fst i))"
    using op_flags_some [OF op(1)] ir(2) by simp
  have next_addr: "m_pNext ir = q" using nxt(1) ir(1) by (simp add: nx_def)
  have off_p: "m_offset ir = word_of_nat k" using off ir(1) by (simp add: offset_at_def get_instr_def)
  note len = length_head_tail [OF ok, of L k base]
  have lk: "k + length (head i) \<le> length buf" using fits len by simp
  have no_write: ?thesis
    if "op_flags (fst i) \<noteq> 0x11" "tail L k base i = []"
      "export_targets (p # ps) buf base fT rw = export_targets ps buf (switch_base k base i) fT rw"
  proof -
    have "take (k + length (head i)) buf = take k buf @ head i" using head by (metis take_add)
    with that len show ?thesis by auto
  qed
  have wrote: ?thesis
    if "\<not> (op_flags (fst i) = 0x11 \<and> \<not> fits_int8 (displacement L k i))"
      "write_bytes (word_of_nat (k + length (head i))) (tail L k base i) buf = Some buf1"
      "export_targets (p # ps) buf base fT rw = export_targets ps buf1 (switch_base k base i) fT rw"
    for buf1
  proof -
    have "k + length (head i) + length (tail L k base i) = k + instr_size (fst i)" using len by simp
    with that write_tail [OF that(2) this _ refl head] fits show ?thesis by auto
  qed
  obtain buf1 where w: "write_bytes (word_of_nat (k + length (head i))) (tail L k base i) buf = Some buf1"
    using write_bytes_some [of "k + length (head i)" "tail L k base i" buf] fits len by auto
  consider "fst i = CEE_SWITCH" | "fst i = CEE_SWITCH_ARG"
    | "fst i \<noteq> CEE_SWITCH" "fst i \<noteq> CEE_SWITCH_ARG" "op_flags (fst i) \<in> {0x11, 0x14}"
    | "fst i \<noteq> CEE_SWITCH" "fst i \<noteq> CEE_SWITCH_ARG" "op_flags (fst i) \<notin> {0x11, 0x14}"
    by blast
  then show ?thesis
  proof cases
    case 1
    then have f: "op_flags (fst i) = 0x20" using op_flags_switch [OF op] by simp
    then obtain b where b: "snd i = Bits b" using ok by (cases "snd i") (auto simp: operand_ok_def)
    show ?thesis
      using 1 f b ir off_p
      by (intro no_write) (auto simp: tail_def switch_base_def op_bits_def get_instr_def)
  next
    case 2
    then obtain t where t: "snd i = Target t" using ok by (auto simp: operand_ok_def)
    have h: "head i = []" using 2 by (simp add: head_def opcode_bytes_def)
    show ?thesis
      using 2 t ir off_p tgt [OF t] w h
      by (intro wrote) (auto simp: tail_def switch_base_def get_instr_def op_target_def)
  next
    case 3
    then obtain t where t: "snd i = Target t" using ok by (auto simp: operand_ok_def)
    have delta: "L t - word_of_nat (k + instr_size (fst i)) = displacement L k i"
      by (simp add: displacement_def t op_target_def)
    have br: "op_flags (fst i) AND OPCODEFLAGS_BranchTarget \<noteq> 0" using 3(3) by auto
    have sb: "switch_base k base i = base" using 3(1) by (simp add: switch_base_def)
    have backw: "word_of_nat (k + instr_size (fst i)) - word_of_nat (length (tail L k base i)) =
        (word_of_nat (k + length (head i)) :: u32)"
      by (simp flip: len)
    show ?thesis
    proof (cases "op_flags (fst i) = 0x11")
      case True
      have tl: "tail L k base i = [ucast (displacement L k i)]" using 3 True by (simp add: tail_def)
      show ?thesis
      proof (cases "fits_int8 (displacement L k i)")
        case False
        obtain rw1 where u: "upd_instr p (m_opcode_update (\<lambda>_. long_branch (fst i))) rw = Some rw1"
          using ir(1) by (simp add: upd_instr_def)
        then show ?thesis
          using 3 True False ir t tgt [OF t] nxt next_addr delta fl sb
          by (auto simp: get_instr_def Let_def)
      next
        case fit: True
        show ?thesis
          using 3 True fit ir t tgt [OF t] nxt next_addr delta fl sb w backw tl
          by (intro wrote) (auto simp: get_instr_def Let_def simp del: of_nat_add)
      qed
    next
      case False
      then have f14: "op_flags (fst i) = 0x14" using 3(3) by simp
      have tl: "tail L k base i = le_bytes 4 (unat (displacement L k i))"
        using 3 f14 by (simp add: tail_def)
      show ?thesis
        using 3 f14 ir t tgt [OF t] nxt next_addr delta fl sb w backw tl
        by (intro wrote) (auto simp: get_instr_def Let_def simp del: of_nat_add)
    qed
  next
    case 4
    have "op_flags (fst i) AND OPCODEFLAGS_BranchTarget = 0"
      using 4 op_flags_range [OF op(1)] by auto
    with 4 ir fl show ?thesis
      by (intro no_write) (auto simp: tail_def switch_base_def get_instr_def)
  qed
qed

end
