(* ===== verification/IL_Assemble.thy ===== *)
theory IL_Assemble
  imports IL_Export
begin

text \<open>
  The loop of \<open>ILRewriter::Export\<close> against the assembler of \<open>IL_Code\<close>: the buffer holds the
  assembled program, in which only short branches that do not reach have become long ones.
\<close>

section \<open>Widening\<close>

lemma long_branch_range:
  assumes "unat op < 296" "op_flags op = 0x11"
  shows "CEE_BR \<le> long_branch op \<and> long_branch op \<le> CEE_BLT_UN \<or> long_branch op = CEE_LEAVE"
proof -
  have "op < CEE_COUNT"
    using assms by (cases rule: opcode_cases_bound) (simp_all add: op_flags_def opcode_flags_internal)
  with assms have "CEE_BR_S \<le> op \<and> op \<le> CEE_BLT_UN_S \<or> op = CEE_LEAVE_S"
    using opcode_flags_cases(3) [OF op_flags_some] by blast
  then show ?thesis
  proof
    assume o: "CEE_BR_S \<le> op \<and> op \<le> CEE_BLT_UN_S"
    then have "long_branch op = op + 13"
      by (auto simp: long_branch_def)
    moreover have "CEE_BR \<le> op + 13 \<and> op + 13 \<le> CEE_BLT_UN"
      using o by (auto simp: word_le_nat_alt unat_word_ariths)
    ultimately show ?thesis by simp
  qed (simp add: long_branch_def)
qed

lemma long_branch_flags:
  assumes "unat op < 296" "op_flags op = 0x11"
  shows "op_flags (long_branch op) = 0x14" "unat (long_branch op) < 296" "long_branch op \<noteq> CEE_COUNT"
    "long_branch op \<noteq> CEE_SWITCH_ARG" "long_branch op \<noteq> CEE_SWITCH"
proof -
  note range = long_branch_range [OF assms]
  then have lt: "long_branch op < CEE_COUNT" "unat (long_branch op) < 296"
    by (auto simp: word_le_nat_alt word_less_nat_alt)
  note opcode_flags_cases(4) [OF op_flags_some [OF lt(2)] lt(1)]
  with range lt show "op_flags (long_branch op) = 0x14" "unat (long_branch op) < 296"
      "long_branch op \<noteq> CEE_COUNT" "long_branch op \<noteq> CEE_SWITCH_ARG" "long_branch op \<noteq> CEE_SWITCH"
    by auto
qed

lemma widened_flags:
  assumes "operand_ok i" "op_flags (fst i) = 0x11"
  shows "(long_branch (fst i), snd i) \<noteq> i" "operand_ok (long_branch (fst i), snd i)"
proof -
  have "op_flags (long_branch (fst i)) \<noteq> op_flags (fst i)"
    using assms long_branch_flags(1) [of "fst i"] by (simp add: operand_ok_def)
  then show "(long_branch (fst i), snd i) \<noteq> i" by (metis fst_conv)
  show "operand_ok (long_branch (fst i), snd i)"
    using assms long_branch_flags [of "fst i"] by (simp add: operand_ok_def)
qed

lemma widened_ok: "widened i i' \<Longrightarrow> operand_ok i \<Longrightarrow> operand_ok i'"
  by (auto simp: widened_def widened_flags)

lemma widened_all_ok: "list_all2 widened is is' \<Longrightarrow> list_all operand_ok is \<Longrightarrow> list_all operand_ok is'"
  by (induction rule: list_all2_induct) (auto simp: widened_ok)

lemma upd_opcode:
  assumes "instr_code rw p = Some i" "upd_instr p (m_opcode_update (\<lambda>_. op)) rw = Some rw'"
  shows "links_same rw rw'" "offset_at x rw' = offset_at x rw"
    "instr_code rw' x = (if x = p then Some (op, snd i) else instr_code rw x)"
  using assms
  by (auto simp: upd_links_same upd_instr_def instr_code_def offset_at_def get_instr_def set_instr_def
      bind_eq_Some_conv)

section \<open>The second pass on a laid out list\<close>

lemma export_targets_spec:
  "map (instr_code rw) ps = map Some is \<Longrightarrow> distinct ps \<Longrightarrow> list_all operand_ok is \<Longrightarrow>
   map (nx (il_heap rw)) ps = map Some (tl (ps @ [m_IL])) \<Longrightarrow>
   map (\<lambda>p. offset_at p rw) (ps @ [m_IL]) = map Some (offsets_from k is @ [word_of_nat (k + code_size is)]) \<Longrightarrow>
   \<forall>i \<in> set is. \<forall>t. snd i = Target t \<longrightarrow> offset_at t rw = Some (L t) \<Longrightarrow>
   k + code_size is \<le> length buf \<Longrightarrow> length buf < 2 ^ 32 \<Longrightarrow> heads_at buf k is \<Longrightarrow>
   \<exists>buf' is' rw'. export_targets ps buf base fT rw = Some (buf', fT \<or> is' \<noteq> is, rw') \<and>
     length buf' = length buf \<and> list_all2 widened is is' \<and> map (instr_code rw') ps = map Some is' \<and>
     links_same rw rw' \<and> (\<forall>x. offset_at x rw' = offset_at x rw) \<and>
     (\<forall>x. x \<notin> set ps \<longrightarrow> instr_code rw' x = instr_code rw x) \<and> take k buf' = take k buf \<and>
     (is' = is \<longrightarrow> take (k + code_size is) buf' = take k buf @ assemble L k base is \<and> short_branches_fit L k is)"
proof (induction ps arbitrary: k buf base fT rw "is")
  case Nil
  then show ?case by simp
next
  case (Cons p ps)
  then obtain i is' where i: "is = i # is'" by (cases "is") auto
  let ?k = "k + instr_size (fst i)"
  have code: "instr_code rw p = Some i" "map (instr_code rw) ps = map Some is'" and p: "p \<notin> set ps" "distinct ps"
    and ok: "operand_ok i" "list_all operand_ok is'"
    and fits: "?k + code_size is' \<le> length buf" "length buf < 2 ^ 32"
    and head: "take (length (head i)) (drop k buf) = head i" and heads: "heads_at buf ?k is'"
    and off: "offset_at p rw = Some (word_of_nat k)"
    and offs: "map (\<lambda>p. offset_at p rw) (ps @ [m_IL]) = map Some (offsets_from ?k is' @ [word_of_nat (?k + code_size is')])"
    using Cons.prems by (auto simp: i add.assoc)
  have tgt: "\<And>t. snd i = Target t \<Longrightarrow> offset_at t rw = Some (L t)"
    "\<forall>i \<in> set is'. \<forall>t. snd i = Target t \<longrightarrow> offset_at t rw = Some (L t)"
    using Cons.prems(6) unfolding i by auto
  have nxt: "nx (il_heap rw) p = Some (hd (ps @ [m_IL]))" "map (nx (il_heap rw)) ps = map Some (tl (ps @ [m_IL]))"
    using Cons.prems(4) by (cases ps; simp)+
  have off_next: "offset_at (hd (ps @ [m_IL])) rw = Some (word_of_nat ?k)"
    using offs by (cases ps; cases is') auto
  have one: "?k \<le> length buf" using fits(1) by simp
  note step = targets_step [where L = L and base = base and fT = fT and ps = ps,
      OF code(1) ok(1) nxt(1) off_next off tgt(1) one fits(2) head, simplified]
  show ?case
  proof (cases "op_flags (fst i) = 0x11 \<and> \<not> fits_int8 (displacement L k i)")
    case True
    then obtain rw1 where s: "export_targets (p # ps) buf base fT rw = export_targets ps buf (switch_base k base i) True rw1"
        "upd_instr p (m_opcode_update (\<lambda>_. long_branch (fst i))) rw = Some rw1"
      using step by auto
    note u = upd_opcode [OF code(1) s(2)]
    have nx1: "nx (il_heap rw1) = nx (il_heap rw)" using u(1) by (auto simp: links_same_def)
    have off1: "offset_at x rw1 = offset_at x rw" for x by (rule u(2))
    have code1: "map (instr_code rw1) ps = map Some is'"
      unfolding code(2) [symmetric] using p(1) u(3) by (intro map_cong) auto
    obtain buf' is2 rw' where IH: "export_targets ps buf (switch_base k base i) True rw1 = Some (buf', True, rw')"
        "length buf' = length buf" "list_all2 widened is' is2" "map (instr_code rw') ps = map Some is2"
        "links_same rw1 rw'" "\<forall>x. offset_at x rw' = offset_at x rw1"
        "\<forall>x. x \<notin> set ps \<longrightarrow> instr_code rw' x = instr_code rw1 x" "take ?k buf' = take ?k buf"
      using Cons.IH [OF code1 p(2) ok(2) _ _ _ fits heads, of "switch_base k base i" True] nxt(2) offs tgt(2)
      by (auto simp: nx1 off1)
    let ?is = "(long_branch (fst i), snd i) # is2"
    have ne: "(long_branch (fst i), snd i) \<noteq> i" using widened_flags(1) [OF ok(1)] True by blast
    have "take k buf' = take k buf"
      using arg_cong [OF IH(8), of "take k"] by (simp add: min_def)
    moreover have "widened i (long_branch (fst i), snd i)" using True by (simp add: widened_def)
    moreover have "links_same rw rw'" using u(1) IH(5) by (rule links_same_trans)
    ultimately show ?thesis
      using ne IH(1-4,6,7) s(1) p(1) u
      by (intro exI [of _ buf'] exI [of _ ?is] exI [of _ rw']) (simp add: i del: export_targets.simps)
  next
    case False
    then obtain buf1 where s: "export_targets (p # ps) buf base fT rw = export_targets ps buf1 (switch_base k base i) fT rw"
        "length buf1 = length buf" "take k buf1 = take k buf" "drop ?k buf1 = drop ?k buf"
        "take ?k buf1 = take k buf @ head i @ tail L k base i"
      using step by auto
    have heads1: "heads_at buf1 ?k is'" using heads heads_at_drop [OF s(4)] by simp
    have fits1: "?k + code_size is' \<le> length buf1" "length buf1 < 2 ^ 32" using fits s(2) by simp_all
    obtain buf' is2 rw' where IH: "export_targets ps buf1 (switch_base k base i) fT rw = Some (buf', fT \<or> is2 \<noteq> is', rw')"
        "length buf' = length buf1" "list_all2 widened is' is2" "map (instr_code rw') ps = map Some is2"
        "links_same rw rw'" "\<forall>x. offset_at x rw' = offset_at x rw"
        "\<forall>x. x \<notin> set ps \<longrightarrow> instr_code rw' x = instr_code rw x" "take ?k buf' = take ?k buf1"
        "is2 = is' \<longrightarrow> take (?k + code_size is') buf' = take ?k buf1 @ assemble L ?k (switch_base k base i) is' \<and>
           short_branches_fit L ?k is'"
      using Cons.IH [where base = "switch_base k base i" and fT = fT, OF code(2) p(2) ok(2) nxt(2) offs tgt(2) fits1 heads1] by blast
    have "take k buf' = take k buf"
      using arg_cong [OF IH(8), of "take k"] s(3) by (simp add: min_def)
    moreover have "widened i i" by (simp add: widened_def)
    ultimately show ?thesis
      using IH s False p(1) code(1)
      by (intro exI [of _ buf'] exI [of _ "i # is2"] exI [of _ rw'])
         (simp add: i add.assoc fits_int8_def del: export_targets.simps)
  qed
qed


section \<open>One repetition\<close>

lemma heads_assemble:
  "heads_at buf k is \<Longrightarrow> \<not> list_ex is_branch is \<Longrightarrow> list_all operand_ok is \<Longrightarrow> k + code_size is \<le> length buf \<Longrightarrow>
   take (k + code_size is) buf = take k buf @ assemble L k base is \<and> short_branches_fit L k is"
proof (induction "is" arbitrary: k base)
  case (Cons i "is")
  then have f: "op_flags (fst i) \<notin> {0x11, 0x14}" by (auto simp: is_branch_def)
  then have t: "tail L k base i = []" by (auto simp: tail_def)
  then have size: "length (head i) = instr_size (fst i)"
    using Cons.prems(3) length_head_tail [of i L k base] by simp
  then have "take (k + instr_size (fst i)) buf = take k buf @ head i"
    using Cons.prems(1) by (simp add: take_add)
  then show ?case
    using Cons.IH [of "k + instr_size (fst i)" "switch_base k base i"] Cons.prems t f
    by (simp add: add.assoc)
qed simp

lemma offsets_layout:
  "map (\<lambda>p. offset_at p rw) (ps @ [m_IL]) = map Some (offsets_from k is @ [word_of_nat (k + code_size is)]) \<Longrightarrow>
   length ps = length is \<Longrightarrow> layout (\<lambda>x. the (offset_at x rw)) k ps is"
  by (induction ps arbitrary: k "is"; rename_tac "is", case_tac "is") (auto simp: add.assoc)

lemma chain_nx: "chain h (ps @ [q]) \<Longrightarrow> map (nx h) ps = map Some (tl (ps @ [q]))"
proof (induction ps)
  case (Cons p ps)
  then show ?case by (cases ps) (auto simp: linked_def)
qed simp

text \<open>The list as the exporter needs it: its code, well formed, with all targets in the list.\<close>

definition program_at :: "ILRewriter \<Rightarrow> addr list \<Rightarrow> (opcode \<times> operand) list \<Rightarrow> bool" where
  "program_at rw xs is \<longleftrightarrow> il_list rw xs \<and> map (instr_code rw) xs = map Some is \<and> list_all operand_ok is \<and>
     (\<forall>i \<in> set is. \<forall>t. snd i = Target t \<longrightarrow> t \<in> set (m_IL # xs))"

lemma program_at_length: "program_at rw xs is \<Longrightarrow> length xs = length is"
  by (auto simp: program_at_def dest: map_eq_imp_length_eq)

text \<open>What a repetition leaves if it widens nothing: the assembled program, and the offsets it has.\<close>

definition assembled :: "ILRewriter \<Rightarrow> addr list \<Rightarrow> (opcode \<times> operand) list \<Rightarrow> byte list \<Rightarrow> bool" where
  "assembled rw xs is buf \<longleftrightarrow>
     (let L = (\<lambda>x. the (offset_at x rw))
      in layout L 0 xs is \<and> short_branches_fit L 0 is \<and>
         take (code_size is) buf = assemble L 0 0 is \<and> (\<forall>x \<in> set (m_IL # xs). offset_at x rw \<noteq> None))"

lemma widened_targets:
  "list_all2 widened is is' \<Longrightarrow> i' \<in> set is' \<Longrightarrow> \<exists>i \<in> set is. snd i = snd i'"
  by (induction rule: list_all2_induct) (auto simp: widened_def)

lemma export_again_step:
  assumes p: "program_at rw xs is" and size: "code_size is \<le> length buf" "length buf < 2 ^ 32"
  shows "\<exists>buf' is' rw'. export_again (Suc n) buf rw =
      (if is' \<noteq> is then export_again n buf' rw' else Some (buf', word_of_nat (code_size is), rw')) \<and>
    length buf' = length buf \<and> list_all2 widened is is' \<and> program_at rw' xs is' \<and> links_same rw rw' \<and>
    (is' = is \<longrightarrow> assembled rw' xs is buf')"
proof -
  have l: "il_list rw xs" and code: "map (instr_code rw) xs = map Some is" and ok: "list_all operand_ok is"
    and tgt: "\<And>i t. i \<in> set is \<Longrightarrow> snd i = Target t \<Longrightarrow> t \<in> set (m_IL # xs)"
    using p by (auto simp: program_at_def)
  have dist: "distinct xs" "m_IL \<notin> set xs" using l by (simp_all add: il_list_def)
  obtain buf1 rw1 where one: "export_layout xs buf 0 False rw = Some (buf1, word_of_nat (code_size is), list_ex is_branch is, rw1)"
      "length buf1 = length buf" "heads_at buf1 0 is" "links_same rw rw1" "\<forall>x. instr_code rw1 x = instr_code rw x"
      "map (\<lambda>p. offset_at p rw1) xs = map Some (offsets_from 0 is)"
    using export_layout_spec [OF code dist(1) ok, of 0 buf False] size by auto
  have "instr_code rw1 m_IL \<noteq> None"
    using l one(5) by (auto simp: il_list_def heap_ok_def instr_code_def)
  then obtain c where "instr_code rw1 m_IL = Some c" by blast
  from upd_offset [OF this, of "word_of_nat (code_size is)"]
  obtain rw2 where two: "upd_instr m_IL (m_offset_update (\<lambda>_. word_of_nat (code_size is))) rw1 = Some rw2"
      "links_same rw1 rw2" "\<forall>x. instr_code rw2 x = instr_code rw1 x"
      "offset_at m_IL rw2 = Some (word_of_nat (code_size is))"
      "\<forall>x. x \<noteq> m_IL \<longrightarrow> offset_at x rw2 = offset_at x rw1"
    by metis
  have links: "links_same rw rw2" by (rule links_same_trans [OF one(4) two(2)])
  have l2: "il_list rw2 xs" by (rule links_same_il_list [OF links l])
  have code2: "map (instr_code rw2) xs = map Some is"
    using code one(5) two(3) by (simp cong: map_cong)
  have "map (\<lambda>p. offset_at p rw2) xs = map (\<lambda>p. offset_at p rw1) xs"
    using two(5) dist(2) by (intro map_cong) (simp, metis)
  then have offs: "map (\<lambda>p. offset_at p rw2) (xs @ [m_IL]) = map Some (offsets_from 0 is @ [word_of_nat (0 + code_size is)])"
    using one(6) two(4) by simp
  define L where "L = (\<lambda>x. the (offset_at x rw2))"
  have lay: "layout L 0 xs is"
    unfolding L_def using program_at_length [OF p] by (intro offsets_layout [OF offs])
  have "set (map (\<lambda>p. offset_at p rw2) (xs @ [m_IL])) \<subseteq> range Some" unfolding offs by auto
  then have def: "offset_at x rw2 = Some (L x)" if "x \<in> set (m_IL # xs)" for x
    using that by (auto simp: L_def)
  have walk: "GetILList rw = Some xs" by (rule GetILList_il_list [OF l])
  show ?thesis
  proof (cases "list_ex is_branch is")
    case False
    have "take (code_size is) buf1 = assemble L 0 0 is" "short_branches_fit L 0 is"
      using heads_assemble [OF one(3) False ok, of L 0] size one(2) by simp_all
    then have "assembled rw2 xs is buf1"
      using lay def by (auto simp: assembled_def L_def [symmetric])
    moreover have "list_all2 widened is is" by (simp add: list.rel_refl widened_def)
    moreover have "program_at rw2 xs is" using l2 code2 ok tgt by (auto simp: program_at_def)
    ultimately show ?thesis
      using walk one(1,2) two(1) False links by (intro exI [of _ buf1] exI [of _ "is"] exI [of _ rw2]) simp
  next
    case True
    have nxt: "map (nx (il_heap rw2)) xs = map Some (tl (xs @ [m_IL]))"
      using l2 chain_nx [of "il_heap rw2" xs m_IL] by (cases xs) (simp_all add: il_list_def)
    have fits: "0 + code_size is \<le> length buf1" "length buf1 < 2 ^ 32" using size one(2) by simp_all
    have tgt2: "\<forall>i \<in> set is. \<forall>t. snd i = Target t \<longrightarrow> offset_at t rw2 = Some (L t)"
      using def tgt by blast
    obtain buf' is' rw' where three: "export_targets xs buf1 0 False rw2 = Some (buf', is' \<noteq> is, rw')"
        "length buf' = length buf1" "list_all2 widened is is'" "map (instr_code rw') xs = map Some is'"
        "links_same rw2 rw'" "\<forall>x. offset_at x rw' = offset_at x rw2"
        "is' = is \<longrightarrow> take (code_size is) buf' = assemble L 0 0 is \<and> short_branches_fit L 0 is"
      using export_targets_spec [OF code2 dist(1) ok nxt offs tgt2 fits one(3), of 0 False] by auto
    have "program_at rw' xs is'"
      using links_same_il_list [OF three(5) l2] three(3,4) widened_all_ok [OF three(3) ok]
        widened_targets [OF three(3)] tgt
      by (fastforce simp: program_at_def)
    moreover have "is' = is \<longrightarrow> assembled rw' xs is buf'"
      using three(6,7) lay def by (auto simp: assembled_def L_def [symmetric])
    ultimately show ?thesis
      using walk one(1,2) two(1) True three(1-3) links_same_trans [OF links three(5)]
      by (intro exI [of _ buf'] exI [of _ is'] exI [of _ rw']) simp
  qed
qed


section \<open>Until nothing is widened\<close>

lemma widened_trans:
  "list_all2 widened is is' \<Longrightarrow> list_all2 widened is' is'' \<Longrightarrow> list_all operand_ok is \<Longrightarrow>
   list_all2 widened is is''"
proof (induction arbitrary: is'' rule: list_all2_induct)
  case (Cons i "is" i' is')
  then obtain j js where j: "is'' = j # js" "widened i' j" "list_all2 widened is' js"
    by (auto simp: list_all2_Cons1)
  have "op_flags (long_branch (fst i)) \<noteq> 0x11" if "op_flags (fst i) = 0x11"
    using that Cons.prems(2) long_branch_flags(1) [of "fst i"] by (simp add: operand_ok_def)
  with Cons j show ?case by (auto simp: widened_def)
qed simp

definition short_branches :: "(opcode \<times> operand) list \<Rightarrow> nat" where
  "short_branches is = length (filter (\<lambda>i. op_flags (fst i) = 0x11) is)"

lemma widened_fewer:
  "list_all2 widened is is' \<Longrightarrow> list_all operand_ok is \<Longrightarrow>
   short_branches is' \<le> short_branches is \<and> (is' \<noteq> is \<longrightarrow> short_branches is' < short_branches is)"
proof (induction rule: list_all2_induct)
  case (Cons i "is" i' is')
  have "op_flags (long_branch (fst i)) \<noteq> 0x11" if "op_flags (fst i) = 0x11"
    using that Cons.prems long_branch_flags(1) [of "fst i"] by (simp add: operand_ok_def)
  with Cons show ?case by (auto simp: widened_def short_branches_def)
qed simp

lemma export_again_spec:
  "program_at rw xs is \<Longrightarrow> 10 * length is \<le> length buf \<Longrightarrow> length buf < 2 ^ 32 \<Longrightarrow> short_branches is < n \<Longrightarrow>
   \<exists>buf' is' rw'. export_again n buf rw = Some (buf', word_of_nat (code_size is'), rw') \<and>
     length buf' = length buf \<and> list_all2 widened is is' \<and> program_at rw' xs is' \<and> links_same rw rw' \<and>
     assembled rw' xs is' buf'"
proof (induction n arbitrary: rw "is" buf)
  case (Suc n)
  have ok: "list_all operand_ok is" using Suc.prems(1) by (simp add: program_at_def)
  have "code_size is \<le> length buf" using code_size_bound [OF ok] Suc.prems(2) by simp
  from export_again_step [OF Suc.prems(1) this Suc.prems(3), of n]
  obtain buf1 is1 rw1 where one: "export_again (Suc n) buf rw =
        (if is1 \<noteq> is then export_again n buf1 rw1 else Some (buf1, word_of_nat (code_size is), rw1))"
      "length buf1 = length buf" "list_all2 widened is is1" "program_at rw1 xs is1" "links_same rw rw1"
      "is1 = is \<longrightarrow> assembled rw1 xs is buf1" by blast
  show ?case
  proof (cases "is1 = is")
    case True
    with one show ?thesis by (intro exI [of _ buf1] exI [of _ "is"] exI [of _ rw1]) simp
  next
    case False
    have "short_branches is1 < n" using widened_fewer [OF one(3) ok] False Suc.prems(4) by simp
    moreover have "10 * length is1 \<le> length buf1" "length buf1 < 2 ^ 32"
      using Suc.prems(2,3) one(2,3) by (simp_all add: list_all2_lengthD [symmetric])
    ultimately obtain buf' is' rw' where two: "export_again n buf1 rw1 = Some (buf', word_of_nat (code_size is'), rw')"
        "length buf' = length buf1" "list_all2 widened is1 is'" "program_at rw' xs is'" "links_same rw1 rw'"
        "assembled rw' xs is' buf'"
      using Suc.IH [OF one(4)] by blast
    show ?thesis
      using two one False widened_trans [OF one(3) two(3) ok] links_same_trans [OF one(5) two(5)]
      by (intro exI [of _ buf'] exI [of _ is'] exI [of _ rw']) simp
  qed
qed simp

theorem export_buffer_spec:
  assumes p: "program_at rw xs is" and size: "10 * (il_brk rw - 3) < 2 ^ 32"
  shows "\<exists>buf is' rw'. export_buffer mem rw = Some (buf, word_of_nat (code_size is'), rw') \<and>
    list_all2 widened is is' \<and> program_at rw' xs is' \<and> links_same rw rw' \<and> assembled rw' xs is' buf \<and>
    code_size is' \<le> length buf \<and> code_size is' < 2 ^ 32"
proof -
  have l: "il_list rw xs" using p by (simp add: program_at_def)
  have len: "length is + 3 \<le> il_brk rw" using il_list_length [OF l] program_at_length [OF p] by simp
  have "m_nInstrs rw = word_of_nat (il_brk rw - 3)" using l by (simp add: il_list_def heap_ok_def)
  moreover have "10 * (il_brk rw - 3) < 4294967296" using size by simp
  ultimately have max: "unat (m_nInstrs rw * 10) = 10 * (il_brk rw - 3)"
    using unat_of_nat_u32 [of "10 * (il_brk rw - 3)"] by (simp add: mult.commute)
  define buf where "buf = uninitialised mem (10 * (il_brk rw - 3))"
  have lb: "length buf = 10 * (il_brk rw - 3)" by (simp add: buf_def uninitialised_def)
  have buf: "10 * length is \<le> length buf" "length buf < 2 ^ 32" using len size by (simp_all add: lb)
  have "short_branches is \<le> length is" by (simp add: short_branches_def)
  then have fuel: "short_branches is < il_brk rw" using len by simp
  obtain buf' is' rw' where e: "export_again (il_brk rw) buf rw = Some (buf', word_of_nat (code_size is'), rw')"
      "length buf' = length buf" "list_all2 widened is is'" "program_at rw' xs is'" "links_same rw rw'"
      "assembled rw' xs is' buf'"
    using export_again_spec [OF p buf fuel] by blast
  have "list_all operand_ok is'" using e(4) by (simp add: program_at_def)
  then have "code_size is' \<le> 10 * length is'" by (rule code_size_bound)
  then have "code_size is' \<le> length buf'" using e(2) buf(1) list_all2_lengthD [OF e(3)] by simp
  moreover from this have "code_size is' < 2 ^ 32" using e(2) buf(2) by simp
  ultimately show ?thesis
    using e by (simp add: export_buffer_def Let_def max buf_def [symmetric]) blast
qed


section \<open>The contract of the code export\<close>

text \<open>
  A small program: \<open>ldc.i4.s 5\<close>, a short branch over nothing and a return, in a rewriter made
  as for the startup method. The branch points to the cell at address 5, the return.
\<close>

definition sample_code :: "(opcode \<times> operand) list" where
  "sample_code = [(CEE_LDC_I4_S, Bits 5), (CEE_BR_S, Target 5), (CEE_RET, Bits 0)]"

definition sample_start :: ILRewriter where
  "sample_start = SetTkLocalVarSig 0 (InitializeTiny (ILRewriter_init False 0 0))"

lemma sample_start_il_list: "il_list sample_start []"
  using ILRewriter_init_il_list [of False 0 0] il_list_cong [of sample_start "ILRewriter_init False 0 0" "[]"]
  by (simp add: sample_start_def SetTkLocalVarSig_def InitializeTiny_def)

lemma sample_program:
  "\<exists>rw. program_at rw [3, 4, 5] sample_code \<and> il_brk rw = 6 \<and> rw_rest rw = rw_rest sample_start"
proof -
  have ok: "list_all operand_ok sample_code" by code_simp
  then have "list_all code_ok sample_code"
    by (auto simp: list_all_iff operand_ok_def stack_pushes_defined)
  then obtain ws rw where e: "emit_all emit m_IL sample_code sample_start = Some (ws, rw)" "il_list rw ws"
      "map (instr_code rw) ws = map Some sample_code" "rw_rest rw = rw_rest sample_start"
    using il.emit_all_append [OF sample_start_il_list, of sample_code] by auto
  have "map_option (\<lambda>(ws, rw). (ws, il_brk rw)) (emit_all emit m_IL sample_code sample_start) = Some ([3, 4, 5], 6)"
    by code_simp
  with e(1) have "ws = [3, 4, 5]" "il_brk rw = 6" by simp_all
  with e(2-4) ok show ?thesis by (auto simp: program_at_def sample_code_def)
qed

text \<open>
  C9. The code bytes Export produces are the assembled program: for every list of
  instructions with valid operands and targets in the list, whatever the fresh buffer held,
  the loop of ILRewriter::Export ends, keeps the list, turns only short branches into their
  long forms, and leaves in the buffer exactly the encoding of the resulting program at the
  offsets it recorded, in which every remaining short branch reaches its target.
\<close>

theorem Export_assembles:
  assumes "program_at rw xs is" "10 * (il_brk rw - 3) < 2 ^ 32"
  shows "\<exists>buf is' rw'. export_buffer mem rw = Some (buf, word_of_nat (code_size is'), rw') \<and>
    list_all2 widened is is' \<and> program_at rw' xs is' \<and> code_size is' \<le> length buf \<and>
    (let L = (\<lambda>x. the (offset_at x rw'))
     in layout L 0 xs is' \<and> short_branches_fit L 0 is' \<and> take (code_size is') buf = assemble L 0 0 is')"
  using export_buffer_spec [OF assms, of mem] unfolding assembled_def Let_def by blast

theorem Export_assembles_witness:
  "\<exists>rw buf rw' is'. program_at rw [3, 4, 5] sample_code \<and>
    export_buffer (\<lambda>_. 0xCC) rw = Some (buf, word_of_nat (code_size is'), rw') \<and>
    take (code_size is') buf = assemble (\<lambda>x. the (offset_at x rw')) 0 0 is'"
proof -
  obtain rw where "program_at rw [3, 4, 5] sample_code" "il_brk rw = 6" using sample_program by blast
  then show ?thesis using Export_assembles [of rw "[3, 4, 5]" sample_code "\<lambda>_. 0xCC"] unfolding Let_def by force
qed

end
