(* ===== verification/IL_Import.thy ===== *)
theory IL_Import
  imports IL_Code
begin

text \<open>
  \<open>ILRewriter::ImportIL\<close> and \<open>ImportEH\<close> (il_rewriter.cpp): the bytes of a method body become
  the instruction list, branch targets and exception clauses become pointers into it.

  A routine returns its HRESULT and the state it leaves; \<open>None\<close> is an access the program
  does not guard (a null pointer, an index past an array). Asserts are compiled out, as in
  the release build. Second half: on every byte sequence the import does what a decoder of
  the byte sequence says, and refuses what that decoder refuses.
\<close>

section \<open>Reading the code bytes\<close>

definition read_bytes :: "nat \<Rightarrow> byte list \<Rightarrow> u32 \<Rightarrow> nat option" where
  "read_bytes k p offset =
     (if unat offset + k \<le> length p then Some (le_nat (take k (drop (unat offset) p))) else None)"

definition set_offset_instr :: "u32 \<Rightarrow> addr \<Rightarrow> ILRewriter \<Rightarrow> ILRewriter option" where
  "set_offset_instr offset p rw =
     (if unat offset < length (m_pOffsetToInstr rw)
      then Some (rw\<lparr>m_pOffsetToInstr := (m_pOffsetToInstr rw)[unat offset := p]\<rparr>) else None)"

definition upd_operand :: "addr \<Rightarrow> (operand \<Rightarrow> operand option) \<Rightarrow> ILRewriter \<Rightarrow> ILRewriter option" where
  "upd_operand p f rw = do {
     i \<leftarrow> get_instr p rw;
     x \<leftarrow> f (m_operand i);
     upd_instr p (m_operand_update (\<lambda>_. x)) rw
   }"

definition GetInstrFromOffset :: "u32 \<Rightarrow> ILRewriter \<Rightarrow> addr option" where
  "GetInstrFromOffset offset rw =
     (if offset \<le> m_CodeSize rw then
        (if unat offset < length (m_pOffsetToInstr rw) then Some (m_pOffsetToInstr rw ! unat offset)
         else None)
      else Some NULL)"

section \<open>Import of the instructions\<close>

text \<open>
  The opcode at \<open>offset\<close> and the offset after it; \<open>Inl\<close> is a return with that HRESULT.
\<close>

definition import_opcode :: "byte list \<Rightarrow> u32 \<Rightarrow> u32 \<Rightarrow> (hresult + (opcode \<times> u32)) option" where
  "import_opcode pIL codeSize offset = do {
     b \<leftarrow> read_bytes 1 pIL offset;
     let opcode = (word_of_nat b :: u32);
     let offset = offset + 1;
     r \<leftarrow>
       (if opcode = CEE_PREFIX1 then
          (if offset \<ge> codeSize then Some (Inl COR_E_INVALIDPROGRAM)
           else do { c \<leftarrow> read_bytes 1 pIL offset; Some (Inr (0x100 + word_of_nat c, offset + 1)) })
        else Some (Inr (opcode, offset)));
     case r of
       Inl hr \<Rightarrow> Some (Inl hr)
     | Inr (opcode, offset) \<Rightarrow>
         Some (if CEE_PREFIX7 \<le> opcode \<and> opcode \<le> CEE_PREFIX2 then Inl COR_E_INVALIDPROGRAM
               else if opcode \<ge> CEE_COUNT then Inl COR_E_INVALIDPROGRAM
               else Inr (opcode, offset))
   }"

text \<open>The loop over the targets of a switch.\<close>

fun import_targets :: "nat \<Rightarrow> byte list \<Rightarrow> u32 \<Rightarrow> u32 \<Rightarrow> ILRewriter \<Rightarrow> (hresult \<times> u32 \<times> ILRewriter) option" where
  "import_targets 0 pIL base offset rw = Some (S_OK, offset, rw)"
| "import_targets (Suc n) pIL base offset rw =
     (if unat offset + 4 > unat (m_CodeSize rw) then Some (COR_E_INVALIDPROGRAM, offset, rw)
      else
        (let (pInstr, rw) = NewILInstr rw in do {
           rw \<leftarrow> upd_instr pInstr (m_opcode_update (\<lambda>_. CEE_SWITCH_ARG)) rw;
           t \<leftarrow> read_bytes 4 pIL offset;
           rw \<leftarrow> upd_operand pInstr (set_Arg32 (base + word_of_nat t)) rw;
           rw \<leftarrow> InsertBefore m_IL pInstr rw;
           import_targets n pIL base (offset + 4) rw
         }))"

text \<open>
  The \<open>switch (flags)\<close>: the operand of \<open>pInstr\<close> at \<open>offset\<close>. Returns the HRESULT, the
  offset (moved on by the SWITCH case only), whether \<open>fBranch\<close> is set, and the state.
\<close>

definition import_operand :: "byte list \<Rightarrow> byte \<Rightarrow> addr \<Rightarrow> u32 \<Rightarrow> ILRewriter \<Rightarrow> (hresult \<times> u32 \<times> bool \<times> ILRewriter) option" where
  "import_operand pIL flags pInstr offset rw =
     (if flags = 0 then Some (S_OK, offset, False, rw)
      else if flags = 1 then do {
        v \<leftarrow> read_bytes 1 pIL offset;
        rw \<leftarrow> upd_operand pInstr (set_Arg8 (word_of_nat v)) rw;
        Some (S_OK, offset, False, rw) }
      else if flags = 2 then do {
        v \<leftarrow> read_bytes 2 pIL offset;
        rw \<leftarrow> upd_operand pInstr (set_Arg16 (word_of_nat v)) rw;
        Some (S_OK, offset, False, rw) }
      else if flags = 4 then do {
        v \<leftarrow> read_bytes 4 pIL offset;
        rw \<leftarrow> upd_operand pInstr (set_Arg32 (word_of_nat v)) rw;
        Some (S_OK, offset, False, rw) }
      else if flags = 8 then do {
        v \<leftarrow> read_bytes 8 pIL offset;
        rw \<leftarrow> upd_operand pInstr (set_Arg64 (word_of_nat v)) rw;
        Some (S_OK, offset, False, rw) }
      else if flags = 1 OR OPCODEFLAGS_BranchTarget then do {
        v \<leftarrow> read_bytes 1 pIL offset;
        rw \<leftarrow> upd_operand pInstr (set_Arg32 (offset + 1 + scast (word_of_nat v :: byte))) rw;
        Some (S_OK, offset, True, rw) }
      else if flags = 4 OR OPCODEFLAGS_BranchTarget then do {
        v \<leftarrow> read_bytes 4 pIL offset;
        rw \<leftarrow> upd_operand pInstr (set_Arg32 (offset + 4 + word_of_nat v)) rw;
        Some (S_OK, offset, True, rw) }
      else if flags = 0 OR OPCODEFLAGS_Switch then
        (if unat offset + 4 > unat (m_CodeSize rw) then Some (COR_E_INVALIDPROGRAM, offset, False, rw)
         else do {
           v \<leftarrow> read_bytes 4 pIL offset;
           let nTargets = (word_of_nat v :: u32);
           rw \<leftarrow> upd_operand pInstr (set_Arg32 nTargets) rw;
           let offset = offset + 4;
           let base = offset + nTargets * 4;
           (hr, offset, rw) \<leftarrow> import_targets (unat nTargets) pIL base offset rw;
           Some (hr, offset, True, rw) })
      else Some (S_OK, offset, False, rw))"

text \<open>
  The \<open>while\<close> loop. A turn passes at least one byte, so the code size bounds the turns
  (as long as \<open>offset + size\<close> does not wrap around, that is for code of less than 4 GB).
\<close>

fun import_loop :: "nat \<Rightarrow> byte list \<Rightarrow> u32 \<Rightarrow> bool \<Rightarrow> ILRewriter \<Rightarrow> (hresult \<times> bool \<times> ILRewriter) option" where
  "import_loop 0 pIL offset fBranch rw = None"
| "import_loop (Suc n) pIL offset fBranch rw =
     (if \<not> offset < m_CodeSize rw then Some (S_OK, fBranch, rw)
      else do {
        r \<leftarrow> import_opcode pIL (m_CodeSize rw) offset;
        case r of
          Inl hr \<Rightarrow> Some (hr, fBranch, rw)
        | Inr (opcode, after) \<Rightarrow> do {
            flags \<leftarrow> opcode_flags opcode;
            let size = (ucast (flags AND OPCODEFLAGS_SizeMask) :: u32);
            if after + size > m_CodeSize rw then Some (COR_E_INVALIDPROGRAM, fBranch, rw)
            else
              (let (pInstr, rw) = NewILInstr rw in do {
                 rw \<leftarrow> upd_instr pInstr (m_opcode_update (\<lambda>_. opcode)) rw;
                 rw \<leftarrow> InsertBefore m_IL pInstr rw;
                 rw \<leftarrow> set_offset_instr offset pInstr rw;
                 (hr, next, br, rw) \<leftarrow> import_operand pIL flags pInstr after rw;
                 if hr \<noteq> S_OK then Some (hr, fBranch, rw)
                 else import_loop n pIL (next + size) (fBranch \<or> br) rw
               })
          }
      })"

text \<open>The second loop: the targets of branches and switch arguments become pointers.\<close>

fun resolve_targets :: "addr list \<Rightarrow> ILRewriter \<Rightarrow> ILRewriter option" where
  "resolve_targets [] rw = Some rw"
| "resolve_targets (p # ps) rw = do {
     i \<leftarrow> get_instr p rw;
     flags \<leftarrow> opcode_flags (m_opcode i);
     rw \<leftarrow>
       (if flags AND OPCODEFLAGS_BranchTarget \<noteq> 0 then do {
          offset \<leftarrow> m_Arg32 (m_operand i);
          t \<leftarrow> GetInstrFromOffset offset rw;
          upd_instr p (m_operand_update (\<lambda>_. Target t)) rw }
        else Some rw);
     resolve_targets ps rw
   }"

definition ImportIL :: "byte list \<Rightarrow> ILRewriter \<Rightarrow> (hresult \<times> ILRewriter) option" where
  "ImportIL pIL rw = do {
     let rw = rw\<lparr>m_pOffsetToInstr := replicate (unat (m_CodeSize rw + 1)) NULL\<rparr>;
     rw \<leftarrow> set_offset_instr (m_CodeSize rw) m_IL rw;
     rw \<leftarrow> upd_instr m_IL (m_opcode_update (\<lambda>_. -1)) rw;
     (hr, fBranch, rw) \<leftarrow> import_loop (Suc (unat (m_CodeSize rw))) pIL 0 False rw;
     if hr \<noteq> S_OK then Some (hr, rw)
     else if fBranch then do {
       ps \<leftarrow> GetILList rw;
       rw \<leftarrow> resolve_targets ps rw;
       Some (S_OK, rw) }
     else Some (S_OK, rw)
   }"

section \<open>Import of the exception clauses\<close>

text \<open>A clause as the decoder of the section gives it, in its fat form.\<close>

record eh_clause =
  GetFlags :: u32
  GetTryOffset :: u32
  GetTryLength :: u32
  GetHandlerOffset :: u32
  GetHandlerLength :: u32
  GetClassToken :: u32

abbreviation (input) COR_ILEXCEPTION_CLAUSE_FILTER :: u32 where
  "COR_ILEXCEPTION_CLAUSE_FILTER \<equiv> 1"

definition import_clause :: "eh_clause \<Rightarrow> ILRewriter \<Rightarrow> EHClause option" where
  "import_clause eh rw = do {
     tryBegin \<leftarrow> GetInstrFromOffset (GetTryOffset eh) rw;
     tryEnd \<leftarrow> GetInstrFromOffset (GetTryOffset eh + GetTryLength eh) rw;
     handlerBegin \<leftarrow> GetInstrFromOffset (GetHandlerOffset eh) rw;
     afterHandler \<leftarrow> GetInstrFromOffset (GetHandlerOffset eh + GetHandlerLength eh) rw;
     i \<leftarrow> get_instr afterHandler rw;
     kind \<leftarrow>
       (if GetFlags eh AND COR_ILEXCEPTION_CLAUSE_FILTER = 0 then Some (ClassToken (GetClassToken eh))
        else map_option Filter (GetInstrFromOffset (GetClassToken eh) rw));
     Some \<lparr>m_Flags = GetFlags eh, m_pTryBegin = tryBegin, m_pTryEnd = tryEnd,
           m_pHandlerBegin = handlerBegin, m_pHandlerEnd = m_pPrev i, m_ClassToken = kind\<rparr>
   }"

fun import_clauses :: "eh_clause list \<Rightarrow> ILRewriter \<Rightarrow> EHClause list option" where
  "import_clauses [] rw = Some []"
| "import_clauses (eh # ehs) rw = do {
     c \<leftarrow> import_clause eh rw;
     cs \<leftarrow> import_clauses ehs rw;
     Some (c # cs)
   }"

definition ImportEH :: "eh_clause list \<Rightarrow> ILRewriter \<Rightarrow> (hresult \<times> ILRewriter) option" where
  "ImportEH ehs rw =
     (let rw = rw\<lparr>m_nEH := word_of_nat (length ehs)\<rparr>
      in if ehs = [] then Some (S_OK, rw)
         else do { cs \<leftarrow> import_clauses ehs rw; Some (S_OK, rw\<lparr>m_pEH := cs\<rparr>) })"

section \<open>The importer and the decoder agree\<close>

lemma upd_operand_il_list:
  assumes l: "il_list rw xs" and w: "instr_code rw w = Some (op, x)" and f: "f x = Some y"
  shows "\<exists>h. upd_operand w f rw = Some (rw\<lparr>il_heap := h\<rparr>) \<and> il_list (rw\<lparr>il_heap := h\<rparr>) xs \<and>
    instr_code (rw\<lparr>il_heap := h\<rparr>) w = Some (op, y) \<and>
    (\<forall>v. v \<noteq> w \<longrightarrow> instr_code (rw\<lparr>il_heap := h\<rparr>) v = instr_code rw v)"
proof -
  obtain i where i: "il_heap rw w = Some i" "m_opcode i = op" "m_operand i = x"
    using w by (auto simp: instr_code_def)
  have "upd_operand w f rw = Some (rw\<lparr>il_heap := modify (il_heap rw) w (m_operand_update (\<lambda>_. y))\<rparr>)"
    using i f by (simp add: upd_operand_def get_instr_def upd_instr_eq)
  moreover have "il_list (rw\<lparr>il_heap := modify (il_heap rw) w (m_operand_update (\<lambda>_. y))\<rparr>) xs"
    by (rule modify_il_list [OF l]) simp_all
  ultimately show ?thesis
    using i by (intro exI conjI) (auto simp: instr_code_def)
qed

definition raw_code :: "raw \<Rightarrow> (opcode \<times> operand) option" where
  "raw_code r = (case r of (start, op, arg) \<Rightarrow> Some (op, Bits arg))"

text \<open>The table of offsets after the instructions starting at the given offsets are entered.\<close>

fun offset_table :: "(nat option \<times> addr) list \<Rightarrow> addr list \<Rightarrow> addr list" where
  "offset_table [] t = t"
| "offset_table ((None, p) # r) t = offset_table r t"
| "offset_table ((Some k, p) # r) t = offset_table r (t[k := p])"

definition raw_branch :: "raw \<Rightarrow> bool" where
  "raw_branch r = (opcode_flags (fst (snd r)) \<in> Some ` {0x11, 0x14, 0x20})"

lemma offset_table_append: "offset_table (xs @ ys) t = offset_table ys (offset_table xs t)"
  by (induction xs t rule: offset_table.induct) auto

lemma length_offset_table [simp]: "length (offset_table xs t) = length t"
  by (induction xs t rule: offset_table.induct) auto

lemma decode_targets_pseudo:
  "decode_targets n r base = Some (ts, r') \<Longrightarrow> x \<in> set ts \<Longrightarrow> \<exists>a. x = (None, CEE_SWITCH_ARG, a)"
  by (induction n arbitrary: r ts) (auto split: if_split_asm)

lemma decode_operand_pseudo:
  "decode_operand f k r = Some (arg, ts, r') \<Longrightarrow> x \<in> set ts \<Longrightarrow> \<exists>a. x = (None, CEE_SWITCH_ARG, a)"
  by (auto simp: decode_operand_def Let_def split: if_split_asm dest!: decode_targets_pseudo)

lemma decode_operand_no_targets:
  "decode_operand f k r = Some (arg, ts, r') \<Longrightarrow> ts \<noteq> [] \<Longrightarrow> f = 0x20"
  by (auto simp: decode_operand_def Let_def split: if_split_asm)

lemma offset_table_pseudo:
  "\<forall>x \<in> set ts. \<exists>a. x = (None, CEE_SWITCH_ARG, a) \<Longrightarrow> length zs = length ts \<Longrightarrow>
   offset_table (zip (map fst ts) zs) t = t"
  by (induction ts zs rule: list_induct2') auto

text \<open>
  The setting of the lemmas: \<open>code\<close> is the first \<open>N\<close> bytes at \<open>pIL\<close>, \<open>N\<close> the code size, and
  the arithmetic of offsets does not wrap around.
\<close>

definition code_bytes :: "byte list \<Rightarrow> byte list \<Rightarrow> nat \<Rightarrow> bool" where
  "code_bytes pIL code N \<longleftrightarrow> code = take N pIL \<and> N \<le> length pIL \<and> N + 8 < 2 ^ 32"

lemma length_code: "code_bytes pIL code N \<Longrightarrow> length code = N"
  by (simp add: code_bytes_def)

lemma unat_offset: "code_bytes pIL code N \<Longrightarrow> k \<le> N + 8 \<Longrightarrow> unat (word_of_nat k :: u32) = k"
  by (intro unat_of_nat_u32) (simp add: code_bytes_def)

lemma read_code:
  "code_bytes pIL code N \<Longrightarrow> k + j \<le> N \<Longrightarrow>
   read_bytes j pIL (word_of_nat k) = Some (le_nat (take j (drop k code)))"
  using unat_offset [of pIL code N k] by (simp add: read_bytes_def code_bytes_def drop_take)

lemma import_opcode_decode:
  assumes cb: "code_bytes pIL code N" and k: "k < N"
  shows "import_opcode pIL (word_of_nat N) (word_of_nat k) =
    Some (case decode_opcode (drop k code) of
            None \<Rightarrow> Inl COR_E_INVALIDPROGRAM
          | Some (op, r) \<Rightarrow>
              if valid_opcode op then Inr (op, word_of_nat (N - length r)) else Inl COR_E_INVALIDPROGRAM)"
    (is "?lhs = ?rhs")
  and "decode_opcode (drop k code) = Some (op, r) \<Longrightarrow>
    r = drop (N - length r) code \<and> k < N - length r \<and> N - length r \<le> k + 2 \<and> length r < N"
proof -
  note length_code = length_code [OF cb] and unat_offset = unat_offset [OF cb] and read_code = read_code [OF cb]
  obtain b p where p: "drop k code = b # p" "length p + 1 + k = N"
    using k length_code by (cases "drop k code") (auto simp: drop_eq_Nil dest: arg_cong [where f = length])
  have b: "read_bytes 1 pIL (word_of_nat k) = Some (unat b)"
    using read_code [of k 1] k p(1) by (simp add: take_Suc_conv_app_nth)
  have le: "(word_of_nat (k + 1) \<ge> (word_of_nat N :: u32)) = (k + 1 \<ge> N)"
    using unat_offset [of "k + 1"] unat_offset [of N] k by (simp add: word_le_nat_alt)
  have dp: "drop (Suc k) code = p" using p(1) by (metis drop_Suc drop_tl list.sel(3))
  have c: "read_bytes 1 pIL (word_of_nat (k + 1)) = Some (unat c)" if "p = c # q" for c q
    using read_code [of "k + 1" 1] p(2) that dp by (simp add: take_Suc_conv_app_nth)
  have lead: "(ucast b :: u32) = CEE_PREFIX1 \<longleftrightarrow> b = 0xFE"
    using ucast_byte_u32_eq [of CEE_PREFIX1 b] by simp
  have inc: "word_of_nat m + 1 = (word_of_nat (Suc m) :: u32)" for m by simp
  show "?lhs = ?rhs"
  proof (cases "b = 0xFE")
    case True
    show ?thesis
    proof (cases p)
      case Nil
      then have "k + 1 = N" using p(2) by simp
      then show ?thesis
        using True p b le lead Nil by (simp add: import_opcode_def Let_def inc del: of_nat_add of_nat_Suc)
    next
      case (Cons c q)
      then have "N - length q = k + 2" "\<not> k + 1 \<ge> N" using p(2) by simp_all
      then show ?thesis
        using True p b le lead Cons c [OF Cons]
        by (auto simp: import_opcode_def valid_opcode_def Let_def inc simp del: of_nat_add of_nat_Suc)
    qed
  next
    case False
    have "N - length p = k + 1" using p(2) by simp
    then show ?thesis
      using False p b lead
      by (auto simp: import_opcode_def valid_opcode_def Let_def inc simp del: of_nat_add of_nat_Suc)
  qed
  show "decode_opcode (drop k code) = Some (op, r) \<Longrightarrow>
    r = drop (N - length r) code \<and> k < N - length r \<and> N - length r \<le> k + 2 \<and> length r < N"
    using p dp by (auto split: if_split_asm list.split_asm) (metis drop_Suc drop_tl list.sel(3))+
qed

lemma import_targets_decode:
  assumes cb: "code_bytes pIL code N"
  shows "k \<le> N \<Longrightarrow> il_list rw ys \<Longrightarrow> unat (m_CodeSize rw) = N \<Longrightarrow>
   (case decode_targets n (drop k code) base of
      None \<Rightarrow> \<exists>off rw'. import_targets n pIL base (word_of_nat k) rw = Some (COR_E_INVALIDPROGRAM, off, rw')
    | Some (ts, r) \<Rightarrow> k + 4 * n \<le> N \<and> r = drop (k + 4 * n) code \<and>
        (\<exists>zs rw'. import_targets n pIL base (word_of_nat k) rw = Some (S_OK, word_of_nat (k + 4 * n), rw') \<and>
           il_list rw' (ys @ zs) \<and> map (instr_code rw') zs = map raw_code ts \<and>
           (\<forall>x \<in> set ys. instr_code rw' x = instr_code rw x) \<and> rw_rest rw' = rw_rest rw \<and>
           il_brk rw' = il_brk rw + length zs))"
proof (induction n arbitrary: k rw ys)
  case 0
  then show ?case by simp
next
  case (Suc n)
  note length_code = length_code [OF cb] and unat_offset = unat_offset [OF cb] and read_code = read_code [OF cb]
  have unk: "unat (word_of_nat k :: u32) = k" using Suc.prems(1) by (intro unat_offset) simp
  have len: "length (drop k code) = N - k" by (simp add: length_code)
  show ?case
  proof (cases "k + 4 \<le> N")
    case False
    then have "N - k < 4" by arith
    with False show ?thesis using Suc.prems unk len by simp
  next
    case True
    define t where "t = base + (word_of_nat (le_nat (take 4 (drop k code))) :: u32)"
    have rd: "read_bytes 4 pIL (word_of_nat k) = Some (le_nat (take 4 (drop k code)))"
      using True by (rule read_code)
    obtain w rw1 where e: "emit m_IL (CEE_SWITCH_ARG, Bits (ucast t)) rw = Some (w, rw1)"
        "il_list rw1 (ys @ [w])" "w \<notin> set ys" "instr_code rw1 w = Some (CEE_SWITCH_ARG, Bits (ucast t))"
        "\<forall>x \<in> set ys. instr_code rw1 x = instr_code rw x" "rw_rest rw1 = rw_rest rw"
      using il.emit_before [of rw ys "[]" m_IL "(CEE_SWITCH_ARG, Bits (ucast t))"] Suc.prems(2)
      by (auto simp: stack_pushes_defined)
    have size1: "m_CodeSize rw1 = m_CodeSize rw"
      using arg_cong [OF e(6), of m_CodeSize] by (simp add: rw_rest_def)
    have step: "import_targets (Suc n) pIL base (word_of_nat k) rw =
        import_targets n pIL base (word_of_nat (k + 4)) rw1"
      using e(1) rd True unk Suc.prems(3)
      by (auto simp: t_def emit_def upd_instr_def upd_operand_def get_instr_def set_instr_def
            NewILInstr_def new_ILInstr_def bind_eq_Some_conv Let_def split: if_split_asm)
    have "k + 4 \<le> N" using True .
    note IH = Suc.IH [OF this e(2), unfolded size1, OF Suc.prems(3)]
    have d: "decode_targets (Suc n) (drop k code) base =
        map_option (\<lambda>(ts, r'). ((None, CEE_SWITCH_ARG, ucast t) # ts, r'))
          (decode_targets n (drop (k + 4) code) base)"
    proof -
      have "\<not> N - k < 4" using True by arith
      then show ?thesis using len by (simp add: t_def drop_drop add.commute)
    qed
    show ?thesis
    proof (cases "decode_targets n (drop (k + 4) code) base")
      case None
      with IH d step show ?thesis by simp
    next
      case (Some res)
      obtain ts r where res: "res = (ts, r)" by (cases res)
      with IH Some obtain zs rw' where r: "k + 4 + 4 * n \<le> N" "r = drop (k + 4 + 4 * n) code"
          and rw': "import_targets n pIL base (word_of_nat (k + 4)) rw1 = Some (S_OK, word_of_nat (k + 4 + 4 * n), rw')"
            "il_list rw' ((ys @ [w]) @ zs)" "map (instr_code rw') zs = map raw_code ts"
            "\<forall>x \<in> set (ys @ [w]). instr_code rw' x = instr_code rw1 x" "rw_rest rw' = rw_rest rw1"
            "il_brk rw' = il_brk rw1 + length zs"
        by auto
      have eq: "k + 4 * Suc n = k + 4 + 4 * n" by simp
      show ?thesis
        unfolding d Some res step eq
        using r rw' e emit_brk [OF e(1)] by (simp add: raw_code_def) (rule exI [of _ "w # zs"]; simp add: raw_code_def)
    qed
  qed
qed

lemma import_operand_decode:
  assumes cb: "code_bytes pIL code N" and f: "f \<in> {0, 1, 2, 4, 8, 0x11, 0x14, 0x20}" and k: "k + flags_size f \<le> N"
    and l: "il_list rw (ys @ [w])" and w: "instr_code rw w = Some (op, Bits 0)"
    and size: "unat (m_CodeSize rw) = N"
  shows "case decode_operand f k (drop k code) of
      None \<Rightarrow> \<exists>off br rw'. import_operand pIL f w (word_of_nat k) rw = Some (COR_E_INVALIDPROGRAM, off, br, rw')
    | Some (arg, ts, r) \<Rightarrow> (\<exists>j zs rw'.
        import_operand pIL f w (word_of_nat k) rw =
          Some (S_OK, word_of_nat j, f \<in> {0x11, 0x14, 0x20}, rw') \<and>
        r = drop (j + flags_size f) code \<and> k \<le> j \<and> j + flags_size f \<le> N \<and>
        il_list rw' (ys @ w # zs) \<and> instr_code rw' w = Some (op, Bits arg) \<and>
        map (instr_code rw') zs = map raw_code ts \<and>
        (\<forall>x \<in> set ys. instr_code rw' x = instr_code rw x) \<and> rw_rest rw' = rw_rest rw \<and>
        il_brk rw' = il_brk rw + length zs)"
proof -
  note length_code = length_code [OF cb] and unat_offset = unat_offset [OF cb] and read_code = read_code [OF cb]
  have len: "length (drop k code) = N - k" by (simp add: length_code)
  have fits: "\<not> length (drop k code) < flags_size f" using k len by arith
  have wy: "w \<notin> set ys" using l by (auto simp: il_list_def)
  have dd: "drop j (drop k code) = drop (k + j) code" for j by (simp add: add.commute)
  have sizes: "flags_size 0 = 0" "flags_size 1 = 1" "flags_size 2 = 2" "flags_size 4 = 4"
    "flags_size 8 = 8" "flags_size 0x11 = 1" "flags_size 0x14 = 4" "flags_size 0x20 = 0"
    by (simp_all add: flags_size_def)
  have upd: "\<exists>h. upd_operand w g rw = Some (rw\<lparr>il_heap := h\<rparr>) \<and>
      il_list (rw\<lparr>il_heap := h\<rparr>) (ys @ [w]) \<and> instr_code (rw\<lparr>il_heap := h\<rparr>) w = Some (op, y) \<and>
      (\<forall>x \<in> set ys. instr_code (rw\<lparr>il_heap := h\<rparr>) x = instr_code rw x) \<and>
      rw_rest (rw\<lparr>il_heap := h\<rparr>) = rw_rest rw" if "g (Bits 0) = Some y" for g y
    using upd_operand_il_list [where f = g, OF l w that] wy by (fastforce simp: rw_rest_def)
  have num: "le_nat (take j (drop k code)) < 256 ^ j" if "k + j \<le> N" for j
    using le_nat_bound [of "take j (drop k code)"] that len by simp
  have plain: ?thesis
    if g: "g (Bits 0) = Some (Bits arg)"
      and imp: "import_operand pIL f w (word_of_nat k) rw =
        map_option (\<lambda>rw. (S_OK, word_of_nat k, f \<in> {0x11, 0x14, 0x20}, rw)) (upd_operand w g rw)"
      and dec: "decode_operand f k (drop k code) = Some (arg, [], drop (k + flags_size f) code)" for g arg
  proof -
    obtain h where h: "upd_operand w g rw = Some (rw\<lparr>il_heap := h\<rparr>)"
        "il_list (rw\<lparr>il_heap := h\<rparr>) (ys @ [w])" "instr_code (rw\<lparr>il_heap := h\<rparr>) w = Some (op, Bits arg)"
        "\<forall>x \<in> set ys. instr_code (rw\<lparr>il_heap := h\<rparr>) x = instr_code rw x"
        "rw_rest (rw\<lparr>il_heap := h\<rparr>) = rw_rest rw"
      using upd [of g "Bits arg"] g by blast
    show ?thesis
      unfolding dec imp h(1) option.case option.map prod.case
      apply (rule exI [of _ k], rule exI [of _ "[]"], rule exI [of _ "rw\<lparr>il_heap := h\<rparr>"])
      apply (intro conjI)
      subgoal by simp
      subgoal by simp
      subgoal by simp
      subgoal by (rule k)
      subgoal using h(2) by simp
      subgoal by (rule h(3))
      subgoal by simp
      subgoal by (rule h(4))
      subgoal by (rule h(5))
      subgoal by simp
      done
  qed
  show ?thesis
  proof -
    consider "f = 0" | "f = 1" | "f = 2" | "f = 4" | "f = 8" | "f = 0x11" | "f = 0x14" | "f = 0x20"
      using f by auto
    then show ?thesis
    proof cases
      case 1
      show ?thesis
        using k l w by (auto simp: 1 import_operand_def decode_operand_def sizes)
    next
      case 2
      have rd: "read_bytes 1 pIL (word_of_nat k) = Some (le_nat (take 1 (drop k code)))"
        using k by (intro read_code) (simp add: 2 sizes)
      show ?thesis
      proof (rule plain)
        show "set_Arg8 (word_of_nat (le_nat (take 1 (drop k code)))) (Bits 0) = Some (Bits (word_of_nat (le_nat (take 1 (drop k code)))))"
          using num [of 1] k by (simp add: 2 sizes ucast_word_of_nat)
        show "import_operand pIL f w (word_of_nat k) rw =
            map_option (\<lambda>rw. (S_OK, word_of_nat k, f \<in> {0x11, 0x14, 0x20}, rw)) (upd_operand w (set_Arg8 (word_of_nat (le_nat (take 1 (drop k code))))) rw)"
          using rd by (simp add: 2 import_operand_def map_conv_bind_option o_def)
        show "decode_operand f k (drop k code) = Some (word_of_nat (le_nat (take 1 (drop k code))), [], drop (k + flags_size f) code)"
          using fits dd by (simp add: 2 decode_operand_def sizes)
      qed
    next
      case 3
      have rd: "read_bytes 2 pIL (word_of_nat k) = Some (le_nat (take 2 (drop k code)))"
        using k by (intro read_code) (simp add: 3 sizes)
      show ?thesis
      proof (rule plain)
        show "set_Arg16 (word_of_nat (le_nat (take 2 (drop k code)))) (Bits 0) = Some (Bits (word_of_nat (le_nat (take 2 (drop k code)))))"
          using num [of 2] k by (simp add: 3 sizes ucast_word_of_nat)
        show "import_operand pIL f w (word_of_nat k) rw =
            map_option (\<lambda>rw. (S_OK, word_of_nat k, f \<in> {0x11, 0x14, 0x20}, rw)) (upd_operand w (set_Arg16 (word_of_nat (le_nat (take 2 (drop k code))))) rw)"
          using rd by (simp add: 3 import_operand_def map_conv_bind_option o_def)
        show "decode_operand f k (drop k code) = Some (word_of_nat (le_nat (take 2 (drop k code))), [], drop (k + flags_size f) code)"
          using fits dd by (simp add: 3 decode_operand_def sizes)
      qed
    next
      case 4
      have rd: "read_bytes 4 pIL (word_of_nat k) = Some (le_nat (take 4 (drop k code)))"
        using k by (intro read_code) (simp add: 4 sizes)
      show ?thesis
      proof (rule plain)
        show "set_Arg32 (word_of_nat (le_nat (take 4 (drop k code)))) (Bits 0) = Some (Bits (word_of_nat (le_nat (take 4 (drop k code)))))"
          using num [of 4] k by (simp add: 4 sizes ucast_word_of_nat)
        show "import_operand pIL f w (word_of_nat k) rw =
            map_option (\<lambda>rw. (S_OK, word_of_nat k, f \<in> {0x11, 0x14, 0x20}, rw)) (upd_operand w (set_Arg32 (word_of_nat (le_nat (take 4 (drop k code))))) rw)"
          using rd by (simp add: 4 import_operand_def map_conv_bind_option o_def)
        show "decode_operand f k (drop k code) = Some (word_of_nat (le_nat (take 4 (drop k code))), [], drop (k + flags_size f) code)"
          using fits dd by (simp add: 4 decode_operand_def sizes)
      qed
    next
      case 5
      have rd: "read_bytes 8 pIL (word_of_nat k) = Some (le_nat (take 8 (drop k code)))"
        using k by (intro read_code) (simp add: 5 sizes)
      show ?thesis
      proof (rule plain)
        show "set_Arg64 (word_of_nat (le_nat (take 8 (drop k code)))) (Bits 0) = Some (Bits (word_of_nat (le_nat (take 8 (drop k code)))))"
          using num [of 8] k by (simp add: 5 sizes ucast_word_of_nat)
        show "import_operand pIL f w (word_of_nat k) rw =
            map_option (\<lambda>rw. (S_OK, word_of_nat k, f \<in> {0x11, 0x14, 0x20}, rw)) (upd_operand w (set_Arg64 (word_of_nat (le_nat (take 8 (drop k code))))) rw)"
          using rd by (simp add: 5 import_operand_def map_conv_bind_option o_def)
        show "decode_operand f k (drop k code) = Some (word_of_nat (le_nat (take 8 (drop k code))), [], drop (k + flags_size f) code)"
          using fits dd by (simp add: 5 decode_operand_def sizes)
      qed
    next
      case 6
      have rd: "read_bytes 1 pIL (word_of_nat k) = Some (unat (hd (drop k code)))"
        using k fits read_code [of k 1] by (cases "drop k code") (simp_all add: 6 sizes)
      show ?thesis
      proof (rule plain)
        show "set_Arg32 (word_of_nat k + 1 + scast (hd (drop k code))) (Bits 0) = Some (Bits (ucast (word_of_nat k + 1 + scast (hd (drop k code)) :: u32)))"
          using num [of 1] k by (simp add: 6 sizes ucast_word_of_nat)
        show "import_operand pIL f w (word_of_nat k) rw =
            map_option (\<lambda>rw. (S_OK, word_of_nat k, f \<in> {0x11, 0x14, 0x20}, rw)) (upd_operand w (set_Arg32 (word_of_nat k + 1 + scast (hd (drop k code)))) rw)"
          using rd by (simp add: 6 import_operand_def map_conv_bind_option o_def)
        show "decode_operand f k (drop k code) = Some (ucast (word_of_nat k + 1 + scast (hd (drop k code)) :: u32), [], drop (k + flags_size f) code)"
          using fits dd by (simp add: 6 decode_operand_def sizes)
      qed
    next
      case 7
      have rd: "read_bytes 4 pIL (word_of_nat k) = Some (le_nat (take 4 (drop k code)))"
        using k by (intro read_code) (simp add: 7 sizes)
      show ?thesis
      proof (rule plain)
        show "set_Arg32 (word_of_nat k + 4 + word_of_nat (le_nat (take 4 (drop k code)))) (Bits 0) = Some (Bits (ucast (word_of_nat k + 4 + word_of_nat (le_nat (take 4 (drop k code))) :: u32)))"
          using num [of 4] k by (simp add: 7 sizes ucast_word_of_nat)
        show "import_operand pIL f w (word_of_nat k) rw =
            map_option (\<lambda>rw. (S_OK, word_of_nat k, f \<in> {0x11, 0x14, 0x20}, rw)) (upd_operand w (set_Arg32 (word_of_nat k + 4 + word_of_nat (le_nat (take 4 (drop k code))))) rw)"
          using rd by (simp add: 7 import_operand_def map_conv_bind_option o_def)
        show "decode_operand f k (drop k code) = Some (ucast (word_of_nat k + 4 + word_of_nat (le_nat (take 4 (drop k code))) :: u32), [], drop (k + flags_size f) code)"
          using fits dd by (simp add: 7 decode_operand_def sizes)
      qed
    next
      case 8
      show ?thesis
      proof (cases "k + 4 \<le> N")
        case False
        then have "N - k < 4" by arith
        moreover have "unat (word_of_nat k :: u32) = k" using k by (intro unat_offset) simp
        ultimately show ?thesis
          using False len size by (simp add: 8 import_operand_def decode_operand_def sizes) blast
      next
        case True
        have unk: "unat (word_of_nat k :: u32) = k" using k by (intro unat_offset) simp
        have ge: "\<not> N - k < 4" using True by arith
        define n :: u32 where "n = word_of_nat (le_nat (take 4 (drop k code)))"
        define base where "base = word_of_nat k + 4 + n * 4"
        have rd: "read_bytes 4 pIL (word_of_nat k) = Some (le_nat (take 4 (drop k code)))"
          using True by (rule read_code)
        obtain h where h: "upd_operand w (set_Arg32 n) rw = Some (rw\<lparr>il_heap := h\<rparr>)"
            "il_list (rw\<lparr>il_heap := h\<rparr>) (ys @ [w])"
            "instr_code (rw\<lparr>il_heap := h\<rparr>) w = Some (op, Bits (ucast n))"
            "\<forall>x \<in> set ys. instr_code (rw\<lparr>il_heap := h\<rparr>) x = instr_code rw x"
            "rw_rest (rw\<lparr>il_heap := h\<rparr>) = rw_rest rw"
          using upd [of "set_Arg32 n" "Bits (ucast n)"] by auto
        have imp: "import_operand pIL f w (word_of_nat k) rw =
            import_targets (unat n) pIL base (word_of_nat (k + 4)) (rw\<lparr>il_heap := h\<rparr>) \<bind>
              (\<lambda>(hr, off, rw'). Some (hr, off, True, rw'))"
          using True rd h(1) unk size
          by (simp add: 8 import_operand_def n_def [symmetric] base_def Let_def)
        have dec: "decode_operand f k (drop k code) =
            map_option (\<lambda>(ts, r'). (ucast n, ts, r')) (decode_targets (unat n) (drop (k + 4) code) base)"
          using ge len dd
          by (simp add: 8 decode_operand_def sizes n_def [symmetric] base_def Let_def)
        note T = import_targets_decode [OF cb True h(2), of "unat n" base, simplified, OF size]
        show ?thesis
        proof (cases "decode_targets (unat n) (drop (k + 4) code) base")
          case None
          with T imp dec show ?thesis by auto
        next
          case (Some res)
          obtain ts r where res: "res = (ts, r)" by (cases res)
          from T Some res obtain zs rw' where t: "k + 4 + 4 * unat n \<le> N"
              "r = drop (k + 4 + 4 * unat n) code"
              "import_targets (unat n) pIL base (word_of_nat (k + 4)) (rw\<lparr>il_heap := h\<rparr>) =
                 Some (S_OK, word_of_nat (k + 4 + 4 * unat n), rw')"
              "il_list rw' (ys @ w # zs)" "map (instr_code rw') zs = map raw_code ts"
              "\<forall>x \<in> set (ys @ [w]). instr_code rw' x = instr_code (rw\<lparr>il_heap := h\<rparr>) x"
              "rw_rest rw' = rw_rest (rw\<lparr>il_heap := h\<rparr>)" "il_brk rw' = il_brk rw + length zs"
            by auto
          have f8: "(f \<in> {0x11, 0x14, 0x20}) = True" "flags_size f = 0" by (simp_all add: 8 sizes)
          show ?thesis
            unfolding dec imp Some res t(3) option.case option.map prod.case f8 bind.bind_lunit
            apply (rule exI [of _ "k + 4 + 4 * unat n"], rule exI [of _ zs], rule exI [of _ rw'])
            using t h(3,4,5) by simp
        qed
      qed
    qed
  qed
qed

text \<open>One turn of the loop, once the opcode has been read.\<close>

lemma import_turn:
  assumes cb: "code_bytes pIL code N" and k: "k < N" and l: "il_list rw ys" and size: "unat (m_CodeSize rw) = N"
    and tbl: "length (m_pOffsetToInstr rw) = N + 1"
    and dec: "decode_opcode (drop k code) = Some (op, r)" and valid: "valid_opcode op"
    and f: "opcode_flags op = Some f" and a: "a = N - length r"
  shows "case decode_operand f a r of
      None \<Rightarrow> \<exists>fb rw'. import_loop (Suc n) pIL (word_of_nat k) fB rw = Some (COR_E_INVALIDPROGRAM, fb, rw')
    | Some (arg, ts, r') \<Rightarrow> \<exists>j w zs rw'.
        import_loop (Suc n) pIL (word_of_nat k) fB rw =
          import_loop n pIL (word_of_nat j) (fB \<or> f \<in> {0x11, 0x14, 0x20}) rw' \<and>
        r' = drop j code \<and> k < j \<and> j \<le> N \<and> il_list rw' (ys @ w # zs) \<and>
        map (instr_code rw') (w # zs) = map raw_code ((Some k, op, arg) # ts) \<and>
        (\<forall>x \<in> set ys. instr_code rw' x = instr_code rw x) \<and>
        rw_rest rw' = (rw_rest rw)\<lparr>m_pOffsetToInstr := (m_pOffsetToInstr rw)[k := w]\<rparr> \<and>
        il_brk rw' = il_brk rw + length (w # zs)"
proof -
  note length_code = length_code [OF cb] and unat_offset = unat_offset [OF cb] and read_code = read_code [OF cb]
  have sizew: "m_CodeSize rw = word_of_nat N" using size by (rule word_of_nat_of_unat)
  have lt: "word_of_nat k < (word_of_nat N :: u32)"
    using unat_offset [of k] unat_offset [of N] k by (simp add: word_less_nat_alt)
  have unk: "unat (word_of_nat k :: u32) = k" using k by (intro unat_offset) simp
  have r: "r = drop a code" "k < a" "a \<le> N"
    using import_opcode_decode(2) [OF cb k dec] by (auto simp: a)
  have opc: "import_opcode pIL (word_of_nat N) (word_of_nat k) = Some (Inr (op, word_of_nat a))"
    using import_opcode_decode(1) [OF cb k] dec valid by (simp add: a)
  have op: "op < CEE_COUNT" using valid by (simp add: valid_opcode_def)
  have op_tbl: "unat op < 296" using op by (simp add: word_less_nat_alt)
  note fl = opcode_flags_cases(1) [OF f op]
  have fs: "flags_size f \<le> 8" using fl by (auto simp: flags_size_def)
  have usize: "ucast (f AND OPCODEFLAGS_SizeMask) = (word_of_nat (flags_size f) :: u32)"
    by (simp add: flags_size_def)
  have sum: "word_of_nat a + word_of_nat (flags_size f) = (word_of_nat (a + flags_size f) :: u32)"
    by simp
  have gt: "(word_of_nat (a + flags_size f) > (word_of_nat N :: u32)) = (a + flags_size f > N)"
    using unat_offset [of "a + flags_size f"] unat_offset [of N] fs r(3) by (simp add: word_less_nat_alt)
  show ?thesis
  proof (cases "a + flags_size f \<le> N")
    case False
    then have "N - a < flags_size f" using r(3) by arith
    then have "decode_operand f a r = None" by (simp add: decode_operand_def r(1) length_code)
    moreover have "import_loop (Suc n) pIL (word_of_nat k) fB rw = Some (COR_E_INVALIDPROGRAM, fB, rw)"
      using False lt opc f by (simp add: sizew Let_def usize sum gt del: of_nat_add)
    ultimately show ?thesis by simp
  next
    case True
    obtain w rw1 where w: "NewILInstr rw = (w, rw1)" by (cases "NewILInstr rw")
    obtain rw2 rw3 where ins: "upd_instr w (m_opcode_update (\<lambda>_. op)) rw1 = Some rw2"
        "InsertBefore m_IL w rw2 = Some rw3" "il_list rw3 (ys @ [w])" "w \<notin> set ys"
        "instr_code rw3 w = Some (op, Bits 0)" "\<forall>x \<in> set ys. instr_code rw3 x = instr_code rw x"
        "rw_rest rw3 = rw_rest rw" "il_brk rw3 = il_brk rw + 1"
      using append_instr [OF l op_tbl w] by blast
    have eq3: "m_CodeSize rw3 = m_CodeSize rw" "m_pOffsetToInstr rw3 = m_pOffsetToInstr rw"
      using arg_cong [OF ins(7), of m_CodeSize] arg_cong [OF ins(7), of m_pOffsetToInstr]
      by (simp_all add: rw_rest_def)
    define rw4 where "rw4 = rw3\<lparr>m_pOffsetToInstr := (m_pOffsetToInstr rw)[k := w]\<rparr>"
    have set4: "set_offset_instr (word_of_nat k) w rw3 = Some rw4"
      using unk k tbl eq3 by (simp add: set_offset_instr_def rw4_def)
    have l4: "il_list rw4 (ys @ [w])" using ins(3) il_list_cong [of rw4 rw3] by (simp add: rw4_def)
    have code4: "instr_code rw4 x = instr_code rw3 x" for x by (simp add: rw4_def instr_code_def)
    have rest4: "rw_rest rw4 = (rw_rest rw)\<lparr>m_pOffsetToInstr := (m_pOffsetToInstr rw)[k := w]\<rparr>"
    proof -
      have "rw_rest rw4 = (rw_rest rw3)\<lparr>m_pOffsetToInstr := (m_pOffsetToInstr rw)[k := w]\<rparr>"
        by (simp add: rw4_def rw_rest_def)
      then show ?thesis by (simp only: ins(7))
    qed
    have size4: "unat (m_CodeSize rw4) = N" using size eq3 by (simp add: rw4_def)
    have turn: "import_loop (Suc n) pIL (word_of_nat k) fB rw =
        import_operand pIL f w (word_of_nat a) rw4 \<bind> (\<lambda>(hr, next, br, rw).
          if hr \<noteq> S_OK then Some (hr, fB, rw)
          else import_loop n pIL (next + word_of_nat (flags_size f)) (fB \<or> br) rw)"
      using True lt opc f w ins(1,2) set4
      by (simp add: sizew Let_def usize sum gt cong: if_cong del: of_nat_add)
    note O = import_operand_decode [OF cb fl True l4 _ size4, unfolded r(1) [symmetric]]
    have w4: "instr_code rw4 w = Some (op, Bits 0)" using code4 ins(5) by simp
    show ?thesis
    proof (cases "decode_operand f a r")
      case None
      with O [OF w4] turn show ?thesis by auto
    next
      case (Some res)
      obtain arg ts r' where res: "res = (arg, ts, r')" by (cases res)
      from O [OF w4] Some res obtain j zs rw5 where five:
          "import_operand pIL f w (word_of_nat a) rw4 =
             Some (S_OK, word_of_nat j, f \<in> {0x11, 0x14, 0x20}, rw5)"
          "r' = drop (j + flags_size f) code" "a \<le> j" "j + flags_size f \<le> N"
          "il_list rw5 (ys @ w # zs)" "instr_code rw5 w = Some (op, Bits arg)"
          "map (instr_code rw5) zs = map raw_code ts"
          "\<forall>x \<in> set ys. instr_code rw5 x = instr_code rw4 x" "rw_rest rw5 = rw_rest rw4"
          "il_brk rw5 = il_brk rw4 + length zs"
        by auto
      have "il_brk rw5 = il_brk rw + length (w # zs)" using five(10) ins(8) by (simp add: rw4_def)
      note brk = this
      have "import_loop (Suc n) pIL (word_of_nat k) fB rw =
          import_loop n pIL (word_of_nat (j + flags_size f)) (fB \<or> f \<in> {0x11, 0x14, 0x20}) rw5"
        unfolding turn five(1) by simp
      moreover have "map (instr_code rw5) (w # zs) = map raw_code ((Some k, op, arg) # ts)"
        using five(6,7) by (simp add: raw_code_def)
      moreover have "k < j + flags_size f" using r(2) five(3) by simp
      moreover have "\<forall>x \<in> set ys. instr_code rw5 x = instr_code rw x"
        using five(8) code4 ins(6) by simp
      ultimately show ?thesis
        unfolding Some res option.case prod.case
        using five(2,4,5,9) rest4 brk by metis
    qed
  qed
qed

lemma import_loop_decode:
  assumes cb: "code_bytes pIL code N"
  shows "k \<le> N \<Longrightarrow> il_list rw ys \<Longrightarrow> unat (m_CodeSize rw) = N \<Longrightarrow> N - k < n \<Longrightarrow> N - k \<le> m \<Longrightarrow>
   length (m_pOffsetToInstr rw) = N + 1 \<Longrightarrow>
   (case decode m k (drop k code) of
      None \<Rightarrow> \<exists>fb rw'. import_loop n pIL (word_of_nat k) fB rw = Some (COR_E_INVALIDPROGRAM, fb, rw')
    | Some raws \<Rightarrow> \<exists>zs rw'.
        import_loop n pIL (word_of_nat k) fB rw = Some (S_OK, fB \<or> list_ex raw_branch raws, rw') \<and>
        il_list rw' (ys @ zs) \<and> map (instr_code rw') zs = map raw_code raws \<and>
        (\<forall>x \<in> set ys. instr_code rw' x = instr_code rw x) \<and>
        rw_rest rw' = (rw_rest rw)\<lparr>m_pOffsetToInstr :=
          offset_table (zip (map fst raws) zs) (m_pOffsetToInstr rw)\<rparr> \<and>
        il_brk rw' = il_brk rw + length zs)"
proof (induction n arbitrary: k m fB rw ys)
  case 0
  then show ?case by simp
next
  case (Suc n)
  note length_code = length_code [OF cb] and unat_offset = unat_offset [OF cb]
  note prems = Suc.prems
  have size: "m_CodeSize rw = word_of_nat N" using prems(3) by (rule word_of_nat_of_unat)
  have lt: "(word_of_nat k < (word_of_nat N :: u32)) = (k < N)"
    using unat_offset [of k] unat_offset [of N] prems(1) by (simp add: word_less_nat_alt)
  show ?case
  proof (cases "k < N")
    case False
    then have "drop k code = []" by (simp add: length_code)
    moreover have "rw_rest rw = (rw_rest rw)\<lparr>m_pOffsetToInstr := m_pOffsetToInstr rw\<rparr>"
      by (simp add: rw_rest_def)
    ultimately show ?thesis
      using False lt size prems(2) by (auto intro!: exI [of _ "[]"])
  next
    case True
    obtain b p where bp: "drop k code = b # p"
      using True length_code by (cases "drop k code") auto
    have lbp: "length (b # p) = N - k" using length_code by (simp flip: bp)
    obtain m' where m: "m = Suc m'" using True prems(5) by (cases m) auto
    note opc = import_opcode_decode(1) [OF cb True]
    show ?thesis
    proof (cases "decode_opcode (b # p)")
      case None
      then show ?thesis using opc True lt size by (simp add: bp m)
    next
      case (Some opr)
      obtain op r where opr: "opr = (op, r)" by (cases opr)
      note dec = Some [unfolded opr]
      define a where "a = N - length r"
      have r: "r = drop a code" "k < a" "a \<le> k + 2" "length r < N" "length r = N - a" "a \<le> N"
        using import_opcode_decode(2) [OF cb True, of op r] dec bp by (auto simp: a_def)
      show ?thesis
      proof (cases "valid_opcode op")
        case False
        then show ?thesis using opc True lt size dec by (simp add: bp m)
      next
        case valid: True
        then have op: "op < CEE_COUNT" by (simp add: valid_opcode_def)
        obtain f where f: "opcode_flags op = Some f" using opcode_flags_defined [OF op] by auto
        note fl = opcode_flags_cases(1) [OF f op]
        have offs: "k + (N - k - length r) = a" using r by simp
        note T = import_turn [OF cb True prems(2,3,6), of op r f a n fB, unfolded bp]
        have turn: "decode m k (drop k code) =
            (case decode_operand f a r of None \<Rightarrow> None
             | Some (arg, ts, r') \<Rightarrow> map_option (\<lambda>is. (Some k, op, arg) # ts @ is)
                 (decode m' (k + (N - k - length r')) r'))"
          unfolding bp m decode.simps(3) dec option.case prod.case lbp offs using valid f by simp
        show ?thesis
        proof (cases "decode_operand f a r")
          case None
          with T dec valid f turn show ?thesis by (simp add: a_def)
        next
          case (Some res)
          obtain arg ts r' where res: "res = (arg, ts, r')" by (cases res)
          from T dec valid f Some res obtain j w zs rw5 where five:
              "import_loop (Suc n) pIL (word_of_nat k) fB rw =
                 import_loop n pIL (word_of_nat j) (fB \<or> f \<in> {0x11, 0x14, 0x20}) rw5"
              "r' = drop j code" "k < j" "j \<le> N" "il_list rw5 (ys @ w # zs)"
              "map (instr_code rw5) (w # zs) = map raw_code ((Some k, op, arg) # ts)"
              "\<forall>x \<in> set ys. instr_code rw5 x = instr_code rw x"
              "rw_rest rw5 = (rw_rest rw)\<lparr>m_pOffsetToInstr := (m_pOffsetToInstr rw)[k := w]\<rparr>"
              "il_brk rw5 = il_brk rw + length (w # zs)"
            unfolding a_def by auto
          have eq5: "m_CodeSize rw5 = m_CodeSize rw" "m_pOffsetToInstr rw5 = (m_pOffsetToInstr rw)[k := w]"
            using arg_cong [OF five(8), of m_CodeSize] arg_cong [OF five(8), of m_pOffsetToInstr]
            by (simp_all add: rw_rest_def)
          have "k + (N - k - length r') = j" using five(2,3,4) length_code by simp
          with turn Some res five(2) have turn': "decode m k (drop k code) =
              map_option (\<lambda>is. (Some k, op, arg) # ts @ is) (decode m' j (drop j code))" by simp
          have "N - j < n" "N - j \<le> m'" using five(3,4) prems(4,5) m by arith+
          note IH = Suc.IH [OF five(4,5) _ this, of "fB \<or> f \<in> {0x11, 0x14, 0x20}",
              unfolded eq5 length_list_update, OF prems(3,6)]
          have br: "raw_branch (s, op, x) = (f \<in> {0x11, 0x14, 0x20})" for s x
            using f by (auto simp: raw_branch_def)
          have ts: "\<forall>x \<in> set ts. \<exists>a. x = (None, CEE_SWITCH_ARG, a)" "ts \<noteq> [] \<Longrightarrow> f = 0x20"
            using Some decode_operand_pseudo [of f a r arg ts r'] decode_operand_no_targets [of f a r arg ts r']
            by (auto simp: res)
          have lz: "length zs = length ts" using five(6) by (auto dest: map_eq_imp_length_eq)
          show ?thesis
          proof (cases "decode m' j (drop j code)")
            case None
            with IH turn' five(1) show ?thesis by simp
          next
            case (Some raws)
            with IH obtain zs' rw' where six:
                "import_loop n pIL (word_of_nat j) (fB \<or> f \<in> {0x11, 0x14, 0x20}) rw5 =
                   Some (S_OK, (fB \<or> f \<in> {0x11, 0x14, 0x20}) \<or> list_ex raw_branch raws, rw')"
                "il_list rw' ((ys @ w # zs) @ zs')" "map (instr_code rw') zs' = map raw_code raws"
                "\<forall>x \<in> set (ys @ w # zs). instr_code rw' x = instr_code rw5 x"
                "rw_rest rw' = (rw_rest rw5)\<lparr>m_pOffsetToInstr :=
                   offset_table (zip (map fst raws) zs') ((m_pOffsetToInstr rw)[k := w])\<rparr>"
                "il_brk rw' = il_brk rw5 + length zs'"
              by auto
            let ?raws = "(Some k, op, arg) # ts @ raws"
            have d: "decode m k (drop k code) = Some ?raws" using turn' Some by simp
            have ex: "((fB \<or> f \<in> {0x11, 0x14, 0x20}) \<or> list_ex raw_branch raws) =
                (fB \<or> list_ex raw_branch ?raws)"
              using ts br by (cases ts) auto
            have t: "offset_table (zip (map fst ?raws) (w # zs @ zs')) (m_pOffsetToInstr rw) =
                offset_table (zip (map fst raws) zs') ((m_pOffsetToInstr rw)[k := w])"
              using offset_table_pseudo [OF ts(1) lz] lz by (simp add: offset_table_append)
            have c: "map (instr_code rw') (w # zs @ zs') = map raw_code ?raws"
            proof -
              have "map (instr_code rw') zs = map (instr_code rw5) zs" using six(4) by (intro map_cong) auto
              with five(6) six(3,4) show ?thesis by (simp add: raw_code_def)
            qed
            show ?thesis
              unfolding d option.case
            proof (intro exI conjI)
              show "import_loop (Suc n) pIL (word_of_nat k) fB rw =
                  Some (S_OK, fB \<or> list_ex raw_branch ?raws, rw')"
                unfolding five(1) six(1) ex ..
              show "il_list rw' (ys @ w # zs @ zs')" using six(2) by simp
              show "map (instr_code rw') (w # zs @ zs') = map raw_code ?raws" by (rule c)
              show "\<forall>x \<in> set ys. instr_code rw' x = instr_code rw x" using five(7) six(4) by simp
              show "rw_rest rw' = (rw_rest rw)\<lparr>m_pOffsetToInstr :=
                  offset_table (zip (map fst ?raws) (w # zs @ zs')) (m_pOffsetToInstr rw)\<rparr>"
                unfolding six(5) five(8) t by simp
              show "il_brk rw' = il_brk rw + length (w # zs @ zs')" using five(9) six(6) by simp
            qed
          qed
        qed
      qed
    qed
  qed
qed

declare import_loop.simps [simp del]

text \<open>What the second loop makes of a decoded instruction, with the table of offsets \<open>T\<close>.\<close>

definition target_of :: "addr list \<Rightarrow> u64 \<Rightarrow> addr" where
  "target_of T arg = (let k = unat (ucast arg :: u32) in if k < length T then T ! k else NULL)"

definition resolve :: "addr list \<Rightarrow> raw \<Rightarrow> opcode \<times> operand" where
  "resolve T r = (case r of (start, op, arg) \<Rightarrow>
     (op, if opcode_flags op \<in> Some ` {0x11, 0x14} then Target (target_of T arg) else Bits arg))"

lemma opcode_flags_range: "opcode_flags op = Some f \<Longrightarrow> f \<in> {0, 1, 2, 4, 8, 0x11, 0x14, 0x20}"
proof -
  assume f: "opcode_flags op = Some f"
  consider "op < CEE_COUNT" | "op = CEE_COUNT" | "op = CEE_SWITCH_ARG"
    using opcode_flags_bound [OF f] by (fastforce simp: word_less_nat_alt word_unat_eq_iff)
  then show ?thesis
    using f opcode_flags_cases(1) [OF f] opcode_flags_internal by cases auto
qed

lemma branch_flags_iff:
  "opcode_flags op = Some f \<Longrightarrow> f AND OPCODEFLAGS_BranchTarget \<noteq> 0 \<longleftrightarrow> f \<in> {0x11, 0x14}"
  using opcode_flags_range [of op f] by auto

lemma resolve_targets_il_list:
  "il_list rw xs \<Longrightarrow> distinct ps \<Longrightarrow> map (instr_code rw) ps = map raw_code raws \<Longrightarrow>
   \<forall>r \<in> set raws. unat (fst (snd r)) < 296 \<Longrightarrow>
   length (m_pOffsetToInstr rw) = unat (m_CodeSize rw) + 1 \<Longrightarrow>
   \<exists>rw'. resolve_targets ps rw = Some rw' \<and> il_list rw' xs \<and>
     map (instr_code rw') ps = map (\<lambda>r. Some (resolve (m_pOffsetToInstr rw) r)) raws \<and>
     (\<forall>x. x \<notin> set ps \<longrightarrow> instr_code rw' x = instr_code rw x) \<and> rw_rest rw' = rw_rest rw"
proof (induction ps arbitrary: rw raws)
  case Nil
  then show ?case by simp
next
  case (Cons p ps)
  then obtain s op arg raws' where raws: "raws = (s, op, arg) # raws'" by (cases raws) auto
  have code: "instr_code rw p = Some (op, Bits arg)" "map (instr_code rw) ps = map raw_code raws'"
    and p: "p \<notin> set ps" "distinct ps" and op: "unat op < 296" "\<forall>r \<in> set raws'. unat (fst (snd r)) < 296"
    using Cons.prems by (auto simp: raws raw_code_def)
  obtain i where i: "il_heap rw p = Some i" "m_opcode i = op" "m_operand i = Bits arg"
    using code(1) by (auto simp: instr_code_def)
  obtain f where f: "opcode_flags op = Some f"
    using op(1) by (simp add: opcode_flags_def length_tables)
  note T = Cons.prems(5)
  define rw1 where "rw1 = (if f \<in> {0x11, 0x14}
    then rw\<lparr>il_heap := modify (il_heap rw) p (m_operand_update (\<lambda>_. Target (target_of (m_pOffsetToInstr rw) arg)))\<rparr>
    else rw)"
  have get: "GetInstrFromOffset (ucast arg) rw = Some (target_of (m_pOffsetToInstr rw) arg)"
    using T by (auto simp: GetInstrFromOffset_def target_of_def Let_def word_le_nat_alt)
  have step: "resolve_targets (p # ps) rw = resolve_targets ps rw1"
    using i f branch_flags_iff [OF f] get
    by (auto simp: get_instr_def upd_instr_eq rw1_def)
  have l1: "il_list rw1 xs"
    unfolding rw1_def using Cons.prems(1) by (auto intro!: modify_il_list)
  have code1: "instr_code rw1 p = Some (resolve (m_pOffsetToInstr rw) (s, op, arg))"
    "x \<noteq> p \<Longrightarrow> instr_code rw1 x = instr_code rw x" for x
    using i f by (auto simp: rw1_def instr_code_def resolve_def)
  have rest1: "rw_rest rw1 = rw_rest rw" "m_pOffsetToInstr rw1 = m_pOffsetToInstr rw"
    "m_CodeSize rw1 = m_CodeSize rw"
    by (auto simp: rw1_def rw_rest_def)
  have "map (instr_code rw1) ps = map raw_code raws'"
    using code(2) code1(2) p(1) by (metis (no_types, lifting) map_eq_conv)
  from Cons.IH [OF l1 p(2) this op(2)] T rest1
  obtain rw' where rw': "resolve_targets ps rw1 = Some rw'" "il_list rw' xs"
      "map (instr_code rw') ps = map (\<lambda>r. Some (resolve (m_pOffsetToInstr rw) r)) raws'"
      "\<forall>x. x \<notin> set ps \<longrightarrow> instr_code rw' x = instr_code rw1 x" "rw_rest rw' = rw_rest rw1"
    by auto
  have "instr_code rw' p = Some (resolve (m_pOffsetToInstr rw) (s, op, arg))"
    using rw'(4) p(1) code1(1) by simp
  with rw' show ?case
    using step rest1(1) code1(2) by (auto simp: raws)
qed

lemma resolve_targets_brk: "resolve_targets ps rw = Some rw' \<Longrightarrow> il_brk rw' = il_brk rw"
  by (induction ps arbitrary: rw) (auto simp: bind_eq_Some_conv split: if_split_asm dest!: upd_instr_brk)

lemma decode_opcodes:
  "decode m k p = Some raws \<Longrightarrow> r \<in> set raws \<Longrightarrow> unat (fst (snd r)) < 296"
proof (induction m k p arbitrary: raws rule: decode.induct)
  case (3 n off b p)
  from "3.prems"(1) obtain op q f arg ts q' rest
    where d: "decode_opcode (b # p) = Some (op, q)" "valid_opcode op" "opcode_flags op = Some f"
      "decode_operand f (off + (length (b # p) - length q)) q = Some (arg, ts, q')"
      "decode n (off + (length (b # p) - length q')) q' = Some rest"
      and raws: "raws = (Some off, op, arg) # ts @ rest"
    by (auto simp del: decode_opcode.simps split: option.split_asm if_split_asm prod.split_asm)
  from "3.prems"(2) consider "r = (Some off, op, arg)" | "r \<in> set ts" | "r \<in> set rest"
    by (auto simp: raws)
  then show ?case
  proof cases
    case 1
    with d(2) show ?thesis by (simp add: valid_opcode_def word_less_nat_alt)
  next
    case 2
    with decode_operand_pseudo [OF d(4) 2] show ?thesis by auto
  next
    case 3
    with "3.IH" [OF d(1) refl _ d(3) d(4) refl refl d(5)] d(2) show ?thesis by simp
  qed
qed auto

definition offsets_initial :: "nat \<Rightarrow> addr list" where
  "offsets_initial N = replicate N NULL @ [m_IL]"

lemma offsets_initial_update: "(replicate (Suc N) NULL)[N := m_IL] = offsets_initial N"
  unfolding offsets_initial_def replicate_Suc replicate_append_same [symmetric]
  by (simp add: list_update_append)

lemma ImportIL_decode:
  assumes N: "unat (m_CodeSize rw) = N" "N + 8 < 2 ^ 32" and avail: "N \<le> length pIL"
    and l: "il_list rw []"
  shows "case decode_il (take N pIL) of
      None \<Rightarrow> \<exists>rw'. ImportIL pIL rw = Some (COR_E_INVALIDPROGRAM, rw')
    | Some raws \<Rightarrow> \<exists>zs rw'. ImportIL pIL rw = Some (S_OK, rw') \<and> il_list rw' zs \<and>
        (let T = offset_table (zip (map fst raws) zs) (offsets_initial N)
         in map (instr_code rw') zs = map (\<lambda>r. Some (resolve T r)) raws \<and>
            rw_rest rw' = (rw_rest rw)\<lparr>m_pOffsetToInstr := T\<rparr>) \<and>
        il_brk rw' = il_brk rw + length raws"
proof -
  have cb: "code_bytes pIL (take N pIL) N" using N avail by (simp add: code_bytes_def)
  define rw1 where "rw1 = rw\<lparr>m_pOffsetToInstr := offsets_initial N,
    il_heap := modify (il_heap rw) m_IL (m_opcode_update (\<lambda>_. -1))\<rparr>"
  have size1: "unat (m_CodeSize rw1) = N" using N by (simp add: rw1_def)
  have succ: "unat (m_CodeSize rw + 1) = N + 1"
    using N by (subst unat_plus_simple [THEN iffD1]) (simp_all add: word_le_nat_alt unat_word_ariths)
  have "il_list (rw\<lparr>il_heap := modify (il_heap rw) m_IL (m_opcode_update (\<lambda>_. -1))\<rparr>) []"
    by (rule modify_il_list [OF l]) simp_all
  then have l1: "il_list rw1 []"
    using il_list_cong [of rw1 "rw\<lparr>il_heap := modify (il_heap rw) m_IL (m_opcode_update (\<lambda>_. -1))\<rparr>" "[]"]
    by (simp add: rw1_def)
  have tbl1: "length (m_pOffsetToInstr rw1) = N + 1" by (simp add: rw1_def offsets_initial_def)
  have alloc: "il_heap rw m_IL \<noteq> None" using l by (simp add: il_list_def heap_ok_def)
  have start: "ImportIL pIL rw = import_loop (Suc N) pIL 0 False rw1 \<bind> (\<lambda>(hr, fBranch, rw).
     if hr \<noteq> S_OK then Some (hr, rw)
     else if fBranch then do { ps \<leftarrow> GetILList rw; rw \<leftarrow> resolve_targets ps rw; Some (S_OK, rw) }
     else Some (S_OK, rw))"
    using N succ alloc
    by (simp add: ImportIL_def set_offset_instr_def upd_instr_eq offsets_initial_update rw1_def Let_def
          del: replicate_Suc)
  note L = import_loop_decode [OF cb _ l1 size1 _ _ tbl1, of 0 "Suc N" N False, simplified]
  show ?thesis
  proof (cases "decode_il (take N pIL)")
    case None
    then have "decode N 0 (take N pIL) = None"
      using avail by (simp add: decode_il_def min_def split: if_split_asm)
    with L None start show ?thesis by auto
  next
    case (Some raws)
    then have d: "decode N 0 (take N pIL) = Some raws"
      using avail by (simp add: decode_il_def min_def split: if_split_asm)
    with L obtain zs rw2 where two: "import_loop (Suc N) pIL 0 False rw1 = Some (S_OK, list_ex raw_branch raws, rw2)"
        "il_list rw2 zs" "map (instr_code rw2) zs = map raw_code raws"
        "rw_rest rw2 = (rw_rest rw1)\<lparr>m_pOffsetToInstr :=
           offset_table (zip (map fst raws) zs) (m_pOffsetToInstr rw1)\<rparr>" "il_brk rw2 = il_brk rw1 + length zs"
      by auto
    have brk: "il_brk rw2 = il_brk rw + length raws"
      using two(5) map_eq_imp_length_eq [OF two(3)] by (simp add: rw1_def)
    define T where "T = offset_table (zip (map fst raws) zs) (offsets_initial N)"
    have T: "m_pOffsetToInstr rw2 = T" "m_CodeSize rw2 = m_CodeSize rw"
      using arg_cong [OF two(4), of m_pOffsetToInstr] arg_cong [OF two(4), of m_CodeSize]
      by (simp_all add: rw_rest_def rw1_def T_def)
    have rest2: "rw_rest rw2 = (rw_rest rw)\<lparr>m_pOffsetToInstr := T\<rparr>"
      using two(4) by (simp add: rw1_def T_def) (simp add: rw_rest_def)
    have lenT: "length (m_pOffsetToInstr rw2) = unat (m_CodeSize rw2) + 1"
      using N by (simp add: T T_def offsets_initial_def)
    have ops: "\<forall>r \<in> set raws. unat (fst (snd r)) < 296" using decode_opcodes [OF d] by blast
    show ?thesis
    proof (cases "list_ex raw_branch raws")
      case True
      have "distinct zs" using two(2) by (simp add: il_list_def)
      from resolve_targets_il_list [OF two(2) this two(3) ops lenT] T
      obtain rw3 where three: "resolve_targets zs rw2 = Some rw3" "il_list rw3 zs"
          "map (instr_code rw3) zs = map (\<lambda>r. Some (resolve T r)) raws" "rw_rest rw3 = rw_rest rw2"
        by auto
      have "ImportIL pIL rw = Some (S_OK, rw3)"
        using start two(1) True three(1) GetILList_il_list [OF two(2)] by simp
      moreover have "il_brk rw3 = il_brk rw + length raws" using resolve_targets_brk [OF three(1)] brk by simp
      ultimately show ?thesis using three rest2 by (auto simp: Some T_def [symmetric] Let_def)
    next
      case False
      have "map (instr_code rw2) zs = map (\<lambda>r. Some (resolve T r)) raws"
        unfolding two(3)
      proof (rule map_cong [OF refl])
        fix r assume "r \<in> set raws"
        with False have "\<not> raw_branch r" by (auto simp: list_ex_iff)
        then show "raw_code r = Some (resolve T r)"
          by (cases r) (auto simp: raw_branch_def raw_code_def resolve_def)
      qed
      moreover have "ImportIL pIL rw = Some (S_OK, rw2)" using start two(1) False by simp
      ultimately show ?thesis using two(2) rest2 brk by (auto simp: Some T_def [symmetric] Let_def)
    qed
  qed
qed


section \<open>The contract of the code import\<close>

text \<open>
  C8. ILRewriter::ImportIL implements the decoder of CIL byte code: for every code of less
  than 4 GB it terminates without an access out of bounds; it refuses exactly the byte
  sequences the decoder refuses, with COR_E_INVALIDPROGRAM; on the others the instruction
  list has the decoded opcodes and operands in order, each branch or switch target a pointer
  to the instruction at the decoded offset, and nothing else changes but the offset table.
\<close>

theorem ImportIL_implements_decoder:
  assumes "unat (m_CodeSize rw) = N" "N + 8 < 2 ^ 32" "N \<le> length pIL" "il_list rw []"
  shows "case decode_il (take N pIL) of
      None \<Rightarrow> \<exists>rw'. ImportIL pIL rw = Some (COR_E_INVALIDPROGRAM, rw')
    | Some raws \<Rightarrow> \<exists>zs rw'. ImportIL pIL rw = Some (S_OK, rw') \<and> il_list rw' zs \<and>
        (let T = offset_table (zip (map fst raws) zs) (offsets_initial N)
         in map (instr_code rw') zs = map (\<lambda>r. Some (resolve T r)) raws \<and>
            rw_rest rw' = (rw_rest rw)\<lparr>m_pOffsetToInstr := T\<rparr>)"
  using ImportIL_decode [OF assms] by (auto simp: Let_def split: option.splits)

text \<open>On \<open>ldc.i4.s 5; br.s +0; ret\<close>, and on a code that ends in the middle of an operand.\<close>

theorem ImportIL_implements_decoder_witness:
  "(\<exists>zs rw'. ImportIL [0x1F, 5, 0x2B, 0, 0x2A] ((ILRewriter_init False 0 0)\<lparr>m_CodeSize := 5\<rparr>) = Some (S_OK, rw') \<and>
      il_list rw' zs \<and> length zs = 3) \<and>
   (\<exists>rw'. ImportIL [0x1F] ((ILRewriter_init False 0 0)\<lparr>m_CodeSize := 1\<rparr>) = Some (COR_E_INVALIDPROGRAM, rw'))"
proof -
  let ?rw = "\<lambda>n. (ILRewriter_init False 0 0)\<lparr>m_CodeSize := n\<rparr>"
  have l: "il_list (?rw n) []" for n
    using il_list_cong [of "?rw n" "ILRewriter_init False 0 0" "[]"] ILRewriter_init_il_list by simp
  have one: "decode_il (take 5 [0x1F, 5, 0x2B, 0, 0x2A]) =
      Some [(Some 0, 0x1F, 5), (Some 2, 0x2B, 4), (Some 4, 0x2A, 0)]" by code_simp
  have two: "decode_il (take 1 [0x1F]) = None" by code_simp
  note t = ImportIL_implements_decoder [of "?rw 5" 5 "[0x1F, 5, 0x2B, 0, 0x2A]", OF _ _ _ l,
      unfolded one option.case Let_def]
  have size: "unat (m_CodeSize (?rw 5)) = 5" "5 + 8 < (2 ^ 32 :: nat)" "5 \<le> length [0x1F, 5, 0x2B, 0, 0x2A :: byte]"
    by simp_all
  note t' = t [OF size]
  have "\<exists>zs rw'. ImportIL [0x1F, 5, 0x2B, 0, 0x2A] (?rw 5) = Some (S_OK, rw') \<and> il_list rw' zs \<and> length zs = 3"
  proof -
    obtain zs rw' f where "ImportIL [0x1F, 5, 0x2B, 0, 0x2A] (?rw 5) = Some (S_OK, rw')" "il_list rw' zs"
        and map: "map (instr_code rw') zs = map f ([(Some 0, 0x1F, 5), (Some 2, 0x2B, 4), (Some 4, 0x2A, 0)] :: raw list)"
      using t' by blast
    moreover have "length zs = 3" using arg_cong [OF map, of length] by simp
    ultimately show ?thesis by blast
  qed
  then show ?thesis
    using ImportIL_implements_decoder [of "?rw 1" 1 "[0x1F]", OF _ _ _ l] unfolding two by auto
qed

end
