(* ===== verification/IL_Roundtrip.thy ===== *)
theory IL_Roundtrip
  imports IL_Assemble IL_Import
begin

text \<open>
  Export and import are inverse: the decoder reads an assembled program back, so importing
  what was exported gives the exported instructions, with the same targets.
\<close>

section \<open>Programs a method body can hold\<close>

text \<open>
  The opcodes the decoder yields: no prefix byte of the two byte opcodes, nothing internal.
  The operand fits the bytes the opcode has for it, and the targets of a switch, as many as
  it counts, follow it and are nowhere else (\<open>n\<close>: how many are still due).
\<close>

definition byte_opcode :: "opcode \<Rightarrow> bool" where
  "byte_opcode op \<longleftrightarrow> valid_opcode op \<and> op \<noteq> 0xFE"

definition bits_fit :: "opcode \<times> operand \<Rightarrow> bool" where
  "bits_fit i \<longleftrightarrow> op_bits (snd i) < 256 ^ operand_size (fst i)"

fun well_formed :: "nat \<Rightarrow> (opcode \<times> operand) list \<Rightarrow> bool" where
  "well_formed n [] = (n = 0)"
| "well_formed n (i # is) =
     (if n = 0
      then byte_opcode (fst i) \<and> bits_fit i \<and>
        well_formed (if fst i = CEE_SWITCH then op_bits (snd i) else 0) is
      else fst i = CEE_SWITCH_ARG \<and> well_formed (n - 1) is)"

text \<open>What the decoder gives for it: offsets, opcodes, and operands with resolved targets.\<close>

definition raw_operand :: "(addr \<Rightarrow> u32) \<Rightarrow> operand \<Rightarrow> u64" where
  "raw_operand L x = (case x of Bits b \<Rightarrow> b | Target t \<Rightarrow> ucast (L t))"

fun raw_program :: "(addr \<Rightarrow> u32) \<Rightarrow> nat \<Rightarrow> (opcode \<times> operand) list \<Rightarrow> raw list" where
  "raw_program L k [] = []"
| "raw_program L k (i # is) =
     (if fst i = CEE_SWITCH_ARG then None else Some k, fst i, raw_operand L (snd i)) #
     raw_program L (k + instr_size (fst i)) is"

section \<open>Decoding one instruction\<close>

lemma byte_opcode_bound: "byte_opcode op \<Longrightarrow> op < CEE_COUNT"
  by (simp add: byte_opcode_def valid_opcode_def)

lemma byte_opcode_not_arg: "byte_opcode op \<Longrightarrow> op \<noteq> CEE_SWITCH_ARG"
  by (auto dest!: byte_opcode_bound)

lemma decode_opcode_bytes:
  assumes "byte_opcode op"
  shows "decode_opcode (opcode_bytes op @ r) = Some (op, r)"
proof -
  note lt = byte_opcode_bound [OF assms]
  then have n: "unat op < 294" by (simp add: word_less_nat_alt)
  have "op AND 0xFF = take_bit 8 op" by (simp add: take_bit_eq_mask mask_eq_exp_minus_1)
  then have low: "unat (op AND 0xFF) = unat op mod 256"
    by (simp only: unsigned_take_bit_eq) (simp add: take_bit_eq_mod)
  have b: "unat (ucast (op AND 0xFF) :: byte) = unat op mod 256"
    by (simp add: unsigned_ucast_eq low take_bit_eq_mod)
  show ?thesis
  proof (cases "0x100 \<le> op")
    case True
    then have ge: "256 \<le> unat op" by (simp add: word_le_nat_alt)
    have "unat (0x100 + ucast (ucast (op AND 0xFF) :: byte) :: u32) = 256 + unat op mod 256"
      using b by (simp add: unat_word_ariths)
    also have "\<dots> = unat op" using ge n by (simp add: le_mod_geq)
    finally have "0x100 + ucast (ucast (op AND 0xFF) :: byte) = op" by (simp add: word_unat_eq_iff)
    with True lt show ?thesis by (simp add: opcode_bytes_def)
  next
    case False
    then have "unat op < 256" by (simp add: word_le_nat_alt)
    then have u: "unat (ucast (op AND 0xFF) :: byte) = unat op" using b by simp
    have "(ucast (ucast (op AND 0xFF) :: byte) :: u32) = op"
      by (simp add: word_unat_eq_iff [where 'a = 32] u)
    moreover have "(ucast (op AND 0xFF) :: byte) \<noteq> 0xFE"
      using u assms by (auto simp: byte_opcode_def word_unat_eq_iff)
    ultimately show ?thesis using False lt by (simp add: opcode_bytes_def)
  qed
qed


lemma decode_operand_plain:
  assumes f: "f \<in> {0, 1, 2, 4, 8}" and b: "unat b < 256 ^ flags_size f"
  shows "decode_operand f k (le_bytes (flags_size f) (unat b) @ r) = Some (b, [], r)"
proof -
  have "f \<noteq> 0x11" "f \<noteq> 0x14" "f \<noteq> 0x20" using f by auto
  then show ?thesis using b by (simp add: decode_operand_def le_nat_le_bytes)
qed

lemma decode_operand_short:
  fixes t :: u32
  assumes "scast (ucast (t - word_of_nat (Suc k)) :: byte) = t - word_of_nat (Suc k)"
  shows "decode_operand 0x11 k (ucast (t - word_of_nat (Suc k)) # r) = Some (ucast t, [], r)"
proof -
  have "word_of_nat k + 1 + (t - word_of_nat (Suc k)) = t" by simp
  moreover have "decode_operand 0x11 k (ucast (t - word_of_nat (Suc k)) # r) =
      Some (ucast (word_of_nat k + 1 + scast (ucast (t - word_of_nat (Suc k)) :: byte) :: u32), [], r)"
    by (simp add: decode_operand_def flags_size_def del: of_nat_Suc)
  ultimately show ?thesis by (simp only: assms)
qed

lemma word_le_bytes: "word_of_nat (le_nat (le_bytes 4 (unat w))) = (w :: u32)" 
proof -
  have "unat w < 256 ^ 4" using unsigned_less [of w] by simp
  then show ?thesis by (simp add: le_nat_le_bytes)
qed

lemma decode_operand_long:
  fixes t :: u32
  shows "decode_operand 0x14 k (le_bytes 4 (unat (t - word_of_nat (k + 4))) @ r) = Some (ucast t, [], r)"
proof -
  have "word_of_nat k + 4 + (t - word_of_nat (k + 4)) = t" by simp
  moreover have "decode_operand 0x14 k (le_bytes 4 (unat d) @ r) = Some (ucast (word_of_nat k + 4 + d :: u32), [], r)" for d
    by (simp add: decode_operand_def flags_size_def word_le_bytes)
  ultimately show ?thesis by (simp only:)
qed

lemma decode_targets_assemble:
  "well_formed n is \<Longrightarrow> list_all operand_ok is \<Longrightarrow>
   \<exists>args rest. is = args @ rest \<and> length args = n \<and> well_formed 0 rest \<and>
     (\<forall>i \<in> set args. fst i = CEE_SWITCH_ARG) \<and>
     decode_targets n (assemble L k base is) base =
       Some (raw_program L k args, assemble L (k + code_size args) base rest)"
proof (induction n arbitrary: k "is")
  case 0
  then show ?case by (intro exI [of _ "[]"] exI [of _ "is"]) simp
next
  case (Suc n)
  then obtain i is' where i: "is = i # is'" "fst i = CEE_SWITCH_ARG" "well_formed n is'"
    by (cases "is") auto
  then obtain t where t: "snd i = Target t" using Suc.prems(2) by (auto simp: operand_ok_def)
  have size: "instr_size CEE_SWITCH_ARG = 4"
    by (simp add: instr_size_def opcode_bytes_def operand_size_def flags_size_def)
  have head: "head i = []" using i(2) by (simp add: head_def opcode_bytes_def)
  have tail: "tail L k base i = le_bytes 4 (unat (L t - base))"
    using i(2) t by (simp add: tail_def op_target_def)
  obtain args rest where IH: "is' = args @ rest" "length args = n" "well_formed 0 rest"
      "\<forall>i \<in> set args. fst i = CEE_SWITCH_ARG"
      "decode_targets n (assemble L (k + 4) base is') base =
         Some (raw_program L (k + 4) args, assemble L (k + 4 + code_size args) base rest)"
    using Suc.IH [OF i(3), of "k + 4"] Suc.prems(2) i(1) by auto
  show ?case
    using i(1,2) t size head tail IH
    by (intro exI [of _ "i # args"] exI [of _ rest])
       (simp add: switch_base_def raw_operand_def word_le_bytes add.assoc)
qed

lemma switch_size: "opcode_bytes CEE_SWITCH = [0x45]" "operand_size CEE_SWITCH = 4" "instr_size CEE_SWITCH = 5"
  "op_flags CEE_SWITCH = 0x20"
proof -
  show "op_flags CEE_SWITCH = 0x20" using op_flags_switch [of CEE_SWITCH] by simp
  then show "opcode_bytes CEE_SWITCH = [0x45]" "operand_size CEE_SWITCH = 4" "instr_size CEE_SWITCH = 5"
    by (simp_all add: instr_size_def opcode_bytes_def operand_size_def)
qed

section \<open>Decoding an assembled program\<close>

lemma raw_program_append:
  "raw_program L k (is @ js) = raw_program L k is @ raw_program L (k + code_size is) js"
  by (induction "is" arbitrary: k) (simp_all add: add.assoc)

lemma short_branches_fit_append:
  "short_branches_fit L k (is @ js) \<longleftrightarrow>
   short_branches_fit L k is \<and> short_branches_fit L (k + code_size is) js"
  by (induction "is" arbitrary: k) (simp_all add: add.assoc)

text \<open>The operand bytes of an instruction that is not a switch.\<close>

lemma decode_operand_assemble:
  assumes i: "byte_opcode (fst i)" "operand_ok i" "bits_fit i" and sw: "fst i \<noteq> CEE_SWITCH"
    and fit: "op_flags (fst i) = 0x11 \<longrightarrow> scast (ucast (displacement L k i) :: byte) = displacement L k i"
  shows "\<exists>bs. head i @ tail L k base i = opcode_bytes (fst i) @ bs \<and>
    decode_operand (op_flags (fst i)) (k + length (opcode_bytes (fst i))) (bs @ r) =
      Some (raw_operand L (snd i), [], r)"
proof -
  define f where "f = op_flags (fst i)"
  have op: "unat (fst i) < 296" "fst i \<noteq> CEE_COUNT" using i(2) by (simp_all add: operand_ok_def)
  have not_arg: "fst i \<noteq> CEE_SWITCH_ARG" by (rule byte_opcode_not_arg [OF i(1)])
  have "f \<noteq> 0x20" unfolding f_def using op_flags_switch [OF op] sw by simp
  with op_flags_range [OF op(1)] consider "f = 0x11" | "f = 0x14" | "f \<in> {0, 1, 2, 4, 8}"
    unfolding f_def by blast
  then show ?thesis
  proof cases
    case 1
    then obtain t where t: "snd i = Target t" using i(2) by (auto simp: operand_ok_def f_def)
    have "instr_size (fst i) = length (opcode_bytes (fst i)) + 1"
      using 1 by (simp add: instr_size_def operand_size_def f_def [symmetric] flags_size_def)
    then have d: "displacement L k i = L t - word_of_nat (Suc (k + length (opcode_bytes (fst i))))"
      by (simp add: displacement_def t op_target_def)
    show ?thesis
      using 1 not_arg fit decode_operand_short [of "L t" "k + length (opcode_bytes (fst i))" r]
      by (intro exI [of _ "[ucast (displacement L k i)]"])
         (simp add: head_def tail_def f_def raw_operand_def t d)
  next
    case 2
    then obtain t where t: "snd i = Target t" using i(2) by (auto simp: operand_ok_def f_def)
    have "instr_size (fst i) = length (opcode_bytes (fst i)) + 4"
      using 2 by (simp add: instr_size_def operand_size_def f_def [symmetric] flags_size_def)
    then have d: "displacement L k i = L t - word_of_nat (k + length (opcode_bytes (fst i)) + 4)"
      by (simp add: displacement_def t op_target_def add.assoc)
    show ?thesis
      using 2 not_arg decode_operand_long [of "k + length (opcode_bytes (fst i))" "L t" r]
      by (intro exI [of _ "le_bytes 4 (unat (displacement L k i))"])
         (simp add: head_def tail_def f_def raw_operand_def t d del: of_nat_add)
  next
    case 3
    then have nb: "f \<noteq> 0x11" "f \<noteq> 0x14" by auto
    then obtain b where b: "snd i = Bits b"
      using i(2) by (cases "snd i") (auto simp: operand_ok_def f_def)
    have size: "operand_size (fst i) = flags_size f" using \<open>f \<noteq> 0x20\<close> by (simp add: operand_size_def f_def)
    have "unat b < 256 ^ flags_size f" using i(3) b size by (simp add: bits_fit_def op_bits_def)
    from decode_operand_plain [OF 3 this, of "k + length (opcode_bytes (fst i))" r]
    show ?thesis
      using nb not_arg size b
      by (intro exI [of _ "le_bytes (flags_size f) (unat b)"])
         (simp add: head_def tail_def f_def [symmetric] raw_operand_def op_bits_def)
  qed
qed


lemma decode_operand_switch:
  assumes "decode_targets (unat (word_of_nat b :: u32)) q (word_of_nat off + 4 + word_of_nat b * 4) = Some (ts, r)" "b < 2 ^ 32"
  shows "decode_operand 0x20 off (le_bytes 4 b @ q) = Some (word_of_nat b, ts, r)"
proof -
  have "le_nat (le_bytes 4 b) = b" using assms(2) by (simp add: le_nat_le_bytes)
  moreover have "(ucast (word_of_nat b :: u32) :: u64) = word_of_nat b"
    using assms(2) by (intro ucast_word_of_nat) simp
  ultimately show ?thesis
    using assms(1) by (simp add: decode_operand_def flags_size_def Let_def)
qed

lemma decode_step:
  assumes "decode_opcode (b # p) = Some (op, r)" "valid_opcode op" "opcode_flags op = Some f"
    "decode_operand f (off + (length (b # p) - length r)) r = Some (arg, ts, r')"
    "decode n (off + (length (b # p) - length r')) r' = Some is"
  shows "decode (Suc n) off (b # p) = Some ((Some off, op, arg) # ts @ is)"
  using assms by (simp del: decode_opcode.simps)

lemma opcode_bytes_nonempty: "byte_opcode op \<Longrightarrow> 0 < length (opcode_bytes op)"
  using byte_opcode_bound [of op] by (simp add: opcode_bytes_def)

lemma decode_assemble:
  "well_formed 0 is \<Longrightarrow> list_all operand_ok is \<Longrightarrow> short_branches_fit L k is \<Longrightarrow> code_size is \<le> n \<Longrightarrow>
   decode n k (assemble L k base is) = Some (raw_program L k is)"
proof (induction "length is" arbitrary: "is" k base n rule: less_induct)
  case less
  show ?case
  proof (cases "is")
    case Nil
    then show ?thesis by simp
  next
    case (Cons i js)
    have i: "byte_opcode (fst i)" "operand_ok i" "bits_fit i"
      and js: "well_formed (if fst i = CEE_SWITCH then op_bits (snd i) else 0) js" "list_all operand_ok js"
      and fit: "op_flags (fst i) = 0x11 \<longrightarrow> scast (ucast (displacement L k i) :: byte) = displacement L k i"
      and fits: "short_branches_fit L (k + instr_size (fst i)) js"
      and size: "instr_size (fst i) + code_size js \<le> n"
      using less.prems by (auto simp: Cons)
    define f where "f = op_flags (fst i)"
    have op: "unat (fst i) < 296" using i(2) by (simp add: operand_ok_def)
    have fl: "opcode_flags (fst i) = Some f" unfolding f_def by (rule op_flags_some [OF op])
    have valid: "valid_opcode (fst i)" using i(1) by (simp add: byte_opcode_def)
    note ne = opcode_bytes_nonempty [OF i(1)]
    have "0 < instr_size (fst i)" using ne by (simp add: instr_size_def)
    then obtain m where n: "n = Suc m" "code_size js \<le> m" using size by (cases n) auto
    let ?k = "k + instr_size (fst i)" and ?b = "switch_base k base i"
    obtain bs ts q args rest where p: "head i @ tail L k base i @ assemble L ?k ?b js = opcode_bytes (fst i) @ bs"
        "decode_operand f (k + length (opcode_bytes (fst i))) bs = Some (raw_operand L (snd i), raw_program L ?k args,
           assemble L (?k + code_size args) ?b rest)"
        and rest: "js = args @ rest" "well_formed 0 rest"
    proof (cases "fst i = CEE_SWITCH")
      case False
      obtain bs where bs: "head i @ tail L k base i = opcode_bytes (fst i) @ bs"
          "decode_operand f (k + length (opcode_bytes (fst i))) (bs @ assemble L ?k ?b js) =
             Some (raw_operand L (snd i), [], assemble L ?k ?b js)"
        using decode_operand_assemble [OF i False fit, of base] unfolding f_def by blast
      show thesis
        using bs js False by (intro that [of "bs @ assemble L ?k ?b js" "[]" js]) simp_all
    next
      case True
      have f20: "f = 0x20" using True switch_size by (simp add: f_def)
      obtain b where b: "snd i = Bits b"
        using i(2) f20 by (cases "snd i") (auto simp: operand_ok_def f_def)
      have small: "unat b < 2 ^ 32" using i(3) True b switch_size by (simp add: bits_fit_def op_bits_def)
      then have cnt: "unat (word_of_nat (unat b) :: u32) = unat b" by (rule unat_of_nat_u32)
      obtain args rest where a: "js = args @ rest" "well_formed 0 rest"
          "decode_targets (unat b) (assemble L ?k ?b js) ?b =
             Some (raw_program L ?k args, assemble L (?k + code_size args) ?b rest)"
        using decode_targets_assemble [of "unat b" js L ?k ?b] js True b by (auto simp: op_bits_def)
      have base: "?b = word_of_nat (Suc k) + 4 + word_of_nat (unat b) * 4"
        using True b by (simp add: switch_base_def op_bits_def algebra_simps)
      have h: "head i @ tail L k base i = opcode_bytes (fst i) @ le_bytes 4 (unat b)"
        using True b switch_size by (simp add: head_def tail_def op_bits_def)
      have "decode_operand f (Suc k) (le_bytes 4 (unat b) @ assemble L ?k ?b js) =
          Some (b, raw_program L ?k args, assemble L (?k + code_size args) ?b rest)"
        using decode_operand_switch [of "unat b" "assemble L ?k ?b js" "Suc k", unfolded cnt base [symmetric],
            OF a(3) small]
        by (simp add: f20)
      then show thesis
        using h a(1,2) True b switch_size(1)
        by (intro that [of "le_bytes 4 (unat b) @ assemble L ?k ?b js" args rest]) (simp_all add: raw_operand_def)
    qed
    let ?q = "assemble L (?k + code_size args) ?b rest"
    obtain c cs where c: "opcode_bytes (fst i) @ bs = c # cs"
      using ne by (cases "opcode_bytes (fst i)") auto
    have ok: "list_all operand_ok args" "list_all operand_ok rest" using js(2) rest(1) by simp_all
    have len: "length (c # cs) = instr_size (fst i) + code_size args + length ?q"
      unfolding c [symmetric] p(1) [symmetric]
      using length_head_tail [OF i(2), of L k base] js(2) rest(1) ok
      by (simp add: length_assemble code_size_def)
    have fits': "short_branches_fit L (?k + code_size args) rest"
      using fits by (simp add: rest(1) short_branches_fit_append)
    have "length rest < length is" by (simp add: Cons rest(1))
    from less.hyps [OF this rest(2) ok(2) fits', of m ?b] n(2)
    have IH: "decode m (?k + code_size args) ?q = Some (raw_program L (?k + code_size args) rest)"
      by (simp add: rest(1) code_size_def)
    have lb: "length (c # cs) - length bs = length (opcode_bytes (fst i))" using c by (metis add_diff_cancel_right' length_append)
    have lq: "length (c # cs) - length ?q = instr_size (fst i) + code_size args" using len by simp
    have "decode (Suc m) k (c # cs) = Some ((Some k, fst i, raw_operand L (snd i)) # raw_program L ?k args @
        raw_program L (?k + code_size args) rest)"
    proof (rule decode_step [OF _ valid fl])
      show "decode_opcode (c # cs) = Some (fst i, bs)"
        unfolding c [symmetric] by (rule decode_opcode_bytes [OF i(1)])
      show "decode_operand f (k + (length (c # cs) - length bs)) bs = Some (raw_operand L (snd i), raw_program L ?k args, ?q)"
        unfolding lb by (rule p(2))
      show "decode m (k + (length (c # cs) - length ?q)) ?q = Some (raw_program L (?k + code_size args) rest)"
        unfolding lq using IH by (simp add: add.assoc)
    qed
    then show ?thesis
      using byte_opcode_not_arg [OF i(1)] p(1) c
      by (simp add: Cons n(1) rest(1) raw_program_append del: decode.simps)
  qed
qed


section \<open>Operands that are not written\<close>

text \<open>
  An opcode without an operand may have bits left in its cell, a call that became a \<open>nop\<close> for
  instance; they are not exported.
\<close>

definition plain :: "opcode \<times> operand \<Rightarrow> opcode \<times> operand" where
  "plain i = (fst i, case snd i of Bits b \<Rightarrow> Bits (if operand_size (fst i) = 0 then 0 else b) | Target t \<Rightarrow> Target t)"

lemma fst_plain [simp]: "fst (plain i) = fst i"
  by (simp add: plain_def)

lemma plain_Target [simp]: "snd (plain i) = Target t \<longleftrightarrow> snd i = Target t"
  by (simp add: plain_def split: operand.split)

lemma plain_target: "snd i = Target t \<Longrightarrow> plain i = i"
  by (cases i) (simp add: plain_def)

lemma operand_ok_plain [simp]: "operand_ok (plain i) \<longleftrightarrow> operand_ok i"
  by (simp add: operand_ok_def)

lemma op_bits_plain: "op_bits (snd (plain i)) = (if operand_size (fst i) = 0 then 0 else op_bits (snd i))"
  by (simp add: plain_def op_bits_def split: operand.split)

lemma op_target_plain [simp]: "op_target (snd (plain i)) = op_target (snd i)"
  by (simp add: plain_def op_target_def split: operand.split)

lemma code_plain [simp]:
  "head (plain i) = head i" "tail L k base (plain i) = tail L k base i" "displacement L k (plain i) = displacement L k i"
  "switch_base k base (plain i) = switch_base k base i"
  using switch_size by (simp_all add: head_def tail_def displacement_def switch_base_def op_bits_plain)

lemma program_plain [simp]:
  "assemble L k base (map plain is) = assemble L k base is" "short_branches_fit L k (map plain is) \<longleftrightarrow> short_branches_fit L k is"
  "layout L k xs (map plain is) \<longleftrightarrow> layout L k xs is" "code_size (map plain is) = code_size is"
  "list_all operand_ok (map plain is) \<longleftrightarrow> list_all operand_ok is"
proof -
  show "assemble L k base (map plain is) = assemble L k base is" by (induction "is" arbitrary: k base) simp_all
  show "short_branches_fit L k (map plain is) \<longleftrightarrow> short_branches_fit L k is" by (induction "is" arbitrary: k) simp_all
  show "layout L k xs (map plain is) \<longleftrightarrow> layout L k xs is" by (induction L k xs "is" rule: layout.induct) simp_all
  show "code_size (map plain is) = code_size is" by (induction "is") simp_all
  show "list_all operand_ok (map plain is) \<longleftrightarrow> list_all operand_ok is" by (induction "is") simp_all
qed

lemma widened_plain:
  "list_all2 widened is is' \<Longrightarrow> list_all operand_ok is \<Longrightarrow> list_all2 widened (map plain is) (map plain is')"
proof (induction rule: list_all2_induct)
  case (Cons i "is" i' is')
  have "widened (plain i) (plain i')"
  proof (cases "i' = i")
    case False
    then have w: "op_flags (fst i) = 0x11" "i' = (long_branch (fst i), snd i)" using Cons.hyps(1) by (auto simp: widened_def)
    with Cons.prems obtain t where t: "snd i = Target t" by (auto simp: operand_ok_def)
    then have "plain i = i" "plain i' = i'" using w(2) by (simp_all add: plain_target)
    with Cons.hyps(1) show ?thesis by simp
  qed (simp add: widened_def)
  with Cons show ?case by simp
qed simp

lemma well_formed_plain: "well_formed n is \<Longrightarrow> list_all operand_ok is \<Longrightarrow> map plain is = is"
proof (induction n "is" rule: well_formed.induct)
  case (2 n i "is")
  have "plain i = i"
  proof (cases "snd i")
    case (Bits b)
    then have "n = 0" using 2 by (auto simp: operand_ok_def split: if_split_asm)
    then have "bits_fit i" using 2 by simp
    then have "operand_size (fst i) = 0 \<Longrightarrow> b = 0" using Bits by (simp add: bits_fit_def op_bits_def unat_eq_zero)
    with Bits show ?thesis by (cases i) (simp add: plain_def)
  qed (rule plain_target)
  with 2 show ?case by (auto split: if_split_asm)
qed simp

lemma well_formed_plainI: "well_formed n is \<Longrightarrow> list_all operand_ok is \<Longrightarrow> well_formed n (map plain is)"
  by (simp only: well_formed_plain)

section \<open>What is exported is decoded\<close>

lemma long_branch_byte_opcode:
  "unat op < 296 \<Longrightarrow> op_flags op = 0x11 \<Longrightarrow> byte_opcode (long_branch op)"
  using long_branch_range [of op]
  by (auto simp: byte_opcode_def valid_opcode_def word_le_nat_alt word_less_nat_alt)

lemma well_formed_widened:
  "list_all2 widened is is' \<Longrightarrow> list_all operand_ok is \<Longrightarrow> well_formed n is \<Longrightarrow> well_formed n is'"
proof (induction arbitrary: n rule: list_all2_induct)
  case (Cons i "is" i' is')
  show ?case
  proof (cases "i' = i")
    case True
    with Cons show ?thesis by auto
  next
    case False
    then have w: "op_flags (fst i) = 0x11" "i' = (long_branch (fst i), snd i)"
      using Cons.hyps(1) by (auto simp: widened_def)
    have ok: "operand_ok i" using Cons.prems(1) by simp
    then obtain t where t: "snd i = Target t" using w(1) by (auto simp: operand_ok_def)
    have op: "unat (fst i) < 296" using ok by (simp add: operand_ok_def)
    have ne: "fst i \<noteq> CEE_SWITCH_ARG" "fst i \<noteq> CEE_SWITCH"
      using w(1) op_flags_switch_arg switch_size(4) by auto
    then have n: "n = 0" "well_formed 0 is" using Cons.prems(2) by (auto split: if_split_asm)
    with Cons have "well_formed 0 is'" by auto
    then show ?thesis
      using n(1) w(2) t long_branch_byte_opcode [OF op w(1)] long_branch_flags(5) [OF op w(1)]
      by (simp add: bits_fit_def op_bits_def)
  qed
qed simp

theorem export_decodes_plain:
  assumes p: "program_at rw xs is" and wf: "well_formed 0 (map plain is)" and size: "10 * (il_brk rw - 3) < 2 ^ 32"
  shows "\<exists>buf is' rw'. export_buffer mem rw = Some (buf, word_of_nat (code_size is'), rw') \<and>
    list_all2 widened is is' \<and> program_at rw' xs is' \<and> well_formed 0 (map plain is') \<and> links_same rw rw' \<and>
    code_size is' \<le> length buf \<and> code_size is' < 2 ^ 32 \<and>
    (let L = (\<lambda>x. the (offset_at x rw'))
     in layout L 0 xs is' \<and> decode_il (take (code_size is') buf) = Some (raw_program L 0 (map plain is'))) \<and>
    (\<forall>x \<in> set (m_IL # xs). offset_at x rw' \<noteq> None)"
proof -
  obtain buf is' rw' where e: "export_buffer mem rw = Some (buf, word_of_nat (code_size is'), rw')"
      "list_all2 widened is is'" "program_at rw' xs is'" "links_same rw rw'" "assembled rw' xs is' buf"
      "code_size is' \<le> length buf" "code_size is' < 2 ^ 32"
    using export_buffer_spec [OF p size] by blast
  have ok: "list_all operand_ok is" "list_all operand_ok is'"
    using p e(3) by (simp_all add: program_at_def)
  define L where "L = (\<lambda>x. the (offset_at x rw'))"
  have a: "layout L 0 xs is'" "short_branches_fit L 0 is'" "take (code_size is') buf = assemble L 0 0 is'"
    "\<forall>x \<in> set (m_IL # xs). offset_at x rw' \<noteq> None"
    using e(5) by (simp_all add: assembled_def Let_def L_def)
  have wf': "well_formed 0 (map plain is')"
    by (rule well_formed_widened [OF widened_plain [OF e(2) ok(1)] _ wf]) (simp add: ok(1))
  have "decode_il (take (code_size is') buf) = Some (raw_program L 0 (map plain is'))"
    unfolding decode_il_def a(3) using decode_assemble [OF wf', of L 0 _ 0] a(2) ok(2)
    by (simp add: length_assemble)
  with e a(1,4) wf' show ?thesis unfolding Let_def L_def by blast
qed

theorem export_decodes:
  assumes p: "program_at rw xs is" and wf: "well_formed 0 is" and size: "10 * (il_brk rw - 3) < 2 ^ 32"
  shows "\<exists>buf is' rw'. export_buffer mem rw = Some (buf, word_of_nat (code_size is'), rw') \<and>
    list_all2 widened is is' \<and> program_at rw' xs is' \<and> well_formed 0 is' \<and> links_same rw rw' \<and>
    code_size is' \<le> length buf \<and> code_size is' < 2 ^ 32 \<and>
    (let L = (\<lambda>x. the (offset_at x rw'))
     in layout L 0 xs is' \<and> decode_il (take (code_size is') buf) = Some (raw_program L 0 is')) \<and>
    (\<forall>x \<in> set (m_IL # xs). offset_at x rw' \<noteq> None)"
proof -
  have ok: "list_all operand_ok is" using p by (simp add: program_at_def)
  have w: "well_formed 0 (map plain is)" by (rule well_formed_plainI [OF wf ok])
  have "map plain is' = is'" if "list_all2 widened is is'" for is'
    using well_formed_plain [OF well_formed_widened [OF that ok wf] widened_all_ok [OF that ok]] .
  with export_decodes_plain [OF p w size, of mem] show ?thesis unfolding Let_def by metis
qed

section \<open>What is exported is imported\<close>

text \<open>A place in the one list becomes the same place in the other.\<close>

definition relabel_addr :: "addr list \<Rightarrow> addr list \<Rightarrow> addr \<Rightarrow> addr" where
  "relabel_addr xs zs t = the (map_of (zip (xs @ [m_IL]) (zs @ [m_IL])) t)"

definition relabel :: "addr list \<Rightarrow> addr list \<Rightarrow> opcode \<times> operand \<Rightarrow> opcode \<times> operand" where
  "relabel xs zs i = (fst i, case snd i of Bits b \<Rightarrow> Bits b | Target t \<Rightarrow> Target (relabel_addr xs zs t))"

text \<open>No branch into the target list of a switch: such a place has no offset of its own.\<close>

definition real_label :: "addr list \<Rightarrow> (opcode \<times> operand) list \<Rightarrow> addr \<Rightarrow> bool" where
  "real_label xs is t \<longleftrightarrow> t = m_IL \<or> (\<exists>j < length xs. xs ! j = t \<and> fst (is ! j) \<noteq> CEE_SWITCH_ARG)"

definition targets_real :: "addr list \<Rightarrow> (opcode \<times> operand) list \<Rightarrow> bool" where
  "targets_real xs is \<longleftrightarrow> (\<forall>i \<in> set is. \<forall>t. snd i = Target t \<longrightarrow> real_label xs is t)"

lemma relabel_addr_nth:
  "distinct (m_IL # xs) \<Longrightarrow> length zs = length xs \<Longrightarrow> j \<le> length xs \<Longrightarrow>
   relabel_addr xs zs ((xs @ [m_IL]) ! j) = (zs @ [m_IL]) ! j"
  using map_of_zip_nth [of "xs @ [m_IL]" "zs @ [m_IL]" j] by (simp add: relabel_addr_def del: zip_append)

lemma layout_nth:
  "layout L k xs is \<Longrightarrow> j < length xs \<Longrightarrow> L (xs ! j) = word_of_nat (k + code_size (take j is))"
proof (induction L k xs "is" arbitrary: j rule: layout.induct)
  case (1 L k x xs i "is")
  then show ?case by (cases j) (simp_all add: add.assoc)
qed auto

lemma layout_end: "layout L k xs is \<Longrightarrow> L m_IL = word_of_nat (k + code_size is)"
  by (induction L k xs "is" rule: layout.induct) (simp_all add: add.assoc)

lemma layout_length: "layout L k xs is \<Longrightarrow> length xs = length is"
  by (induction L k xs "is" rule: layout.induct) auto

lemma real_size:
  "well_formed n is \<Longrightarrow> i \<in> set is \<Longrightarrow> fst i \<noteq> CEE_SWITCH_ARG \<Longrightarrow> 0 < instr_size (fst i)"
proof (induction n "is" rule: well_formed.induct)
  case (2 n j "is")
  then show ?case
    using opcode_bytes_nonempty [of "fst j"] by (auto simp: instr_size_def split: if_split_asm)
qed simp

lemma offset_table_program:
  "length zs = length is \<Longrightarrow> k + code_size is < length t \<Longrightarrow>
   \<forall>i \<in> set is. fst i \<noteq> CEE_SWITCH_ARG \<longrightarrow> 0 < instr_size (fst i) \<Longrightarrow>
   (let T = offset_table (zip (map fst (raw_program L k is)) zs) t
    in (\<forall>j. j < k \<or> k + code_size is \<le> j \<longrightarrow> T ! j = t ! j) \<and>
       (\<forall>j < length is. fst (is ! j) \<noteq> CEE_SWITCH_ARG \<longrightarrow> T ! (k + code_size (take j is)) = zs ! j))"
proof (induction "is" arbitrary: zs k t)
  case Nil
  then show ?case by simp
next
  case (Cons i "is")
  then obtain z zs' where z: "zs = z # zs'" by (cases zs) auto
  define k' where "k' = k + instr_size (fst i)"
  define t' where "t' = (if fst i = CEE_SWITCH_ARG then t else t[k := z])"
  define T where "T = offset_table (zip (map fst (raw_program L k' is)) zs') t'"
  have IH: "\<And>j. j < k' \<or> k' + code_size is \<le> j \<Longrightarrow> T ! j = t' ! j"
    "\<And>j. j < length is \<Longrightarrow> fst (is ! j) \<noteq> CEE_SWITCH_ARG \<Longrightarrow> T ! (k' + code_size (take j is)) = zs' ! j"
    using Cons.IH [of zs' k' t'] Cons.prems z
    by (auto simp: T_def t'_def k'_def Let_def add.assoc)
  have T: "offset_table (zip (map fst (raw_program L k (i # is))) zs) t = T"
    by (simp add: T_def t'_def k'_def z)
  have k: "fst i \<noteq> CEE_SWITCH_ARG \<Longrightarrow> k < k'" "k \<le> k'" using Cons.prems(3) by (simp_all add: k'_def)
  have "T ! j = t ! j" if "j < k \<or> k + code_size (i # is) \<le> j" for j
    using that IH(1) [of j] k by (auto simp: t'_def k'_def)
  moreover have "T ! (k + code_size (take j (i # is))) = zs ! j"
    if "j < length (i # is)" "fst ((i # is) ! j) \<noteq> CEE_SWITCH_ARG" for j
  proof (cases j)
    case 0
    then show ?thesis using that IH(1) [of k] k Cons.prems(2) by (simp add: z t'_def)
  next
    case (Suc j')
    then show ?thesis using that IH(2) [of j'] by (simp add: z k'_def add.assoc)
  qed
  ultimately show ?case unfolding T Let_def by blast
qed


lemma table_label:
  assumes lay: "layout L 0 xs is" and dist: "distinct (m_IL # xs)" and len: "length zs = length is"
    and size: "code_size is = N" "N < 2 ^ 32" and wf: "well_formed 0 is"
  defines "T \<equiv> offset_table (zip (map fst (raw_program L 0 is)) zs) (offsets_initial N)"
  assumes t: "real_label xs is t"
  shows "T ! unat (L t) = relabel_addr xs zs t" "unat (L t) \<le> N"
proof -
  have lx: "length xs = length is" by (rule layout_length [OF lay])
  have real: "\<forall>i \<in> set is. fst i \<noteq> CEE_SWITCH_ARG \<longrightarrow> 0 < instr_size (fst i)"
    using real_size [OF wf] by blast
  have "0 + code_size is < length (offsets_initial N)" using size by (simp add: offsets_initial_def)
  note tab = offset_table_program [OF len this real, of L, folded T_def, unfolded Let_def]
  have le: "code_size (take j is) \<le> N" for j
    unfolding size(1) [symmetric]
    by (subst (2) append_take_drop_id [of j "is", symmetric], simp only: code_size_def map_append sum_list_append)
  note nth = relabel_addr_nth [OF dist, of zs]
  from t consider "t = m_IL" | j where "j < length xs" "xs ! j = t" "fst (is ! j) \<noteq> CEE_SWITCH_ARG"
    unfolding real_label_def by blast
  then have "T ! unat (L t) = relabel_addr xs zs t \<and> unat (L t) \<le> N"
  proof cases
    case 1
    have "unat (L t) = N" using layout_end [OF lay] 1 size unat_of_nat_u32 [of N] by simp
    moreover have "T ! N = m_IL" using tab size(1) by (simp add: offsets_initial_def nth_append)
    ultimately show ?thesis using nth [of "length xs"] lx len 1 by (simp add: nth_append)
  next
    case 2
    have "unat (L t) = code_size (take j is)"
      using layout_nth [OF lay 2(1)] 2(2) le [of j] size(2) unat_of_nat_u32 [of "code_size (take j is)"] by simp
    moreover have "T ! code_size (take j is) = zs ! j" using tab 2 lx by simp
    ultimately show ?thesis using nth [of j] 2 lx len le [of j] by (simp add: nth_append)
  qed
  then show "T ! unat (L t) = relabel_addr xs zs t" "unat (L t) \<le> N" by simp_all
qed

lemma resolve_raw_program:
  assumes lay: "layout L 0 xs is" and dist: "distinct (m_IL # xs)" and len: "length zs = length is"
    and size: "code_size is = N" "N < 2 ^ 32" and wf: "well_formed 0 is" and ok: "list_all operand_ok is"
    and tgt: "targets_real xs is"
  defines "T \<equiv> offset_table (zip (map fst (raw_program L 0 is)) zs) (offsets_initial N)"
  shows "map (resolve T) (raw_program L 0 is) = map (relabel xs zs) is"
proof -
  have lT: "length T = N + 1" by (simp add: T_def offsets_initial_def)
  have target: "target_of T (ucast (L t)) = relabel_addr xs zs t" if "i \<in> set is" "snd i = Target t" for i t
  proof -
    have u: "(ucast (ucast (L t) :: u64) :: u32) = L t"
      by (rule bit_word_eqI) (simp add: bit_simps)
    have "real_label xs is t" using tgt that by (auto simp: targets_real_def)
    from table_label [OF lay dist len size wf this] lT show ?thesis
      by (simp add: target_of_def u T_def)
  qed
  have one: "resolve T (s, fst i, raw_operand L (snd i)) = relabel xs zs i" if "i \<in> set is" for i s
  proof -
    have i: "operand_ok i" using ok that by (simp add: list_all_iff)
    then have "opcode_flags (fst i) = Some (op_flags (fst i))"
      by (intro op_flags_some) (simp add: operand_ok_def)
    then show ?thesis
      using i target [OF that]
      by (cases "snd i") (auto simp: resolve_def relabel_def raw_operand_def operand_ok_def)
  qed
  have "map (resolve T) (raw_program L k js) = map (relabel xs zs) js" if "set js \<subseteq> set is" for k js
    using that by (induction js arbitrary: k) (simp_all add: one)
  then show ?thesis by simp
qed

lemma raw_program_length [simp]: "length (raw_program L k is) = length is"
  by (induction "is" arbitrary: k) simp_all

lemma relabel_addr_range:
  assumes "length zs = length xs" "t \<in> set (xs @ [m_IL])"
  shows "relabel_addr xs zs t \<in> set (m_IL # zs)"
proof -
  have "length (xs @ [m_IL]) = length (zs @ [m_IL])" using assms(1) by simp
  then obtain v where v: "map_of (zip (xs @ [m_IL]) (zs @ [m_IL])) t = Some v"
    using map_of_zip_is_Some [of "xs @ [m_IL]" "zs @ [m_IL]" t] assms(2) by blast
  then have "v \<in> set (zs @ [m_IL])" by (auto dest!: map_of_SomeD set_zip_rightD)
  with v show ?thesis by (simp add: relabel_addr_def)
qed

lemma real_label_widened:
  assumes w: "list_all2 widened is is'" and ok: "list_all operand_ok is" and len: "length xs = length is"
    and t: "real_label xs is t"
  shows "real_label xs is' t"
proof -
  have arg: "fst (is' ! j) \<noteq> CEE_SWITCH_ARG" if "j < length xs" "fst (is ! j) \<noteq> CEE_SWITCH_ARG" for j
  proof -
    have j: "j < length is" using that(1) len by simp
    then have "widened (is ! j) (is' ! j)" "operand_ok (is ! j)"
      using list_all2_nthD [OF w j] ok by (simp_all add: list_all_length)
    then show ?thesis using that(2) long_branch_flags(4) by (auto simp: widened_def operand_ok_def)
  qed
  with t show ?thesis unfolding real_label_def by blast
qed

lemma targets_real_widened:
  assumes "list_all2 widened is is'" "list_all operand_ok is" "length xs = length is" "targets_real xs is"
  shows "targets_real xs is'"
  unfolding targets_real_def
proof (intro ballI allI impI)
  fix i' t assume i': "i' \<in> set is'" "snd i' = Target t"
  then obtain i where "i \<in> set is" "snd i = Target t" using widened_targets [OF assms(1) i'(1)] by auto
  then show "real_label xs is' t"
    using assms(4) by (intro real_label_widened [OF assms(1-3)]) (auto simp: targets_real_def)
qed

lemma real_label_plain [simp]: "length xs = length is \<Longrightarrow> real_label xs (map plain is) t \<longleftrightarrow> real_label xs is t"
  by (auto simp: real_label_def)

lemma targets_real_plain [simp]: "length xs = length is \<Longrightarrow> targets_real xs (map plain is) \<longleftrightarrow> targets_real xs is"
  by (simp add: targets_real_def)

lemma real_label_range: "real_label xs is t \<Longrightarrow> t \<in> set (xs @ [m_IL])"
  by (auto simp: real_label_def)

text \<open>The bytes of a laid out program, imported into an empty list.\<close>

lemma import_of_assembled:
  assumes dist: "distinct (m_IL # xs)" and ok: "list_all operand_ok is" and wf: "well_formed 0 is" and tgt: "targets_real xs is"
    and N: "code_size is = N" "N + 8 < 2 ^ 32" "N \<le> length buf"
    and lay: "layout L 0 xs is" and dec: "decode_il (take N buf) = Some (raw_program L 0 is)"
    and l2: "il_list rw2 []" and cs: "m_CodeSize rw2 = word_of_nat N"
  shows "\<exists>zs rw3. ImportIL buf rw2 = Some (S_OK, rw3) \<and> program_at rw3 zs (map (relabel xs zs) is) \<and>
    (\<exists>T. rw_rest rw3 = (rw_rest rw2)\<lparr>m_pOffsetToInstr := T\<rparr>) \<and>
    (\<forall>t. real_label xs is t \<longrightarrow> GetInstrFromOffset (L t) rw3 = Some (relabel_addr xs zs t))"
proof -
  have len: "length is = length xs" using layout_length [OF lay] by simp
  have uN: "unat (m_CodeSize rw2) = N" using cs N(2) unat_of_nat_u32 [of N] by simp
  from ImportIL_decode [OF uN N(2,3) l2] dec
  obtain zs rw3 where i: "ImportIL buf rw2 = Some (S_OK, rw3)" "il_list rw3 zs"
      "map (instr_code rw3) zs = map (\<lambda>r. Some (resolve (offset_table (zip (map fst (raw_program L 0 is)) zs)
         (offsets_initial N)) r)) (raw_program L 0 is)"
      "rw_rest rw3 = (rw_rest rw2)\<lparr>m_pOffsetToInstr :=
         offset_table (zip (map fst (raw_program L 0 is)) zs) (offsets_initial N)\<rparr>"
    by (auto simp: Let_def)
  have lz: "length zs = length is" using arg_cong [OF i(3), of length] by simp
  have N32: "N < 2 ^ 32" using N(2) by simp
  note r = resolve_raw_program [OF lay dist lz N(1) N32 wf ok tgt]
  have code: "map (instr_code rw3) zs = map Some (map (relabel xs zs) is)"
    unfolding i(3) r [symmetric] by simp
  have "operand_ok (relabel xs zs i)" if "operand_ok i" for i
    using that by (cases "snd i") (simp_all add: operand_ok_def relabel_def)
  then have ok3: "list_all operand_ok (map (relabel xs zs) is)"
    using ok by (auto simp: list_all_iff)
  have "t' \<in> set (m_IL # zs)" if it: "i \<in> set is" "snd (relabel xs zs i) = Target t'" for i t'
  proof -
    obtain t where t: "snd i = Target t" "t' = relabel_addr xs zs t"
      using it(2) by (cases "snd i") (auto simp: relabel_def)
    then show ?thesis
      using relabel_addr_range [of zs xs t] lz len it(1) tgt real_label_range by (auto simp: targets_real_def)
  qed
  then have prog: "program_at rw3 zs (map (relabel xs zs) is)"
    using i(2) code ok3 by (auto simp: program_at_def)
  define T where "T = offset_table (zip (map fst (raw_program L 0 is)) zs) (offsets_initial N)"
  have T: "m_pOffsetToInstr rw3 = T" "m_CodeSize rw3 = word_of_nat N"
    using arg_cong [OF i(4), of m_pOffsetToInstr] arg_cong [OF i(4), of m_CodeSize] cs
    by (simp_all add: rw_rest_def T_def)
  have look: "GetInstrFromOffset (L t) rw3 = Some (relabel_addr xs zs t)" if "real_label xs is t" for t
  proof -
    note tl = table_label [OF lay dist lz N(1) N32 wf that, folded T_def]
    have "length T = N + 1" by (simp add: T_def offsets_initial_def)
    moreover have "L t \<le> word_of_nat N" using tl(2) N32 by (simp add: word_le_nat_alt unat_of_nat_u32)
    ultimately show ?thesis using tl by (simp add: GetInstrFromOffset_def T)
  qed
  show ?thesis using i(1,4) prog look by blast
qed

lemma export_size_bound:
  assumes p: "program_at rw' xs is" and links: "links_same rw rw'" and size: "10 * (il_brk rw - 3) + 8 < 2 ^ 32"
  shows "code_size is + 8 < 2 ^ 32"
proof -
  have "il_list rw' xs" and ok: "list_all operand_ok is" using p by (simp_all add: program_at_def)
  then have "length xs + 3 \<le> il_brk rw" using il_list_length links_same_fields(1) [OF links] by metis
  then show ?thesis using code_size_bound [OF ok] program_at_length [OF p] size by simp
qed

theorem import_of_export:
  assumes p: "program_at rw xs is" and wf: "well_formed 0 is" and tgt: "targets_real xs is"
    and size: "10 * (il_brk rw - 3) + 8 < 2 ^ 32"
  shows "\<exists>buf codeSize is' rw'. export_buffer mem rw = Some (buf, codeSize, rw') \<and>
    list_all2 widened is is' \<and> program_at rw' xs is' \<and>
    (\<forall>rw2. il_list rw2 [] \<longrightarrow> m_CodeSize rw2 = codeSize \<longrightarrow>
      (\<exists>zs rw3. ImportIL buf rw2 = Some (S_OK, rw3) \<and> program_at rw3 zs (map (relabel xs zs) is')))"
proof -
  have "10 * (il_brk rw - 3) < 2 ^ 32" using size by simp
  from export_decodes [OF p wf this]
  obtain buf is' rw' where e: "export_buffer mem rw = Some (buf, word_of_nat (code_size is'), rw')"
      "list_all2 widened is is'" "program_at rw' xs is'" "well_formed 0 is'" "links_same rw rw'"
      "code_size is' \<le> length buf"
      "layout (\<lambda>x. the (offset_at x rw')) 0 xs is'"
      "decode_il (take (code_size is') buf) = Some (raw_program (\<lambda>x. the (offset_at x rw')) 0 is')"
    unfolding Let_def by blast
  have ok: "list_all operand_ok is" using p by (simp add: program_at_def)
  have tgt': "targets_real xs is'"
    by (rule targets_real_widened [OF e(2) ok program_at_length [OF p] tgt])
  note bound = export_size_bound [OF e(3,5) size]
  have "distinct (m_IL # xs)" "list_all operand_ok is'" using e(3) by (simp_all add: program_at_def il_list_def)
  from import_of_assembled [OF this e(4) tgt' refl bound e(6,7,8)] e(1-3) show ?thesis by blast
qed

end
