(* ===== verification/IL_Method.thy ===== *)
theory IL_Method
  imports IL_Roundtrip
begin

text \<open>
  Reading a method body: \<open>COR_ILMETHOD_DECODER\<close> (corhlpr.cpp, corhlpr.h) finds the header
  fields, the code and the exception section, \<open>ILRewriter::Import\<close> (il_rewriter.cpp) loads
  them. A body is a list of bytes at the address \<open>base\<close>; places in it are offsets, \<open>None\<close> is
  a read past its end.
\<close>

section \<open>Sections\<close>

definition bytes_at :: "byte list \<Rightarrow> nat \<Rightarrow> nat \<Rightarrow> nat option" where
  "bytes_at m off k = (if off + k \<le> length m then Some (le_nat (take k (drop off m))) else None)"

definition word_at :: "byte list \<Rightarrow> nat \<Rightarrow> nat \<Rightarrow> u32 option" where
  "word_at m off k = map_option word_of_nat (bytes_at m off k)"

text \<open>\<open>COR_ILMETHOD_SECT::Align\<close>.\<close>

definition Align :: "nat \<Rightarrow> nat \<Rightarrow> nat" where
  "Align base off = (base + off + 3) div 4 * 4 - base"

definition sect_Kind :: "byte list \<Rightarrow> nat \<Rightarrow> u32 option" where
  "sect_Kind m s = map_option (\<lambda>k. k AND 0x3F) (word_at m s 1)"

definition sect_IsFat :: "byte list \<Rightarrow> nat \<Rightarrow> bool option" where
  "sect_IsFat m s = map_option (\<lambda>k. k AND 0x40 \<noteq> 0) (word_at m s 1)"

definition sect_More :: "byte list \<Rightarrow> nat \<Rightarrow> bool option" where
  "sect_More m s = map_option (\<lambda>k. k AND 0x80 \<noteq> 0) (word_at m s 1)"

text \<open>\<open>Fat.GetDataSize\<close> (three bytes) or \<open>Small.DataSize\<close> (one byte).\<close>

definition sect_size_field :: "byte list \<Rightarrow> nat \<Rightarrow> u32 option" where
  "sect_size_field m s = do {
     fat \<leftarrow> sect_IsFat m s;
     word_at m (s + 1) (if fat then 3 else 1)
   }"

definition sect_EHCount :: "byte list \<Rightarrow> nat \<Rightarrow> u32 option" where
  "sect_EHCount m s = do {
     fat \<leftarrow> sect_IsFat m s;
     size \<leftarrow> sect_size_field m s;
     Some (size div (if fat then 24 else 12))
   }"

text \<open>The size of an exception section is computed from the number of its clauses.\<close>

definition sect_DataSize :: "byte list \<Rightarrow> nat \<Rightarrow> u32 option" where
  "sect_DataSize m s = do {
     kind \<leftarrow> sect_Kind m s;
     fat \<leftarrow> sect_IsFat m s;
     size \<leftarrow> sect_size_field m s;
     Some (if kind = 1 then
             (if fat then 28 + 24 * (size div 24 - 1) else 16 + 12 * (size div 12 - 1))
           else size)
   }"

definition sect_Next :: "nat \<Rightarrow> byte list \<Rightarrow> nat \<Rightarrow> nat option option" where
  "sect_Next base m s = do {
     more \<leftarrow> sect_More m s;
     if \<not> more then Some None
     else do { size \<leftarrow> sect_DataSize m s; Some (Some (Align base (s + unat size))) }
   }"

text \<open>
  \<open>EHClause(idx)\<close>: a clause in its fat form. A small one has the bit fields Flags:16,
  TryOffset:16, TryLength:8, HandlerOffset:16, HandlerLength:8 before its token.
\<close>

definition sect_EHClause :: "byte list \<Rightarrow> nat \<Rightarrow> nat \<Rightarrow> eh_clause option" where
  "sect_EHClause m s idx = do {
     fat \<leftarrow> sect_IsFat m s;
     if fat then do {
       let c = s + 4 + 24 * idx;
       flags \<leftarrow> word_at m c 4;
       tryOffset \<leftarrow> word_at m (c + 4) 4;
       tryLength \<leftarrow> word_at m (c + 8) 4;
       handlerOffset \<leftarrow> word_at m (c + 12) 4;
       handlerLength \<leftarrow> word_at m (c + 16) 4;
       token \<leftarrow> word_at m (c + 20) 4;
       Some \<lparr>GetFlags = flags, GetTryOffset = tryOffset, GetTryLength = tryLength,
             GetHandlerOffset = handlerOffset, GetHandlerLength = handlerLength, GetClassToken = token\<rparr> }
     else do {
       let c = s + 4 + 12 * idx;
       flags \<leftarrow> word_at m c 2;
       tryOffset \<leftarrow> word_at m (c + 2) 2;
       tryLength \<leftarrow> word_at m (c + 4) 1;
       handlerOffset \<leftarrow> word_at m (c + 5) 2;
       handlerLength \<leftarrow> word_at m (c + 7) 1;
       token \<leftarrow> word_at m (c + 8) 4;
       Some \<lparr>GetFlags = flags AND 0x0000ffff, GetTryOffset = tryOffset, GetTryLength = tryLength,
             GetHandlerOffset = handlerOffset, GetHandlerLength = handlerLength, GetClassToken = token\<rparr> }
   }"

fun sect_clauses :: "byte list \<Rightarrow> nat \<Rightarrow> nat list \<Rightarrow> eh_clause list option" where
  "sect_clauses m s [] = Some []"
| "sect_clauses m s (i # is) = do {
     c \<leftarrow> sect_EHClause m s i;
     cs \<leftarrow> sect_clauses m s is;
     Some (c # cs)
   }"

section \<open>The decoder\<close>

record COR_ILMETHOD_DECODER =
  GetMethodFlags :: u32
  GetMaxStack :: u32
  GetCodeSize :: u32
  GetLocalVarSigTok :: mdToken
  dec_Code :: "nat option"
  dec_EH :: "nat option"
  dec_Sect :: "nat option"

definition decoder_zero :: COR_ILMETHOD_DECODER where
  "decoder_zero = \<lparr>GetMethodFlags = 0, GetMaxStack = 0, GetCodeSize = 0, GetLocalVarSigTok = 0,
     dec_Code = None, dec_EH = None, dec_Sect = None\<rparr>"

definition Tiny_IsTiny :: "u32 \<Rightarrow> bool" where
  "Tiny_IsTiny b = (b AND 3 = CorILMethod_TinyFormat)"

definition Fat_IsFat :: "u32 \<Rightarrow> bool" where
  "Fat_IsFat b = (b AND 7 = CorILMethod_FatFormat)"

text \<open>\<open>Fat.GetSect\<close>, at the first aligned place after the code.\<close>

definition Fat_GetSect :: "nat \<Rightarrow> u32 \<Rightarrow> nat \<Rightarrow> u32 \<Rightarrow> nat option" where
  "Fat_GetSect base b0 code codeSize =
     (if b0 AND CorILMethod_MoreSects = 0 then None else Some (Align base (code + unat codeSize)))"

definition decode_sections :: "nat \<Rightarrow> byte list \<Rightarrow> nat option \<Rightarrow> COR_ILMETHOD_DECODER \<Rightarrow> COR_ILMETHOD_DECODER option" where
  "decode_sections base m sect d =
     (case sect of
        None \<Rightarrow> Some (d\<lparr>dec_Sect := None\<rparr>)
      | Some s \<Rightarrow> do {
          kind \<leftarrow> sect_Kind m s;
          if kind = 1 then do {
            next \<leftarrow> sect_Next base m s;
            Some (d\<lparr>dec_EH := Some s, dec_Sect := next\<rparr>) }
          else Some (d\<lparr>dec_Sect := Some s\<rparr>) })"

definition DecoderInit :: "nat \<Rightarrow> byte list \<Rightarrow> COR_ILMETHOD_DECODER option" where
  "DecoderInit base m = do {
     b0 \<leftarrow> word_at m 0 1;
     if Tiny_IsTiny b0 then
       Some (decoder_zero\<lparr>GetMaxStack := 8, dec_Code := Some 1, GetCodeSize := drop_bit 2 b0,
               GetMethodFlags := CorILMethod_TinyFormat\<rparr>)
     else if Fat_IsFat b0 \<and> base AND 3 = 0 then do {
       b1 \<leftarrow> word_at m 1 1;
       maxStack \<leftarrow> word_at m 2 2;
       codeSize \<leftarrow> word_at m 4 4;
       tok \<leftarrow> word_at m 8 4;
       let size = drop_bit 4 b1;
       let code = 4 * unat size;
       let d = decoder_zero\<lparr>GetMethodFlags := b0 OR push_bit 8 (b1 AND 0x0F), GetMaxStack := maxStack,
                 GetCodeSize := codeSize, GetLocalVarSigTok := tok, dec_Code := Some code\<rparr>;
       if size \<ge> 3 then decode_sections base m (Fat_GetSect base b0 code codeSize) d else Some d }
     else Some decoder_zero
   }"

section \<open>\<open>ILRewriter::Import\<close>\<close>

text \<open>
  The answer of \<open>GetILFunctionBody\<close> is a parameter: its HRESULT, the address and the bytes. Of
  an undecodable header nothing is read: the code size is zero.
\<close>

definition decoder_clauses :: "byte list \<Rightarrow> nat option \<Rightarrow> eh_clause list option" where
  "decoder_clauses m eh =
     (case eh of
        None \<Rightarrow> Some []
      | Some s \<Rightarrow> do { n \<leftarrow> sect_EHCount m s; sect_clauses m s [0..<unat n] })"

definition Import :: "hresult \<Rightarrow> nat \<Rightarrow> byte list \<Rightarrow> ILRewriter \<Rightarrow> (hresult \<times> ILRewriter) option" where
  "Import hr base m rw =
     (if FAILED hr then Some (hr, rw)
      else do {
        d \<leftarrow> DecoderInit base m;
        let rw = rw\<lparr>m_tkLocalVarSig := GetLocalVarSigTok d, m_maxStack := GetMaxStack d,
                   m_flags := GetMethodFlags d AND CorILMethod_InitLocals, m_CodeSize := GetCodeSize d\<rparr>;
        (hr, rw) \<leftarrow> ImportIL (case dec_Code d of Some c \<Rightarrow> drop c m | None \<Rightarrow> []) rw;
        if FAILED hr then Some (hr, rw)
        else do {
          ehs \<leftarrow> decoder_clauses m (dec_EH d);
          (hr, rw) \<leftarrow> ImportEH ehs rw;
          if FAILED hr then Some (hr, rw) else Some (S_OK, rw) }
      })"


section \<open>Reading what was written\<close>

lemma bytes_at_append:
  assumes "length xs = off" "length ys = k"
  shows "bytes_at (xs @ ys @ zs) off k = Some (le_nat ys)"
  unfolding assms [symmetric] by (simp add: bytes_at_def)

lemma le_nat_dword: "le_nat (dword w) = unat w"
proof -
  have "unat w < 256 ^ 4" using unsigned_less [of w] by simp
  then show ?thesis by (simp add: dword_def le_nat_le_bytes)
qed

lemma length_dword [simp]: "length (dword w) = 4"
  by (simp add: dword_def)

lemma word_at_append:
  "length xs = off \<Longrightarrow> length ys = k \<Longrightarrow> word_at (xs @ ys @ zs) off k = Some (word_of_nat (le_nat ys))"
  by (simp add: word_at_def bytes_at_append)

lemma word_at_dword: "length xs = off \<Longrightarrow> word_at (xs @ dword w @ zs) off 4 = Some w"
  by (simp add: word_at_append le_nat_dword)

text \<open>A clause in its fat form, as bytes.\<close>

definition clause_bytes :: "eh_clause \<Rightarrow> byte list" where
  "clause_bytes c = dword (GetFlags c) @ dword (GetTryOffset c) @ dword (GetTryLength c) @
     dword (GetHandlerOffset c) @ dword (GetHandlerLength c) @ dword (GetClassToken c)"

lemma length_clause_bytes [simp]: "length (clause_bytes c) = 24"
  by (simp add: clause_bytes_def)

lemma sect_EHClause_bytes:
  assumes fat: "sect_IsFat (pre @ clause_bytes c @ post) s = Some True" and len: "length pre = s + 4 + 24 * i"
  shows "sect_EHClause (pre @ clause_bytes c @ post) s i = Some c"
proof -
  define k where "k = s + 4 + 24 * i"
  have word: "word_at (pre @ clause_bytes c @ post) (k + 4 * j) 4 = Some (ws ! j)"
    if "j < 6" "ws = [GetFlags c, GetTryOffset c, GetTryLength c, GetHandlerOffset c, GetHandlerLength c, GetClassToken c]"
    for j ws
  proof -
    have "clause_bytes c = concat (map dword (take j ws)) @ dword (ws ! j) @ concat (map dword (drop (Suc j) ws))"
      using that by (auto simp: clause_bytes_def less_Suc_eq numeral_eq_Suc)
    moreover have "length (concat (map dword (take j ws))) = 4 * j"
      using that by (auto simp: less_Suc_eq numeral_eq_Suc)
    ultimately show ?thesis
      using word_at_dword [of "pre @ concat (map dword (take j ws))" "k + 4 * j" "ws ! j"
          "concat (map dword (drop (Suc j) ws)) @ post"] len
      by (simp add: k_def)
  qed
  note ws = word [OF _ refl]
  show ?thesis
    using fat ws [of 0] ws [of 1] ws [of 2] ws [of 3] ws [of 4] ws [of 5]
    by (simp add: sect_EHClause_def Let_def k_def [symmetric])
qed

lemma sect_clauses_bytes:
  "sect_IsFat (pre @ concat (map clause_bytes cs) @ post) s = Some True \<Longrightarrow> length pre = s + 4 + 24 * i \<Longrightarrow>
   sect_clauses (pre @ concat (map clause_bytes cs) @ post) s [i..<i + length cs] = Some cs"
proof (induction cs arbitrary: pre i)
  case (Cons c cs)
  have "sect_EHClause (pre @ clause_bytes c @ concat (map clause_bytes cs) @ post) s i = Some c"
    using Cons.prems by (intro sect_EHClause_bytes) simp_all
  moreover have "sect_clauses (pre @ clause_bytes c @ concat (map clause_bytes cs) @ post) s
      [Suc i..<Suc i + length cs] = Some cs"
    using Cons.IH [of "pre @ clause_bytes c" "Suc i"] Cons.prems by simp
  moreover have "[i..<i + length (c # cs)] = i # [Suc i..<Suc i + length cs]"
    using upt_conv_Cons [of i "i + length (c # cs)"] by simp
  ultimately show ?case by simp
qed simp

section \<open>Exception clauses, out and in again\<close>

definition clause_ok :: "addr list \<Rightarrow> (opcode \<times> operand) list \<Rightarrow> EHClause \<Rightarrow> bool" where
  "clause_ok xs is c \<longleftrightarrow>
     real_label xs is (m_pTryBegin c) \<and> real_label xs is (m_pTryEnd c) \<and> real_label xs is (m_pHandlerBegin c) \<and>
     (\<exists>j \<le> length xs. m_pHandlerEnd c = (m_IL # xs) ! j \<and> real_label xs is ((xs @ [m_IL]) ! j)) \<and>
     (case m_ClassToken c of ClassToken tk \<Rightarrow> m_Flags c AND 1 = 0
      | Filter p \<Rightarrow> m_Flags c AND 1 \<noteq> 0 \<and> real_label xs is p)"

definition relabel_clause :: "addr list \<Rightarrow> addr list \<Rightarrow> EHClause \<Rightarrow> EHClause" where
  "relabel_clause xs zs c =
     \<lparr>m_Flags = m_Flags c, m_pTryBegin = relabel_addr xs zs (m_pTryBegin c),
      m_pTryEnd = relabel_addr xs zs (m_pTryEnd c), m_pHandlerBegin = relabel_addr xs zs (m_pHandlerBegin c),
      m_pHandlerEnd = relabel_addr xs zs (m_pHandlerEnd c),
      m_ClassToken = (case m_ClassToken c of ClassToken tk \<Rightarrow> ClassToken tk
        | Filter p \<Rightarrow> Filter (relabel_addr xs zs p))\<rparr>"

text \<open>The clause with offsets in place of pointers; \<open>q\<close> is what follows the handler.\<close>

definition clause_image :: "(addr \<Rightarrow> u32) \<Rightarrow> addr \<Rightarrow> EHClause \<Rightarrow> eh_clause" where
  "clause_image L q c =
     \<lparr>GetFlags = m_Flags c, GetTryOffset = L (m_pTryBegin c),
      GetTryLength = L (m_pTryEnd c) - L (m_pTryBegin c), GetHandlerOffset = L (m_pHandlerBegin c),
      GetHandlerLength = L q - L (m_pHandlerBegin c),
      GetClassToken = (case m_ClassToken c of ClassToken tk \<Rightarrow> tk | Filter p \<Rightarrow> L p)\<rparr>"

text \<open>\<open>eh\<close> is what \<open>Export\<close> writes for the clause \<open>c\<close> of a body with the labels \<open>xs\<close>.\<close>

definition images :: "(addr \<Rightarrow> u32) \<Rightarrow> addr list \<Rightarrow> (opcode \<times> operand) list \<Rightarrow> EHClause \<Rightarrow> eh_clause \<Rightarrow> bool" where
  "images L xs is c eh \<longleftrightarrow> clause_ok xs is c \<and>
     (\<exists>j \<le> length xs. m_pHandlerEnd c = (m_IL # xs) ! j \<and> real_label xs is ((xs @ [m_IL]) ! j) \<and>
       eh = clause_image L ((xs @ [m_IL]) ! j) c)"

lemma il_list_nth:
  assumes "il_list rw xs" "j \<le> length xs"
  shows "\<exists>i. il_heap rw ((m_IL # xs) ! j) = Some i \<and> m_pNext i = (xs @ [m_IL]) ! j"
    "\<exists>i. il_heap rw ((xs @ [m_IL]) ! j) = Some i \<and> m_pPrev i = (m_IL # xs) ! j"
proof -
  obtain ys zs where xs: "xs = ys @ zs" "length ys = j"
    using assms(2) by (metis append_take_drop_id length_take min.absorb2)
  then have l: "il_list rw (ys @ zs)" using assms(1) by simp
  have a: "(m_IL # xs) ! j = last (m_IL # ys)"
    using xs by (cases ys rule: rev_cases) (auto simp: nth_append nth_Cons')
  have b: "(xs @ [m_IL]) ! j = hd (zs @ [m_IL])"
    using xs by (cases zs) (auto simp: nth_append)
  obtain ia ib where "il_heap rw ((m_IL # xs) ! j) = Some ia" "m_pNext ia = (xs @ [m_IL]) ! j"
      "il_heap rw ((xs @ [m_IL]) ! j) = Some ib" "m_pPrev ib = (m_IL # xs) ! j"
    by (rule il_list_ends [OF l a b])
  then show "\<exists>i. il_heap rw ((m_IL # xs) ! j) = Some i \<and> m_pNext i = (xs @ [m_IL]) ! j"
    "\<exists>i. il_heap rw ((xs @ [m_IL]) ! j) = Some i \<and> m_pPrev i = (m_IL # xs) ! j" by blast+
qed

lemma real_label_mem: "real_label xs is t \<Longrightarrow> t \<in> set (m_IL # xs)"
  by (auto simp: real_label_def)

lemma export_clause_image:
  assumes l: "il_list rw xs" and c: "clause_ok xs is c"
    and L: "\<And>x. x \<in> set (m_IL # xs) \<Longrightarrow> offset_at x rw = Some (L x)"
  obtains j where "j \<le> length xs" "m_pHandlerEnd c = (m_IL # xs) ! j" "real_label xs is ((xs @ [m_IL]) ! j)"
    "export_clause c rw = Some (clause_bytes (clause_image L ((xs @ [m_IL]) ! j) c))"
proof -
  obtain j where j: "j \<le> length xs" "m_pHandlerEnd c = (m_IL # xs) ! j" "real_label xs is ((xs @ [m_IL]) ! j)"
    using c by (auto simp: clause_ok_def)
  obtain i where i: "il_heap rw ((m_IL # xs) ! j) = Some i" "m_pNext i = (xs @ [m_IL]) ! j"
    using il_list_nth(1) [OF l j(1)] by blast
  note off = L [OF real_label_mem [of xs "is"]]
  have lab: "real_label xs is (m_pTryBegin c)" "real_label xs is (m_pTryEnd c)" "real_label xs is (m_pHandlerBegin c)"
    using c by (simp_all add: clause_ok_def)
  have "export_clause c rw = Some (clause_bytes (clause_image L ((xs @ [m_IL]) ! j) c))"
  proof (cases "m_ClassToken c")
    case (ClassToken tk)
    then have "m_Flags c AND 1 = 0" using c by (simp add: clause_ok_def)
    then show ?thesis
      using ClassToken i off [OF lab(1)] off [OF lab(2)] off [OF lab(3)] off [OF j(3)]
      by (simp add: export_clause_def j(2) get_instr_def clause_bytes_def clause_image_def)
  next
    case (Filter p)
    then have "m_Flags c AND 1 \<noteq> 0" "real_label xs is p" using c by (simp_all add: clause_ok_def)
    then show ?thesis
      using Filter i off [OF lab(1)] off [OF lab(2)] off [OF lab(3)] off [OF j(3)] off [of p]
      by (simp add: export_clause_def j(2) get_instr_def clause_bytes_def clause_image_def)
  qed
  with j that show thesis by blast
qed

lemma import_clause_image:
  assumes l: "il_list rw3 zs" and len: "length zs = length xs" and dist: "distinct (m_IL # xs)"
    and c: "clause_ok xs is c"
    and j: "j \<le> length xs" "m_pHandlerEnd c = (m_IL # xs) ! j" "real_label xs is ((xs @ [m_IL]) ! j)"
    and get: "\<And>t. real_label xs is t \<Longrightarrow> GetInstrFromOffset (L t) rw3 = Some (relabel_addr xs zs t)"
  shows "import_clause (clause_image L ((xs @ [m_IL]) ! j) c) rw3 = Some (relabel_clause xs zs c)"
proof -
  have lab: "real_label xs is (m_pTryBegin c)" "real_label xs is (m_pTryEnd c)" "real_label xs is (m_pHandlerBegin c)"
    using c by (simp_all add: clause_ok_def)
  have q: "relabel_addr xs zs ((xs @ [m_IL]) ! j) = (zs @ [m_IL]) ! j"
    by (rule relabel_addr_nth [OF dist len j(1)])
  have h: "relabel_addr xs zs ((m_IL # xs) ! j) = (m_IL # zs) ! j"
  proof (cases j)
    case 0
    then show ?thesis using relabel_addr_nth [OF dist len, of "length xs"] len by (simp add: nth_append)
  next
    case (Suc j')
    then show ?thesis using relabel_addr_nth [OF dist len, of j'] len j(1) by (simp add: nth_append)
  qed
  obtain i where i: "il_heap rw3 ((zs @ [m_IL]) ! j) = Some i" "m_pPrev i = (m_IL # zs) ! j"
    using il_list_nth(2) [OF l] j(1) len by auto
  have filter: "GetInstrFromOffset (L p) rw3 = Some (relabel_addr xs zs p)" if "m_ClassToken c = Filter p" for p
    using get [of p] c that by (simp add: clause_ok_def)
  show ?thesis
    using i get [OF lab(1)] get [OF lab(2)] get [OF lab(3)] get [OF j(3)] filter c
    by (cases "m_ClassToken c")
       (simp_all add: import_clause_def clause_image_def relabel_clause_def get_instr_def q h j(2) clause_ok_def)
qed

section \<open>The fat header\<close>

text \<open>The flags \<open>Export\<close> writes; \<open>f\<close> is \<open>m_flags\<close>: what \<open>Import\<close> keeps, or a tiny header's.\<close>

definition header_flags :: "u32 \<Rightarrow> bool \<Rightarrow> u32" where
  "header_flags f sects = f OR (if sects then CorILMethod_MoreSects else 0) OR CorILMethod_FatFormat"

definition flags_ok :: "u32 \<Rightarrow> bool" where
  "flags_ok f \<longleftrightarrow> f = 0 \<or> f = CorILMethod_TinyFormat \<or> f = CorILMethod_InitLocals"

lemma fat_header_split:
  assumes "flags_ok f"
  shows "\<exists>b0. fat_header (header_flags f sects) ms cs tok = [b0, 0x30] @ le_bytes 2 (unat ms) @ dword cs @ dword tok \<and>
    (ucast b0 :: u32) = header_flags f sects"
proof -
  have le2: "le_bytes 2 n = [word_of_nat n, word_of_nat (n div 256)]" for n
    by (simp add: numeral_2_eq_2 word_unat_eq_iff)
  have "header_flags f sects \<in> {3, 11, 19, 27}"
    using assms by (auto simp: flags_ok_def header_flags_def)
  then show ?thesis by (auto simp: fat_header_def le2)
qed

lemma nat_and_3: "(n :: nat) AND 3 = n mod 4"
  using take_bit_eq_mask [of 2 n] by (simp add: take_bit_eq_mod mask_eq_exp_minus_1)

lemma low_half: "word_of_nat (le_nat (le_bytes 2 (unat w))) = (w :: u32) AND 0xFFFF"
proof -
  have "unat (w AND 0xFFFF) = unat w mod 65536"
  proof -
    have "w AND 0xFFFF = take_bit 16 w" by (simp add: take_bit_eq_mask mask_eq_exp_minus_1)
    then show ?thesis by (simp only: unsigned_take_bit_eq) (simp add: take_bit_eq_mod)
  qed
  moreover have "unat (word_of_nat (unat w mod 65536) :: u32) = unat w mod 65536"
    by (intro unat_of_nat_u32) (rule less_trans [of _ 65536], simp_all)
  ultimately show ?thesis by (simp add: le_nat_le_bytes word_unat_eq_iff)
qed

lemma DecoderInit_fat:
  fixes f ms cs tok :: u32 and rest :: "byte list" and sects :: bool
  assumes f: "flags_ok f" and base: "base AND 3 = 0"
  defines "m \<equiv> fat_header (header_flags f sects) ms cs tok @ rest"
  shows "DecoderInit base m = decode_sections base m (if sects then Some (Align base (12 + unat cs)) else None)
    \<lparr>GetMethodFlags = header_flags f sects, GetMaxStack = ms AND 0xFFFF, GetCodeSize = cs, GetLocalVarSigTok = tok,
     dec_Code = Some 12, dec_EH = None, dec_Sect = None\<rparr>"
proof -
  obtain b0 where b0: "fat_header (header_flags f sects) ms cs tok = [b0, 0x30] @ le_bytes 2 (unat ms) @ dword cs @ dword tok"
      "(ucast b0 :: u32) = header_flags f sects"
    using fat_header_split [OF f] by blast
  have w: "word_at m 0 1 = Some (header_flags f sects)" "word_at m 1 1 = Some 0x30"
    "word_at m 2 2 = Some (ms AND 0xFFFF)" "word_at m 4 4 = Some cs" "word_at m 8 4 = Some tok"
  proof -
    show "word_at m 0 1 = Some (header_flags f sects)"
      using word_at_append [of "[]" 0 "[b0]" 1 "[0x30] @ le_bytes 2 (unat ms) @ dword cs @ dword tok @ rest"] b0(2)
      by (simp add: m_def b0(1))
    show "word_at m 1 1 = Some 0x30"
      using word_at_append [of "[b0]" 1 "[0x30]" 1 "le_bytes 2 (unat ms) @ dword cs @ dword tok @ rest"]
      by (simp add: m_def b0(1))
    show "word_at m 2 2 = Some (ms AND 0xFFFF)"
      using word_at_append [of "[b0, 0x30]" 2 "le_bytes 2 (unat ms)" 2 "dword cs @ dword tok @ rest"]
      by (simp add: m_def b0(1) low_half)
    show "word_at m 4 4 = Some cs"
      using word_at_dword [of "[b0, 0x30] @ le_bytes 2 (unat ms)" 4 cs "dword tok @ rest"]
      by (simp add: m_def b0(1))
    show "word_at m 8 4 = Some tok"
      using word_at_dword [of "[b0, 0x30] @ le_bytes 2 (unat ms) @ dword cs" 8 tok rest]
      by (simp add: m_def b0(1))
  qed
  have kind: "\<not> Tiny_IsTiny (header_flags f sects)" "Fat_IsFat (header_flags f sects)"
    "(header_flags f sects AND CorILMethod_MoreSects = 0) = (\<not> sects)"
    using f by (auto simp: flags_ok_def header_flags_def Tiny_IsTiny_def Fat_IsFat_def)
  have size: "drop_bit 4 (0x30 :: u32) = 3" by simp
  show ?thesis
    using w kind base by (simp add: DecoderInit_def Let_def size Fat_GetSect_def decoder_zero_def)
qed

section \<open>The exception section\<close>

lemma sect_bytes:
  fixes pre post :: "byte list"
  assumes len: "length pre = s" and n: "24 * n + 4 < 2 ^ 24"
  defines "m \<equiv> pre @ eh_section_header (word_of_nat n) @ post"
  shows "sect_Kind m s = Some 1" "sect_IsFat m s = Some True" "sect_Next base m s = Some None"
    "sect_EHCount m s = Some (word_of_nat n)"
proof -
  have k: "word_at m s 1 = Some 0x41"
    using word_at_append [OF len, of "[0x41]" 1 "le_bytes 3 (unat (4 + 24 * word_of_nat n :: u32)) @ post"]
    by (simp add: m_def eh_section_header_def)
  then show "sect_Kind m s = Some 1" and fat: "sect_IsFat m s = Some True" and "sect_Next base m s = Some None"
    by (simp_all add: sect_Kind_def sect_IsFat_def sect_More_def sect_Next_def)
  have small: "4 + 24 * n < 4294967296" using n by simp
  have size: "unat (4 + 24 * word_of_nat n :: u32) = 4 + 24 * n"
    using unat_of_nat_u32 [of "4 + 24 * n"] small by simp
  have "word_at m (s + 1) 3 = Some (word_of_nat (4 + 24 * n))"
    using word_at_append [of "pre @ [0x41]" "s + 1" "le_bytes 3 (4 + 24 * n)" 3 post] len n
    by (simp add: m_def eh_section_header_def size le_nat_le_bytes)
  moreover have "(word_of_nat (4 + 24 * n) :: u32) div 24 = word_of_nat n"
  proof -
    have "unat ((word_of_nat (4 + 24 * n) :: u32) div 24) = (4 + 24 * n) div 24"
      using unat_of_nat_u32 [of "4 + 24 * n"] small by (simp add: unat_div del: of_nat_add of_nat_mult)
    moreover have "unat (word_of_nat n :: u32) = n" using small by (intro unat_of_nat_u32) simp
    ultimately show ?thesis by (simp add: word_unat_eq_iff del: of_nat_add of_nat_mult)
  qed
  ultimately show "sect_EHCount m s = Some (word_of_nat n)"
    using fat by (simp add: sect_EHCount_def sect_size_field_def)
qed

lemma aligned_size:
  fixes cs :: u32
  assumes "unat cs + 3 < 2 ^ 32"
  shows "unat ((cs + 3) AND NOT 3) = (unat cs + 3) div 4 * 4"
proof -
  have u: "unat (cs + 3) = unat cs + 3" using assms by (simp add: unat_word_ariths)
  have "(cs + 3) AND NOT (mask 2) = push_bit 2 (drop_bit 2 (cs + 3))"
  proof (rule bit_word_eqI)
    fix n assume "n < LENGTH(32)"
    moreover have "Suc (Suc (n - 2)) = n" if "\<not> n < 2" using that by simp
    ultimately show "bit ((cs + 3) AND NOT (mask 2)) n \<longleftrightarrow> bit (push_bit 2 (drop_bit 2 (cs + 3))) n"
      by (cases "n < 2") (simp_all add: bit_simps)
  qed
  moreover have "mask 2 = (3 :: u32)" by (simp add: mask_eq_exp_minus_1)
  moreover have "unat (push_bit 2 (drop_bit 2 w)) = unat w div 4 * 4" for w :: u32
  proof -
    have "unat w div 4 * 4 \<le> unat w" by simp
    also have "\<dots> < 2 ^ 32" using unsigned_less [of w] by simp
    finally show ?thesis by (simp add: push_bit_eq_mult drop_bit_eq_div unat_word_ariths unat_div)
  qed
  ultimately have "unat ((cs + 3) AND NOT 3) = unat (cs + 3) div 4 * 4" by simp
  then show ?thesis by (simp add: u)
qed


section \<open>The whole method, out and in again\<close>

text \<open>
  The method as \<open>Export\<close> expects it when a fat body is written; what an opcode without an operand
  has left in its cell does not matter. If nothing has been left \<open>method_ok\<close> holds.
\<close>

definition exportable :: "ILRewriter \<Rightarrow> addr list \<Rightarrow> (opcode \<times> operand) list \<Rightarrow> bool" where
  "exportable rw xs is \<longleftrightarrow> program_at rw xs is \<and> well_formed 0 (map plain is) \<and> targets_real xs is \<and>
     list_all (clause_ok xs is) (m_pEH rw) \<and> m_nEH rw = word_of_nat (length (m_pEH rw)) \<and>
     24 * length (m_pEH rw) + 4 < 2 ^ 24 \<and> flags_ok (m_flags rw) \<and> 10 * (il_brk rw - 3) + 12 < 2 ^ 32"

definition method_ok :: "ILRewriter \<Rightarrow> addr list \<Rightarrow> (opcode \<times> operand) list \<Rightarrow> bool" where
  "method_ok rw xs is \<longleftrightarrow> exportable rw xs is \<and> well_formed 0 is"

lemma method_okI:
  assumes "program_at rw xs is" "well_formed 0 is" "targets_real xs is" "list_all (clause_ok xs is) (m_pEH rw)"
    "m_nEH rw = word_of_nat (length (m_pEH rw))" "24 * length (m_pEH rw) + 4 < 2 ^ 24" "flags_ok (m_flags rw)"
    "10 * (il_brk rw - 3) + 12 < 2 ^ 32"
  shows "method_ok rw xs is"
  using assms well_formed_plainI [OF assms(2)] by (simp add: method_ok_def exportable_def program_at_def)

text \<open>What the fat body consists of.\<close>

lemma fat_body_eq:
  assumes cs: "unat cs = N" "N + 3 < 2 ^ 32"
    and eh: "export_clauses (m_pEH rw) rw = Some bs" and n: "m_nEH rw = 0 \<longleftrightarrow> m_pEH rw = []"
  shows "fat_body pad buf cs rw = Some (fat_header (header_flags (m_flags rw) (m_pEH rw \<noteq> [])) (m_maxStack rw) cs
      (m_tkLocalVarSig rw) @ take N buf @ uninitialised pad ((N + 3) div 4 * 4 - N) @
      (if m_pEH rw = [] then [] else eh_section_header (m_nEH rw) @ bs))"
proof -
  have "unat ((cs + 3) AND NOT 3) = (N + 3) div 4 * 4" using aligned_size [of cs] cs by simp
  then show ?thesis using eh n cs(1) by (simp add: fat_body_def Let_def header_flags_def)
qed

lemma decode_il_take: "N \<le> length buf \<Longrightarrow> take N (take N buf @ r) = take N buf"
  by simp

lemma uninitialised_length [simp]: "length (uninitialised f n) = n"
  by (simp add: uninitialised_def)

lemma Align_aligned: "base AND 3 = 0 \<Longrightarrow> Align base (12 + n) = 12 + (n + 3) div 4 * 4"
proof -
  assume "base AND 3 = 0"
  then obtain b where b: "base = 4 * b" by (auto simp: nat_and_3)
  have "base + (12 + n) + 3 = (n + 3) + (b + 3) * 4" by (simp add: b)
  then have "(base + (12 + n) + 3) div 4 = (n + 3) div 4 + (b + 3)" by simp
  then show ?thesis by (simp add: Align_def b algebra_simps)
qed

lemma decoder_clauses_body:
  assumes base: "base AND 3 = 0" and N: "unat cs = N"
    and m: "m = pre @ (if ehs = [] then [] else eh_section_header (word_of_nat (length ehs)) @ concat (map clause_bytes ehs))"
    and pre: "length pre = 12 + (N + 3) div 4 * 4" and n: "24 * length ehs + 4 < 2 ^ 24"
  shows "\<exists>d'. decode_sections base m (if ehs \<noteq> [] then Some (Align base (12 + N)) else None) d = Some d' \<and>
    GetMethodFlags d' = GetMethodFlags d \<and> GetMaxStack d' = GetMaxStack d \<and> GetCodeSize d' = GetCodeSize d \<and>
    GetLocalVarSigTok d' = GetLocalVarSigTok d \<and> dec_Code d' = dec_Code d \<and>
    (dec_EH d = None \<longrightarrow> decoder_clauses m (dec_EH d') = Some ehs)"
proof (cases "ehs = []")
  case True
  then show ?thesis by (simp add: decode_sections_def decoder_clauses_def)
next
  case False
  define s where "s = 12 + (N + 3) div 4 * 4"
  have len: "length pre = s" using pre by (simp add: s_def)
  have m': "m = pre @ eh_section_header (word_of_nat (length ehs)) @ concat (map clause_bytes ehs)"
    using m False by simp
  note sect = sect_bytes [OF len n, where post = "concat (map clause_bytes ehs)", folded m']
  have hdr: "length (eh_section_header w) = 4" for w by (simp add: eh_section_header_def)
  have "sect_clauses m s [0..<0 + length ehs] = Some ehs"
    using sect_clauses_bytes [of "pre @ eh_section_header (word_of_nat (length ehs))" ehs "[]" s 0]
      sect(2) len hdr by (simp add: m')
  moreover have "unat (word_of_nat (length ehs) :: u32) = length ehs"
    using n by (intro unat_of_nat_u32) simp
  moreover have "Align base (12 + N) = s" using Align_aligned [OF base] by (simp add: s_def)
  ultimately show ?thesis
    using False sect by (simp add: decode_sections_def decoder_clauses_def)
qed


text \<open>All clauses of a method: exported to fat clauses that any relabelled list imports as the same.\<close>

lemma clauses_roundtrip_all:
  assumes l: "il_list rw xs" and dist: "distinct (m_IL # xs)"
    and L: "\<And>x. x \<in> set (m_IL # xs) \<Longrightarrow> offset_at x rw = Some (L x)"
  shows "list_all (clause_ok xs is) cs \<Longrightarrow>
    \<exists>ehs. export_clauses cs rw = Some (concat (map clause_bytes ehs)) \<and> list_all2 (images L xs is) cs ehs \<and>
      (\<forall>zs rw3. il_list rw3 zs \<longrightarrow> length zs = length xs \<longrightarrow>
        (\<forall>t. real_label xs is t \<longrightarrow> GetInstrFromOffset (L t) rw3 = Some (relabel_addr xs zs t)) \<longrightarrow>
        import_clauses ehs rw3 = Some (map (relabel_clause xs zs) cs))"
proof (induction cs)
  case Nil
  show ?case by (intro exI [of _ "[]"]) simp
next
  case (Cons c cs)
  then have c: "clause_ok xs is c" by simp
  obtain ehs where IH: "export_clauses cs rw = Some (concat (map clause_bytes ehs))" "list_all2 (images L xs is) cs ehs"
      "\<forall>zs rw3. il_list rw3 zs \<longrightarrow> length zs = length xs \<longrightarrow>
        (\<forall>t. real_label xs is t \<longrightarrow> GetInstrFromOffset (L t) rw3 = Some (relabel_addr xs zs t)) \<longrightarrow>
        import_clauses ehs rw3 = Some (map (relabel_clause xs zs) cs)"
    using Cons by auto
  obtain j where j: "j \<le> length xs" "m_pHandlerEnd c = (m_IL # xs) ! j" "real_label xs is ((xs @ [m_IL]) ! j)"
      "export_clause c rw = Some (clause_bytes (clause_image L ((xs @ [m_IL]) ! j) c))"
    by (rule export_clause_image [OF l c L])
  have "import_clause (clause_image L ((xs @ [m_IL]) ! j) c) rw3 = Some (relabel_clause xs zs c)"
    if "il_list rw3 zs" "length zs = length xs"
      "\<forall>t. real_label xs is t \<longrightarrow> GetInstrFromOffset (L t) rw3 = Some (relabel_addr xs zs t)" for zs rw3
    using that(3) by (intro import_clause_image [OF that(1,2) dist c j(1-3)]) blast
  moreover have "images L xs is c (clause_image L ((xs @ [m_IL]) ! j) c)" using c j(1-3) by (auto simp: images_def)
  ultimately show ?case using IH j(4)
    by (intro exI [of _ "clause_image L ((xs @ [m_IL]) ! j) c # ehs"]) simp
qed

lemma clause_ok_widened:
  assumes w: "list_all2 widened is is'" and ok: "list_all operand_ok is" and len: "length xs = length is"
  shows "clause_ok xs is c \<Longrightarrow> clause_ok xs is' c"
  using real_label_widened [OF assms]
  by (auto simp: clause_ok_def split: eh_operand.splits)

lemma clause_ok_plain [simp]: "length xs = length is \<Longrightarrow> clause_ok xs (map plain is) c \<longleftrightarrow> clause_ok xs is c"
  by (simp add: clause_ok_def split: eh_operand.split)

lemma ImportEH_clauses:
  assumes "import_clauses ehs rw = Some cs" "m_pEH rw = []"
  shows "\<exists>rw'. ImportEH ehs rw = Some (S_OK, rw') \<and> m_pEH rw' = cs \<and>
    rw' = rw\<lparr>m_nEH := word_of_nat (length ehs), m_pEH := cs\<rparr>"
proof -
  have frame: "GetInstrFromOffset t (rw\<lparr>m_nEH := n\<rparr>) = GetInstrFromOffset t rw"
    "get_instr p (rw\<lparr>m_nEH := n\<rparr>) = get_instr p rw" for t p n
    by (simp_all add: GetInstrFromOffset_def get_instr_def)
  have one: "import_clause eh (rw\<lparr>m_nEH := n\<rparr>) = import_clause eh rw" for eh n
    by (simp add: import_clause_def frame)
  have "import_clauses ehs (rw\<lparr>m_nEH := n\<rparr>) = import_clauses ehs rw" for n
    by (induction ehs) (simp_all add: one)
  then show ?thesis using assms by (cases "ehs = []") (auto simp: ImportEH_def Let_def)
qed

lemma program_at_cong:
  "il_heap rw' = il_heap rw \<Longrightarrow> il_brk rw' = il_brk rw \<Longrightarrow> m_nInstrs rw' = m_nInstrs rw \<Longrightarrow>
   program_at rw' xs is \<longleftrightarrow> program_at rw xs is"
  using il_list_cong [of rw' rw xs] by (simp add: program_at_def instr_code_def [abs_def])

lemma links_same_members:
  assumes "links_same rw rw'"
  shows "m_fGenerateTinyHeader rw' = m_fGenerateTinyHeader rw" "m_flags rw' = m_flags rw"
    "m_pICorProfilerFunctionControl rw' = m_pICorProfilerFunctionControl rw"
    "m_tkLocalVarSig rw' = m_tkLocalVarSig rw" "m_pEH rw' = m_pEH rw" "m_nEH rw' = m_nEH rw"
proof -
  have eq: "rw' = rw\<lparr>il_heap := il_heap rw'\<rparr>" using assms by (simp add: links_same_def)
  show "m_fGenerateTinyHeader rw' = m_fGenerateTinyHeader rw" "m_flags rw' = m_flags rw"
    "m_pICorProfilerFunctionControl rw' = m_pICorProfilerFunctionControl rw"
    "m_tkLocalVarSig rw' = m_tkLocalVarSig rw" "m_pEH rw' = m_pEH rw" "m_nEH rw' = m_nEH rw"
    by (subst eq, simp)+
qed

lemma Export_fat:
  assumes tiny: "\<not> m_fGenerateTinyHeader rw" and alloc: "AllocateILMemory env rw"
    and e: "export_buffer mem rw = Some (buf, cs, rw')" and links: "links_same rw rw'"
    and body: "fat_body pad buf cs rw' = Some body"
  shows "Export mem pad env rw = Some (SetILFunctionBody env rw' body, Some body, rw')"
  using tiny alloc e body links_same_members(1,3) [OF links] by (simp add: Export_def AllocateILMemory_def)

text \<open>Header, padding and exception section around code that is laid out.\<close>

lemma fat_body_decoded:
  assumes l: "il_list rw xs" and N: "N + 8 < 2 ^ 32" "N \<le> length buf"
    and off: "\<And>x. x \<in> set (m_IL # xs) \<Longrightarrow> offset_at x rw \<noteq> None"
    and eh: "list_all (clause_ok xs is) (m_pEH rw)" "m_nEH rw = word_of_nat (length (m_pEH rw))"
      "24 * length (m_pEH rw) + 4 < 2 ^ 24"
    and f: "flags_ok (m_flags rw)"
  defines "L \<equiv> (\<lambda>x. the (offset_at x rw))"
  shows "\<exists>body ehs. fat_body pad buf (word_of_nat N) rw = Some body \<and>
    take N (drop 12 body) = take N buf \<and> N \<le> length (drop 12 body) \<and> list_all2 (images L xs is) (m_pEH rw) ehs \<and>
    (\<forall>zs rw3. il_list rw3 zs \<longrightarrow> length zs = length xs \<longrightarrow>
      (\<forall>t. real_label xs is t \<longrightarrow> GetInstrFromOffset (L t) rw3 = Some (relabel_addr xs zs t)) \<longrightarrow>
      import_clauses ehs rw3 = Some (map (relabel_clause xs zs) (m_pEH rw))) \<and>
    (\<forall>base. base AND 3 = 0 \<longrightarrow> (\<exists>d. DecoderInit base body = Some d \<and> dec_Code d = Some 12 \<and>
      GetCodeSize d = word_of_nat N \<and> GetMaxStack d = m_maxStack rw AND 0xFFFF \<and>
      GetLocalVarSigTok d = m_tkLocalVarSig rw \<and>
      GetMethodFlags d AND CorILMethod_InitLocals = m_flags rw AND CorILMethod_InitLocals \<and>
      decoder_clauses body (dec_EH d) = Some ehs))"
proof -
  have L: "offset_at x rw = Some (L x)" if "x \<in> set (m_IL # xs)" for x
    using off [OF that] by (auto simp: L_def)
  have dist: "distinct (m_IL # xs)" using l by (simp add: il_list_def)
  have uN: "unat (word_of_nat N :: u32) = N" using N(1) by (intro unat_of_nat_u32) simp
  define code where "code = take N buf @ uninitialised pad ((N + 3) div 4 * 4 - N)"
  have sects: "header_flags g b AND CorILMethod_InitLocals = g AND CorILMethod_InitLocals" if "flags_ok g" for g b
    using that by (auto simp: flags_ok_def header_flags_def)
  have nil: "m_nEH rw = 0 \<longleftrightarrow> m_pEH rw = []"
  proof -
    have "unat (word_of_nat (length (m_pEH rw)) :: u32) = length (m_pEH rw)"
      using eh(3) by (intro unat_of_nat_u32) simp
    then show ?thesis unfolding eh(2) by (metis length_0_conv unat_0 unat_eq_zero)
  qed
  \<comment> \<open>the clauses do not depend on which list is imported: take the bytes from any\<close>
  obtain ehs where ehs: "export_clauses (m_pEH rw) rw = Some (concat (map clause_bytes ehs))"
      "list_all2 (images L xs is) (m_pEH rw) ehs"
      "\<forall>zs rw3. il_list rw3 zs \<longrightarrow> length zs = length xs \<longrightarrow>
        (\<forall>t. real_label xs is t \<longrightarrow> GetInstrFromOffset (L t) rw3 = Some (relabel_addr xs zs t)) \<longrightarrow>
        import_clauses ehs rw3 = Some (map (relabel_clause xs zs) (m_pEH rw))"
    using clauses_roundtrip_all [OF l dist L eh(1)] by blast
  note n = list_all2_lengthD [OF ehs(2)]
  define tail where "tail = (if m_pEH rw = [] then [] else eh_section_header (m_nEH rw) @ concat (map clause_bytes ehs))"
  define hdr where "hdr = fat_header (header_flags (m_flags rw) (m_pEH rw \<noteq> [])) (m_maxStack rw) (word_of_nat N)
    (m_tkLocalVarSig rw)"
  define body where "body = hdr @ code @ tail"
  have lh: "length hdr = 12" by (simp add: hdr_def fat_header_def)
  have fb: "fat_body pad buf (word_of_nat N) rw = Some body"
    using fat_body_eq [OF uN _ ehs(1) nil] N(1) by (simp add: body_def hdr_def code_def tail_def)
  have drop: "drop 12 body = code @ tail" using lh by (simp add: body_def)
  have same: "m_pEH rw = [] \<longleftrightarrow> ehs = []" using n by auto
  have "\<exists>d. DecoderInit base body = Some d \<and> dec_Code d = Some 12 \<and>
      GetCodeSize d = word_of_nat N \<and> GetMaxStack d = m_maxStack rw AND 0xFFFF \<and> GetLocalVarSigTok d = m_tkLocalVarSig rw \<and>
      GetMethodFlags d AND CorILMethod_InitLocals = m_flags rw AND CorILMethod_InitLocals \<and>
      decoder_clauses body (dec_EH d) = Some ehs" if base: "base AND 3 = 0" for base
  proof -
    define d where "d = \<lparr>GetMethodFlags = header_flags (m_flags rw) (m_pEH rw \<noteq> []), GetMaxStack = m_maxStack rw AND 0xFFFF,
      GetCodeSize = word_of_nat N, GetLocalVarSigTok = m_tkLocalVarSig rw,
      dec_Code = Some 12, dec_EH = None, dec_Sect = None\<rparr>"
    have init: "DecoderInit base body = decode_sections base body
        (if ehs \<noteq> [] then Some (Align base (12 + N)) else None) d"
      unfolding body_def hdr_def DecoderInit_fat [OF f base] d_def by (simp add: uN same)
    have "length (hdr @ code) = 12 + (N + 3) div 4 * 4"
      using lh N(2) by (simp add: code_def)
    moreover have "body = (hdr @ code) @ (if ehs = [] then []
        else eh_section_header (word_of_nat (length ehs)) @ concat (map clause_bytes ehs))"
      by (simp add: body_def tail_def same eh(2) n)
    moreover have "24 * length ehs + 4 < 2 ^ 24" using eh(3) n by simp
    ultimately show ?thesis
      using decoder_clauses_body [OF base uN, of body "hdr @ code" ehs d] init sects [OF f] by (auto simp: d_def)
  qed
  moreover have "take N (drop 12 body) = take N buf" "N \<le> length (drop 12 body)"
    using N(2) unfolding drop by (simp_all add: code_def)
  ultimately show ?thesis using fb ehs(2,3) by blast
qed

lemma Import_of_body:
  assumes l: "il_list rw xs" and ok: "list_all operand_ok is" and wf: "well_formed 0 is" and tgt: "targets_real xs is"
    and N: "code_size is = N" "N + 8 < 2 ^ 32" "N \<le> length buf"
    and lay: "layout (\<lambda>x. the (offset_at x rw)) 0 xs is"
    and off: "\<And>x. x \<in> set (m_IL # xs) \<Longrightarrow> offset_at x rw \<noteq> None"
    and dec: "decode_il (take N buf) = Some (raw_program (\<lambda>x. the (offset_at x rw)) 0 is)"
    and eh: "list_all (clause_ok xs is) (m_pEH rw)" "m_nEH rw = word_of_nat (length (m_pEH rw))"
      "24 * length (m_pEH rw) + 4 < 2 ^ 24"
    and f: "flags_ok (m_flags rw)"
    and l2: "il_list rw2 []" and eh2: "m_pEH rw2 = []" and base: "base AND 3 = 0"
  shows "\<exists>body zs rw3. fat_body pad buf (word_of_nat N) rw = Some body \<and>
    Import S_OK base body rw2 = Some (S_OK, rw3) \<and> program_at rw3 zs (map (relabel xs zs) is) \<and>
    m_pEH rw3 = map (relabel_clause xs zs) (m_pEH rw) \<and>
    m_tkLocalVarSig rw3 = m_tkLocalVarSig rw \<and> m_flags rw3 = m_flags rw AND CorILMethod_InitLocals"
proof -
  define L where "L = (\<lambda>x. the (offset_at x rw))"
  have dist: "distinct (m_IL # xs)" using l by (simp add: il_list_def)
  obtain body ehs where b: "fat_body pad buf (word_of_nat N) rw = Some body" "take N (drop 12 body) = take N buf"
      "N \<le> length (drop 12 body)"
      "\<forall>zs rw3. il_list rw3 zs \<longrightarrow> length zs = length xs \<longrightarrow>
        (\<forall>t. real_label xs is t \<longrightarrow> GetInstrFromOffset (L t) rw3 = Some (relabel_addr xs zs t)) \<longrightarrow>
        import_clauses ehs rw3 = Some (map (relabel_clause xs zs) (m_pEH rw))"
      "\<forall>base. base AND 3 = 0 \<longrightarrow> (\<exists>d. DecoderInit base body = Some d \<and> dec_Code d = Some 12 \<and>
        GetCodeSize d = word_of_nat N \<and> GetMaxStack d = m_maxStack rw AND 0xFFFF \<and> GetLocalVarSigTok d = m_tkLocalVarSig rw \<and>
        GetMethodFlags d AND CorILMethod_InitLocals = m_flags rw AND CorILMethod_InitLocals \<and>
        decoder_clauses body (dec_EH d) = Some ehs)"
    using fat_body_decoded [OF l N(2,3) off eh f, of pad] unfolding L_def by blast
  from b(5) base obtain d where d: "DecoderInit base body = Some d" "dec_Code d = Some 12" "GetCodeSize d = word_of_nat N"
      "GetMaxStack d = m_maxStack rw AND 0xFFFF" "GetLocalVarSigTok d = m_tkLocalVarSig rw"
      "GetMethodFlags d AND CorILMethod_InitLocals = m_flags rw AND CorILMethod_InitLocals"
      "decoder_clauses body (dec_EH d) = Some ehs" by blast
  define rw2' where "rw2' = rw2\<lparr>m_tkLocalVarSig := m_tkLocalVarSig rw, m_maxStack := m_maxStack rw AND 0xFFFF,
    m_flags := m_flags rw AND CorILMethod_InitLocals, m_CodeSize := word_of_nat N\<rparr>"
  have l2': "il_list rw2' []" using l2 il_list_cong [of rw2' rw2] by (simp add: rw2'_def)
  have "\<exists>zs rw3. ImportIL (drop 12 body) rw2' = Some (S_OK, rw3) \<and> program_at rw3 zs (map (relabel xs zs) is) \<and>
      (\<exists>T. rw_rest rw3 = (rw_rest rw2')\<lparr>m_pOffsetToInstr := T\<rparr>) \<and>
      (\<forall>t. real_label xs is t \<longrightarrow> GetInstrFromOffset (L t) rw3 = Some (relabel_addr xs zs t))"
    using dec lay l2' N(1,2) b(2,3)
    by (intro import_of_assembled [OF dist ok wf tgt N(1,2)]) (simp_all add: L_def rw2'_def)
  then obtain zs rw3 T where i: "ImportIL (drop 12 body) rw2' = Some (S_OK, rw3)" "program_at rw3 zs (map (relabel xs zs) is)"
      "\<forall>t. real_label xs is t \<longrightarrow> GetInstrFromOffset (L t) rw3 = Some (relabel_addr xs zs t)"
    and T: "rw_rest rw3 = (rw_rest rw2')\<lparr>m_pOffsetToInstr := T\<rparr>" by blast
  have rest: "m_pEH rw3 = []" "m_tkLocalVarSig rw3 = m_tkLocalVarSig rw"
    "m_flags rw3 = m_flags rw AND CorILMethod_InitLocals"
    using arg_cong [OF T, of m_pEH] arg_cong [OF T, of m_tkLocalVarSig] arg_cong [OF T, of m_flags] eh2
    by (simp_all add: rw_rest_def rw2'_def)
  have l3: "il_list rw3 zs" "length zs = length xs"
    using i(2) program_at_length [OF i(2)] layout_length [OF lay] by (simp_all add: program_at_def)
  from b(4) l3 i(3) have "import_clauses ehs rw3 = Some (map (relabel_clause xs zs) (m_pEH rw))" by blast
  from ImportEH_clauses [OF this rest(1)] obtain rw4 where rw4: "ImportEH ehs rw3 = Some (S_OK, rw4)"
      "m_pEH rw4 = map (relabel_clause xs zs) (m_pEH rw)"
      "rw4 = rw3\<lparr>m_nEH := word_of_nat (length ehs), m_pEH := map (relabel_clause xs zs) (m_pEH rw)\<rparr>" by blast
  have "rw2\<lparr>m_tkLocalVarSig := GetLocalVarSigTok d, m_maxStack := GetMaxStack d,
      m_flags := GetMethodFlags d AND CorILMethod_InitLocals, m_CodeSize := GetCodeSize d\<rparr> = rw2'"
    by (simp add: rw2'_def d(3-6))
  then have "Import S_OK base body rw2 = Some (S_OK, rw4)"
    using d(1,2,7) i(1) rw4(1) by (simp add: Import_def)
  moreover have "program_at rw4 zs (map (relabel xs zs) is)"
    using i(2) program_at_cong [of rw4 rw3] by (simp add: rw4(3))
  moreover have "m_tkLocalVarSig rw4 = m_tkLocalVarSig rw" "m_flags rw4 = m_flags rw AND CorILMethod_InitLocals"
    using rest by (simp_all add: rw4(3))
  ultimately show ?thesis using b(1) rw4(2) by blast
qed

text \<open>Reading back what \<open>Export\<close> wrote.\<close>

lemma exported_body_imports:
  assumes m: "exportable rw xs is" and tiny: "\<not> m_fGenerateTinyHeader rw" and alloc: "AllocateILMemory env rw"
    and rw2: "il_list rw2 []" "m_pEH rw2 = []" and base: "base AND 3 = 0"
  shows "\<exists>body is' rw' zs rw3.
    Export mem pad env rw = Some (SetILFunctionBody env rw' body, Some body, rw') \<and>
    list_all2 widened is is' \<and> Import S_OK base body rw2 = Some (S_OK, rw3) \<and>
    program_at rw3 zs (map (relabel xs zs \<circ> plain) is') \<and>
    m_pEH rw3 = map (relabel_clause xs zs) (m_pEH rw) \<and>
    m_tkLocalVarSig rw3 = m_tkLocalVarSig rw \<and> m_flags rw3 = m_flags rw AND CorILMethod_InitLocals \<and> links_same rw rw' \<and>
    program_at rw' xs is'"
proof -
  have p: "program_at rw xs is" and wf: "well_formed 0 (map plain is)" and tgt: "targets_real xs is"
    and eh: "list_all (clause_ok xs is) (m_pEH rw)" "m_nEH rw = word_of_nat (length (m_pEH rw))"
      "24 * length (m_pEH rw) + 4 < 2 ^ 24"
    and f: "flags_ok (m_flags rw)" and size: "10 * (il_brk rw - 3) + 8 < 2 ^ 32" "10 * (il_brk rw - 3) < 2 ^ 32"
    using m by (simp_all add: exportable_def)
  from export_decodes_plain [OF p wf size(2)]
  obtain buf is' rw' where e: "export_buffer mem rw = Some (buf, word_of_nat (code_size is'), rw')"
      "list_all2 widened is is'" "program_at rw' xs is'" "well_formed 0 (map plain is')" "links_same rw rw'"
      "code_size is' \<le> length buf" "layout (\<lambda>x. the (offset_at x rw')) 0 xs is'"
      "decode_il (take (code_size is') buf) = Some (raw_program (\<lambda>x. the (offset_at x rw')) 0 (map plain is'))"
      "\<forall>x \<in> set (m_IL # xs). offset_at x rw' \<noteq> None"
    unfolding Let_def by blast
  have ok: "list_all operand_ok is" using p by (simp add: program_at_def)
  note len = program_at_length [OF p]
  note links = links_same_members [OF e(5)]
  have p': "il_list rw' xs" "list_all operand_ok (map plain is')" "length xs = length is'"
    using e(3) program_at_length [OF e(3)] by (simp_all add: program_at_def)
  have eh': "list_all (clause_ok xs (map plain is')) (m_pEH rw')" "m_nEH rw' = word_of_nat (length (m_pEH rw'))"
      "24 * length (m_pEH rw') + 4 < 2 ^ 24" "flags_ok (m_flags rw')"
    using eh f clause_ok_widened [OF e(2) ok len] p'(3) by (auto simp: links list_all_iff)
  obtain body zs rw3 where b: "fat_body pad buf (word_of_nat (code_size is')) rw' = Some body"
      "Import S_OK base body rw2 = Some (S_OK, rw3)" "program_at rw3 zs (map (relabel xs zs \<circ> plain) is')"
      "m_pEH rw3 = map (relabel_clause xs zs) (m_pEH rw')" "m_tkLocalVarSig rw3 = m_tkLocalVarSig rw'"
      "m_flags rw3 = m_flags rw' AND CorILMethod_InitLocals"
    using Import_of_body [OF p'(1,2) e(4), of "code_size is'" buf rw2 base pad] targets_real_widened [OF e(2) ok len tgt]
      export_size_bound [OF e(3,5) size(1)] e(6-9) eh' rw2 base p'(3) by auto
  have "Export mem pad env rw = Some (SetILFunctionBody env rw' body, Some body, rw')"
    by (rule Export_fat [OF tiny alloc e(1,5) b(1)])
  with e(2,3,5) b(2-6) show ?thesis by (metis links(2,4,5))
qed

lemma exported_body_method:
  assumes m: "method_ok rw xs is" and tiny: "\<not> m_fGenerateTinyHeader rw" and alloc: "AllocateILMemory env rw"
    and rw2: "il_list rw2 []" "m_pEH rw2 = []" and base: "base AND 3 = 0"
  shows "\<exists>body is' rw' zs rw3.
    Export mem pad env rw = Some (SetILFunctionBody env rw' body, Some body, rw') \<and>
    list_all2 widened is is' \<and> Import S_OK base body rw2 = Some (S_OK, rw3) \<and>
    program_at rw3 zs (map (relabel xs zs) is') \<and>
    m_pEH rw3 = map (relabel_clause xs zs) (m_pEH rw) \<and>
    m_tkLocalVarSig rw3 = m_tkLocalVarSig rw \<and> m_flags rw3 = m_flags rw AND CorILMethod_InitLocals"
proof -
  have ok: "list_all operand_ok is" "well_formed 0 is" "exportable rw xs is"
    using m by (simp_all add: method_ok_def exportable_def program_at_def)
  have "map (relabel xs zs \<circ> plain) is' = map (relabel xs zs) is'" if "list_all2 widened is is'" for is' zs
    using well_formed_plain [OF well_formed_widened [OF that ok(1,2)] widened_all_ok [OF that ok(1)]] by (metis map_map)
  with exported_body_imports [OF ok(3) tiny alloc rw2 base, of mem pad] show ?thesis by metis
qed

text \<open>
  C6. A method body survives the rewriter. Whatever instruction list, exception clauses, local
  signature and header flags a rewriter holds (within the limits of the file format), Export
  hands a body to the runtime, and Import of that body, at any aligned address and into any
  empty rewriter, succeeds and yields the same program: the same opcodes and operands, short
  branches at most widened, with every branch target, switch target and bound of an exception
  clause denoting the same place of the list, and the same token and init-locals flag.
\<close>

theorem Import_of_Export:
  assumes m: "method_ok rw xs is" and tiny: "\<not> m_fGenerateTinyHeader rw" and alloc: "AllocateILMemory env rw"
    and rw2: "il_list rw2 []" "m_pEH rw2 = []" and base: "base AND 3 = 0"
  shows "\<exists>body is' rw' zs rw3.
    Export mem pad env rw = Some (SetILFunctionBody env rw' body, Some body, rw') \<and>
    list_all2 widened is is' \<and> Import S_OK base body rw2 = Some (S_OK, rw3) \<and>
    program_at rw3 zs (map (relabel xs zs) is') \<and>
    m_pEH rw3 = map (relabel_clause xs zs) (m_pEH rw) \<and>
    m_tkLocalVarSig rw3 = m_tkLocalVarSig rw \<and> m_flags rw3 = m_flags rw AND CorILMethod_InitLocals"
  by (rule exported_body_method [OF assms])

text \<open>The sample program in a try block with a catch handler.\<close>

theorem Import_of_Export_witness:
  "\<exists>env rw body is' rw' zs rw3. method_ok rw [3, 4, 5] sample_code \<and> length (m_pEH rw) = 1 \<and>
    Export (\<lambda>_. 0xCC) (\<lambda>_. 0xCC) env rw = Some (S_OK, Some body, rw') \<and>
    Import S_OK 4096 body sample_start = Some (S_OK, rw3) \<and>
    program_at rw3 zs (map (relabel [3, 4, 5] zs) is')"
proof -
  define c where "c = \<lparr>m_Flags = 0, m_pTryBegin = 3, m_pTryEnd = 5, m_pHandlerBegin = 5, m_pHandlerEnd = 5,
    m_ClassToken = ClassToken 0x01000001\<rparr>"
  define env where "env = \<lparr>GetILFunctionBodyAllocator = S_OK, Alloc = True,
    SetILFunctionBody_rejit = (\<lambda>_. S_OK), SetILFunctionBody_info = (\<lambda>_ _ _. S_OK)\<rparr>"
  obtain rw0 where rw0: "program_at rw0 [3, 4, 5] sample_code" "il_brk rw0 = 6" "rw_rest rw0 = rw_rest sample_start"
    using sample_program by blast
  define rw where "rw = rw0\<lparr>m_pEH := [c], m_nEH := 1\<rparr>"
  have rest: "m_flags rw = 2" "\<not> m_fGenerateTinyHeader rw" "\<not> m_pICorProfilerFunctionControl rw"
    using arg_cong [OF rw0(3), of m_flags] arg_cong [OF rw0(3), of m_fGenerateTinyHeader]
      arg_cong [OF rw0(3), of m_pICorProfilerFunctionControl]
    by (simp_all add: rw_def rw_rest_def sample_start_def SetTkLocalVarSig_def InitializeTiny_def ILRewriter_init_def)
  have p: "program_at rw [3, 4, 5] sample_code"
    using rw0(1) program_at_cong [of rw rw0] by (simp add: rw_def)
  have lab: "real_label [3, 4, 5] sample_code t" if "t \<in> {2, 3, 4, 5}" for t
    using that by (auto simp: real_label_def sample_code_def numeral_3_eq_3 less_Suc_eq nth_Cons')
  have wf: "well_formed 0 sample_code" by code_simp
  have tgt: "targets_real [3, 4, 5] sample_code"
    using lab by (auto simp: targets_real_def sample_code_def)
  have "clause_ok [3, 4, 5] sample_code c"
    unfolding clause_ok_def
  proof (intro conjI)
    have "(m_IL # [3, 4, 5]) ! 3 = 5" "([3, 4, 5] @ [m_IL]) ! 3 = m_IL" by simp_all
    then show "\<exists>j \<le> length [3, 4, 5]. m_pHandlerEnd c = (m_IL # [3, 4, 5]) ! j \<and>
        real_label [3, 4, 5] sample_code (([3, 4, 5] @ [m_IL]) ! j)"
      using lab [of 2] by (intro exI [of _ 3]) (simp only: c_def EHClause.simps, simp)
  qed (use lab in \<open>simp_all add: c_def\<close>)
  then have m: "method_ok rw [3, 4, 5] sample_code"
    using p wf tgt rest rw0(2) by (intro method_okI) (simp_all add: rw_def flags_ok_def)
  have alloc: "AllocateILMemory env rw" using rest by (simp add: AllocateILMemory_def env_def)
  have set: "SetILFunctionBody env r b = S_OK" for r b by (simp add: SetILFunctionBody_def env_def)
  have "m_pEH sample_start = []"
    by (simp add: sample_start_def SetTkLocalVarSig_def InitializeTiny_def ILRewriter_init_def)
  moreover have "(4096 :: nat) AND 3 = 0" by (simp add: nat_and_3)
  ultimately have "\<exists>body is' rw' zs rw3. Export (\<lambda>_. 0xCC) (\<lambda>_. 0xCC) env rw = Some (S_OK, Some body, rw') \<and>
      Import S_OK 4096 body sample_start = Some (S_OK, rw3) \<and> program_at rw3 zs (map (relabel [3, 4, 5] zs) is')"
    using Import_of_Export [OF m rest(2) alloc sample_start_il_list, of 4096 "\<lambda>_. 0xCC" "\<lambda>_. 0xCC"]
    unfolding set by blast
  moreover have "length (m_pEH rw) = 1" by (simp add: rw_def)
  ultimately show ?thesis using m by blast
qed


section \<open>The tiny format and the refusals\<close>

lemma tiny_header:
  assumes "n < 64"
  shows "unat (ucast (CorILMethod_TinyFormat OR push_bit 2 (word_of_nat n :: u32)) :: byte) = 2 + 4 * n"
proof -
  have "(CorILMethod_TinyFormat OR push_bit 2 (word_of_nat n :: u32)) = word_of_nat (2 + 4 * n)"
    using assms by (auto simp: less_Suc_eq numeral_eq_Suc)
  moreover have "unat (ucast (word_of_nat (2 + 4 * n) :: u32) :: byte) = 2 + 4 * n"
    using assms unat_of_nat_u32 [of "2 + 4 * n"]
    by (simp add: unsigned_ucast_eq take_bit_nat_eq_self del: of_nat_add of_nat_mult)
  ultimately show ?thesis by simp
qed

lemma DecoderInit_tiny:
  assumes "n < 64"
  shows "DecoderInit base (ucast (CorILMethod_TinyFormat OR push_bit 2 (word_of_nat n :: u32)) # code) =
    Some \<lparr>GetMethodFlags = CorILMethod_TinyFormat, GetMaxStack = 8, GetCodeSize = word_of_nat n,
      GetLocalVarSigTok = 0, dec_Code = Some 1, dec_EH = None, dec_Sect = None\<rparr>"
proof -
  define b where "b = (ucast (CorILMethod_TinyFormat OR push_bit 2 (word_of_nat n :: u32)) :: byte)"
  have b: "unat b = 2 + 4 * n" unfolding b_def by (rule tiny_header [OF assms])
  have w: "word_at (b # code) 0 1 = Some (word_of_nat (2 + 4 * n))"
    using word_at_append [of "[]" 0 "[b]" 1 code] b by simp
  have "list_all (\<lambda>n. Tiny_IsTiny (word_of_nat (2 + 4 * n)) \<and>
      drop_bit 2 (word_of_nat (2 + 4 * n)) = (word_of_nat n :: u32)) [0..<64]"
    by code_simp
  then have "Tiny_IsTiny (word_of_nat (2 + 4 * n))" "drop_bit 2 (word_of_nat (2 + 4 * n)) = (word_of_nat n :: u32)"
    using assms by (simp_all add: list_all_iff)
  with w show ?thesis by (simp add: DecoderInit_def b_def decoder_zero_def)
qed

text \<open>
  C34. Without local variables Export uses the tiny format: it refuses code of 64 bytes and more
  with E_FAIL and hands nothing over; if the runtime gives no memory it returns E_OUTOFMEMORY;
  otherwise the body is one header byte, which the decoder reads back as the code size and a
  stack of eight, followed by the assembled code.
\<close>

theorem Export_tiny:
  assumes p: "program_at rw xs is" and size: "10 * (il_brk rw - 3) < 2 ^ 32" and tiny: "m_fGenerateTinyHeader rw"
  shows "\<exists>is' rw' n. list_all2 widened is is' \<and> program_at rw' xs is' \<and> n = code_size is' \<and>
    Export mem pad env rw =
      Some (if 64 \<le> n then (E_FAIL, None, rw')
            else if \<not> AllocateILMemory env rw then (E_OUTOFMEMORY, None, rw')
            else (let body = ucast (CorILMethod_TinyFormat OR push_bit 2 (word_of_nat n :: u32)) #
                        assemble (\<lambda>x. the (offset_at x rw')) 0 0 is'
                  in (SetILFunctionBody env rw' body, Some body, rw'))) \<and>
    (n < 64 \<longrightarrow> (\<forall>base code. DecoderInit base
        (ucast (CorILMethod_TinyFormat OR push_bit 2 (word_of_nat n :: u32)) # code) =
      Some \<lparr>GetMethodFlags = CorILMethod_TinyFormat, GetMaxStack = 8, GetCodeSize = word_of_nat n,
        GetLocalVarSigTok = 0, dec_Code = Some 1, dec_EH = None, dec_Sect = None\<rparr>))"
proof -
  obtain buf is' rw' where e: "export_buffer mem rw = Some (buf, word_of_nat (code_size is'), rw')"
      "list_all2 widened is is'" "program_at rw' xs is'" "links_same rw rw'" "assembled rw' xs is' buf"
      "code_size is' < 2 ^ 32"
    using export_buffer_spec [OF p size] by blast
  define n where "n = code_size is'"
  have n: "unat (word_of_nat n :: u32) = n" using e(6) by (intro unat_of_nat_u32) (simp add: n_def)
  then have big: "(64 :: u32) \<le> word_of_nat n \<longleftrightarrow> 64 \<le> n" by (simp add: word_le_nat_alt)
  have code: "take n buf = assemble (\<lambda>x. the (offset_at x rw')) 0 0 is'"
    using e(5) by (simp add: assembled_def Let_def n_def)
  have alloc: "AllocateILMemory env rw' = AllocateILMemory env rw" "m_fGenerateTinyHeader rw'"
    using links_same_members(1,3) [OF e(4)] tiny by (simp_all add: AllocateILMemory_def)
  have "Export mem pad env rw =
      Some (if 64 \<le> n then (E_FAIL, None, rw')
            else if \<not> AllocateILMemory env rw then (E_OUTOFMEMORY, None, rw')
            else (let body = ucast (CorILMethod_TinyFormat OR push_bit 2 (word_of_nat n :: u32)) #
                        assemble (\<lambda>x. the (offset_at x rw')) 0 0 is'
                  in (SetILFunctionBody env rw' body, Some body, rw')))"
    using e(1) alloc big by (simp add: Export_def n_def [symmetric] tiny_body_def n code Let_def)
  with e(2,3) DecoderInit_tiny [of n] show ?thesis unfolding n_def by blast
qed

theorem Export_tiny_witness:
  "\<exists>rw rw' body env. program_at rw [] [] \<and>
    Export (\<lambda>_. 0xCC) (\<lambda>_. 0xCC) env rw = Some (SetILFunctionBody env rw' body, Some body, rw')"
proof -
  define rw where "rw = InitializeTiny (ILRewriter_init True 0 0)"
  define env where "env = \<lparr>GetILFunctionBodyAllocator = S_OK, Alloc = True,
    SetILFunctionBody_rejit = (\<lambda>_. S_OK), SetILFunctionBody_info = (\<lambda>_ _ _. S_OK)\<rparr>"
  have "il_list rw []"
    using ILRewriter_init_il_list [of True 0 0] il_list_cong [of rw "ILRewriter_init True 0 0" "[]"]
    by (simp add: rw_def InitializeTiny_def)
  then have p: "program_at rw [] []" by (simp add: program_at_def)
  have "il_brk rw = 3" "m_fGenerateTinyHeader rw" "AllocateILMemory env rw"
    by (simp_all add: rw_def InitializeTiny_def ILRewriter_init_def AllocateILMemory_def)
  with Export_tiny [OF p, of "\<lambda>_. 0xCC" "\<lambda>_. 0xCC" env] p show ?thesis by (auto simp: Let_def)
qed

end
