(* ===== verification/IL_Wrapper.thy ===== *)
theory IL_Wrapper
  imports IL_Assemble
begin

text \<open>
  \<open>ILRewriterWrapper\<close> (il_rewriter_wrapper.cpp): the code generator that inserts single
  instructions at a position of a rewriter's list, and the replacement of a called method.
  The fields an instruction does not use stay zero, as \<open>new ILInstr()\<close> leaves them.
\<close>

section \<open>Operations\<close>

record ILRewriterWrapper =
  m_ILRewriter :: ILRewriter
  m_ILInstr :: addr

definition GetILRewriter :: "ILRewriterWrapper \<Rightarrow> ILRewriter" where
  "GetILRewriter w = m_ILRewriter w"

definition SetILPosition :: "addr \<Rightarrow> ILRewriterWrapper \<Rightarrow> ILRewriterWrapper" where
  "SetILPosition pILInstr w = w\<lparr>m_ILInstr := pILInstr\<rparr>"

text \<open>A new instruction is given its opcode and operand and inserted before the position.\<close>

definition insert_instr :: "opcode \<Rightarrow> operand \<Rightarrow> ILRewriterWrapper \<Rightarrow> ILRewriterWrapper option" where
  "insert_instr opcode arg w = do {
     (_, rw) \<leftarrow> emit (m_ILInstr w) (opcode, arg) (m_ILRewriter w);
     Some (w\<lparr>m_ILRewriter := rw\<rparr>)
   }"

definition arg8 :: "byte \<Rightarrow> operand" where "arg8 v = Bits (ucast v)"
definition arg16 :: "u16 \<Rightarrow> operand" where "arg16 v = Bits (ucast v)"
definition arg32 :: "u32 \<Rightarrow> operand" where "arg32 v = Bits (ucast v)"
definition arg64 :: "u64 \<Rightarrow> operand" where "arg64 v = Bits v"

definition Pop :: "ILRewriterWrapper \<Rightarrow> ILRewriterWrapper option" where
  "Pop = insert_instr CEE_POP (Bits 0)"

definition LoadNull :: "ILRewriterWrapper \<Rightarrow> ILRewriterWrapper option" where
  "LoadNull = insert_instr CEE_LDNULL (Bits 0)"

definition LoadInt64 :: "u64 \<Rightarrow> ILRewriterWrapper \<Rightarrow> ILRewriterWrapper option" where
  "LoadInt64 value = insert_instr CEE_LDC_I8 (arg64 value)"

text \<open>\<open>INT32 value\<close>; the table of \<open>LDC_I4_0\<close> to \<open>LDC_I4_8\<close> is consecutive in opcode.def.\<close>

definition LoadInt32 :: "u32 \<Rightarrow> ILRewriterWrapper \<Rightarrow> ILRewriterWrapper option" where
  "LoadInt32 value =
     (if 0 \<le> sint value \<and> sint value \<le> 8 then insert_instr (CEE_LDC_I4_0 + value) (Bits 0)
      else if - 128 \<le> sint value \<and> sint value \<le> 127 then insert_instr CEE_LDC_I4_S (arg8 (ucast value))
      else insert_instr CEE_LDC_I4 (arg32 value))"

definition LoadArgument :: "u16 \<Rightarrow> ILRewriterWrapper \<Rightarrow> ILRewriterWrapper option" where
  "LoadArgument index =
     (if index \<le> 3 then insert_instr (CEE_LDARG_0 + ucast index) (Bits 0)
      else if index \<le> 255 then insert_instr CEE_LDARG_S (arg8 (ucast index))
      else insert_instr CEE_LDARG (arg16 index))"

definition Cast :: "mdToken \<Rightarrow> ILRewriterWrapper \<Rightarrow> ILRewriterWrapper option" where
  "Cast type_ref = insert_instr CEE_CASTCLASS (arg32 type_ref)"

definition Box :: "mdToken \<Rightarrow> ILRewriterWrapper \<Rightarrow> ILRewriterWrapper option" where
  "Box type_ref = insert_instr CEE_BOX (arg32 type_ref)"

definition UnboxAny :: "mdToken \<Rightarrow> ILRewriterWrapper \<Rightarrow> ILRewriterWrapper option" where
  "UnboxAny type_ref = insert_instr CEE_UNBOX_ANY (arg32 type_ref)"

text \<open>The only one that inserts behind the position.\<close>

definition UnboxAnyAfter :: "mdToken \<Rightarrow> ILRewriterWrapper \<Rightarrow> ILRewriterWrapper option" where
  "UnboxAnyAfter type_ref w =
     (let (pNewInstr, rw) = NewILInstr (m_ILRewriter w) in do {
        rw \<leftarrow> upd_instr pNewInstr (\<lambda>i. i\<lparr>m_opcode := CEE_UNBOX_ANY, m_operand := arg32 type_ref\<rparr>) rw;
        rw \<leftarrow> InsertAfter (m_ILInstr w) pNewInstr rw;
        Some (w\<lparr>m_ILRewriter := rw\<rparr>)
      })"

definition CreateArray :: "mdToken \<Rightarrow> u32 \<Rightarrow> ILRewriterWrapper \<Rightarrow> ILRewriterWrapper option" where
  "CreateArray type_ref len w = do {
     w \<leftarrow> LoadInt32 len w;
     insert_instr CEE_NEWARR (arg32 type_ref) w
   }"

definition CallMember :: "mdToken \<Rightarrow> bool \<Rightarrow> ILRewriterWrapper \<Rightarrow> ILRewriterWrapper option" where
  "CallMember member_ref is_virtual =
     insert_instr (if is_virtual then CEE_CALLVIRT else CEE_CALL) (arg32 member_ref)"

definition Duplicate :: "ILRewriterWrapper \<Rightarrow> ILRewriterWrapper option" where
  "Duplicate = insert_instr CEE_DUP (Bits 0)"

definition BeginLoadValueIntoArray :: "u32 \<Rightarrow> ILRewriterWrapper \<Rightarrow> ILRewriterWrapper option" where
  "BeginLoadValueIntoArray arrayIndex w = do { w \<leftarrow> Duplicate w; LoadInt32 arrayIndex w }"

definition EndLoadValueIntoArray :: "ILRewriterWrapper \<Rightarrow> ILRewriterWrapper option" where
  "EndLoadValueIntoArray = insert_instr CEE_STELEM_REF (Bits 0)"

text \<open>The loop of \<open>ReplaceMethodCalls\<close>; the operand of a call is not a pointer.\<close>

fun replace_calls :: "mdToken \<Rightarrow> mdToken \<Rightarrow> addr list \<Rightarrow> bool \<Rightarrow> ILRewriter \<Rightarrow> (bool \<times> ILRewriter) option" where
  "replace_calls old_ref new_ref [] modified rw = Some (modified, rw)"
| "replace_calls old_ref new_ref (p # ps) modified rw = do {
     i \<leftarrow> get_instr p rw;
     if m_opcode i = CEE_CALL \<or> m_opcode i = CEE_CALLVIRT then do {
       arg \<leftarrow> m_Arg32 (m_operand i);
       if arg = old_ref then do {
         x \<leftarrow> set_Arg32 new_ref (m_operand i);
         rw \<leftarrow> upd_instr p (\<lambda>i. i\<lparr>m_opcode := CEE_CALL, m_operand := x\<rparr>) rw;
         replace_calls old_ref new_ref ps True rw }
       else replace_calls old_ref new_ref ps modified rw }
     else replace_calls old_ref new_ref ps modified rw
   }"

definition ReplaceMethodCalls :: "mdToken \<Rightarrow> mdToken \<Rightarrow> ILRewriterWrapper \<Rightarrow> (bool \<times> ILRewriterWrapper) option" where
  "ReplaceMethodCalls old_method_ref new_method_ref w = do {
     ps \<leftarrow> GetILList (m_ILRewriter w);
     (modified, rw) \<leftarrow> replace_calls old_method_ref new_method_ref ps False (m_ILRewriter w);
     Some (modified, w\<lparr>m_ILRewriter := rw\<rparr>)
   }"

section \<open>What an operation inserts\<close>

text \<open>
  \<open>inserts f is\<close>: at every position of every list, \<open>f\<close> inserts the instructions \<open>is\<close> before
  the position, in order, and changes no other instruction and nothing else.
\<close>

definition inserts :: "(ILRewriterWrapper \<Rightarrow> ILRewriterWrapper option) \<Rightarrow> (opcode \<times> operand) list \<Rightarrow> bool" where
  "inserts f is \<longleftrightarrow> (\<forall>w as bs. il_list (m_ILRewriter w) (as @ bs) \<longrightarrow> m_ILInstr w = hd (bs @ [m_IL]) \<longrightarrow>
     (\<exists>w' ns. f w = Some w' \<and> m_ILInstr w' = m_ILInstr w \<and> il_list (m_ILRewriter w') (as @ ns @ bs) \<and>
       map (instr_code (m_ILRewriter w')) ns = map Some is \<and>
       (\<forall>x \<in> set (as @ bs). instr_code (m_ILRewriter w') x = instr_code (m_ILRewriter w) x) \<and>
       rw_rest (m_ILRewriter w') = rw_rest (m_ILRewriter w)))"

lemma insertsD:
  assumes "inserts f is" "il_list (m_ILRewriter w) (as @ bs)" "m_ILInstr w = hd (bs @ [m_IL])"
  obtains w' ns where "f w = Some w'" "m_ILInstr w' = m_ILInstr w" "il_list (m_ILRewriter w') (as @ ns @ bs)"
    "map (instr_code (m_ILRewriter w')) ns = map Some is"
    "\<And>x. x \<in> set (as @ bs) \<Longrightarrow> instr_code (m_ILRewriter w') x = instr_code (m_ILRewriter w) x"
    "rw_rest (m_ILRewriter w') = rw_rest (m_ILRewriter w)"
  using assms unfolding inserts_def by meson

named_theorems inserts \<open>the instructions each operation of the code generator inserts\<close>

lemma inserts_instr:
  assumes "unat op < 296"
  shows "inserts (insert_instr op arg) [(op, arg)]"
  unfolding inserts_def
proof (intro allI impI)
  fix w :: ILRewriterWrapper and as bs
  assume l: "il_list (m_ILRewriter w) (as @ bs)" and p: "m_ILInstr w = hd (bs @ [m_IL])"
  have "code_ok (op, arg)" using assms by (simp add: stack_pushes_defined)
  from il.emit_before [OF l p this] obtain v rw' where "emit (m_ILInstr w) (op, arg) (m_ILRewriter w) = Some (v, rw')"
      "il_list rw' (as @ v # bs)" "instr_code rw' v = Some (op, arg)"
      "\<forall>x \<in> set (as @ bs). instr_code rw' x = instr_code (m_ILRewriter w) x" "rw_rest rw' = rw_rest (m_ILRewriter w)"
    by blast
  then show "\<exists>w' ns. insert_instr op arg w = Some w' \<and> m_ILInstr w' = m_ILInstr w \<and>
       il_list (m_ILRewriter w') (as @ ns @ bs) \<and> map (instr_code (m_ILRewriter w')) ns = map Some [(op, arg)] \<and>
       (\<forall>x \<in> set (as @ bs). instr_code (m_ILRewriter w') x = instr_code (m_ILRewriter w) x) \<and>
       rw_rest (m_ILRewriter w') = rw_rest (m_ILRewriter w)"
    by (intro exI [of _ "w\<lparr>m_ILRewriter := rw'\<rparr>"] exI [of _ "[v]"]) (simp add: insert_instr_def)
qed

lemma inserts_nothing [inserts]: "inserts Some []"
  unfolding inserts_def by (auto intro!: exI [of _ "[]"])

lemma inserts_bind:
  assumes f: "inserts f is" and g: "inserts g js"
  shows "inserts (\<lambda>w. f w \<bind> g) (is @ js)"
  unfolding inserts_def
proof (intro allI impI)
  fix w :: ILRewriterWrapper and as bs
  assume l: "il_list (m_ILRewriter w) (as @ bs)" and p: "m_ILInstr w = hd (bs @ [m_IL])"
  obtain w1 ns where one: "f w = Some w1" "m_ILInstr w1 = m_ILInstr w" "il_list (m_ILRewriter w1) (as @ ns @ bs)"
      "map (instr_code (m_ILRewriter w1)) ns = map Some is"
      "\<And>x. x \<in> set (as @ bs) \<Longrightarrow> instr_code (m_ILRewriter w1) x = instr_code (m_ILRewriter w) x"
      "rw_rest (m_ILRewriter w1) = rw_rest (m_ILRewriter w)"
    by (rule insertsD [OF f l p]) blast
  have l1: "il_list (m_ILRewriter w1) ((as @ ns) @ bs)" using one(3) by simp
  have p1: "m_ILInstr w1 = hd (bs @ [m_IL])" using one(2) p by simp
  obtain w2 ms where two: "g w1 = Some w2" "m_ILInstr w2 = m_ILInstr w1" "il_list (m_ILRewriter w2) ((as @ ns) @ ms @ bs)"
      "map (instr_code (m_ILRewriter w2)) ms = map Some js"
      "\<And>x. x \<in> set ((as @ ns) @ bs) \<Longrightarrow> instr_code (m_ILRewriter w2) x = instr_code (m_ILRewriter w1) x"
      "rw_rest (m_ILRewriter w2) = rw_rest (m_ILRewriter w1)"
    by (rule insertsD [OF g l1 p1]) blast
  have "map (instr_code (m_ILRewriter w2)) ns = map Some is"
    unfolding one(4) [symmetric] using two(5) by (intro map_cong) auto
  then show "\<exists>w' ns. (f w \<bind> g) = Some w' \<and> m_ILInstr w' = m_ILInstr w \<and>
       il_list (m_ILRewriter w') (as @ ns @ bs) \<and> map (instr_code (m_ILRewriter w')) ns = map Some (is @ js) \<and>
       (\<forall>x \<in> set (as @ bs). instr_code (m_ILRewriter w') x = instr_code (m_ILRewriter w) x) \<and>
       rw_rest (m_ILRewriter w') = rw_rest (m_ILRewriter w)"
    using one two by (intro exI [of _ w2] exI [of _ "ns @ ms"]) auto
qed

text \<open>The constant an \<open>ldc\<close> instruction loads, and the argument an \<open>ldarg\<close> loads.\<close>

definition loaded_constant :: "opcode \<times> operand \<Rightarrow> int option" where
  "loaded_constant i = (case snd i of
     Target t \<Rightarrow> None
   | Bits b \<Rightarrow>
       if CEE_LDC_I4_0 \<le> fst i \<and> fst i \<le> CEE_LDC_I4_0 + 8 then Some (uint (fst i - CEE_LDC_I4_0))
       else if fst i = CEE_LDC_I4_S then Some (sint (ucast b :: byte))
       else if fst i = CEE_LDC_I4 then Some (sint (ucast b :: u32))
       else if fst i = CEE_LDC_I8 then Some (sint b)
       else None)"

definition loaded_argument :: "opcode \<times> operand \<Rightarrow> nat option" where
  "loaded_argument i = (case snd i of
     Target t \<Rightarrow> None
   | Bits b \<Rightarrow>
       if CEE_LDARG_0 \<le> fst i \<and> fst i \<le> CEE_LDARG_3 then Some (unat (fst i - CEE_LDARG_0))
       else if fst i = CEE_LDARG_S then Some (unat (ucast b :: byte))
       else if fst i = CEE_LDARG then Some (unat (ucast b :: u16))
       else None)"

definition load_int32_code :: "u32 \<Rightarrow> opcode \<times> operand" where
  "load_int32_code value =
     (if 0 \<le> sint value \<and> sint value \<le> 8 then (CEE_LDC_I4_0 + value, Bits 0)
      else if - 128 \<le> sint value \<and> sint value \<le> 127 then (CEE_LDC_I4_S, arg8 (ucast value))
      else (CEE_LDC_I4, arg32 value))"

definition load_argument_code :: "u16 \<Rightarrow> opcode \<times> operand" where
  "load_argument_code index =
     (if index \<le> 3 then (CEE_LDARG_0 + ucast index, Bits 0)
      else if index \<le> 255 then (CEE_LDARG_S, arg8 (ucast index))
      else (CEE_LDARG, arg16 index))"

lemma wrap_signed:
  fixes u m :: int
  assumes "0 \<le> u" "u < 2 * m"
  shows "(u + m) mod (2 * m) - m = (if u < m then u else u - 2 * m)"
proof (cases "u < m")
  case False
  have "u + m = u - m + 2 * m" by simp
  then have "(u + m) mod (2 * m) = (u - m + 2 * m) mod (2 * m)" by (rule arg_cong)
  also have "\<dots> = (u - m) mod (2 * m)" by (rule mod_add_self2)
  also have "\<dots> = u - m" using False assms by (intro mod_pos_pos_trivial) simp_all
  finally show ?thesis using False by simp
qed (use assms in simp)

lemma sint_u32: "sint (v :: u32) = (if uint v < 2 ^ 31 then uint v else uint v - 2 ^ 32)"
  using wrap_signed [of "uint v" "2 ^ 31"] uint_lt2p [of v]
  by (simp add: sint_uint signed_take_bit_eq_take_bit_shift take_bit_eq_mod)

lemma sint_byte: "sint (b :: byte) = (if uint b < 128 then uint b else uint b - 256)"
  using wrap_signed [of "uint b" 128] uint_lt2p [of b]
  by (simp add: sint_uint signed_take_bit_eq_take_bit_shift take_bit_eq_mod)

lemma small_int32:
  assumes "0 \<le> sint (v :: u32)" "sint v \<le> 8"
  shows "unat v \<le> 8" "uint v = sint v"
proof -
  show u: "uint v = sint v" using assms uint_lt2p [of v] unfolding sint_u32 by (auto split: if_splits)
  with assms(2) show "unat v \<le> 8" by (simp add: unat_eq_nat_uint)
qed

lemma sint_truncated:
  assumes "- 128 \<le> sint (v :: u32)" "sint v \<le> 127"
  shows "sint (ucast v :: byte) = sint v"
proof -
  have u: "uint (ucast v :: byte) = uint v mod 256" by (simp add: unsigned_ucast_eq take_bit_eq_mod)
  show ?thesis
  proof (cases "uint v < 2 ^ 31")
    case True
    then show ?thesis using assms by (simp add: sint_u32 sint_byte u)
  next
    case False
    then have r: "2 ^ 32 - 128 \<le> uint v" "uint v < 2 ^ 32" "sint v = uint v - 2 ^ 32"
      using assms uint_lt2p [of v] by (simp_all add: sint_u32)
    have "uint v mod 256 = (uint v - (2 ^ 32 - 256) + (2 ^ 24 - 1) * 256) mod 256" by simp
    also have "\<dots> = (uint v - (2 ^ 32 - 256)) mod 256" by (rule mod_mult_self1)
    also have "\<dots> = uint v - (2 ^ 32 - 256)" using r by (simp add: mod_pos_pos_trivial)
    finally show ?thesis using r by (simp add: sint_byte u)
  qed
qed

lemma loaded_constant_int32: "loaded_constant (load_int32_code v) = Some (sint v)"
proof -
  consider "0 \<le> sint v \<and> sint v \<le> 8" | "\<not> (0 \<le> sint v \<and> sint v \<le> 8)" "- 128 \<le> sint v \<and> sint v \<le> 127"
    | "\<not> (0 \<le> sint v \<and> sint v \<le> 8)" "\<not> (- 128 \<le> sint v \<and> sint v \<le> 127)" by blast
  then show ?thesis
  proof cases
    case 1
    note u = small_int32 [OF conjunct1 [OF 1] conjunct2 [OF 1]]
    have "unat (CEE_LDC_I4_0 + v) = 22 + unat v" using u(1) by (simp add: unat_word_ariths)
    then have "CEE_LDC_I4_0 \<le> CEE_LDC_I4_0 + v \<and> CEE_LDC_I4_0 + v \<le> CEE_LDC_I4_0 + 8"
      using u(1) by (simp add: word_le_nat_alt)
    then show ?thesis using 1 u(2) by (simp add: load_int32_code_def loaded_constant_def)
  next
    case 2
    then have c: "load_int32_code v = (CEE_LDC_I4_S, arg8 (ucast v))"
      unfolding load_int32_code_def by (simp only: if_False if_True simp_thms)
    have "(ucast (ucast (ucast v :: byte) :: u64) :: byte) = ucast v"
      by (rule bit_word_eqI) (simp add: bit_simps)
    then show ?thesis using 2(2) by (simp add: c loaded_constant_def arg8_def sint_truncated)
  next
    case 3
    then have c: "load_int32_code v = (CEE_LDC_I4, arg32 v)"
      unfolding load_int32_code_def by (simp only: if_False)
    have "(ucast (ucast v :: u64) :: u32) = v" by (rule bit_word_eqI) (simp add: bit_simps)
    then show ?thesis by (simp add: c loaded_constant_def arg32_def)
  qed
qed

lemma loaded_argument_code: "loaded_argument (load_argument_code n) = Some (unat n)"
proof -
  consider "n \<le> 3" | "\<not> n \<le> 3" "n \<le> 255" | "\<not> n \<le> 3" "\<not> n \<le> 255" by blast
  then show ?thesis
  proof cases
    case 1
    then have "n \<in> {0, 1, 2, 3}" by (auto simp: word_le_nat_alt word_unat_eq_iff)
    then show ?thesis by (auto simp: load_argument_code_def loaded_argument_def)
  next
    case 2
    have "unat n < 256" using 2(2) by (simp add: word_le_nat_alt)
    then have "unat (ucast n :: byte) = unat n" by (simp add: unsigned_ucast_eq take_bit_nat_eq_self)
    moreover have "(ucast (ucast (ucast n :: byte) :: u64) :: byte) = ucast n"
      by (rule bit_word_eqI) (simp add: bit_simps)
    ultimately show ?thesis using 2 by (simp add: load_argument_code_def loaded_argument_def arg8_def)
  next
    case 3
    have "(ucast (ucast n :: u64) :: u16) = n" by (rule bit_word_eqI) (simp add: bit_simps)
    then show ?thesis using 3 by (simp add: load_argument_code_def loaded_argument_def arg16_def)
  qed
qed

lemma inserts_LoadInt32 [inserts]: "inserts (LoadInt32 v) [load_int32_code v]"
proof -
  have "unat (CEE_LDC_I4_0 + v) < 296" if "0 \<le> sint v" "sint v \<le> 8"
    using small_int32(1) [OF that] by (simp add: unat_word_ariths)
  then show ?thesis by (auto simp: LoadInt32_def load_int32_code_def intro!: inserts_instr)
qed

lemma inserts_LoadArgument [inserts]: "inserts (LoadArgument n) [load_argument_code n]"
proof -
  have "unat (CEE_LDARG_0 + ucast n) < 296" if "n \<le> 3"
  proof -
    have "n \<in> {0, 1, 2, 3}" using that by (auto simp: word_le_nat_alt word_unat_eq_iff)
    then show ?thesis by auto
  qed
  then show ?thesis by (auto simp: LoadArgument_def load_argument_code_def intro!: inserts_instr)
qed

lemma inserts_simple [inserts]:
  "inserts Pop [(CEE_POP, Bits 0)]" "inserts LoadNull [(CEE_LDNULL, Bits 0)]"
  "inserts Duplicate [(CEE_DUP, Bits 0)]" "inserts EndLoadValueIntoArray [(CEE_STELEM_REF, Bits 0)]"
  "inserts (LoadInt64 n) [(CEE_LDC_I8, arg64 n)]" "inserts (Cast tk) [(CEE_CASTCLASS, arg32 tk)]"
  "inserts (Box tk) [(CEE_BOX, arg32 tk)]" "inserts (UnboxAny tk) [(CEE_UNBOX_ANY, arg32 tk)]"
  "inserts (CallMember tk virt) [(if virt then CEE_CALLVIRT else CEE_CALL, arg32 tk)]"
  unfolding Pop_def LoadNull_def Duplicate_def EndLoadValueIntoArray_def LoadInt64_def Cast_def Box_def
    UnboxAny_def CallMember_def
  by (rule inserts_instr; simp)+

lemma inserts_CreateArray [inserts]:
  "inserts (CreateArray tk n) [load_int32_code n, (CEE_NEWARR, arg32 tk)]"
  using inserts_bind [OF inserts_LoadInt32 inserts_instr, of CEE_NEWARR n "arg32 tk"]
  by (simp add: CreateArray_def [abs_def])

lemma inserts_BeginLoadValueIntoArray [inserts]:
  "inserts (BeginLoadValueIntoArray n) [(CEE_DUP, Bits 0), load_int32_code n]"
  using inserts_bind [OF inserts_simple(3) inserts_LoadInt32, of n]
  by (simp add: BeginLoadValueIntoArray_def [abs_def])


section \<open>Replacing a called method\<close>

text \<open>What a replacement makes of one instruction.\<close>

definition replaced :: "mdToken \<Rightarrow> mdToken \<Rightarrow> opcode \<times> operand \<Rightarrow> opcode \<times> operand" where
  "replaced old_ref new_ref i =
     (if fst i \<in> {CEE_CALL, CEE_CALLVIRT} \<and> m_Arg32 (snd i) = Some old_ref
      then (CEE_CALL, the (set_Arg32 new_ref (snd i))) else i)"

definition calls :: "mdToken \<Rightarrow> opcode \<times> operand \<Rightarrow> bool" where
  "calls old_ref i \<longleftrightarrow> fst i \<in> {CEE_CALL, CEE_CALLVIRT} \<and> m_Arg32 (snd i) = Some old_ref"

lemma replace_calls_spec:
  "map (instr_code rw) ps = map Some is \<Longrightarrow> distinct ps \<Longrightarrow> list_all operand_ok is \<Longrightarrow> il_list rw xs \<Longrightarrow>
   \<exists>rw'. replace_calls old_ref new_ref ps b rw = Some (b \<or> list_ex (calls old_ref) is, rw') \<and> il_list rw' xs \<and>
     map (instr_code rw') ps = map Some (map (replaced old_ref new_ref) is) \<and>
     (\<forall>x. x \<notin> set ps \<longrightarrow> instr_code rw' x = instr_code rw x) \<and> m_maxStack rw' = m_maxStack rw \<and> rw_rest rw' = rw_rest rw"
proof (induction ps arbitrary: "is" b rw)
  case (Cons p ps)
  then obtain i js where i: "is = i # js" by (cases "is") auto
  have code: "instr_code rw p = Some i" "map (instr_code rw) ps = map Some js" and p: "p \<notin> set ps" "distinct ps"
    and ok: "operand_ok i" "list_all operand_ok js"
    using Cons.prems by (auto simp: i)
  obtain ir where ir: "il_heap rw p = Some ir" "i = (m_opcode ir, m_operand ir)"
    using code(1) by (auto simp: instr_code_def)
  have call: "op_flags CEE_CALL = 4" "op_flags CEE_CALLVIRT = 4" by code_simp+
  show ?case
  proof (cases "calls old_ref i")
    case False
    have bits: "\<exists>v. m_Arg32 (m_operand ir) = Some v" if "m_opcode ir \<in> {CEE_CALL, CEE_CALLVIRT}"
      using ok(1) call that ir(2) by (cases "m_operand ir") (auto simp: operand_ok_def)
    have "replace_calls old_ref new_ref (p # ps) b rw = replace_calls old_ref new_ref ps b rw"
      using False ir bits by (auto simp: calls_def get_instr_def)
    moreover have "replaced old_ref new_ref i = i" using False by (auto simp: calls_def replaced_def)
    ultimately show ?thesis
      using Cons.IH [OF code(2) p(2) ok(2) Cons.prems(4), of b] p(1) code(1) False by (auto simp: i)
  next
    case True
    then obtain v where v: "m_operand ir = Bits v" using ir(2) by (cases "m_operand ir") (auto simp: calls_def)
    define x where "x = the (set_Arg32 new_ref (Bits v))"
    let ?f = "\<lambda>i :: ILInstr. i\<lparr>m_opcode := CEE_CALL, m_operand := x\<rparr>"
    define rw1 where "rw1 = rw\<lparr>il_heap := modify (il_heap rw) p ?f\<rparr>"
    have u: "upd_instr p ?f rw = Some rw1" unfolding rw1_def using ir(1) by (intro upd_instr_eq) simp
    have l1: "il_list rw1 xs" unfolding rw1_def using Cons.prems(4) by (intro modify_il_list) simp_all
    have set: "set_Arg32 new_ref (Bits v) = Some x" by (simp add: x_def)
    have step: "replace_calls old_ref new_ref (p # ps) b rw = replace_calls old_ref new_ref ps True rw1"
      using True ir v u set by (auto simp: calls_def get_instr_def)
    have c1: "instr_code rw1 p = Some (replaced old_ref new_ref i)" "y \<noteq> p \<Longrightarrow> instr_code rw1 y = instr_code rw y" for y
      using True ir v by (auto simp: calls_def replaced_def rw1_def instr_code_def x_def)
    have "map (instr_code rw1) ps = map Some js"
      unfolding code(2) [symmetric] using c1(2) p(1) by (intro map_cong) (simp, metis)
    from Cons.IH [OF this p(2) ok(2) l1, of True] obtain rw' where IH:
        "replace_calls old_ref new_ref ps True rw1 = Some (True, rw')" "il_list rw' xs"
        "map (instr_code rw') ps = map Some (map (replaced old_ref new_ref) js)"
        "\<forall>x. x \<notin> set ps \<longrightarrow> instr_code rw' x = instr_code rw1 x" "m_maxStack rw' = m_maxStack rw1" "rw_rest rw' = rw_rest rw1"
      by auto
    show ?thesis
      unfolding step using IH True p(1) c1 by (auto simp: i rw1_def rw_rest_def)
  qed
qed simp


section \<open>Contracts\<close>

lemma sample_wrapper:
  "il_list (m_ILRewriter \<lparr>m_ILRewriter = sample_start, m_ILInstr = m_IL\<rparr>) ([] @ [])"
  "m_ILInstr \<lparr>m_ILRewriter = sample_start, m_ILInstr = m_IL\<rparr> = hd ([] @ [m_IL])"
  using sample_start_il_list by simp_all

text \<open>
  LoadInt32 and LoadArgument insert exactly one instruction in front of the position, for
  every value and every index, and whichever short form is chosen, the instruction loads that
  value (sign included) or that argument; all other instructions are left as they are.
\<close>

theorem load_instructions:
  assumes "il_list (m_ILRewriter w) (as @ bs)" "m_ILInstr w = hd (bs @ [m_IL])"
  shows "(\<exists>w' n c. LoadInt32 v w = Some w' \<and> il_list (m_ILRewriter w') (as @ n # bs) \<and>
      instr_code (m_ILRewriter w') n = Some c \<and> loaded_constant c = Some (sint v) \<and>
      (\<forall>x \<in> set (as @ bs). instr_code (m_ILRewriter w') x = instr_code (m_ILRewriter w) x)) \<and>
    (\<exists>w' n c. LoadArgument k w = Some w' \<and> il_list (m_ILRewriter w') (as @ n # bs) \<and>
      instr_code (m_ILRewriter w') n = Some c \<and> loaded_argument c = Some (unat k) \<and>
      (\<forall>x \<in> set (as @ bs). instr_code (m_ILRewriter w') x = instr_code (m_ILRewriter w) x))"
proof -
  have one: "\<exists>w' n. f w = Some w' \<and> il_list (m_ILRewriter w') (as @ n # bs) \<and>
      instr_code (m_ILRewriter w') n = Some c \<and>
      (\<forall>x \<in> set (as @ bs). instr_code (m_ILRewriter w') x = instr_code (m_ILRewriter w) x)"
    if "inserts f [c]" for f c
    by (rule insertsD [OF that assms]) (auto simp: Cons_eq_map_conv)
  from one [OF inserts_LoadInt32] loaded_constant_int32 [of v]
    one [OF inserts_LoadArgument] loaded_argument_code [of k]
  show ?thesis by blast
qed

theorem load_instructions_witness:
  "(\<exists>w' n c. LoadInt32 (- 5) \<lparr>m_ILRewriter = sample_start, m_ILInstr = m_IL\<rparr> = Some w' \<and>
      instr_code (m_ILRewriter w') n = Some c \<and> loaded_constant c = Some (- 5)) \<and>
   (\<exists>w' n c. LoadArgument 300 \<lparr>m_ILRewriter = sample_start, m_ILInstr = m_IL\<rparr> = Some w' \<and>
      instr_code (m_ILRewriter w') n = Some c \<and> loaded_argument c = Some 300)"
proof -
  have "sint (- 5 :: u32) = - 5" "unat (300 :: u16) = 300" by simp_all
  with load_instructions [OF sample_wrapper, where v = "- 5" and k = 300] show ?thesis by metis
qed

text \<open>
  ReplaceMethodCalls redirects every call of the old method and nothing else: each call or
  callvirt of it becomes a call of the new one, in place, every other instruction, the order
  of the list and the stack estimate are untouched, and the result tells whether there was one.
\<close>

theorem ReplaceMethodCalls_replaces:
  assumes "il_list (m_ILRewriter w) xs" "map (instr_code (m_ILRewriter w)) xs = map Some is"
    "list_all operand_ok is"
  shows "\<exists>w'. ReplaceMethodCalls old_ref new_ref w = Some (list_ex (calls old_ref) is, w') \<and>
    il_list (m_ILRewriter w') xs \<and> m_ILInstr w' = m_ILInstr w \<and>
    map (instr_code (m_ILRewriter w')) xs = map Some (map (replaced old_ref new_ref) is) \<and>
    m_maxStack (m_ILRewriter w') = m_maxStack (m_ILRewriter w)"
proof -
  have "distinct xs" using assms(1) by (simp add: il_list_def)
  from replace_calls_spec [OF assms(2) this assms(3,1), of old_ref new_ref False]
  obtain rw' where "replace_calls old_ref new_ref xs False (m_ILRewriter w) = Some (list_ex (calls old_ref) is, rw')"
      "il_list rw' xs" "map (instr_code rw') xs = map Some (map (replaced old_ref new_ref) is)"
      "m_maxStack rw' = m_maxStack (m_ILRewriter w)" by auto
  then show ?thesis
    using GetILList_il_list [OF assms(1)]
    by (intro exI [of _ "w\<lparr>m_ILRewriter := rw'\<rparr>"]) (simp add: ReplaceMethodCalls_def)
qed

theorem ReplaceMethodCalls_replaces_witness:
  "\<exists>w w' xs. il_list (m_ILRewriter w) xs \<and>
    map (instr_code (m_ILRewriter w)) xs = map Some [(CEE_CALLVIRT, arg32 0x0A000001), (CEE_RET, Bits 0)] \<and>
    ReplaceMethodCalls 0x0A000001 0x0A000002 w = Some (True, w') \<and>
    map (instr_code (m_ILRewriter w')) xs = map Some [(CEE_CALL, arg32 0x0A000002), (CEE_RET, Bits 0)]"
proof -
  let ?is = "[(CEE_CALLVIRT, arg32 0x0A000001), (CEE_RET, Bits 0)] :: (opcode \<times> operand) list"
  have ok: "list_all operand_ok ?is" by code_simp
  then have "list_all code_ok ?is" by (simp add: stack_pushes_defined operand_ok_def)
  from il.emit_all_append [OF sample_start_il_list this]
  obtain ws rw where e: "il_list rw ws" "map (instr_code rw) ws = map Some ?is" by auto
  define w where "w = \<lparr>m_ILRewriter = rw, m_ILInstr = m_IL\<rparr>"
  have w: "il_list (m_ILRewriter w) ws" "map (instr_code (m_ILRewriter w)) ws = map Some ?is"
    using e by (simp_all add: w_def)
  have c: "list_ex (calls 0x0A000001) ?is = True" by code_simp
  have r: "map (replaced 0x0A000001 0x0A000002) ?is = [(CEE_CALL, arg32 0x0A000002), (CEE_RET, Bits 0)]" by code_simp
  obtain w' where "ReplaceMethodCalls 0x0A000001 0x0A000002 w = Some (True, w')"
      "map (instr_code (m_ILRewriter w')) ws = map Some [(CEE_CALL, arg32 0x0A000002), (CEE_RET, Bits 0)]"
    using ReplaceMethodCalls_replaces [OF w ok, of "0x0A000001" "0x0A000002"] unfolding c r by blast
  with w show ?thesis by blast
qed

end
