(* ===== verification/Mini_Utf.thy ===== *)
theory Mini_Utf
  imports Prelude "HOL-Library.Monad_Syntax"
begin

text \<open>
  The conversions of miniutf.cpp between UTF-8, UTF-16 and UTF-32, and the \<open>ToString\<close> and
  \<open>ToWSTRING\<close> of string.cpp built on them. Strings are lists of code units; \<open>s[i]\<close> is the
  unit at \<open>i\<close>, the terminating zero at the length, and \<open>None\<close> (undefined) behind it.
  A \<open>char\<close> is signed, so it is sign extended where the source widens it.
\<close>

section \<open>Encoding\<close>

definition utf8_encode :: "u32 \<Rightarrow> byte list \<Rightarrow> byte list" where
  "utf8_encode pt out =
     (if pt < 0x80 then out @ [ucast pt]
      else if pt < 0x800 then
        out @ [ucast (drop_bit 6 pt OR 0xC0), ucast ((pt AND 0x3F) OR 0x80)]
      else if pt < 0x10000 then
        out @ [ucast (drop_bit 12 pt OR 0xE0), ucast ((drop_bit 6 pt AND 0x3F) OR 0x80),
               ucast ((pt AND 0x3F) OR 0x80)]
      else if pt < 0x110000 then
        out @ [ucast (drop_bit 18 pt OR 0xF0), ucast ((drop_bit 12 pt AND 0x3F) OR 0x80),
               ucast ((drop_bit 6 pt AND 0x3F) OR 0x80), ucast ((pt AND 0x3F) OR 0x80)]
      else out @ [0xEF, 0xBF, 0xBD])"

definition utf16_encode :: "u32 \<Rightarrow> u16 list \<Rightarrow> u16 list" where
  "utf16_encode pt out =
     (if pt < 0x10000 then out @ [ucast pt]
      else if pt < 0x110000 then
        out @ [ucast (drop_bit 10 (pt - 0x10000) + 0xD800), ucast ((pt AND 0x3FF) + 0xDC00)]
      else out @ [0xFFFD])"

section \<open>Decoding\<close>

definition unit_at :: "'a::zero list \<Rightarrow> nat \<Rightarrow> 'a option" where
  "unit_at s i = (if i < length s then Some (s ! i) else if i = length s then Some 0 else None)"

text \<open>\<open>offset_pt\<close>; the inner \<open>None\<close> is \<open>invalid_pt\<close>.\<close>

type_synonym offset_pt = "(nat \<times> u32) option"

definition continuation :: "byte \<Rightarrow> bool" where
  "continuation b \<longleftrightarrow> (scast b :: u32) AND 0xC0 = 0x80"

definition low6 :: "byte \<Rightarrow> u32" where
  "low6 b = scast b AND 0x3F"

definition utf8_decode_check :: "byte list \<Rightarrow> nat \<Rightarrow> offset_pt option" where
  "utf8_decode_check str i = do {
     c0 \<leftarrow> unit_at str i;
     let b0 = (ucast c0 :: u32);
     if b0 < 0x80 then Some (Some (1, b0))
     else if b0 < 0xC0 then Some None
     else if b0 < 0xE0 then do {
       c1 \<leftarrow> unit_at str (i + 1);
       if \<not> continuation c1 then Some None
       else
         (let pt = push_bit 6 (b0 AND 0x1F) OR low6 c1
          in Some (if pt < 0x80 then None else Some (2, pt))) }
     else if b0 < 0xF0 then do {
       c1 \<leftarrow> unit_at str (i + 1);
       if \<not> continuation c1 then Some None
       else do {
         c2 \<leftarrow> unit_at str (i + 2);
         if \<not> continuation c2 then Some None
         else
           (let pt = push_bit 12 (b0 AND 0x0F) OR push_bit 6 (low6 c1) OR low6 c2
            in Some (if pt < 0x800 then None else Some (3, pt))) } }
     else if b0 < 0xF8 then do {
       c1 \<leftarrow> unit_at str (i + 1);
       if \<not> continuation c1 then Some None
       else do {
         c2 \<leftarrow> unit_at str (i + 2);
         if \<not> continuation c2 then Some None
         else do {
           c3 \<leftarrow> unit_at str (i + 3);
           if \<not> continuation c3 then Some None
           else
             (let pt = push_bit 18 (b0 AND 0x0F) OR push_bit 12 (low6 c1) OR push_bit 6 (low6 c2) OR low6 c3
              in Some (if pt < 0x10000 \<or> pt \<ge> 0x110000 then None else Some (4, pt))) } } }
     else Some None
   }"

definition is_high_surrogate :: "u16 \<Rightarrow> bool" where
  "is_high_surrogate c \<longleftrightarrow> 0xD800 \<le> c \<and> c < 0xDC00"

definition is_low_surrogate :: "u16 \<Rightarrow> bool" where
  "is_low_surrogate c \<longleftrightarrow> 0xDC00 \<le> c \<and> c < 0xE000"

definition utf16_decode_check :: "u16 list \<Rightarrow> nat \<Rightarrow> offset_pt option" where
  "utf16_decode_check str i = do {
     c0 \<leftarrow> unit_at str i;
     pair \<leftarrow> (if is_high_surrogate c0 then map_option is_low_surrogate (unit_at str (i + 1)) else Some False);
     if pair then do {
       c1 \<leftarrow> unit_at str (i + 1);
       Some (Some (2, (push_bit 10 (ucast c0 - 0xD800) OR (ucast c1 - 0xDC00)) + 0x10000)) }
     else if is_high_surrogate c0 \<or> is_low_surrogate c0 then Some None
     else Some (Some (1, ucast c0))
   }"

definition utf32_decode_check :: "u32 list \<Rightarrow> nat \<Rightarrow> offset_pt option" where
  "utf32_decode_check str i = do {
     c \<leftarrow> unit_at str i;
     Some (if c < 0x110000 then Some (1, c) else None)
   }"

text \<open>
  The wrappers: the code point, the new position, and whether the replacement flag is set.
\<close>

definition utf8_decode :: "byte list \<Rightarrow> nat \<Rightarrow> (u32 \<times> nat \<times> bool) option" where
  "utf8_decode str i = map_option (\<lambda>res. case res of None \<Rightarrow> (0xFFFD, i + 1, True)
     | Some (offset, pt) \<Rightarrow> (pt, i + offset, False)) (utf8_decode_check str i)"

definition utf16_decode :: "u16 list \<Rightarrow> nat \<Rightarrow> (u32 \<times> nat \<times> bool) option" where
  "utf16_decode str i = map_option (\<lambda>res. case res of None \<Rightarrow> (0xFFFD, i + 1, True)
     | Some (offset, pt) \<Rightarrow> (pt, i + offset, False)) (utf16_decode_check str i)"

section \<open>Checking and conversion\<close>

text \<open>The loops over \<open>i\<close>. Every turn moves on, so the length of the string bounds them.\<close>

fun check_helper :: "nat \<Rightarrow> ('a list \<Rightarrow> nat \<Rightarrow> offset_pt option) \<Rightarrow> 'a list \<Rightarrow> nat \<Rightarrow> bool option" where
  "check_helper 0 func str i = (if i < length str then None else Some True)"
| "check_helper (Suc n) func str i =
     (if \<not> i < length str then Some True
      else do {
        res \<leftarrow> func str i;
        case res of None \<Rightarrow> Some False | Some (offset, pt) \<Rightarrow> check_helper n func str (i + offset)
      })"

definition utf8_check :: "byte list \<Rightarrow> bool option" where
  "utf8_check str = check_helper (length str) utf8_decode_check str 0"

definition utf16_check :: "u16 list \<Rightarrow> bool option" where
  "utf16_check str = check_helper (length str) utf16_decode_check str 0"

definition utf32_check :: "u32 list \<Rightarrow> bool option" where
  "utf32_check str = check_helper (length str) utf32_decode_check str 0"

fun convert :: "nat \<Rightarrow> ('a list \<Rightarrow> nat \<Rightarrow> (u32 \<times> nat \<times> bool) option) \<Rightarrow> (u32 \<Rightarrow> 'b list \<Rightarrow> 'b list) \<Rightarrow>
    'a list \<Rightarrow> nat \<Rightarrow> 'b list \<Rightarrow> 'b list option" where
  "convert 0 decode encode str i out = (if i < length str then None else Some out)"
| "convert (Suc n) decode encode str i out =
     (if \<not> i < length str then Some out
      else do {
        (pt, i, flag) \<leftarrow> decode str i;
        convert n decode encode str i (encode pt out)
      })"

definition to_utf32 :: "byte list \<Rightarrow> u32 list option" where
  "to_utf32 str = convert (length str) utf8_decode (\<lambda>pt out. out @ [pt]) str 0 []"

definition to_utf16 :: "byte list \<Rightarrow> u16 list option" where
  "to_utf16 str = convert (length str) utf8_decode utf16_encode str 0 []"

definition to_utf8 :: "u16 list \<Rightarrow> byte list option" where
  "to_utf8 str = convert (length str) utf16_decode utf8_encode str 0 []"

definition to_utf8_32 :: "u32 list \<Rightarrow> byte list" where
  "to_utf8_32 str = foldl (\<lambda>out pt. utf8_encode pt out) [] str"

text \<open>\<open>c_str()\<close> taken as a C string ends at the first zero.\<close>

definition c_str :: "'a::zero list \<Rightarrow> 'a list" where
  "c_str s = takeWhile (\<lambda>c. c \<noteq> 0) s"

definition ToString :: "u16 list \<Rightarrow> byte list option" where
  "ToString wstr = to_utf8 (c_str wstr)"

definition ToWSTRING :: "byte list \<Rightarrow> u16 list option" where
  "ToWSTRING str = map_option c_str (to_utf16 str)"

section \<open>No read behind the terminator\<close>

lemma unit_at_Some: "i \<le> length s \<Longrightarrow> \<exists>c. unit_at s i = Some c"
  by (auto simp: unit_at_def)

lemma unit_at_nonzero: "unit_at s i = Some c \<Longrightarrow> c \<noteq> 0 \<Longrightarrow> i < length s"
  by (auto simp: unit_at_def split: if_split_asm)

lemma continuation_inside: "unit_at s i = Some c \<Longrightarrow> continuation c \<Longrightarrow> i < length s"
  by (rule unit_at_nonzero) (auto simp: continuation_def)

lemma utf8_decode_check_total:
  assumes "i < length s"
  shows "\<exists>r. utf8_decode_check s i = Some r \<and> (\<forall>n pt. r = Some (n, pt) \<longrightarrow> 0 < n \<and> i + n \<le> length s)"
proof -
  obtain c0 where c0: "unit_at s i = Some c0" using unit_at_Some [of i s] assms by auto
  obtain c1 where c1: "unit_at s (i + 1) = Some c1" using unit_at_Some [of "i + 1" s] assms by auto
  note inside = continuation_inside [OF c1]
  have two: "continuation c1 \<Longrightarrow> \<exists>c2. unit_at s (i + 2) = Some c2" using inside by (auto intro!: unit_at_Some)
  have three: "\<exists>c3. unit_at s (i + 3) = Some c3" if "unit_at s (i + 2) = Some c2" "continuation c2" for c2
    using continuation_inside [OF that] by (auto intro!: unit_at_Some)
  have four: "i + 3 < length s" if "unit_at s (i + 3) = Some c3" "continuation c3" for c3
    using continuation_inside [OF that] by simp
  show ?thesis
  proof (cases "continuation c1")
    case False
    then show ?thesis using c0 c1 assms by (auto simp: utf8_decode_check_def Let_def)
  next
    case True
    then obtain c2 where c2: "unit_at s (i + 2) = Some c2" using two by blast
    show ?thesis
    proof (cases "continuation c2")
      case False
      then show ?thesis using c0 c1 c2 True assms inside by (auto simp: utf8_decode_check_def Let_def)
    next
      case t2: True
      then obtain c3 where c3: "unit_at s (i + 3) = Some c3" using three [OF c2] by blast
      show ?thesis
        using c0 c1 c2 c3 True t2 assms inside continuation_inside [OF c2 t2] four [OF c3]
        by (auto simp: utf8_decode_check_def Let_def)
    qed
  qed
qed

lemma utf16_decode_check_total:
  assumes "i < length s"
  shows "\<exists>r. utf16_decode_check s i = Some r \<and> (\<forall>n pt. r = Some (n, pt) \<longrightarrow> 0 < n \<and> i + n \<le> length s)"
proof -
  obtain c0 where c0: "unit_at s i = Some c0" using unit_at_Some [of i s] assms by auto
  obtain c1 where c1: "unit_at s (i + 1) = Some c1" using unit_at_Some [of "i + 1" s] assms by auto
  have "i + 1 < length s" if "is_low_surrogate c1"
    by (rule unit_at_nonzero [OF c1]) (use that in \<open>auto simp: is_low_surrogate_def\<close>)
  then show ?thesis using c0 c1 assms by (auto simp: utf16_decode_check_def)
qed


section \<open>Bytes of the code\<close>

definition utf8_bytes :: "u32 \<Rightarrow> byte list" where
  "utf8_bytes pt = utf8_encode pt []"

definition utf16_units :: "u32 \<Rightarrow> u16 list" where
  "utf16_units pt = utf16_encode pt []"

lemma utf8_encode_append: "utf8_encode pt out = out @ utf8_bytes pt"
  by (simp add: utf8_encode_def utf8_bytes_def)

lemma utf16_encode_append: "utf16_encode pt out = out @ utf16_units pt"
  by (simp add: utf16_encode_def utf16_units_def)

text \<open>The class of a leading byte is a matter of its high bits.\<close>

lemma lead_byte:
  "(ucast b :: u32) < 0x80 \<longleftrightarrow> \<not> bit b 7"
  "(ucast b :: u32) < 0xC0 \<longleftrightarrow> \<not> (bit b 7 \<and> bit b 6)"
  "(ucast b :: u32) < 0xE0 \<longleftrightarrow> \<not> (bit b 7 \<and> bit b 6 \<and> bit b 5)"
  "(ucast b :: u32) < 0xF0 \<longleftrightarrow> \<not> (bit b 7 \<and> bit b 6 \<and> bit b 5 \<and> bit b 4)"
  "(ucast b :: u32) < 0xF8 \<longleftrightarrow> \<not> (bit b 7 \<and> bit b 6 \<and> bit b 5 \<and> bit b 4 \<and> bit b 3)" for b :: byte
  by (rule byte_all [of _ b], code_simp)+

lemma continuation_bits: "continuation b \<longleftrightarrow> bit b 7 \<and> \<not> bit b 6"
  by (rule byte_all [of _ b]) code_simp

lemma low6_ucast: "low6 b = ucast b AND 0x3F"
  unfolding low6_def by (rule u32_eqI; simp add: bit_simps)

lemma continuation_byte:
  "continuation (ucast ((x AND 0x3F) OR 0x80))" "low6 (ucast ((x AND 0x3F) OR 0x80)) = x AND 0x3F" for x :: u32
proof -
  show "continuation (ucast ((x AND 0x3F) OR 0x80))"
    by (simp add: continuation_bits bit_simps)
  show "low6 (ucast ((x AND 0x3F) OR 0x80)) = x AND 0x3F"
    unfolding low6_ucast by (rule u32_eqI; simp add: bit_simps)
qed

lemma unit_at_Cons: "unit_at (c # s) i = (if i = 0 then Some c else unit_at s (i - 1))"
  by (auto simp: unit_at_def)

lemma utf8_decode_bytes:
  assumes "pt < 0x110000"
  shows "utf8_decode_check (utf8_bytes pt @ r) 0 = Some (Some (length (utf8_bytes pt), pt))"
proof -
  have clear: "\<not> bit pt n" if "unat pt < 2 ^ k" "k \<le> n" for k n using that by (rule high_bit_clear)
  consider "pt < 0x80" | "\<not> pt < 0x80" "pt < 0x800" | "\<not> pt < 0x800" "pt < 0x10000" | "\<not> pt < 0x10000"
    by blast
  then show ?thesis
  proof cases
    case 1
    then have "unat pt < 2 ^ 7" by (simp add: word_less_nat_alt)
    from clear [OF this] have u: "ucast (ucast pt :: byte) = pt" by (intro u32_eqI) (simp_all add: bit_simps)
    with 1 show ?thesis by (simp add: utf8_bytes_def utf8_encode_def utf8_decode_check_def unit_at_Cons Let_def)
  next
    case 2
    define b where "b = (ucast (drop_bit 6 pt OR 0xC0) :: byte)"
    have h: "\<not> bit pt n" if "11 \<le> n" for n
      using 2(2) that by (intro clear [of 11]) (simp_all add: word_less_nat_alt)
    have "bit b 7" "bit b 6" "\<not> bit b 5" unfolding b_def by (simp_all add: bit_simps h)
    moreover have "push_bit 6 (ucast b AND 0x1F) OR (pt AND 0x3F) = pt"
      unfolding b_def by (rule u32_eqI; simp add: bit_simps h)
    ultimately show ?thesis
      using 2 by (simp add: utf8_bytes_def utf8_encode_def utf8_decode_check_def unit_at_Cons Let_def lead_byte
          continuation_byte b_def [symmetric])
  next
    case 3
    define b where "b = (ucast (drop_bit 12 pt OR 0xE0) :: byte)"
    have h: "\<not> bit pt n" if "16 \<le> n" for n
      using 3(2) that by (intro clear [of 16]) (simp_all add: word_less_nat_alt)
    have "\<not> pt < 0x80" using 3(1) by (simp add: word_less_nat_alt)
    moreover have "bit b 7" "bit b 6" "bit b 5" "\<not> bit b 4"
      unfolding b_def by (simp_all add: bit_simps h)
    moreover have "push_bit 12 (ucast b AND 0x0F) OR push_bit 6 (drop_bit 6 pt AND 0x3F) OR (pt AND 0x3F) = pt"
      unfolding b_def by (rule u32_eqI; simp add: bit_simps h)
    ultimately show ?thesis
      using 3 by (simp add: utf8_bytes_def utf8_encode_def utf8_decode_check_def unit_at_Cons Let_def lead_byte
          continuation_byte b_def [symmetric])
  next
    case 4
    define b where "b = (ucast (drop_bit 18 pt OR 0xF0) :: byte)"
    have h: "\<not> bit pt n" if "21 \<le> n" for n
      using assms that by (intro clear [of 21]) (simp_all add: word_less_nat_alt)
    have "\<not> pt < 0x80" "\<not> pt < 0x800" using 4 by (simp_all add: word_less_nat_alt)
    moreover have "bit b 7" "bit b 6" "bit b 5" "bit b 4" "\<not> bit b 3"
      unfolding b_def by (simp_all add: bit_simps h)
    moreover have "push_bit 18 (ucast b AND 0x0F) OR push_bit 12 (drop_bit 12 pt AND 0x3F) OR
        push_bit 6 (drop_bit 6 pt AND 0x3F) OR (pt AND 0x3F) = pt"
      unfolding b_def by (rule u32_eqI; simp add: bit_simps h)
    ultimately show ?thesis
      using 4 assms by (simp add: utf8_bytes_def utf8_encode_def utf8_decode_check_def unit_at_Cons Let_def lead_byte
          continuation_byte b_def [symmetric] linorder_not_less [symmetric])
  qed
qed


section \<open>What is read is what was written\<close>

text \<open>The first bits of the four forms, read back from the code point.\<close>

lemma utf8_bytes_decode2:
  assumes "bit c0 7" "bit c0 6" "\<not> bit c0 5" "continuation c1"
    and pt: "pt = push_bit 6 (ucast c0 AND 0x1F) OR low6 c1" "\<not> pt < 0x80"
  shows "pt < 0x110000 \<and> [c0, c1] = utf8_bytes pt"
proof -
  have "unat pt < 2 ^ 11" unfolding pt low6_ucast by (rule u32_low_bits) (simp add: bit_simps)
  then have "pt < 0x800" by (simp add: word_less_nat_alt)
  moreover have "c0 = ucast (drop_bit 6 pt OR 0xC0)" "c1 = ucast ((pt AND 0x3F) OR 0x80)"
    unfolding pt low6_ucast using assms(1-4) by (auto intro!: byte_eqI simp: continuation_bits bit_simps)
  ultimately show ?thesis using pt(2) by (auto simp: utf8_bytes_def utf8_encode_def word_less_nat_alt)
qed

lemma utf8_bytes_decode3:
  assumes "bit c0 7" "bit c0 6" "bit c0 5" "\<not> bit c0 4" "continuation c1" "continuation c2"
    and pt: "pt = push_bit 12 (ucast c0 AND 0x0F) OR push_bit 6 (low6 c1) OR low6 c2" "\<not> pt < 0x800"
  shows "pt < 0x110000 \<and> [c0, c1, c2] = utf8_bytes pt"
proof -
  have "unat pt < 2 ^ 16" unfolding pt low6_ucast by (rule u32_low_bits) (simp add: bit_simps)
  then have "pt < 0x10000" by (simp add: word_less_nat_alt)
  moreover have "c0 = ucast (drop_bit 12 pt OR 0xE0)" "c1 = ucast ((drop_bit 6 pt AND 0x3F) OR 0x80)"
      "c2 = ucast ((pt AND 0x3F) OR 0x80)"
    unfolding pt low6_ucast using assms(1-6) by (auto intro!: byte_eqI simp: continuation_bits bit_simps)
  ultimately show ?thesis using pt(2) by (auto simp: utf8_bytes_def utf8_encode_def word_less_nat_alt)
qed

lemma utf8_bytes_decode4:
  assumes "bit c0 7" "bit c0 6" "bit c0 5" "bit c0 4" "\<not> bit c0 3"
    and "continuation c1" "continuation c2" "continuation c3"
    and pt: "pt = push_bit 18 (ucast c0 AND 0x0F) OR push_bit 12 (low6 c1) OR push_bit 6 (low6 c2) OR low6 c3"
      "\<not> pt < 0x10000" "pt < 0x110000"
  shows "[c0, c1, c2, c3] = utf8_bytes pt"
proof -
  have "c0 = ucast (drop_bit 18 pt OR 0xF0)" "c1 = ucast ((drop_bit 12 pt AND 0x3F) OR 0x80)"
      "c2 = ucast ((drop_bit 6 pt AND 0x3F) OR 0x80)" "c3 = ucast ((pt AND 0x3F) OR 0x80)"
    unfolding pt low6_ucast using assms(1-8) by (auto intro!: byte_eqI simp: continuation_bits bit_simps)
  then show ?thesis using pt(2,3) by (auto simp: utf8_bytes_def utf8_encode_def word_less_nat_alt)
qed

lemma utf8_bytes_decode:
  assumes "utf8_decode_check s 0 = Some (Some (n, pt))" "s \<noteq> []"
  shows "pt < 0x110000 \<and> take n s = utf8_bytes pt"
proof -
  obtain c0 s1 where s: "s = c0 # s1" using assms(2) by (cases s) auto
  note unit = unit_at_Cons unit_at_def continuation_bits
  consider "(ucast c0 :: u32) < 0x80" | "\<not> (ucast c0 :: u32) < 0xC0" "(ucast c0 :: u32) < 0xE0"
    | "\<not> (ucast c0 :: u32) < 0xE0" "(ucast c0 :: u32) < 0xF0" | "\<not> (ucast c0 :: u32) < 0xF0" "(ucast c0 :: u32) < 0xF8"
    using assms(1) by (fastforce simp: s utf8_decode_check_def unit_at_Cons Let_def split: if_split_asm)
  then show ?thesis
  proof cases
    case 1
    then have "n = 1" "pt = ucast c0" using assms(1) by (simp_all add: s utf8_decode_check_def unit_at_Cons Let_def)
    moreover have "ucast (ucast c0 :: u32) = c0" by (rule byte_eqI) (simp_all add: bit_simps)
    ultimately show ?thesis using 1 by (auto simp: s utf8_bytes_def utf8_encode_def word_less_nat_alt)
  next
    case 2
    then obtain c1 r where r: "s1 = c1 # r" "continuation c1" "n = 2"
        "pt = push_bit 6 (ucast c0 AND 0x1F) OR low6 c1" "\<not> pt < 0x80"
      using assms(1) by (cases s1) (auto simp: s utf8_decode_check_def unit lead_byte Let_def split: if_split_asm)
    with 2 utf8_bytes_decode2 [of c0 c1 pt] show ?thesis by (auto simp: s lead_byte)
  next
    case 3
    then obtain c1 c2 r where r: "s1 = c1 # c2 # r" "continuation c1" "continuation c2" "n = 3"
        "pt = push_bit 12 (ucast c0 AND 0x0F) OR push_bit 6 (low6 c1) OR low6 c2" "\<not> pt < 0x800"
      using assms(1) by (cases s1; cases "tl s1")
        (auto simp: s utf8_decode_check_def unit lead_byte Let_def split: if_split_asm)
    with 3 utf8_bytes_decode3 [of c0 c1 c2 pt] show ?thesis by (auto simp: s lead_byte)
  next
    case 4
    then obtain c1 c2 c3 r where r: "s1 = c1 # c2 # c3 # r" "continuation c1" "continuation c2" "continuation c3" "n = 4"
        "pt = push_bit 18 (ucast c0 AND 0x0F) OR push_bit 12 (low6 c1) OR push_bit 6 (low6 c2) OR low6 c3"
        "\<not> pt < 0x10000" "pt < 0x110000"
      using assms(1) by (cases s1; cases "tl s1"; cases "tl (tl s1)")
        (auto simp: s utf8_decode_check_def unit lead_byte Let_def split: if_split_asm)
    with 4 utf8_bytes_decode4 [of c0 c1 c2 c3 pt] show ?thesis by (auto simp: s lead_byte numeral_eq_Suc)
  qed
qed

section \<open>Surrogate pairs\<close>

definition scalar_value :: "u32 \<Rightarrow> bool" where
  "scalar_value pt \<longleftrightarrow> pt < 0x110000 \<and> \<not> (0xD800 \<le> pt \<and> pt < 0xE000)"

lemma unat_u16_less: "unat (c :: u16) < 0x10000"
proof -
  have "unat c < 2 ^ LENGTH(16)" by (rule unsigned_less)
  then show ?thesis by simp
qed

lemma unat_ucast_u16: "unat (ucast (c :: u16) :: u32) = unat c"
proof -
  have "unat c < 2 ^ 32" using unat_u16_less [of c] by simp
  then show ?thesis by (simp add: unsigned_ucast_eq take_bit_nat_eq_self)
qed

lemma unat_ucast_u32: "unat w < 0x10000 \<Longrightarrow> unat (ucast (w :: u32) :: u16) = unat w"
  by (simp add: unsigned_ucast_eq take_bit_nat_eq_self)

lemma ucast_u16_u32: "unat w < 0x10000 \<Longrightarrow> ucast (ucast (w :: u32) :: u16) = w"
  by (simp add: word_unat_eq_iff [where 'a = 32] unat_ucast_u16 unat_ucast_u32)

lemma ucast_u32_u16: "ucast (ucast (c :: u16) :: u32) = c"
  by (rule bit_word_eqI) (simp add: bit_simps)

lemma offset_unat:
  assumes "unat x < 0x400" "unat d < 0xF000"
  shows "unat (x + d :: u32) = unat x + unat d"
  using assms by (simp add: unat_word_ariths)

lemma surrogate_units:
  assumes "unat x < 0x400"
  shows "is_high_surrogate (ucast (x + 0xD800))" "ucast (ucast (x + 0xD800) :: u16) - 0xD800 = (x :: u32)"
    "is_low_surrogate (ucast (x + 0xDC00))" "ucast (ucast (x + 0xDC00) :: u16) - 0xDC00 = (x :: u32)"
  using assms by (simp_all add: is_high_surrogate_def is_low_surrogate_def word_le_nat_alt word_less_nat_alt
      unat_ucast_u32 offset_unat ucast_u16_u32)

lemma surrogate_split:
  fixes y :: u32
  assumes "unat y < 2 ^ 20"
  shows "unat (drop_bit 10 y) < 0x400" "unat (y AND 0x3FF) < 0x400"
    "push_bit 10 (drop_bit 10 y) OR (y AND 0x3FF) = y" "(y + 0x10000) AND 0x3FF = y AND 0x3FF"
proof -
  have c: "\<not> bit y n" if "20 \<le> n" for n using assms that by (rule high_bit_clear)
  have "unat (drop_bit 10 y) < 2 ^ 10" "unat (y AND 0x3FF) < 2 ^ 10"
    by (rule u32_low_bits; simp add: bit_simps c)+
  then show "unat (drop_bit 10 y) < 0x400" "unat (y AND 0x3FF) < 0x400" by simp_all
  show "push_bit 10 (drop_bit 10 y) OR (y AND 0x3FF) = y" by (rule u32_eqI; simp add: bit_simps)
  have m: "0x3FF = (mask 10 :: u32)" by (simp add: mask_eq_exp_minus_1)
  show "(y + 0x10000) AND 0x3FF = y AND 0x3FF"
    unfolding m take_bit_eq_mask [symmetric] word_unat_eq_iff [where 'a = 32] unsigned_take_bit_eq take_bit_eq_mod
    using assms mod_mult_self1 [of "unat y" 64 1024] by (simp add: unat_word_ariths)
qed


lemma utf16_decode_units:
  assumes "scalar_value pt"
  shows "utf16_decode_check (utf16_units pt @ r) 0 = Some (Some (length (utf16_units pt), pt))"
proof (cases "pt < 0x10000")
  case True
  then have "unat pt < 0x10000" by (simp add: word_less_nat_alt)
  moreover from this have "\<not> is_high_surrogate (ucast pt)" "\<not> is_low_surrogate (ucast pt)"
    using assms by (auto simp: is_high_surrogate_def is_low_surrogate_def scalar_value_def word_le_nat_alt
        word_less_nat_alt unat_ucast_u32)
  ultimately show ?thesis
    using True by (simp add: utf16_units_def utf16_encode_def utf16_decode_check_def unit_at_Cons ucast_u16_u32)
next
  case False
  define y where "y = pt - 0x10000"
  then have pt: "pt = y + 0x10000" by simp
  have "unat pt < 0x110000" "0x10000 \<le> unat pt"
    using assms False by (simp_all add: scalar_value_def word_less_nat_alt)
  then have "unat y < 2 ^ 20" by (simp add: y_def unat_sub word_le_nat_alt)
  note y = surrogate_split [OF this]
  have "\<not> pt < 0x10000" "pt < 0x110000" using assms False by (simp_all add: scalar_value_def)
  then show ?thesis
    using y surrogate_units(1,2) [OF y(1)] surrogate_units(3,4) [OF y(2)]
    by (simp add: utf16_units_def utf16_encode_def utf16_decode_check_def unit_at_Cons pt)
qed

lemma utf16_units_decode:
  assumes "utf16_decode_check s 0 = Some (Some (n, pt))" "s \<noteq> []"
  shows "scalar_value pt \<and> take n s = utf16_units pt"
proof -
  obtain c0 s1 where s: "s = c0 # s1" using assms(2) by (cases s) auto
  show ?thesis
  proof (cases "is_high_surrogate c0")
    case True
    then obtain c1 r where r: "s1 = c1 # r" "is_low_surrogate c1" "n = 2"
        "pt = (push_bit 10 (ucast c0 - 0xD800) OR (ucast c1 - 0xDC00)) + 0x10000"
      using assms(1) by (cases s1) (auto simp: s utf16_decode_check_def unit_at_Cons unit_at_def is_low_surrogate_def
          split: if_split_asm)
    define a b where "a = (ucast c0 - 0xD800 :: u32)" "b = (ucast c1 - 0xDC00 :: u32)"
    have ab: "unat a < 2 ^ 10" "unat b < 2 ^ 10"
      using True r(2) by (auto simp: a_b_def is_high_surrogate_def is_low_surrogate_def word_le_nat_alt
          word_less_nat_alt unat_sub unat_ucast_u16)
    define y where "y = push_bit 10 a OR b"
    have ha: "\<not> bit a n" "\<not> bit b n" if "10 \<le> n" for n
      using high_bit_clear [OF ab(1) that] high_bit_clear [OF ab(2) that] by simp_all
    have "unat y < 2 ^ 20" unfolding y_def by (rule u32_low_bits) (simp add: bit_simps ha)
    have "drop_bit 10 y = a" "y AND 0x3FF = b" unfolding y_def by (rule u32_eqI; simp add: bit_simps ha)+
    have pt: "pt = y + 0x10000" using r(4) by (simp add: y_def a_b_def)
    have "unat pt = unat y + 0x10000" unfolding pt using \<open>unat y < 2 ^ 20\<close> by (simp add: unat_word_ariths)
    then have "scalar_value pt" "\<not> pt < 0x10000"
      using \<open>unat y < 2 ^ 20\<close> by (simp_all add: scalar_value_def word_le_nat_alt word_less_nat_alt)
    moreover have "ucast (a + 0xD800) = c0" "ucast (b + 0xDC00) = c1" by (simp_all add: a_b_def ucast_u32_u16)
    ultimately show ?thesis
      using surrogate_split(4) [OF \<open>unat y < 2 ^ 20\<close>] \<open>drop_bit 10 y = a\<close> \<open>y AND 0x3FF = b\<close> r(1,3)
      by (auto simp: s utf16_units_def utf16_encode_def scalar_value_def pt)
  next
    case False
    then have r: "\<not> is_low_surrogate c0" "n = 1" "pt = ucast c0"
      using assms(1) by (auto simp: s utf16_decode_check_def unit_at_Cons split: if_split_asm)
    with False unat_u16_less [of c0] show ?thesis
      by (auto simp: s scalar_value_def is_high_surrogate_def is_low_surrogate_def utf16_units_def utf16_encode_def
          word_le_nat_alt word_less_nat_alt unat_ucast_u16 ucast_u32_u16)
  qed
qed

section \<open>Transformation formats\<close>

text \<open>
  What a format promises: the reader never leaves a string, takes back every code point that
  was written, accepts nothing else, and looks only at what follows the position. Everything
  the checking and converting loops do rests on these laws.
\<close>

locale transformation_format =
  fixes units :: "u32 \<Rightarrow> 'c::zero list"
    and check :: "'c list \<Rightarrow> nat \<Rightarrow> offset_pt option"
    and decode :: "'c list \<Rightarrow> nat \<Rightarrow> (u32 \<times> nat \<times> bool) option"
    and ok :: "u32 \<Rightarrow> bool"
  assumes check_total: "i < length s \<Longrightarrow>
      \<exists>r. check s i = Some r \<and> (\<forall>n pt. r = Some (n, pt) \<longrightarrow> 0 < n \<and> i + n \<le> length s)"
    and check_units: "ok pt \<Longrightarrow> check (units pt @ r) 0 = Some (Some (length (units pt), pt))"
    and units_check: "check s 0 = Some (Some (n, pt)) \<Longrightarrow> s \<noteq> [] \<Longrightarrow> ok pt \<and> take n s = units pt"
    and check_drop: "i \<le> length s \<Longrightarrow> check s i = check (drop i s) 0"
    and units_not_Nil: "units pt \<noteq> []"
    and decode_check: "decode s i = map_option (\<lambda>res. case res of None \<Rightarrow> (0xFFFD, i + 1, True)
      | Some (offset, pt) \<Rightarrow> (pt, i + offset, False)) (check s i)"
begin

lemma units_length: "\<exists>m. length (units pt) = Suc m"
  using units_not_Nil [of pt] by (cases "units pt") auto

lemma check_cases:
  assumes "i < length s"
  obtains "check s i = Some None" "\<nexists>pt r. ok pt \<and> drop i s = units pt @ r"
  | pt r where "check s i = Some (Some (length (units pt), pt))" "ok pt" "drop i s = units pt @ r"
      "i + length (units pt) \<le> length s"
proof -
  have d: "check s i = check (drop i s) 0" "drop i s \<noteq> []" using assms by (simp_all add: check_drop [of i s])
  from check_total [OF assms] obtain r where r: "check s i = Some r"
      "\<And>n pt. r = Some (n, pt) \<Longrightarrow> 0 < n \<and> i + n \<le> length s" by auto
  show ?thesis
  proof (cases r)
    case None
    have "\<not> (ok pt \<and> drop i s = units pt @ q)" for pt q using check_units [of pt q] d(1) r(1) None by auto
    with None r(1) that(1) show ?thesis by blast
  next
    case (Some np)
    then obtain n pt where np: "r = Some (n, pt)" by (cases np) auto
    with units_check [of "drop i s" n pt] d r(1) have pt: "ok pt" "take n (drop i s) = units pt" by auto
    moreover have "length (units pt) = n" unfolding pt(2) [symmetric] using r(2) [OF np] by (simp add: min_absorb2 le_diff_conv2)
    moreover have "drop i s = take n (drop i s) @ drop n (drop i s)" by (rule append_take_drop_id [symmetric])
    ultimately show ?thesis using that(2) r np by metis
  qed
qed

lemma check_helper_spec:
  "i \<le> length s \<Longrightarrow> length s - i \<le> n \<Longrightarrow>
   check_helper n check s i = Some (\<exists>pts. list_all ok pts \<and> drop i s = concat (map units pts))"
proof (induction n arbitrary: i)
  case (Suc n)
  show ?case
  proof (cases "i < length s")
    case False
    then show ?thesis by (auto intro: exI [of _ "[]"])
  next
    case True
    then show ?thesis
    proof (cases rule: check_cases)
      case 1
      have "\<not> (list_all ok pts \<and> drop i s = concat (map units pts))" for pts
        using 1(2) True by (cases pts) auto
      then show ?thesis using 1(1) True by auto
    next
      case (2 pt r)
      let ?k = "i + length (units pt)"
      have r: "drop ?k s = r" using 2(3) by (metis append_eq_conv_conj drop_drop add.commute)
      have "check_helper n check s ?k = Some (\<exists>pts. list_all ok pts \<and> drop ?k s = concat (map units pts))"
        using 2(4) units_length [of pt] Suc.prems True by (intro Suc.IH) auto
      moreover have "(\<exists>pts. list_all ok pts \<and> r = concat (map units pts)) \<longleftrightarrow>
          (\<exists>pts. list_all ok pts \<and> drop i s = concat (map units pts))" (is "?l \<longleftrightarrow> ?r")
      proof
        assume ?l
        then obtain pts where "list_all ok pts" "r = concat (map units pts)" by blast
        with 2(2,3) show ?r by (intro exI [of _ "pt # pts"]) simp
      next
        assume ?r
        then obtain pts where pts: "list_all ok pts" "drop i s = concat (map units pts)" by blast
        then obtain p ps where p: "pts = p # ps" using True by (cases pts) auto
        then have "check (drop i s) 0 = Some (Some (length (units p), p))" using pts check_units by simp
        then have "p = pt" using 2(1) True by (simp add: check_drop [of i s])
        with pts p 2(3) show ?l by auto
      qed
      ultimately show ?thesis using 2(1) True by (simp add: r)
    qed
  qed
qed (auto intro: exI [of _ "[]"])

lemma convert_units:
  "list_all ok pts \<Longrightarrow> drop i s = concat (map units pts) \<Longrightarrow> length s - i \<le> n \<Longrightarrow>
   convert n decode enc s i out = Some (foldl (\<lambda>out pt. enc pt out) out pts)"
proof (induction n arbitrary: i out pts)
  case 0
  then have "pts = []" using units_not_Nil by (cases pts) auto
  with 0 show ?case by simp
next
  case (Suc n)
  show ?case
  proof (cases pts)
    case Nil
    with Suc.prems show ?thesis by simp
  next
    case (Cons p ps)
    let ?k = "i + length (units p)"
    have i: "i < length s" using Suc.prems(2) units_not_Nil [of p] by (rule_tac ccontr) (simp add: Cons)
    have "check s i = Some (Some (length (units p), p))"
      using Suc.prems(1,2) i by (simp add: Cons check_drop [of i s] check_units)
    moreover have "drop ?k s = concat (map units ps)"
      using Suc.prems(2) by (simp add: Cons) (metis append_eq_conv_conj drop_drop add.commute)
    ultimately show ?thesis
      using Suc.IH [of ps ?k "enc p out"] Suc.prems(1,3) units_length [of p] i
      by (auto simp: Cons decode_check [of s i])
  qed
qed

text \<open>Every string converts; what is written are code points, at most \<open>k\<close> units for one unit read.\<close>

lemma convert_total:
  assumes bound: "\<And>pt. ok pt \<Longrightarrow> length (enc pt) \<le> k * length (units pt)" "length (enc 0xFFFD) \<le> k"
    and repl: "ok' 0xFFFD" "\<And>pt. ok pt \<Longrightarrow> ok' pt"
  shows "i \<le> length s \<Longrightarrow> length s - i \<le> n \<Longrightarrow>
    \<exists>pts. convert n decode (\<lambda>pt out. out @ enc pt) s i out = Some (out @ concat (map enc pts)) \<and> list_all ok' pts \<and>
      length (concat (map enc pts)) \<le> k * (length s - i)"
proof (induction n arbitrary: i out)
  case (Suc n)
  show ?case
  proof (cases "i < length s")
    case True
    then show ?thesis
    proof (cases rule: check_cases)
      case 1
      have "i + 1 \<le> length s" "length s - (i + 1) \<le> n" using True Suc.prems by auto
      from Suc.IH [OF this, of "out @ enc 0xFFFD"] obtain pts where
          "convert n decode (\<lambda>pt out. out @ enc pt) s (i + 1) (out @ enc 0xFFFD) = Some ((out @ enc 0xFFFD) @ concat (map enc pts))"
          "list_all ok' pts" "length (concat (map enc pts)) \<le> k * (length s - (i + 1))" by blast
      moreover have "k * (length s - i) = k + k * (length s - (i + 1))"
        using True by (metis Suc_diff_Suc Suc_eq_plus1 mult_Suc_right)
      ultimately show ?thesis using 1(1) True bound(2) repl(1) by (intro exI [of _ "0xFFFD # pts"]) (simp add: decode_check [of s i])
    next
      case (2 pt r)
      let ?k = "i + length (units pt)"
      have "?k \<le> length s" "length s - ?k \<le> n" using 2(4) units_length [of pt] Suc.prems True by auto
      from Suc.IH [OF this, of "out @ enc pt"] obtain pts where
          "convert n decode (\<lambda>pt out. out @ enc pt) s ?k (out @ enc pt) = Some ((out @ enc pt) @ concat (map enc pts))"
          "list_all ok' pts" "length (concat (map enc pts)) \<le> k * (length s - ?k)" by blast
      moreover have "k * (length s - i) = k * length (units pt) + k * (length s - ?k)"
        using 2(4) by (simp add: distrib_left [symmetric])
      ultimately show ?thesis
        using 2(1) True bound(1) [OF 2(2)] repl(2) [OF 2(2)] by (intro exI [of _ "pt # pts"]) (simp add: decode_check [of s i])
    qed
  qed (auto intro: exI [of _ "[]"])
qed (auto intro: exI [of _ "[]"])

end

sublocale transformation_format \<subseteq> self_delimiting units
  "\<lambda>s. case check s 0 of Some (Some (n, pt)) \<Rightarrow> Some (pt, drop n s) | _ \<Rightarrow> None" ok
  by unfold_locales (simp add: check_units)

lemma unit_at_drop: "i \<le> length s \<Longrightarrow> unit_at (drop i s) j = unit_at s (i + j)"
  by (auto simp: unit_at_def)

interpretation utf8: transformation_format utf8_bytes utf8_decode_check utf8_decode "\<lambda>pt. pt < 0x110000"
proof unfold_locales
  show "utf8_decode_check s i = utf8_decode_check (drop i s) 0" if "i \<le> length s" for i s
    unfolding utf8_decode_check_def unit_at_drop [OF that] add_0_left add_0_right by (rule refl)
  show "utf8_bytes pt \<noteq> []" for pt by (simp add: utf8_bytes_def utf8_encode_def)
qed (rule utf8_decode_check_total utf8_decode_bytes utf8_bytes_decode utf8_decode_def; assumption?)+

interpretation utf16: transformation_format utf16_units utf16_decode_check utf16_decode scalar_value
proof unfold_locales
  show "utf16_decode_check s i = utf16_decode_check (drop i s) 0" if "i \<le> length s" for i s
    unfolding utf16_decode_check_def unit_at_drop [OF that] add_0_left add_0_right by (rule refl)
  show "utf16_units pt \<noteq> []" for pt by (simp add: utf16_units_def utf16_encode_def)
qed (rule utf16_decode_check_total utf16_decode_units utf16_units_decode utf16_decode_def; assumption?)+

section \<open>Contracts\<close>

lemma utf8_foldl: "foldl (\<lambda>out pt. utf8_encode pt out) out pts = out @ concat (map utf8_bytes pts)"
  by (induction pts arbitrary: out) (simp_all add: utf8_encode_append)

lemma utf16_foldl: "foldl (\<lambda>out pt. utf16_encode pt out) out pts = out @ concat (map utf16_units pts)"
  by (induction pts arbitrary: out) (simp_all add: utf16_encode_append)

lemma units_lengths:
  "length (utf8_bytes 0xFFFD) \<le> 3" "length (utf16_units 0xFFFD) \<le> 1"
  "length (utf8_bytes pt) \<le> 3 * length (utf16_units pt)"
  "pt < 0x110000 \<Longrightarrow> length (utf16_units pt) \<le> length (utf8_bytes pt)"
  by (simp_all add: utf8_bytes_def utf8_encode_def utf16_units_def utf16_encode_def word_less_nat_alt)

lemma encode_functions:
  "utf8_encode = (\<lambda>pt out. out @ utf8_bytes pt)" "utf16_encode = (\<lambda>pt out. out @ utf16_units pt)"
  by (simp_all add: fun_eq_iff utf8_encode_append utf16_encode_append)

text \<open>
  C33. A string passes utf8_check exactly when it is a concatenation of shortest encodings of
  code points below 0x110000 (surrogates included), and utf16_check exactly when it is one of
  the unit sequences of scalar values; both loops end without reading behind the terminator.
\<close>

theorem utf_check_accepts:
  "utf8_check s = Some (\<exists>pts. list_all (\<lambda>pt. pt < 0x110000) pts \<and> s = concat (map (\<lambda>pt. utf8_encode pt []) pts)) \<and>
   utf16_check w = Some (\<exists>pts. list_all scalar_value pts \<and> w = concat (map (\<lambda>pt. utf16_encode pt []) pts))"
  using utf8.check_helper_spec [of 0 s "length s"] utf16.check_helper_spec [of 0 w "length w"]
  by (simp add: utf8_check_def utf16_check_def utf8_bytes_def [abs_def] utf16_units_def [abs_def])

lemma to_utf8_spec:
  "\<exists>pts. to_utf8 w = Some (concat (map utf8_bytes pts)) \<and> list_all (\<lambda>pt. pt < 0x110000) pts \<and>
     length (concat (map utf8_bytes pts)) \<le> 3 * length w"
  using utf16.convert_total [of utf8_bytes 3 "\<lambda>pt. pt < 0x110000" 0 w "length w" "[]"]
  by (auto simp: to_utf8_def encode_functions units_lengths scalar_value_def)

lemma to_utf16_spec:
  "\<exists>pts. to_utf16 s = Some (concat (map utf16_units pts)) \<and> length (concat (map utf16_units pts)) \<le> length s"
  using utf8.convert_total [of utf16_units 1 "\<lambda>pt. pt < 0x110000" 0 s "length s" "[]"]
  using units_lengths(2) by (auto simp: to_utf16_def encode_functions units_lengths)

text \<open>
  C38. The conversions end on every string, however ill formed, without reading behind the
  terminator: to_utf8 gives at most three bytes for a unit and always a string that passes
  utf8_check, and to_utf16 never gives more units than there were bytes.
\<close>

theorem conversion_bounds:
  "(\<exists>s. to_utf8 w = Some s \<and> length s \<le> 3 * length w \<and> utf8_check s = Some True) \<and>
   (\<exists>w. to_utf16 s = Some w \<and> length w \<le> length s)"
proof
  obtain pts where pts: "to_utf8 w = Some (concat (map utf8_bytes pts))" "list_all (\<lambda>pt. pt < 0x110000) pts"
      "length (concat (map utf8_bytes pts)) \<le> 3 * length w" using to_utf8_spec [of w] by blast
  moreover have "utf8_check (concat (map utf8_bytes pts)) = Some True"
    using utf8.check_helper_spec [of 0 "concat (map utf8_bytes pts)"] pts(2) by (auto simp: utf8_check_def)
  ultimately show "\<exists>s. to_utf8 w = Some s \<and> length s \<le> 3 * length w \<and> utf8_check s = Some True" by blast
  show "\<exists>w. to_utf16 s = Some w \<and> length w \<le> length s" using to_utf16_spec [of s] by blast
qed

text \<open>
  C32. A well formed UTF-16 string without a zero unit survives the way through UTF-8:
  ToWSTRING gives back what ToString converted.
\<close>

theorem ToWSTRING_ToString:
  assumes "utf16_check w = Some True" "0 \<notin> set w"
  shows "\<exists>s. ToString w = Some s \<and> ToWSTRING s = Some w"
proof -
  have c: "c_str w = w" using assms(2) by (auto simp: c_str_def takeWhile_eq_all_conv)
  obtain pts where pts: "list_all scalar_value pts" "w = concat (map utf16_units pts)"
    using utf16.check_helper_spec [of 0 w "length w"] assms(1) by (auto simp: utf16_check_def)
  define s where "s = concat (map utf8_bytes pts)"
  have "ToString w = Some s"
    using utf16.convert_units [OF pts(1), of 0 w "length w" utf8_encode "[]"] pts(2)
    unfolding ToString_def c to_utf8_def by (simp add: utf8_foldl s_def pts(2))
  moreover have "list_all (\<lambda>pt. pt < 0x110000) pts" using pts(1) by (simp add: list_all_iff scalar_value_def)
  from utf8.convert_units [OF this, of 0 s "length s" utf16_encode "[]"] have "to_utf16 s = Some w"
    by (simp add: to_utf16_def utf16_foldl s_def pts(2))
  ultimately show ?thesis by (simp add: ToWSTRING_def c)
qed

theorem ToWSTRING_ToString_witness:
  "\<exists>s. ToString [0x41, 0xE9, 0xD83D, 0xDE00] = Some s \<and> ToWSTRING s = Some [0x41, 0xE9, 0xD83D, 0xDE00]"
  by (rule ToWSTRING_ToString) code_simp+

end
