(* ===== verification/Str_Util.thy ===== *)
theory Str_Util
  imports Mini_Utf
begin

text \<open>
  The string helpers of util.cpp and util.h: splitting, trimming and the environment
  variables that configure the profiler. A \<open>WSTRING\<close> is the list of its UTF-16 units.
\<close>

type_synonym WSTRING = "u16 list"

text \<open>
  The literal operators \<open>_W\<close>; the literals of the sources are ASCII, for which the conversion
  of \<open>ToWSTRING\<close> widens each character.
\<close>

definition unit_of :: "char \<Rightarrow> u16" where
  "unit_of c = of_char c"

definition W :: "string \<Rightarrow> WSTRING" where
  "W s = map unit_of s"

section \<open>Operations of basic\_string\<close>

definition find_first_not_of :: "'a list \<Rightarrow> 'a list \<Rightarrow> nat option" where
  "find_first_not_of cs s =
     (let i = length (takeWhile (\<lambda>c. c \<in> set cs) s) in if i < length s then Some i else None)"

definition find_last_not_of :: "'a list \<Rightarrow> 'a list \<Rightarrow> nat option" where
  "find_last_not_of cs s = map_option (\<lambda>i. length s - 1 - i) (find_first_not_of cs (rev s))"

definition substr :: "nat \<Rightarrow> nat \<Rightarrow> 'a list \<Rightarrow> 'a list" where
  "substr pos n s = take n (drop pos s)"

section \<open>Split and Trim\<close>

text \<open>The loop of \<open>Split\<close>: \<open>i\<close> and \<open>lpos\<close> are positions in \<open>s\<close>. A \<open>wchar_t\<close> may be wider than a unit.\<close>

fun split_loop :: "nat \<Rightarrow> WSTRING \<Rightarrow> u32 \<Rightarrow> nat \<Rightarrow> nat \<Rightarrow> WSTRING list" where
  "split_loop 0 s delim i lpos = [drop lpos s]"
| "split_loop (Suc n) s delim i lpos =
     (if ucast (s ! i) = delim then substr lpos (i - lpos) s # split_loop n s delim (i + 1) (i + 1)
      else split_loop n s delim (i + 1) lpos)"

definition Split :: "WSTRING \<Rightarrow> u32 \<Rightarrow> WSTRING list" where
  "Split s delim = split_loop (length s) s delim 0 0"

definition blanks :: WSTRING where
  "blanks = [0x20, 0x9]"

definition Trim :: "WSTRING \<Rightarrow> WSTRING" where
  "Trim str =
     (if length str = 0 then []
      else
        (let trimmed = (case find_first_not_of blanks str of
                None \<Rightarrow> str
              | Some lpos \<Rightarrow> if lpos > 0 then drop lpos str else str)
         in (case find_last_not_of blanks trimmed of
                None \<Rightarrow> trimmed
              | Some rpos \<Rightarrow> substr 0 (rpos + 1) trimmed)))"

definition Contains :: "'a list \<Rightarrow> 'a \<Rightarrow> bool" where
  "Contains items value \<longleftrightarrow> (case find (\<lambda>x. x = value) items of None \<Rightarrow> False | Some _ \<Rightarrow> True)"

section \<open>The environment\<close>

text \<open>
  What the operating system answers is a parameter: the Win32 call, given the name and the size
  of the buffer, returns a length and what the buffer holds; \<open>getenv\<close> a C string or null.
\<close>

datatype environment =
    Windows "WSTRING \<Rightarrow> nat \<Rightarrow> u32 \<times> WSTRING"
  | Unix "byte list \<Rightarrow> byte list option"

definition GetEnvironmentValue :: "environment \<Rightarrow> WSTRING \<Rightarrow> WSTRING option" where
  "GetEnvironmentValue env name =
     (case env of
        Windows GetEnvironmentVariable \<Rightarrow>
          (let (len, buf) = GetEnvironmentVariable name 4096 in Some (Trim (substr 0 (unat len) buf)))
      | Unix getenv \<Rightarrow> do {
          name \<leftarrow> ToString name;
          case getenv (c_str name) of
            None \<Rightarrow> Some []
          | Some cstr \<Rightarrow> map_option Trim (ToWSTRING cstr) })"

definition GetEnvironmentValues_delim :: "environment \<Rightarrow> WSTRING \<Rightarrow> u32 \<Rightarrow> WSTRING list option" where
  "GetEnvironmentValues_delim env name delim = do {
     value \<leftarrow> GetEnvironmentValue env name;
     Some (filter (\<lambda>s. s \<noteq> []) (map Trim (Split value delim)))
   }"

definition GetEnvironmentValues :: "environment \<Rightarrow> WSTRING \<Rightarrow> WSTRING list option" where
  "GetEnvironmentValues env name = GetEnvironmentValues_delim env name 0x3B"

section \<open>What the loops compute\<close>

fun join :: "'a \<Rightarrow> 'a list list \<Rightarrow> 'a list" where
  "join d [] = []"
| "join d [x] = x"
| "join d (x # xs) = x @ d # join d xs"

lemma join_Cons: "xs \<noteq> [] \<Longrightarrow> join d (x # xs) = x @ d # join d xs"
  by (cases xs) auto

fun split_acc :: "u32 \<Rightarrow> WSTRING \<Rightarrow> WSTRING \<Rightarrow> WSTRING list" where
  "split_acc d a [] = [a]"
| "split_acc d a (c # s) = (if ucast c = d then a # split_acc d [] s else split_acc d (a @ [c]) s)"

lemma split_loop_acc:
  "split_loop (length b) (p @ a @ b) d (length p + length a) (length p) = split_acc d a b"
proof (induction b arbitrary: p a)
  case (Cons c b)
  have n: "(p @ a @ c # b) ! (length p + length a) = c" by (simp add: nth_append)
  show ?case
    using Cons.IH [of "p @ a @ [c]" "[]"] Cons.IH [of p "a @ [c]"] by (simp add: n substr_def)
qed simp

lemma Split_acc: "Split s d = split_acc d [] s"
  using split_loop_acc [of s "[]" "[]" d] by (simp add: Split_def)

lemma split_acc_skip:
  "list_all (\<lambda>c. ucast c \<noteq> d) x \<Longrightarrow> split_acc d a (x @ s) = split_acc d (a @ x) s"
  by (induction x arbitrary: a) auto

lemma split_acc_join:
  assumes "ucast d16 = d"
  shows "xs \<noteq> [] \<Longrightarrow> list_all (list_all (\<lambda>c. ucast c \<noteq> d)) xs \<Longrightarrow> split_acc d [] (join d16 xs) = xs"
proof (induction xs)
  case (Cons x xs)
  then show ?case
    using split_acc_skip [of d x "[]" "[]"] split_acc_skip [of d x "[]" "d16 # join d16 xs"] assms
    by (cases xs) auto
qed simp

lemma join_split_acc:
  assumes "ucast d16 = d"
  shows "join d16 (split_acc d a s) = a @ s \<and> split_acc d a s \<noteq> []"
proof (induction s arbitrary: a)
  case (Cons c s)
  have "c = d16" if "ucast c = d"
    using that assms ucast_u32_u16 [of c] ucast_u32_u16 [of d16] by metis
  with Cons show ?case by (auto simp: join_Cons)
qed simp

lemma split_acc_pieces:
  "list_all (\<lambda>c. ucast c \<noteq> d) a \<Longrightarrow> list_all (list_all (\<lambda>c. ucast c \<noteq> d)) (split_acc d a s)"
  by (induction s arbitrary: a) auto

text \<open>Removing blanks at both ends.\<close>

definition strip :: "WSTRING \<Rightarrow> WSTRING" where
  "strip s = rev (dropWhile (\<lambda>c. c \<in> set blanks) (rev (dropWhile (\<lambda>c. c \<in> set blanks) s)))"

definition all_blank :: "WSTRING \<Rightarrow> bool" where
  "all_blank s \<longleftrightarrow> list_all (\<lambda>c. c \<in> set blanks) s"

lemma find_first_not_of_iff:
  "find_first_not_of cs s = (if list_all (\<lambda>c. c \<in> set cs) s then None else Some (length (takeWhile (\<lambda>c. c \<in> set cs) s)))"
proof -
  have "length (takeWhile (\<lambda>c. c \<in> set cs) s) < length s \<longleftrightarrow> \<not> list_all (\<lambda>c. c \<in> set cs) s"
    by (induction s) auto
  then show ?thesis by (simp add: find_first_not_of_def Let_def)
qed

lemma cut_right:
  assumes "\<not> list_all (\<lambda>c. c \<in> set cs) s"
  shows "\<exists>r. find_last_not_of cs s = Some r \<and> substr 0 (r + 1) s = rev (dropWhile (\<lambda>c. c \<in> set cs) (rev s))"
proof -
  let ?k = "length (takeWhile (\<lambda>c. c \<in> set cs) (rev s))"
  have "\<not> list_all (\<lambda>c. c \<in> set cs) (rev s)" using assms by simp
  then have f: "find_first_not_of cs (rev s) = Some ?k" by (simp add: find_first_not_of_iff)
  have k: "?k < length s" using f by (auto simp: find_first_not_of_def Let_def split: if_split_asm)
  have "rev (dropWhile (\<lambda>c. c \<in> set cs) (rev s)) = take (length s - ?k) s"
    by (simp add: dropWhile_eq_drop rev_drop)
  moreover have "Suc (length s - Suc ?k) = length s - ?k" using k by (rule Suc_diff_Suc)
  ultimately show ?thesis using f by (intro exI [of _ "length s - 1 - ?k"]) (simp add: find_last_not_of_def substr_def)
qed

lemma all_blank_dropWhile: "all_blank (dropWhile (\<lambda>c. c \<in> set blanks) s) \<longleftrightarrow> all_blank s"
  unfolding all_blank_def by (induction s) auto

lemma Trim_strip: "Trim s = (if all_blank s then s else strip s)"
proof (cases "all_blank s")
  case True
  then have "find_first_not_of blanks s = None" "find_last_not_of blanks s = None"
    unfolding find_last_not_of_def find_first_not_of_iff all_blank_def by simp_all
  then show ?thesis using True by (simp add: Trim_def)
next
  case False
  define t where "t = dropWhile (\<lambda>c. c \<in> set blanks) s"
  have "\<not> all_blank t" using False all_blank_dropWhile unfolding t_def by blast
  then obtain r where "find_last_not_of blanks t = Some r" "substr 0 (r + 1) t = strip s"
    using cut_right [of blanks t] unfolding strip_def t_def all_blank_def by blast
  moreover have "find_first_not_of blanks s = Some (length (takeWhile (\<lambda>c. c \<in> set blanks) s))"
    using False by (simp add: find_first_not_of_iff all_blank_def)
  moreover have "drop (length (takeWhile (\<lambda>c. c \<in> set blanks) s)) s = t"
    by (simp add: t_def dropWhile_eq_drop)
  moreover have "s \<noteq> []" using False by (auto simp: all_blank_def)
  ultimately show ?thesis using False by (auto simp: Trim_def)
qed

lemma strip_Nil: "strip s = [] \<longleftrightarrow> all_blank s"
  using all_blank_dropWhile [of s] by (simp add: strip_def all_blank_def list_all_iff dropWhile_eq_Nil_conv)

lemma Trim_Nil: "Trim s = [] \<longleftrightarrow> s = []"
proof (cases s)
  case Nil
  then show ?thesis by (simp add: Trim_def)
next
  case (Cons c r)
  then show ?thesis by (cases "all_blank s") (simp_all add: Trim_strip strip_Nil)
qed

section \<open>Contracts\<close>

lemma ucast_u16_eq: "ucast c = (ucast d :: u32) \<longleftrightarrow> c = d" for c :: u16
  using ucast_u32_u16 by metis

lemma Split_of_join:
  "xs \<noteq> [] \<Longrightarrow> list_all (list_all (\<lambda>c. c \<noteq> d)) xs \<Longrightarrow> Split (join d xs) (ucast d) = xs"
  using split_acc_join [of d "ucast d" xs] by (simp add: Split_acc ucast_u16_eq)

text \<open>
  Split cuts at every delimiter and only there: joining the pieces with the delimiter gives
  the string back, there is at least one piece, and no piece contains the delimiter.
\<close>

theorem Split_pieces:
  "join d (Split s (ucast d)) = s \<and> Split s (ucast d) \<noteq> [] \<and> list_all (list_all (\<lambda>c. c \<noteq> d)) (Split s (ucast d))"
  using join_split_acc [of d "ucast d" "[]" s] split_acc_pieces [of "ucast d" "[]" s]
  by (simp add: Split_acc ucast_u16_eq)

text \<open>
  GetEnvironmentValues gives the pieces of the value, each without the blanks around it,
  and drops the empty ones; but a piece of blanks only is neither trimmed nor dropped.
\<close>

theorem GetEnvironmentValues_pieces:
  assumes "GetEnvironmentValue env name = Some (join 0x3B pieces)" "pieces \<noteq> []"
    "list_all (list_all (\<lambda>c. c \<noteq> 0x3B)) pieces"
  shows "GetEnvironmentValues env name =
    Some (map (\<lambda>s. if all_blank s then s else strip s) (filter (\<lambda>s. s \<noteq> []) pieces))"
proof -
  have "Split (join 0x3B pieces) 0x3B = pieces" using Split_of_join [of pieces "0x3B"] assms(2,3) by simp
  moreover have "filter (\<lambda>s. s \<noteq> []) (map Trim pieces) = map Trim (filter (\<lambda>s. s \<noteq> []) pieces)"
    by (simp add: filter_map o_def Trim_Nil)
  ultimately show ?thesis
    using assms(1) by (simp add: GetEnvironmentValues_def GetEnvironmentValues_delim_def Trim_strip [abs_def])
qed

text \<open>The value \<open>a; ;b\<close> of a variable: the piece in the middle stays.\<close>

theorem GetEnvironmentValues_pieces_witness:
  "GetEnvironmentValues (Unix (\<lambda>n. if n = [0x58] then Some [0x20, 0x61, 0x3B, 0x20, 0x3B, 0x62, 0x20] else None)) (W ''X'') =
    Some [W ''a'', W '' '', W ''b'']"
proof -
  let ?env = "Unix (\<lambda>n. if n = [0x58] then Some [0x20, 0x61, 0x3B, 0x20, 0x3B, 0x62, 0x20] else None)"
  have "GetEnvironmentValue ?env (W ''X'') = Some (join 0x3B [W ''a'', W '' '', W ''b''])" by code_simp
  moreover have "list_all (list_all (\<lambda>c. c \<noteq> 0x3B)) [W ''a'', W '' '', W ''b'']" by code_simp
  ultimately have "GetEnvironmentValues ?env (W ''X'') = Some (map (\<lambda>s. if all_blank s then s else strip s)
      (filter (\<lambda>s. s \<noteq> []) [W ''a'', W '' '', W ''b'']))"
    by (intro GetEnvironmentValues_pieces) simp_all
  moreover have "map (\<lambda>s. if all_blank s then s else strip s)
      (filter (\<lambda>s. s \<noteq> []) [W ''a'', W '' '', W ''b'']) = [W ''a'', W '' '', W ''b'']" by code_simp
  ultimately show ?thesis by simp
qed

end
