(* ===== verification/Integrations.thy ===== *)
theory Integrations
  imports Str_Util "HOL-Library.Sublist"
begin

text \<open>
  The data that says what to instrument: versions, public keys, assembly references, method
  signatures and references, replacements and integrations of integration.h, and the parsing
  of assembly reference strings of integration.cpp.
\<close>

section \<open>Public keys and versions\<close>

abbreviation kPublicKeySize :: nat where "kPublicKeySize \<equiv> 8"

text \<open>A \<open>PublicKey\<close> is its array of \<open>kPublicKeySize\<close> bytes.\<close>

type_synonym PublicKey = "byte list"

definition PublicKey_nil :: PublicKey where
  "PublicKey_nil = replicate kPublicKeySize 0"

text \<open>The comparison loop; an array is read at the indices below \<open>kPublicKeySize\<close>.\<close>

definition PublicKey_eq :: "PublicKey \<Rightarrow> PublicKey \<Rightarrow> bool" where
  "PublicKey_eq k k' \<longleftrightarrow> list_all (\<lambda>i. k ! i = k' ! i) [0..<kPublicKeySize]"

text \<open>Insertion into a stream: two hexadecimal digits, or decimal.\<close>

definition hex_digit :: "nat \<Rightarrow> u16" where
  "hex_digit n = (if n < 10 then 0x30 + word_of_nat n else 0x57 + word_of_nat n)"

definition hex2 :: "byte \<Rightarrow> WSTRING" where
  "hex2 b = [hex_digit (unat b div 16), hex_digit (unat b mod 16)]"

fun decimal :: "nat \<Rightarrow> WSTRING" where
  "decimal n = (if n < 10 then [0x30 + word_of_nat n] else decimal (n div 10) @ [0x30 + word_of_nat (n mod 10)])"

declare decimal.simps [simp del]

definition PublicKey_str :: "PublicKey \<Rightarrow> WSTRING" where
  "PublicKey_str k = concat (map hex2 k)"

record Version =
  major :: u16
  minor :: u16
  build :: u16
  revision :: u16

definition Version_nil :: Version where
  "Version_nil = \<lparr>major = 0, minor = 0, build = 0, revision = 0\<rparr>"

definition Version_eq :: "Version \<Rightarrow> Version \<Rightarrow> bool" where
  "Version_eq v w \<longleftrightarrow> major v = major w \<and> minor v = minor w \<and> build v = build w \<and> revision v = revision w"

definition Version_str :: "Version \<Rightarrow> WSTRING" where
  "Version_str v = decimal (unat (major v)) @ W ''.'' @ decimal (unat (minor v)) @ W ''.'' @
     decimal (unat (build v)) @ W ''.'' @ decimal (unat (revision v))"

definition Version_less :: "Version \<Rightarrow> Version \<Rightarrow> bool" where
  "Version_less v w \<longleftrightarrow>
     (if major v < major w then True
      else if major v = major w \<and> minor v < minor w then True
      else if major v = major w \<and> minor v = minor w \<and> build v < build w then True
      else False)"

definition Version_greater :: "Version \<Rightarrow> Version \<Rightarrow> bool" where
  "Version_greater v w \<longleftrightarrow>
     (if major v > major w then True
      else if major v = major w \<and> minor v > minor w then True
      else if major v = major w \<and> minor v = minor w \<and> build v > build w then True
      else False)"

section \<open>Assembly references\<close>

record AssemblyReference =
  ar_name :: WSTRING
  ar_version :: Version
  ar_locale :: WSTRING
  ar_public_key :: PublicKey

definition AssemblyReference_nil :: AssemblyReference where
  "AssemblyReference_nil = \<lparr>ar_name = [], ar_version = Version_nil, ar_locale = [], ar_public_key = PublicKey_nil\<rparr>"

definition AssemblyReference_eq :: "AssemblyReference \<Rightarrow> AssemblyReference \<Rightarrow> bool" where
  "AssemblyReference_eq a b \<longleftrightarrow> ar_name a = ar_name b \<and> Version_eq (ar_version a) (ar_version b) \<and>
     ar_locale a = ar_locale b \<and> PublicKey_eq (ar_public_key a) (ar_public_key b)"

definition AssemblyReference_str :: "AssemblyReference \<Rightarrow> WSTRING" where
  "AssemblyReference_str a = ar_name a @ W '', Version='' @ Version_str (ar_version a) @ W '', Culture='' @
     ar_locale a @ W '', PublicKeyToken='' @ PublicKey_str (ar_public_key a)"

text \<open>\<open>find\<close> and \<open>rfind\<close> of one character.\<close>

definition find_char :: "u16 \<Rightarrow> WSTRING \<Rightarrow> nat option" where
  "find_char c s = (let i = length (takeWhile (\<lambda>x. x \<noteq> c) s) in if i < length s then Some i else None)"

definition rfind_char :: "u16 \<Rightarrow> WSTRING \<Rightarrow> nat option" where
  "rfind_char c s = map_option (\<lambda>i. length s - 1 - i) (find_char c (rev s))"

definition GetNameFromAssemblyReferenceString :: "WSTRING \<Rightarrow> WSTRING" where
  "GetNameFromAssemblyReferenceString wstr =
     (let name = (case find_char 0x2C wstr of None \<Rightarrow> wstr | Some pos \<Rightarrow> substr 0 pos wstr)
      in (case rfind_char 0x20 name of None \<Rightarrow> name | Some pos \<Rightarrow> substr 0 pos name))"

text \<open>
  On Windows the other parts are found by \<open>std::regex_search\<close>: a literal, then groups of a
  character class. The classes and what follows them are disjoint, so matching is greedy
  without backtracking, and the search gives the leftmost match.

  On other systems \<open>RE2::FullMatch\<close>, a parameter, is asked with the source of the pattern and
  the text in UTF-8: it stores numbers, given the values stored before, or one string.
\<close>

record re2 =
  FullMatch_shorts :: "string \<Rightarrow> byte list \<Rightarrow> u16 list \<Rightarrow> u16 list"
  FullMatch_string :: "string \<Rightarrow> byte list \<Rightarrow> byte list option"

datatype platform = Win32 | Posix re2

fun strip_prefix :: "'a list \<Rightarrow> 'a list \<Rightarrow> 'a list option" where
  "strip_prefix [] s = Some s"
| "strip_prefix (p # ps) [] = None"
| "strip_prefix (p # ps) (c # s) = (if c = p then strip_prefix ps s else None)"

definition after_literal :: "WSTRING \<Rightarrow> (WSTRING \<Rightarrow> 'r option) \<Rightarrow> WSTRING \<Rightarrow> 'r option" where
  "after_literal lit m s = strip_prefix lit s \<bind> m"

fun regex_search :: "(WSTRING \<Rightarrow> 'r option) \<Rightarrow> WSTRING \<Rightarrow> 'r option" where
  "regex_search m [] = m []"
| "regex_search m (c # s) = (case m (c # s) of Some r \<Rightarrow> Some r | None \<Rightarrow> regex_search m s)"

definition one_or_more :: "(u16 \<Rightarrow> bool) \<Rightarrow> WSTRING \<Rightarrow> (WSTRING \<times> WSTRING) option" where
  "one_or_more p s = (if takeWhile p s = [] then None else Some (takeWhile p s, dropWhile p s))"

definition is_digit :: "u16 \<Rightarrow> bool" where
  "is_digit c \<longleftrightarrow> 0x30 \<le> c \<and> c \<le> 0x39"

definition is_letter :: "u16 \<Rightarrow> bool" where
  "is_letter c \<longleftrightarrow> 0x61 \<le> c \<and> c \<le> 0x7A \<or> 0x41 \<le> c \<and> c \<le> 0x5A"

definition is_hex :: "u16 \<Rightarrow> bool" where
  "is_hex c \<longleftrightarrow> 0x61 \<le> c \<and> c \<le> 0x66 \<or> 0x41 \<le> c \<and> c \<le> 0x46 \<or> is_digit c"

text \<open>Extraction of an \<open>unsigned short\<close> from digits: too great a number is stored as the greatest.\<close>

definition digit_value :: "u16 \<Rightarrow> nat" where
  "digit_value c = (if is_digit c then unat c - 0x30 else if 0x61 \<le> c then unat c - 0x57 else unat c - 0x37)"

definition number :: "nat \<Rightarrow> WSTRING \<Rightarrow> nat" where
  "number b s = foldl (\<lambda>n c. n * b + digit_value c) 0 s"

definition read_ushort :: "WSTRING \<Rightarrow> u16" where
  "read_ushort s = (if number 10 s > 0xFFFF then 0xFFFF else word_of_nat (number 10 s))"

definition version_groups :: "WSTRING \<Rightarrow> (WSTRING \<times> WSTRING \<times> WSTRING \<times> WSTRING) option" where
  "version_groups s = do {
     (a, s) \<leftarrow> one_or_more is_digit s;
     s \<leftarrow> strip_prefix (W ''.'') s;
     (b, s) \<leftarrow> one_or_more is_digit s;
     s \<leftarrow> strip_prefix (W ''.'') s;
     (c, s) \<leftarrow> one_or_more is_digit s;
     s \<leftarrow> strip_prefix (W ''.'') s;
     (d, s) \<leftarrow> one_or_more is_digit s;
     Some (a, b, c, d)
   }"

definition re_version :: string where
  "re_version = ''Version=([0-9]+)'' @ concat (replicate 3 (CHR 0x5C # ''.([0-9]+)''))"

definition re_culture :: string where
  "re_culture = ''Culture=([a-zA-Z0-9]+)''"

definition re_key :: string where
  "re_key = ''PublicKeyToken=([a-fA-F0-9]{16})''"

definition GetVersionFromAssemblyReferenceString :: "platform \<Rightarrow> WSTRING \<Rightarrow> Version option" where
  "GetVersionFromAssemblyReferenceString pf str =
     (case pf of
        Win32 \<Rightarrow>
          Some (case regex_search (after_literal (W ''Version='') version_groups) str of
             None \<Rightarrow> Version_nil
           | Some (a, b, c, d) \<Rightarrow>
               \<lparr>major = read_ushort a, minor = read_ushort b, build = read_ushort c, revision = read_ushort d\<rparr>)
      | Posix r \<Rightarrow> do {
          s \<leftarrow> ToString str;
          let vs = FullMatch_shorts r re_version s [0, 0, 0, 0];
          Some \<lparr>major = vs ! 0, minor = vs ! 1, build = vs ! 2, revision = vs ! 3\<rparr> })"

definition GetLocaleFromAssemblyReferenceString :: "platform \<Rightarrow> WSTRING \<Rightarrow> WSTRING option" where
  "GetLocaleFromAssemblyReferenceString pf str =
     (case pf of
        Win32 \<Rightarrow>
          Some (case regex_search (after_literal (W ''Culture='') (one_or_more (\<lambda>c. is_letter c \<or> is_digit c))) str of
             None \<Rightarrow> W ''neutral''
           | Some (locale, _) \<Rightarrow> locale)
      | Posix r \<Rightarrow> do {
          s \<leftarrow> ToString str;
          case FullMatch_string r re_culture s of
            None \<Rightarrow> Some (W ''neutral'')
          | Some match \<Rightarrow> ToWSTRING match })"

definition hex16 :: "WSTRING \<Rightarrow> WSTRING option" where
  "hex16 s = (if 16 \<le> length s \<and> list_all is_hex (take 16 s) then Some (take 16 s) else None)"

definition key_bytes :: "WSTRING \<Rightarrow> byte list" where
  "key_bytes match = map (\<lambda>i. word_of_nat (number 16 (substr (i * 2) 2 match))) [0..<8]"

definition GetPublicKeyFromAssemblyReferenceString :: "platform \<Rightarrow> WSTRING \<Rightarrow> PublicKey option" where
  "GetPublicKeyFromAssemblyReferenceString pf str =
     (case pf of
        Win32 \<Rightarrow>
          Some (case regex_search (after_literal (W ''PublicKeyToken='') hex16) str of
             None \<Rightarrow> PublicKey_nil
           | Some match \<Rightarrow> key_bytes match)
      | Posix r \<Rightarrow> do {
          s \<leftarrow> ToString str;
          Some (case FullMatch_string r re_key s of
             None \<Rightarrow> PublicKey_nil
           | Some match \<Rightarrow> key_bytes (map ucast match)) })"

definition AssemblyReference_of :: "platform \<Rightarrow> WSTRING \<Rightarrow> AssemblyReference option" where
  "AssemblyReference_of pf str = do {
     version \<leftarrow> GetVersionFromAssemblyReferenceString pf str;
     locale \<leftarrow> GetLocaleFromAssemblyReferenceString pf str;
     key \<leftarrow> GetPublicKeyFromAssemblyReferenceString pf str;
     Some \<lparr>ar_name = GetNameFromAssemblyReferenceString str, ar_version = version, ar_locale = locale,
           ar_public_key = key\<rparr>
   }"

section \<open>Method signatures\<close>

text \<open>
  A \<open>MethodSignature\<close> is its vector of bytes. An access behind the end of the vector is
  undefined behaviour, the result \<open>None\<close>.
\<close>

type_synonym MethodSignature = "byte list"

abbreviation (input) IMAGE_CEE_CS_CALLCONV_GENERIC :: byte where "IMAGE_CEE_CS_CALLCONV_GENERIC \<equiv> 0x10"
abbreviation (input) IMAGE_CEE_CS_CALLCONV_HASTHIS :: byte where "IMAGE_CEE_CS_CALLCONV_HASTHIS \<equiv> 0x20"
abbreviation (input) ELEMENT_OBJECT :: byte where "ELEMENT_OBJECT \<equiv> 0x1c"

definition byte_at :: "byte list \<Rightarrow> nat \<Rightarrow> byte option" where
  "byte_at data i = (if i < length data then Some (data ! i) else None)"

definition CallingConvention :: "MethodSignature \<Rightarrow> byte" where
  "CallingConvention data = (if data = [] then 0 else data ! 0)"

definition generic_convention :: "MethodSignature \<Rightarrow> bool" where
  "generic_convention data \<longleftrightarrow> CallingConvention data AND IMAGE_CEE_CS_CALLCONV_GENERIC \<noteq> 0"

definition NumberOfTypeArguments :: "MethodSignature \<Rightarrow> nat" where
  "NumberOfTypeArguments data = (if length data > 1 \<and> generic_convention data then unat (data ! 1) else 0)"

definition NumberOfArguments :: "MethodSignature \<Rightarrow> nat" where
  "NumberOfArguments data =
     (if length data > 2 \<and> generic_convention data then unat (data ! 2)
      else if length data > 1 then unat (data ! 1)
      else 0)"

definition ReturnTypeIsObject :: "MethodSignature \<Rightarrow> bool option" where
  "ReturnTypeIsObject data =
     (if length data > 2 \<and> generic_convention data then map_option (\<lambda>b. b = ELEMENT_OBJECT) (byte_at data 3)
      else if length data > 1 then map_option (\<lambda>b. b = ELEMENT_OBJECT) (byte_at data 2)
      else Some False)"

definition IndexOfReturnType :: "MethodSignature \<Rightarrow> nat" where
  "IndexOfReturnType data =
     (if length data > 2 \<and> generic_convention data then 3 else if length data > 1 then 2 else 0)"

definition MethodSignature_str :: "MethodSignature \<Rightarrow> WSTRING" where
  "MethodSignature_str data = concat (map hex2 data)"

definition IsInstanceMethod :: "MethodSignature \<Rightarrow> bool" where
  "IsInstanceMethod data \<longleftrightarrow> CallingConvention data AND IMAGE_CEE_CS_CALLCONV_HASTHIS \<noteq> 0"

section \<open>Methods, replacements and integrations\<close>

record MethodReference =
  mr_assembly :: AssemblyReference
  type_name :: WSTRING
  method_name :: WSTRING
  action :: WSTRING
  method_signature :: MethodSignature
  min_version :: Version
  max_version :: Version
  signature_types :: "WSTRING list"

definition MethodReference_nil :: MethodReference where
  "MethodReference_nil = \<lparr>mr_assembly = AssemblyReference_nil, type_name = [], method_name = [], action = [],
     method_signature = [], min_version = Version_nil,
     max_version = \<lparr>major = 0xFFFF, minor = 0xFFFF, build = 0xFFFF, revision = 0xFFFF\<rparr>, signature_types = []\<rparr>"

definition MethodReference_of :: "platform \<Rightarrow> WSTRING \<Rightarrow> WSTRING \<Rightarrow> WSTRING \<Rightarrow> WSTRING \<Rightarrow> Version \<Rightarrow> Version \<Rightarrow>
    byte list \<Rightarrow> WSTRING list \<Rightarrow> MethodReference option" where
  "MethodReference_of pf assembly_name ty meth act minv maxv sig types =
     map_option (\<lambda>a. \<lparr>mr_assembly = a, type_name = ty, method_name = meth, action = act, method_signature = sig,
       min_version = minv, max_version = maxv, signature_types = types\<rparr>) (AssemblyReference_of pf assembly_name)"

definition get_type_cache_key :: "MethodReference \<Rightarrow> WSTRING" where
  "get_type_cache_key m = W ''['' @ ar_name (mr_assembly m) @ W '']'' @ type_name m @ W ''_vMin_'' @
     Version_str (min_version m) @ W ''_vMax_'' @ Version_str (max_version m)"

definition get_method_cache_key :: "MethodReference \<Rightarrow> WSTRING" where
  "get_method_cache_key m = W ''['' @ ar_name (mr_assembly m) @ W '']'' @ type_name m @ W ''.'' @ method_name m @
     W ''_vMin_'' @ Version_str (min_version m) @ W ''_vMax_'' @ Version_str (max_version m)"

definition MethodReference_eq :: "MethodReference \<Rightarrow> MethodReference \<Rightarrow> bool" where
  "MethodReference_eq m n \<longleftrightarrow> AssemblyReference_eq (mr_assembly m) (mr_assembly n) \<and> type_name m = type_name n \<and>
     Version_eq (min_version m) (min_version n) \<and> Version_eq (max_version m) (max_version n) \<and>
     method_name m = method_name n \<and> method_signature m = method_signature n"

record MethodReplacement =
  caller_method :: MethodReference
  target_method :: MethodReference
  wrapper_method :: MethodReference

definition MethodReplacement_eq :: "MethodReplacement \<Rightarrow> MethodReplacement \<Rightarrow> bool" where
  "MethodReplacement_eq r s \<longleftrightarrow> MethodReference_eq (caller_method r) (caller_method s) \<and>
     MethodReference_eq (target_method r) (target_method s) \<and> MethodReference_eq (wrapper_method r) (wrapper_method s)"

record Integration =
  integration_name :: WSTRING
  method_replacements :: "MethodReplacement list"

definition Integration_eq :: "Integration \<Rightarrow> Integration \<Rightarrow> bool" where
  "Integration_eq i j \<longleftrightarrow> integration_name i = integration_name j \<and>
     list_all2 MethodReplacement_eq (method_replacements i) (method_replacements j)"

record IntegrationMethod =
  im_integration_name :: WSTRING
  replacement :: MethodReplacement

definition IntegrationMethod_eq :: "IntegrationMethod \<Rightarrow> IntegrationMethod \<Rightarrow> bool" where
  "IntegrationMethod_eq i j \<longleftrightarrow> im_integration_name i = im_integration_name j \<and>
     MethodReplacement_eq (replacement i) (replacement j)"

section \<open>Printing and reading numbers\<close>

lemma digit_decimal: "n < 10 \<Longrightarrow> is_digit (0x30 + word_of_nat n) \<and> digit_value (0x30 + word_of_nat n) = n"
proof -
  assume n: "n < 10"
  then have "n \<in> {0, 1, 2, 3, 4, 5, 6, 7, 8, 9}" by auto
  then show ?thesis by (auto simp: is_digit_def digit_value_def)
qed

lemma digit_hex: "n < 16 \<Longrightarrow> is_hex (hex_digit n) \<and> digit_value (hex_digit n) = n"
proof -
  assume n: "n < 16"
  then have "n \<in> {0, 1, 2, 3, 4, 5, 6, 7, 8, 9, 10, 11, 12, 13, 14, 15}"
    by (simp only: insert_iff empty_iff) arith
  then show ?thesis by (elim insertE emptyE) (simp_all add: is_hex_def is_digit_def digit_value_def hex_digit_def)
qed

lemma decimal_digits: "list_all is_digit (decimal n) \<and> decimal n \<noteq> []"
proof (induction n rule: decimal.induct)
  case (1 n)
  then show ?case using digit_decimal [of n] digit_decimal [of "n mod 10"] by (simp add: decimal.simps [of n])
qed

lemma number_decimal: "number 10 (decimal n) = n"
proof (induction n rule: decimal.induct)
  case (1 n)
  then show ?case
    using digit_decimal [of n] digit_decimal [of "n mod 10"] by (simp add: decimal.simps [of n] number_def)
qed

lemma read_ushort_decimal: "read_ushort (decimal (unat v)) = v"
  using unat_u16_less [of v] by (simp add: read_ushort_def number_decimal)

lemma number_hex2: "number 16 (hex2 b) = unat b"
  using digit_hex [of "unat b div 16"] digit_hex [of "unat b mod 16"] unat_byte_less [of b]
  by (simp add: hex2_def number_def del: unat_byte_less)

lemma hex2_hex: "list_all is_hex (hex2 b)"
  using digit_hex [of "unat b div 16"] digit_hex [of "unat b mod 16"] unat_byte_less [of b]
  by (simp add: hex2_def del: unat_byte_less)

lemma hex2s:
  "length (concat (map hex2 k)) = 2 * length k" "list_all is_hex (concat (map hex2 k))"
  "i < length k \<Longrightarrow> substr (i * 2) 2 (concat (map hex2 k)) = hex2 (k ! i)"
proof -
  show "length (concat (map hex2 k)) = 2 * length k" by (induction k) (simp_all add: hex2_def)
  show "list_all is_hex (concat (map hex2 k))" by (induction k) (simp_all add: hex2_hex)
  show "i < length k \<Longrightarrow> substr (i * 2) 2 (concat (map hex2 k)) = hex2 (k ! i)"
  proof (induction k arbitrary: i)
    case (Cons b k)
    then show ?case by (cases i) (simp_all add: substr_def hex2_def)
  qed simp
qed

lemma key_bytes_str: "length k = kPublicKeySize \<Longrightarrow> key_bytes (PublicKey_str k @ r) = k"
proof -
  assume k: "length k = kPublicKeySize"
  have "key_bytes (PublicKey_str k @ r) = map (\<lambda>i. k ! i) [0..<8]"
    unfolding key_bytes_def
  proof (rule map_cong [OF refl])
    fix i assume "i \<in> set [0..<8]"
    then have i: "i < 8" by simp
    then have "i * 2 + 2 \<le> length (concat (map hex2 k))" using k hex2s(1) [of k] by simp
    then have "substr (i * 2) 2 (PublicKey_str k @ r) = hex2 (k ! i)"
      using hex2s(3) [of i k] i k by (simp add: PublicKey_str_def substr_def)
    then show "word_of_nat (number 16 (substr (i * 2) 2 (PublicKey_str k @ r))) = k ! i" by (simp add: number_hex2)
  qed
  then show ?thesis using k map_nth [of k] by simp
qed

section \<open>Searching\<close>

lemma strip_prefix_Some: "strip_prefix p s = Some r \<longleftrightarrow> s = p @ r"
  by (induction p s rule: strip_prefix.induct) auto

lemma regex_search_hit: "m s = Some r \<Longrightarrow> regex_search m s = Some r"
  by (cases s) simp_all

text \<open>
  The literals end in the character \<open>e\<close> that occurs nowhere else in them: a match can only
  start such that its literal ends at the next \<open>e\<close>.
\<close>

lemma first_char:
  "e \<notin> set a \<Longrightarrow> e \<notin> set b \<Longrightarrow> a @ e # x = b @ e # y \<longleftrightarrow> a = b \<and> x = y"
  by (induction a b rule: list_induct2') auto

lemma search_skip:
  "e \<notin> set q \<Longrightarrow> e \<notin> set l \<Longrightarrow> \<not> suffix l q \<Longrightarrow>
   regex_search (after_literal (l @ [e]) m) (q @ e # t) = regex_search (after_literal (l @ [e]) m) t"
proof (induction q)
  case Nil
  then obtain c l' where "l = c # l'" "c \<noteq> e" by (cases l) auto
  then have "strip_prefix (l @ [e]) (e # t) = None" by simp
  then show ?case by (simp add: after_literal_def)
next
  case (Cons c q)
  have "strip_prefix (l @ [e]) ((c # q) @ e # t) = None"
  proof (rule ccontr)
    assume "strip_prefix (l @ [e]) ((c # q) @ e # t) \<noteq> None"
    then obtain r where "(c # q) @ e # t = l @ e # r" by (auto simp: strip_prefix_Some)
    then have "l = c # q" using Cons.prems(1,2) first_char [of e "c # q" l t r] by simp
    then show False using Cons.prems(3) by simp
  qed
  moreover have "\<not> suffix l q" using Cons.prems(3) by (simp add: suffix_Cons)
  ultimately show ?case using Cons by (simp add: after_literal_def)
qed

lemma search_found:
  assumes "e \<notin> set p" "e \<notin> set l" "m t = Some r"
  shows "regex_search (after_literal (l @ [e]) m) (p @ l @ e # t) = Some r"
  using assms(1)
proof (induction p)
  case Nil
  have "strip_prefix (l @ [e]) (l @ e # t) = Some t" by (simp add: strip_prefix_Some)
  then show ?case using assms(3) by (intro regex_search_hit) (simp add: after_literal_def)
next
  case (Cons c p)
  have "strip_prefix (l @ [e]) ((c # p) @ l @ e # t) = None"
  proof (rule ccontr)
    assume "strip_prefix (l @ [e]) ((c # p) @ l @ e # t) \<noteq> None"
    then obtain r where "(c # p @ l) @ e # t = l @ e # r" by (auto simp: strip_prefix_Some)
    then have "l = c # p @ l" using Cons.prems assms(2) first_char [of e "c # p @ l" l t r] by simp
    then have "length l = length (c # p @ l)" by (rule arg_cong)
    then show False by simp
  qed
  then show ?case using Cons by (simp add: after_literal_def)
qed

lemma one_or_more_stop:
  "list_all p x \<Longrightarrow> x \<noteq> [] \<Longrightarrow> s = [] \<or> \<not> p (hd s) \<Longrightarrow> one_or_more p (x @ s) = Some (x, s)"
proof -
  assume x: "list_all p x" "x \<noteq> []" and s: "s = [] \<or> \<not> p (hd s)"
  have "takeWhile p s = []" "dropWhile p s = s" using s by (cases s; simp)+
  then have "takeWhile p (x @ s) = x" "dropWhile p (x @ s) = s"
    using x(1) by (simp_all add: takeWhile_append2 dropWhile_append2 list_all_iff)
  then show ?thesis using x(2) by (simp add: one_or_more_def)
qed

lemma version_groups_str:
  "s = [] \<or> \<not> is_digit (hd s) \<Longrightarrow> version_groups (Version_str v @ s) =
     Some (decimal (unat (major v)), decimal (unat (minor v)), decimal (unat (build v)), decimal (unat (revision v)))"
proof -
  assume s: "s = [] \<or> \<not> is_digit (hd s)"
  have W: "W ''.'' = [0x2E]" by code_simp
  have d: "\<not> is_digit 0x2E" by (simp add: is_digit_def)
  show ?thesis
    using s d by (simp add: version_groups_def Version_str_def W one_or_more_stop decimal_digits)
qed

lemma no_equals: "list_all is_digit s \<Longrightarrow> 0x3D \<notin> set s" "list_all (\<lambda>c. is_letter c \<or> is_digit c) s \<Longrightarrow> 0x3D \<notin> set s"
  by (auto simp: list_all_iff is_digit_def is_letter_def)

lemma Version_str_no_equals: "0x3D \<notin> set (Version_str v)"
proof -
  have "0x3D \<notin> set (W ''.'')" by code_simp
  then show ?thesis using no_equals(1) decimal_digits by (auto simp: Version_str_def)
qed

definition plain_name :: "WSTRING \<Rightarrow> bool" where
  "plain_name s \<longleftrightarrow> list_all (\<lambda>c. c \<noteq> 0x2C \<and> c \<noteq> 0x20 \<and> c \<noteq> 0x3D) s"

definition culture_name :: "WSTRING \<Rightarrow> bool" where
  "culture_name s \<longleftrightarrow> s \<noteq> [] \<and> list_all (\<lambda>c. is_letter c \<or> is_digit c) s"

lemma find_char_append:
  "c \<notin> set p \<Longrightarrow> find_char c (p @ c # s) = Some (length p)"
  "c \<notin> set p \<Longrightarrow> find_char c p = None"
proof -
  assume "c \<notin> set p"
  then have t: "takeWhile (\<lambda>x. x \<noteq> c) p = p" "takeWhile (\<lambda>x. x \<noteq> c) (p @ c # s) = p"
    by (auto simp: takeWhile_eq_all_conv) (induction p, auto)
  show "find_char c (p @ c # s) = Some (length p)" "find_char c p = None" unfolding find_char_def t by simp_all
qed

lemma name_of_str: "plain_name n \<Longrightarrow> GetNameFromAssemblyReferenceString (n @ W '', '' @ t) = n"
proof -
  assume n: "plain_name n"
  then have n: "0x2C \<notin> set n" "0x20 \<notin> set n" by (auto simp: plain_name_def list_all_iff)
  have W: "W '', '' = [0x2C, 0x20]" by code_simp
  show ?thesis
    using n find_char_append(1) [OF n(1), of "0x20 # t"] find_char_append(2) [of "0x20" "rev n"]
    by (simp add: GetNameFromAssemblyReferenceString_def W substr_def rfind_char_def)
qed

lemma not_suffix_append:
  assumes "\<not> suffix (drop k l) y" "length l \<le> length y + k"
  shows "\<not> suffix l (x @ y)"
proof
  assume "suffix l (x @ y)"
  then have "suffix (drop k l) (x @ y)" by (rule suffix_order.trans [OF suffix_drop])
  then obtain z where z: "drop k l = z @ y" using assms(1) by (auto simp: suffix_append)
  then have "length l - k = length z + length y" by (metis length_append length_drop)
  then have "z = []" using assms(2) by (cases z) auto
  with z assms(1) show False by simp
qed

lemma literal_parts:
  "W '', Version='' = W '', '' @ W ''Version'' @ [0x3D]" "W ''Version='' = W ''Version'' @ [0x3D]"
  "W '', Culture='' = W '', '' @ W ''Culture'' @ [0x3D]" "W ''Culture='' = W ''Culture'' @ [0x3D]"
  "W '', PublicKeyToken='' = W '', '' @ W ''PublicKeyToken'' @ [0x3D]"
  "W ''PublicKeyToken='' = W ''PublicKeyToken'' @ [0x3D]"
  "0x3D \<notin> set (W ''Version'')" "0x3D \<notin> set (W ''Culture'')" "0x3D \<notin> set (W ''PublicKeyToken'')" "0x3D \<notin> set (W '', '')"
  by code_simp+

lemma literal_suffixes:
  "\<not> suffix (W ''Culture'') (x @ W ''Version'')" "\<not> suffix (W ''PublicKeyToken'') (x @ W ''Version'')"
  "\<not> suffix (W ''PublicKeyToken'') (x @ W ''Culture'')"
  by (rule not_suffix_append [of 0]; code_simp) (rule not_suffix_append [of 12]; code_simp)+

text \<open>A printed reference, cut where the three searches find their literals.\<close>

locale printed_reference =
  fixes a :: AssemblyReference
  assumes name: "plain_name (ar_name a)" and culture: "culture_name (ar_locale a)"
    and key: "length (ar_public_key a) = kPublicKeySize"
begin

lemma parts:
  "AssemblyReference_str a = (ar_name a @ W '', '') @ W ''Version'' @ 0x3D # (Version_str (ar_version a) @ W '', '') @
     W ''Culture'' @ 0x3D # (ar_locale a @ W '', '') @ W ''PublicKeyToken'' @ 0x3D # PublicKey_str (ar_public_key a)"
  by (simp add: AssemblyReference_str_def literal_parts)

lemma no_equals_before:
  "0x3D \<notin> set (ar_name a @ W '', '')" "0x3D \<notin> set (Version_str (ar_version a) @ W '', '')"
  "0x3D \<notin> set (ar_locale a @ W '', '')"
  using name culture no_equals(2) Version_str_no_equals
  by (auto simp: plain_name_def culture_name_def list_all_iff literal_parts(10))

lemma comma: "hd (W '', '' @ s) = 0x2C" "W '', '' @ s \<noteq> []" "\<not> is_digit 0x2C" "\<not> is_letter 0x2C"
  by (simp_all add: W_def unit_of_def is_digit_def is_letter_def)

lemma version_found: "GetVersionFromAssemblyReferenceString Win32 (AssemblyReference_str a) = Some (ar_version a)"
proof -
  let ?v = "ar_version a"
  let ?t = "(W '', '') @ W ''Culture'' @ 0x3D # (ar_locale a @ W '', '') @ W ''PublicKeyToken'' @ 0x3D # PublicKey_str (ar_public_key a)"
  have "regex_search (after_literal (W ''Version='') version_groups) (AssemblyReference_str a) =
      Some (decimal (unat (major ?v)), decimal (unat (minor ?v)), decimal (unat (build ?v)), decimal (unat (revision ?v)))"
    unfolding parts literal_parts(2) append_assoc
    by (subst append_assoc [symmetric])
      (rule search_found, rule no_equals_before, rule literal_parts, rule version_groups_str, simp add: comma)
  then show ?thesis by (simp add: GetVersionFromAssemblyReferenceString_def read_ushort_decimal)
qed

lemma locale_found: "GetLocaleFromAssemblyReferenceString Win32 (AssemblyReference_str a) = Some (ar_locale a)"
proof -
  let ?m = "one_or_more (\<lambda>c. is_letter c \<or> is_digit c)"
  let ?t = "ar_locale a @ W '', '' @ W ''PublicKeyToken'' @ 0x3D # PublicKey_str (ar_public_key a)"
  let ?q = "(ar_name a @ W '', '') @ W ''Version''"
  let ?r = "(Version_str (ar_version a) @ W '', '') @ W ''Culture'' @ 0x3D # ?t"
  have e: "AssemblyReference_str a = ?q @ 0x3D # ?r" by (simp add: parts)
  have "regex_search (after_literal (W ''Culture='') ?m) (AssemblyReference_str a) =
      regex_search (after_literal (W ''Culture'' @ [0x3D]) ?m) ?r"
    unfolding e literal_parts(4)
  proof (rule search_skip)
    show "0x3D \<notin> set ?q" using no_equals_before(1) literal_parts(7) by simp
  qed (rule literal_parts literal_suffixes)+
  also have "\<dots> = Some (ar_locale a, W '', '' @ W ''PublicKeyToken'' @ 0x3D # PublicKey_str (ar_public_key a))"
    using culture by (intro search_found no_equals_before literal_parts one_or_more_stop)
      (simp_all add: culture_name_def comma)
  finally show ?thesis by (simp add: GetLocaleFromAssemblyReferenceString_def)
qed

lemma key_found: "GetPublicKeyFromAssemblyReferenceString Win32 (AssemblyReference_str a) = Some (ar_public_key a)"
proof -
  let ?k = "PublicKey_str (ar_public_key a)"
  let ?s = "(ar_locale a @ W '', '') @ W ''PublicKeyToken'' @ 0x3D # ?k"
  let ?p = "(Version_str (ar_version a) @ W '', '') @ W ''Culture''"
  let ?q = "(ar_name a @ W '', '') @ W ''Version''"
  have e: "AssemblyReference_str a = ?q @ 0x3D # ?p @ 0x3D # ?s" by (simp add: parts)
  have q: "0x3D \<notin> set ?q" "0x3D \<notin> set ?p" using no_equals_before literal_parts(7,8) by simp_all
  have "regex_search (after_literal (W ''PublicKeyToken='') hex16) (AssemblyReference_str a) =
      regex_search (after_literal (W ''PublicKeyToken'' @ [0x3D]) hex16) (?p @ 0x3D # ?s)"
    unfolding e literal_parts(6) by (rule search_skip) (rule q literal_parts literal_suffixes)+
  also have "\<dots> = regex_search (after_literal (W ''PublicKeyToken'' @ [0x3D]) hex16) ?s"
    by (rule search_skip) (rule q literal_parts literal_suffixes)+
  also have "\<dots> = Some ?k"
  proof (intro search_found no_equals_before literal_parts)
    show "hex16 ?k = Some ?k" using hex2s(1,2) [of "ar_public_key a"] key by (simp add: hex16_def PublicKey_str_def)
  qed
  finally show ?thesis
    using key_bytes_str [OF key, of "[]"] by (simp add: GetPublicKeyFromAssemblyReferenceString_def)
qed

lemma reference_found: "AssemblyReference_of Win32 (AssemblyReference_str a) = Some a"
proof -
  have "GetNameFromAssemblyReferenceString (AssemblyReference_str a) = ar_name a"
    using name_of_str [OF name] by (simp add: parts)
  then show ?thesis by (simp add: AssemblyReference_of_def version_found locale_found key_found)
qed

end

definition sample_reference :: AssemblyReference where
  "sample_reference = \<lparr>ar_name = W ''System.Web'', ar_version = \<lparr>major = 4, minor = 0, build = 0, revision = 0\<rparr>,
     ar_locale = W ''neutral'', ar_public_key = [0xb0, 0x3f, 0x5f, 0x7f, 0x11, 0xd5, 0x0a, 0x3a]\<rparr>"

interpretation sample: printed_reference sample_reference
  by unfold_locales code_simp+

section \<open>Contracts\<close>

text \<open>
  C35. On Windows an assembly reference survives printing and parsing: name, all four version
  numbers, culture and public key, for every name without comma, space or equals sign, every
  alphanumeric culture and every key.
\<close>

theorem AssemblyReference_roundtrip:
  assumes "plain_name (ar_name a)" "culture_name (ar_locale a)" "length (ar_public_key a) = 8"
  shows "AssemblyReference_of Win32 (AssemblyReference_str a) = Some a"
proof -
  from assms have "printed_reference a" by unfold_locales
  then show ?thesis by (rule printed_reference.reference_found)
qed

theorem AssemblyReference_roundtrip_witness:
  "AssemblyReference_of Win32 (AssemblyReference_str sample_reference) = Some sample_reference"
  by (rule AssemblyReference_roundtrip) code_simp+

text \<open>
  On other systems the pattern has to match the whole string: if RE2 answers so, then from
  a string that does not begin with the literal of the pattern, such as every printed reference
  with a plain name, only the name is read, and version, culture and key are the defaults.
\<close>

lemma AssemblyReference_full_match:
  assumes "\<And>p s vs. take 8 s \<noteq> take 8 (map of_char p) \<Longrightarrow> FullMatch_shorts r p s vs = vs"
    "\<And>p s. take 8 s \<noteq> take 8 (map of_char p) \<Longrightarrow> FullMatch_string r p s = None"
    "ToString str = Some s" "take 8 s \<notin> {map of_char ''Version='', map of_char ''Culture='', map of_char ''PublicKe''}"
  shows "AssemblyReference_of (Posix r) str = Some \<lparr>ar_name = GetNameFromAssemblyReferenceString str,
    ar_version = Version_nil, ar_locale = W ''neutral'', ar_public_key = PublicKey_nil\<rparr>"
proof -
  have p: "take 8 (map of_char re_version) = (map of_char ''Version='' :: byte list)"
    "take 8 (map of_char re_culture) = (map of_char ''Culture='' :: byte list)"
    "take 8 (map of_char re_key) = (map of_char ''PublicKe'' :: byte list)" by code_simp+
  have "FullMatch_shorts r re_version s [0, 0, 0, 0] = [0, 0, 0, 0]"
    "FullMatch_string r re_culture s = None" "FullMatch_string r re_key s = None"
    using assms(4) by (auto simp: p intro!: assms(1,2))
  then show ?thesis
    using assms(3) by (simp add: AssemblyReference_of_def GetVersionFromAssemblyReferenceString_def
        GetLocaleFromAssemblyReferenceString_def GetPublicKeyFromAssemblyReferenceString_def Version_nil_def Let_def)
qed

lemma AssemblyReference_full_match_witness:
  "AssemblyReference_of (Posix \<lparr>FullMatch_shorts = (\<lambda>p s vs. vs), FullMatch_string = (\<lambda>p s. None)\<rparr>)
     (AssemblyReference_str sample_reference) =
   Some \<lparr>ar_name = W ''System.Web'', ar_version = Version_nil, ar_locale = W ''neutral'', ar_public_key = PublicKey_nil\<rparr>"
proof -
  have n: "GetNameFromAssemblyReferenceString (AssemblyReference_str sample_reference) = W ''System.Web''" by code_simp
  obtain s where s: "ToString (AssemblyReference_str sample_reference) = Some s"
      "take 8 s \<notin> {map of_char ''Version='', map of_char ''Culture='', map of_char ''PublicKe''}"
  proof -
    have "case ToString (AssemblyReference_str sample_reference) of None \<Rightarrow> False
      | Some s \<Rightarrow> take 8 s \<notin> {map of_char ''Version='', map of_char ''Culture='', map of_char ''PublicKe''}" by code_simp
    then show ?thesis using that by (auto split: option.splits)
  qed
  show ?thesis
    by (rule AssemblyReference_full_match [OF _ _ s, of "\<lparr>FullMatch_shorts = (\<lambda>p s vs. vs), FullMatch_string = (\<lambda>p s. None)\<rparr>",
          unfolded n]) simp_all
qed

text \<open>The number a version stands for, the revision left out.\<close>

definition version_number :: "Version \<Rightarrow> nat" where
  "version_number v = (unat (major v) * 0x10000 + unat (minor v)) * 0x10000 + unat (build v)"

lemma digits_less:
  fixes k :: nat
  assumes "b < k" "b' < k"
  shows "a * k + b < a' * k + b' \<longleftrightarrow> a < a' \<or> a = a' \<and> b < b'"
proof -
  consider "a < a'" | "a = a'" | "a' < a" by linarith
  then show ?thesis
  proof cases
    case 1
    then have "(a + 1) * k \<le> a' * k" by (intro mult_le_mono1) simp
    with 1 assms show ?thesis by simp
  next
    case 3
    then have "(a' + 1) * k \<le> a * k" by (intro mult_le_mono1) simp
    with 3 assms show ?thesis by simp
  qed simp
qed

lemma Version_less_number: "Version_less v w \<longleftrightarrow> version_number v < version_number w"
  using unat_u16_less [of "minor v"] unat_u16_less [of "minor w"] unat_u16_less [of "build v"] unat_u16_less [of "build w"]
  by (auto simp: version_number_def digits_less Version_less_def word_less_nat_alt word_unat_eq_iff [where 'a = 16]
      nat_neq_iff)

lemma Version_greater_number: "Version_greater v w \<longleftrightarrow> version_number w < version_number v"
  using Version_less_number [of w v] by (simp add: Version_greater_def Version_less_def eq_commute)

text \<open>
  The comparisons of versions order the number formed by major, minor and build: less and
  greater are the strict orders of that number, so of two versions exactly one of less, greater
  and the same number holds. The revision does not count, although equality compares it.
\<close>

theorem Version_order:
  "(Version_less v w \<longleftrightarrow> version_number v < version_number w) \<and>
   (Version_greater v w \<longleftrightarrow> version_number v > version_number w) \<and>
   (Version_eq v w \<longleftrightarrow> version_number v = version_number w \<and> revision v = revision w)"
proof -
  have "Version_greater v w = Version_less w v" by (simp add: Version_greater_def Version_less_def eq_commute)
  moreover have "version_number v = version_number w \<longleftrightarrow> \<not> Version_less v w \<and> \<not> Version_less w v"
    unfolding Version_less_number by auto
  moreover have "\<not> Version_less v w \<and> \<not> Version_less w v \<longleftrightarrow> major v = major w \<and> minor v = minor w \<and> build v = build w"
    unfolding Version_less_def by (cases "major v" "major w" rule: linorder_cases;
      cases "minor v" "minor w" rule: linorder_cases; cases "build v" "build w" rule: linorder_cases) (auto simp: less_imp_neq dest: less_not_sym)
  ultimately show ?thesis using Version_less_number by (simp add: Version_eq_def)
qed

text \<open>
  A method signature that begins with its convention, the generic parameter count if it is
  generic, and the parameter count, is decoded at the right places, and the return type is
  read inside it. Cut off directly before the return type, the test for an object reads
  behind the end of the vector.
\<close>

theorem signature_decoded:
  assumes "CallingConvention [conv] AND IMAGE_CEE_CS_CALLCONV_GENERIC \<noteq> 0 \<longleftrightarrow> gen = [g]" "gen = [g] \<or> gen = []"
  shows "NumberOfArguments (conv # gen @ n # ret # ps) = unat n \<and>
    NumberOfTypeArguments (conv # gen @ n # ret # ps) = (if gen = [] then 0 else unat g) \<and>
    (conv # gen @ n # ret # ps) ! IndexOfReturnType (conv # gen @ n # ret # ps) = ret \<and>
    ReturnTypeIsObject (conv # gen @ n # ret # ps) = Some (ret = ELEMENT_OBJECT) \<and>
    ReturnTypeIsObject (conv # gen @ [n]) = None"
  using assms by (auto simp: NumberOfArguments_def NumberOfTypeArguments_def IndexOfReturnType_def ReturnTypeIsObject_def
      generic_convention_def CallingConvention_def byte_at_def)

theorem signature_decoded_witness:
  "NumberOfArguments [0x30, 1, 2, 0x1c, 8, 8] = 2 \<and> ReturnTypeIsObject [0x30, 1, 2, 0x1c, 8, 8] = Some True \<and>
   ReturnTypeIsObject [0x30, 1, 2] = None"
  using signature_decoded [of "0x30" "[1]" 1 2 "0x1c" "[8, 8]"] by (simp add: CallingConvention_def)

end
