(* ===== verification/Integration_Loader.thy ===== *)
theory Integration_Loader
  imports Integrations
begin

text \<open>
  Loading the integrations from JSON (integration\_loader.cpp). The JSON library is not part of
  the repository: it is a parameter, a record of the operations the code calls on its values,
  each of which may throw. An exception is the left side of a sum.
\<close>

section \<open>Exceptions and the JSON library\<close>

text \<open>The handlers tell the exceptions of the standard hierarchy from all others.\<close>

datatype exn = Parse_error | Type_error | Std_exception | Other_exception

type_synonym 'a throwing = "exn + 'a"

definition try_then :: "'a throwing \<Rightarrow> ('a \<Rightarrow> 'b throwing) \<Rightarrow> 'b throwing" where
  "try_then m f = (case m of Inl e \<Rightarrow> Inl e | Inr x \<Rightarrow> f x)"

record 'j json_lib =
  is_object :: "'j \<Rightarrow> bool"
  is_array :: "'j \<Rightarrow> bool"
  is_string :: "'j \<Rightarrow> bool"
  is_number_unsigned :: "'j \<Rightarrow> bool"
  items :: "'j \<Rightarrow> 'j list"
  value_string :: "string \<Rightarrow> 'j \<Rightarrow> byte list throwing"
  value_json :: "string \<Rightarrow> 'j \<Rightarrow> 'j \<Rightarrow> 'j throwing"
  find_key :: "string \<Rightarrow> 'j \<Rightarrow> 'j option"
  empty_object :: 'j
  empty_array :: 'j
  get_ushort :: "'j \<Rightarrow> u16 throwing"
  get_byte :: "'j \<Rightarrow> byte throwing"
  get_strings :: "'j \<Rightarrow> byte list list throwing"
  get_string :: "'j \<Rightarrow> byte list throwing"

text \<open>Conversion of strings never fails (\<open>conversion_bounds\<close>).\<close>

definition wide :: "byte list \<Rightarrow> WSTRING" where
  "wide s = the (ToWSTRING s)"

section \<open>Signatures\<close>

text \<open>A \<open>char\<close> is signed. The nibble is \<open>None\<close> for a character that is skipped.\<close>

definition hex_nibble :: "byte \<Rightarrow> byte option" where
  "hex_nibble c =
     (if 0x30 \<le> sint c \<and> sint c \<le> 0x39 then Some (c - 0x30)
      else if 0x61 \<le> sint c \<and> sint c \<le> 0x66 then Some (c - 0x61 + 10)
      else if 0x41 \<le> sint c \<and> sint c \<le> 0x46 then Some (c - 0x41 + 10)
      else None)"

fun hex_loop :: "byte list \<Rightarrow> bool \<Rightarrow> byte \<Rightarrow> byte list \<Rightarrow> byte list" where
  "hex_loop [] flip prev signature = signature"
| "hex_loop (c # str) flip prev signature =
     (case hex_nibble c of
        None \<Rightarrow> hex_loop str flip prev signature
      | Some b \<Rightarrow> hex_loop str (\<not> flip) b (if flip then signature @ [push_bit 4 prev + b] else signature))"

fun number_loop :: "'j json_lib \<Rightarrow> 'j list \<Rightarrow> byte list \<Rightarrow> byte list throwing" where
  "number_loop lib [] signature = Inr signature"
| "number_loop lib (el # els) signature =
     (if is_number_unsigned lib el then
        try_then (get_byte lib el) (\<lambda>b. number_loop lib els (signature @ [b]))
      else number_loop lib els signature)"

definition signature_from_json :: "'j json_lib \<Rightarrow> 'j \<Rightarrow> byte list throwing" where
  "signature_from_json lib raw_signature =
     (if is_array lib raw_signature then number_loop lib (items lib raw_signature) []
      else if is_string lib raw_signature then
        try_then (get_string lib raw_signature) (\<lambda>str. Inr (hex_loop str False 0 []))
      else Inr [])"

section \<open>Method references\<close>

text \<open>An optional number of the target definition.\<close>

definition bound_from_json :: "'j json_lib \<Rightarrow> 'j \<Rightarrow> string \<Rightarrow> u16 \<Rightarrow> u16 throwing" where
  "bound_from_json lib src key default_value =
     (case find_key lib key src of None \<Rightarrow> Inr default_value | Some v \<Rightarrow> get_ushort lib v)"

definition MethodReferenceFromJson :: "platform \<Rightarrow> 'j json_lib \<Rightarrow> 'j \<Rightarrow> bool \<Rightarrow> bool \<Rightarrow> MethodReference throwing" where
  "MethodReferenceFromJson pf lib src is_target_method is_wrapper_method =
     (if \<not> is_object lib src then Inr MethodReference_nil
      else
        try_then (value_string lib ''assembly'' src) (\<lambda>assembly.
        try_then (value_string lib ''type'' src) (\<lambda>type.
        try_then (value_string lib ''method'' src) (\<lambda>method.
        try_then (value_json lib ''signature'' src (empty_array lib)) (\<lambda>raw_signature.
        try_then
          (if is_target_method then
             try_then (bound_from_json lib src ''minimum_major'' 0) (\<lambda>min_major.
             try_then (bound_from_json lib src ''minimum_minor'' 0) (\<lambda>min_minor.
             try_then (bound_from_json lib src ''minimum_patch'' 0) (\<lambda>min_patch.
             try_then (bound_from_json lib src ''maximum_major'' 0xFFFF) (\<lambda>max_major.
             try_then (bound_from_json lib src ''maximum_minor'' 0xFFFF) (\<lambda>max_minor.
             try_then (bound_from_json lib src ''maximum_patch'' 0xFFFF) (\<lambda>max_patch.
             try_then (case find_key lib ''signature_types'' src of None \<Rightarrow> Inr [] | Some v \<Rightarrow> get_strings lib v)
               (\<lambda>sig_types. Inr (\<lparr>major = min_major, minor = min_minor, build = min_patch, revision = 0\<rparr>,
                  \<lparr>major = max_major, minor = max_minor, build = max_patch, revision = 0xFFFF\<rparr>,
                  map wide sig_types, [])))))))) 
           else
             try_then (if is_wrapper_method then map_sum id wide (value_string lib ''action'' src) else Inr [])
               (\<lambda>action. Inr (Version_nil, \<lparr>major = 0xFFFF, minor = 0xFFFF, build = 0xFFFF, revision = 0xFFFF\<rparr>,
                  [], action))) (\<lambda>(minv, maxv, types, action).
        try_then (signature_from_json lib raw_signature) (\<lambda>signature.
        Inr (the (MethodReference_of pf (wide assembly) (wide type) (wide method) action minv maxv signature types)))))))))"

section \<open>Integrations\<close>

text \<open>The second component of the pairs tells whether the first is to be used; \<open>None\<close> if not.\<close>

definition MethodReplacementFromJson :: "platform \<Rightarrow> 'j json_lib \<Rightarrow> 'j \<Rightarrow> MethodReplacement option throwing" where
  "MethodReplacementFromJson pf lib src =
     (if \<not> is_object lib src then Inr None
      else
        try_then (value_json lib ''caller'' src (empty_object lib)) (\<lambda>c.
        try_then (MethodReferenceFromJson pf lib c False False) (\<lambda>caller.
        try_then (value_json lib ''target'' src (empty_object lib)) (\<lambda>t.
        try_then (MethodReferenceFromJson pf lib t True False) (\<lambda>target.
        try_then (value_json lib ''wrapper'' src (empty_object lib)) (\<lambda>w.
        try_then (MethodReferenceFromJson pf lib w False True) (\<lambda>wrapper.
        Inr (Some \<lparr>caller_method = caller, target_method = target, wrapper_method = wrapper\<rparr>))))))))"

fun replacements_loop :: "platform \<Rightarrow> 'j json_lib \<Rightarrow> 'j list \<Rightarrow> MethodReplacement list \<Rightarrow> MethodReplacement list throwing" where
  "replacements_loop pf lib [] replacements = Inr replacements"
| "replacements_loop pf lib (el # arr) replacements =
     try_then (MethodReplacementFromJson pf lib el) (\<lambda>mr.
       replacements_loop pf lib arr (case mr of None \<Rightarrow> replacements | Some r \<Rightarrow> replacements @ [r]))"

definition IntegrationFromJson :: "platform \<Rightarrow> 'j json_lib \<Rightarrow> 'j \<Rightarrow> Integration option throwing" where
  "IntegrationFromJson pf lib src =
     (if \<not> is_object lib src then Inr None
      else
        try_then (value_string lib ''name'' src) (\<lambda>n.
          let name = wide n in
          if name = [] then Inr None
          else
            try_then (value_json lib ''method_replacements'' src (empty_array lib)) (\<lambda>arr.
            try_then (if is_array lib arr then replacements_loop pf lib (items lib arr) [] else Inr []) (\<lambda>replacements.
            Inr (Some \<lparr>integration_name = name, method_replacements = replacements\<rparr>)))))"

text \<open>
  The loop over the elements: the integrations collected, and the exception that ended it.
\<close>

fun integrations_loop :: "platform \<Rightarrow> 'j json_lib \<Rightarrow> 'j list \<Rightarrow> Integration list \<Rightarrow> Integration list \<times> exn option" where
  "integrations_loop pf lib [] integrations = (integrations, None)"
| "integrations_loop pf lib (el # els) integrations =
     (case IntegrationFromJson pf lib el of
        Inl e \<Rightarrow> (integrations, Some e)
      | Inr i \<Rightarrow> integrations_loop pf lib els (case i of None \<Rightarrow> integrations | Some i \<Rightarrow> integrations @ [i]))"

text \<open>
  What the parser makes of the stream is given. The last handler throws the exception again
  inside a \<open>try\<close> that catches only standard exceptions.
\<close>

definition LoadIntegrationsFromStream :: "platform \<Rightarrow> 'j json_lib \<Rightarrow> 'j throwing \<Rightarrow> Integration list throwing" where
  "LoadIntegrationsFromStream pf lib stream =
     (let (integrations, exn) = (case stream of
            Inl e \<Rightarrow> ([], Some e)
          | Inr j \<Rightarrow> integrations_loop pf lib (items lib j) [])
      in (case exn of
            None \<Rightarrow> Inr integrations
          | Some Parse_error \<Rightarrow> Inr integrations
          | Some Type_error \<Rightarrow> Inr integrations
          | Some Std_exception \<Rightarrow> Inr integrations
          | Some Other_exception \<Rightarrow> Inl Other_exception))"

text \<open>The files that can be opened, with what the parser makes of them.\<close>

definition LoadIntegrationsFromFile :: "platform \<Rightarrow> 'j json_lib \<Rightarrow> (byte list \<Rightarrow> 'j throwing option) \<Rightarrow> WSTRING \<Rightarrow>
    Integration list throwing" where
  "LoadIntegrationsFromFile pf lib files file_path =
     (case files (the (ToString file_path)) of
        None \<Rightarrow> Inr []
      | Some stream \<Rightarrow>
          (case LoadIntegrationsFromStream pf lib stream of
             Inr integrations \<Rightarrow> Inr integrations
           | Inl Other_exception \<Rightarrow> Inl Other_exception
           | Inl e \<Rightarrow> Inr []))"

fun load_files :: "platform \<Rightarrow> 'j json_lib \<Rightarrow> (byte list \<Rightarrow> 'j throwing option) \<Rightarrow> WSTRING list \<Rightarrow> Integration list \<Rightarrow>
    Integration list throwing" where
  "load_files pf lib files [] integrations = Inr integrations"
| "load_files pf lib files (f # fs) integrations =
     try_then (LoadIntegrationsFromFile pf lib files f) (\<lambda>is. load_files pf lib files fs (integrations @ is))"

definition integrations_path :: WSTRING where
  "integrations_path = W ''SIGNALFX_INTEGRATIONS''"

definition LoadIntegrationsFromEnvironment :: "platform \<Rightarrow> 'j json_lib \<Rightarrow> (byte list \<Rightarrow> 'j throwing option) \<Rightarrow> environment \<Rightarrow>
    Integration list throwing" where
  "LoadIntegrationsFromEnvironment pf lib files env =
     load_files pf lib files (the (GetEnvironmentValues env integrations_path)) []"

section \<open>Strings of hexadecimal digits\<close>

lemma wide_total: "ToWSTRING s = Some (wide s)"
  using conversion_bounds [of "[]" s] by (auto simp: ToWSTRING_def wide_def)

lemma ToString_total: "\<exists>s. ToString w = Some s"
  using conversion_bounds [of "c_str w" "[]"] by (auto simp: ToString_def)

lemma AssemblyReference_of_total: "\<exists>a. AssemblyReference_of pf s = Some a"
  using ToString_total [of s] wide_total
  by (cases pf) (auto simp: AssemblyReference_of_def GetVersionFromAssemblyReferenceString_def
    GetLocaleFromAssemblyReferenceString_def GetPublicKeyFromAssemblyReferenceString_def Let_def split: option.splits)

lemma hex_loop_filter:
  "hex_loop str flip prev sig = hex_loop (filter (\<lambda>c. hex_nibble c \<noteq> None) str) flip prev sig"
  by (induction str arbitrary: flip prev sig) auto

lemma hex_nibble_digit: "n < 16 \<Longrightarrow> hex_nibble (ucast (hex_digit n)) = Some (word_of_nat n)"
proof -
  assume "n < 16"
  then have "n \<in> {0, 1, 2, 3, 4, 5, 6, 7, 8, 9, 10, 11, 12, 13, 14, 15}"
    by (simp only: insert_iff empty_iff) arith
  then show ?thesis by (elim insertE emptyE) (simp_all add: hex_digit_def hex_nibble_def)
qed

lemma nibbles: "push_bit 4 (word_of_nat (unat b div 16)) + word_of_nat (unat b mod 16) = b" for b :: byte
proof -
  have "push_bit 4 (word_of_nat (unat b div 16)) + word_of_nat (unat b mod 16) =
      (word_of_nat (unat b div 16 * 16 + unat b mod 16) :: byte)"
    by (simp only: of_nat_add of_nat_mult push_bit_eq_mult) simp
  also have "\<dots> = b" by (simp only: div_mult_mod_eq of_nat_unat ucast_id)
  finally show ?thesis .
qed

lemma hex_loop_str:
  "hex_loop (map ucast (MethodSignature_str sig) @ tail) False prev acc =
   hex_loop tail False (if sig = [] then prev else word_of_nat (unat (last sig) mod 16)) (acc @ sig)"
proof (induction sig arbitrary: prev acc)
  case (Cons b sig)
  have "unat b div 16 < 16" using unat_byte_less [of b] by (simp del: unat_byte_less)
  then show ?case
    using Cons.IH by (simp add: MethodSignature_str_def hex2_def hex_nibble_digit nibbles)
qed (simp add: MethodSignature_str_def)

lemma hex_loop_cong:
  "map hex_nibble s = map hex_nibble t \<Longrightarrow> hex_loop s flip prev acc = hex_loop t flip prev acc"
proof (induction s arbitrary: t flip prev acc)
  case (Cons c s)
  then obtain d u where t: "t = d # u" "hex_nibble d = hex_nibble c" "map hex_nibble s = map hex_nibble u"
    by (cases t) auto
  show ?case by (cases "hex_nibble c") (simp_all add: t(1,2) Cons.IH [OF t(3)])
qed simp

section \<open>The loop over the integrations\<close>

lemma integrations_loop_ok:
  "map (IntegrationFromJson pf lib) as = map Inr is \<Longrightarrow>
   integrations_loop pf lib (as @ bs) acc = integrations_loop pf lib bs (acc @ List.map_filter id is)"
proof (induction as arbitrary: acc "is")
  case (Cons a as)
  then obtain i js where i: "is = i # js" "IntegrationFromJson pf lib a = Inr i"
      "map (IntegrationFromJson pf lib) as = map Inr js" by (cases "is") auto
  then show ?case using Cons.IH [OF i(3)] by (cases i) (simp_all add: map_filter_simps)
qed (simp add: map_filter_simps)

lemma LoadIntegrationsFromStream_throws:
  "LoadIntegrationsFromStream pf lib stream = Inl e \<Longrightarrow> e = Other_exception"
  by (auto simp: LoadIntegrationsFromStream_def split: prod.splits option.splits exn.splits)

lemma LoadIntegrationsFromFile_throws:
  "LoadIntegrationsFromFile pf lib files f = Inl e \<Longrightarrow> e = Other_exception"
  by (auto simp: LoadIntegrationsFromFile_def split: sum.splits option.splits exn.splits)

lemma load_files_throws: "load_files pf lib files fs acc = Inl e \<Longrightarrow> e = Other_exception"
proof (induction fs arbitrary: acc)
  case (Cons f fs)
  then show ?case
    by (auto simp: try_then_def dest: LoadIntegrationsFromFile_throws split: sum.splits)
qed simp

section \<open>Contracts\<close>

text \<open>A small library of JSON values for the examples.\<close>

datatype json = Null | Number nat | Text string | Array "json list" | Object "(string \<times> json) list"

definition sample_value :: "string \<Rightarrow> json \<Rightarrow> json option" where
  "sample_value k j = (case j of Object kvs \<Rightarrow> map_of kvs k | _ \<Rightarrow> None)"

definition sample_text :: "json \<Rightarrow> byte list throwing" where
  "sample_text j = (case j of Text s \<Rightarrow> Inr (map of_char s) | _ \<Rightarrow> Inl Type_error)"

definition sample_lib :: "json json_lib" where
  "sample_lib = \<lparr>is_object = (\<lambda>j. case j of Object _ \<Rightarrow> True | _ \<Rightarrow> False),
     is_array = (\<lambda>j. case j of Array _ \<Rightarrow> True | _ \<Rightarrow> False),
     is_string = (\<lambda>j. case j of Text _ \<Rightarrow> True | _ \<Rightarrow> False),
     is_number_unsigned = (\<lambda>j. case j of Number _ \<Rightarrow> True | _ \<Rightarrow> False),
     items = (\<lambda>j. case j of Array js \<Rightarrow> js | Object kvs \<Rightarrow> map snd kvs | Null \<Rightarrow> [] | _ \<Rightarrow> [j]),
     value_string = (\<lambda>k j. case sample_value k j of None \<Rightarrow> Inr [] | Some v \<Rightarrow> sample_text v),
     value_json = (\<lambda>k j d. Inr (case sample_value k j of None \<Rightarrow> d | Some v \<Rightarrow> v)),
     find_key = sample_value, empty_object = Object [], empty_array = Array [],
     get_ushort = (\<lambda>j. case j of Number n \<Rightarrow> Inr (word_of_nat n) | _ \<Rightarrow> Inl Type_error),
     get_byte = (\<lambda>j. case j of Number n \<Rightarrow> Inr (word_of_nat n) | _ \<Rightarrow> Inl Type_error),
     get_strings = (\<lambda>j. Inl Type_error), get_string = sample_text\<rparr>"

text \<open>
  C36. A signature given as a string of hexadecimal digits is read as the bytes whose printed
  form it is, upper or lower case digits, with any other characters between them, and with a
  last single digit ignored.
\<close>

theorem signature_from_hex:
  assumes "\<not> is_array lib raw" "is_string lib raw" "get_string lib raw = Inr str"
    "map hex_nibble (filter (\<lambda>c. hex_nibble c \<noteq> None) str) = map hex_nibble (map ucast (MethodSignature_str sig)) @ tail"
    "length tail \<le> 1"
  shows "signature_from_json lib raw = Inr sig"
proof -
  define f where "f = filter (\<lambda>c. hex_nibble c \<noteq> None) str"
  define n where "n = length (MethodSignature_str sig)"
  have m: "map hex_nibble (take n f @ drop n f) = map hex_nibble (map ucast (MethodSignature_str sig)) @ tail"
    using assms(4) by (simp add: f_def)
  then have t: "map hex_nibble (take n f) = map hex_nibble (map ucast (MethodSignature_str sig))"
    and d: "length (drop n f) \<le> 1"
    using assms(5) by (auto simp: n_def append_eq_append_conv_if take_map [symmetric] dest: arg_cong [of _ _ length])
  have "hex_loop str False 0 [] = hex_loop (take n f @ drop n f) False 0 []" by (subst hex_loop_filter) (simp add: f_def)
  also have "\<dots> = hex_loop (map ucast (MethodSignature_str sig) @ drop n f) False 0 []" by (rule hex_loop_cong) (simp only: map_append t)
  also have "\<dots> = hex_loop (drop n f) False (if sig = [] then 0 else word_of_nat (unat (last sig) mod 16)) sig"
    by (simp add: hex_loop_str)
  also have "\<dots> = sig" using d by (cases "drop n f") (auto split: option.splits)
  finally show ?thesis using assms(1-3) by (simp add: signature_from_json_def try_then_def)
qed

theorem signature_from_hex_witness:
  "signature_from_json sample_lib (Text ''20 01-1C 0e f'') = Inr [0x20, 0x01, 0x1c, 0x0e]"
proof (rule signature_from_hex)
  show "get_string sample_lib (Text ''20 01-1C 0e f'') = Inr (map of_char ''20 01-1C 0e f'')" by code_simp
  show "map hex_nibble (filter (\<lambda>c. hex_nibble c \<noteq> None) (map of_char ''20 01-1C 0e f'')) =
      map hex_nibble (map ucast (MethodSignature_str [0x20, 0x01, 0x1c, 0x0e])) @ [Some 15]" by code_simp
qed (code_simp | simp)+

text \<open>
  C37. A value of an unexpected type ends the loading of a file, but what was read before it is
  kept: the result is the list of the integrations in front of it, without the elements that are
  no object or have no name. A file that cannot be parsed gives the empty list.
\<close>

theorem LoadIntegrationsFromStream_partial:
  assumes "items lib j = as @ b # bs" "map (IntegrationFromJson pf lib) as = map Inr is"
    "IntegrationFromJson pf lib b = Inl e" "e \<noteq> Other_exception"
  shows "LoadIntegrationsFromStream pf lib (Inr j) = Inr (List.map_filter id is) \<and>
    LoadIntegrationsFromStream pf lib (Inl e) = Inr []"
  using assms(3,4) integrations_loop_ok [OF assms(2), of "b # bs" "[]"]
  by (cases e) (simp_all add: LoadIntegrationsFromStream_def assms(1))

theorem LoadIntegrationsFromStream_partial_witness:
  "LoadIntegrationsFromStream Win32 sample_lib
     (Inr (Array [Number 1, Object [(''name'', Text ''A'')], Object [(''name'', Number 2)], Object [(''name'', Text ''B'')]])) =
   Inr [\<lparr>integration_name = W ''A'', method_replacements = []\<rparr>]"
proof -
  let ?as = "[Number 1, Object [(''name'', Text ''A'')]]" and ?b = "Object [(''name'', Number 2)]"
  have "items sample_lib (Array (?as @ ?b # [Object [(''name'', Text ''B'')]])) = ?as @ ?b # [Object [(''name'', Text ''B'')]]"
    by code_simp
  note i = this
  have m: "map (IntegrationFromJson Win32 sample_lib) ?as =
      map Inr [None, Some \<lparr>integration_name = W ''A'', method_replacements = []\<rparr>]" by code_simp
  have b: "IntegrationFromJson Win32 sample_lib ?b = Inl Type_error" by code_simp
  have "LoadIntegrationsFromStream Win32 sample_lib (Inr (Array (?as @ ?b # [Object [(''name'', Text ''B'')]]))) =
      Inr (List.map_filter id [None, Some \<lparr>integration_name = W ''A'', method_replacements = []\<rparr>])"
    by (rule conjunct1 [OF LoadIntegrationsFromStream_partial [OF i m b]]) simp
  then show ?thesis by (simp add: map_filter_simps)
qed

text \<open>
  No standard exception, in particular no error of the JSON library, leaves the loading of
  the configured files.
\<close>

theorem LoadIntegrations_no_throw:
  "LoadIntegrationsFromEnvironment pf lib files env \<notin> {Inl Parse_error, Inl Type_error, Inl Std_exception}"
  unfolding LoadIntegrationsFromEnvironment_def by (auto dest: load_files_throws)

end
