(* ===== verification/Clr_Enum.thy ===== *)
theory Clr_Enum
  imports Cor_Sig "HOL-Library.Monad_Syntax"
begin

text \<open>
  The enumerators of clr\_helpers.h, over which the profiler runs its \<open>for\<close> loops on metadata
  tables. The runtime fills an array of at most \<open>kEnumeratorMax\<close> tokens at a time; the
  enumerator holds the two callbacks into it, over the state \<open>'s\<close> of the runtime.
\<close>

type_synonym HCORENUM = u64

abbreviation kEnumeratorMax :: nat where "kEnumeratorMax \<equiv> 256"

section \<open>Enumerator and iterator\<close>

text \<open>The mutable handle \<open>ptr\_\<close> is passed along with the state.\<close>

record 's Enumerator =
  enum_callback :: "HCORENUM \<Rightarrow> nat \<Rightarrow> 's \<Rightarrow> hresult \<times> mdToken list \<times> HCORENUM \<times> 's"
  enum_close :: "HCORENUM \<Rightarrow> 's \<Rightarrow> 's"

record EnumeratorIterator =
  it_status :: hresult
  it_arr :: "mdToken list"
  it_idx :: u32
  it_sz :: u32

text \<open>\<open>Next\<close> and the update of the status: the first \<open>cnt\<close> elements of the array are written.\<close>

definition fetch :: "'s Enumerator \<Rightarrow> EnumeratorIterator \<Rightarrow> HCORENUM \<Rightarrow> 's \<Rightarrow> EnumeratorIterator \<times> HCORENUM \<times> 's" where
  "fetch e it ptr s =
     (let (hr, ts, ptr, s) = enum_callback e ptr kEnumeratorMax s
      in (it\<lparr>it_status := (if hr = S_OK \<and> ts = [] then S_FALSE else hr),
             it_arr := ts @ drop (length ts) (it_arr it), it_sz := word_of_nat (length ts)\<rparr>, ptr, s))"

definition iterator_begin :: "'s Enumerator \<Rightarrow> HCORENUM \<Rightarrow> 's \<Rightarrow> EnumeratorIterator \<times> HCORENUM \<times> 's" where
  "iterator_begin e ptr s =
     fetch e \<lparr>it_status = S_FALSE, it_arr = replicate kEnumeratorMax 0, it_idx = 0, it_sz = 0\<rparr> ptr s"

text \<open>The comparison with \<open>end()\<close>, whose status is \<open>S_FALSE\<close>.\<close>

definition not_end :: "EnumeratorIterator \<Rightarrow> bool" where
  "not_end it \<longleftrightarrow> (it_status it = S_OK) \<noteq> False"

definition iterator_get :: "EnumeratorIterator \<Rightarrow> mdToken" where
  "iterator_get it = it_arr it ! unat (it_idx it)"

definition iterator_inc :: "'s Enumerator \<Rightarrow> EnumeratorIterator \<Rightarrow> HCORENUM \<Rightarrow> 's \<Rightarrow>
    EnumeratorIterator \<times> HCORENUM \<times> 's" where
  "iterator_inc e it ptr s =
     (if it_idx it < it_sz it - 1 then (it\<lparr>it_idx := it_idx it + 1\<rparr>, ptr, s)
      else fetch e (it\<lparr>it_idx := 0\<rparr>) ptr s)"

section \<open>Loops over an enumerator\<close>

text \<open>
  The body may read the state, updates an accumulator and tells whether it leaves the loop. A
  runtime that always has more to give keeps the loop running: then there is no result.
\<close>

partial_function (option) enum_loop :: "'s Enumerator \<Rightarrow> (mdToken \<Rightarrow> 's \<Rightarrow> 'a \<Rightarrow> 'a \<times> bool) \<Rightarrow>
    EnumeratorIterator \<Rightarrow> HCORENUM \<Rightarrow> 's \<Rightarrow> 'a \<Rightarrow> ('a \<times> HCORENUM \<times> 's) option" where
  "enum_loop e body it ptr s acc =
     (if \<not> not_end it then Some (acc, ptr, s)
      else
        (case body (iterator_get it) s acc of
           (acc, stop) \<Rightarrow>
             if stop then Some (acc, ptr, s)
             else (case iterator_inc e it ptr s of (it, ptr, s) \<Rightarrow> enum_loop e body it ptr s acc)))"

text \<open>The destructor closes the handle on every way out.\<close>

definition for_each :: "'s Enumerator \<Rightarrow> (mdToken \<Rightarrow> 's \<Rightarrow> 'a \<Rightarrow> 'a \<times> bool) \<Rightarrow> 's \<Rightarrow> 'a \<Rightarrow> ('a \<times> 's) option" where
  "for_each e body s acc =
     (let (it, ptr, s) = iterator_begin e 0 s in do {
        (acc, ptr, s) \<leftarrow> enum_loop e body it ptr s acc;
        Some (acc, enum_close e ptr s)
      })"

section \<open>What a loop does\<close>

text \<open>
  \<open>batches e P ptr s bs\<close>: from the handle and the state on, the runtime delivers the arrays \<open>bs\<close>
  and then fails, answers anything but \<open>S_OK\<close>, or delivers nothing; \<open>P\<close> holds of the states.
\<close>

inductive batches :: "'s Enumerator \<Rightarrow> ('s \<Rightarrow> bool) \<Rightarrow> HCORENUM \<Rightarrow> 's \<Rightarrow> mdToken list list \<Rightarrow> bool" for e P where
  last: "enum_callback e ptr kEnumeratorMax s = (hr, ts, ptr', s') \<Longrightarrow> hr \<noteq> S_OK \<or> ts = [] \<Longrightarrow> P s' \<Longrightarrow> batches e P ptr s []"
| more: "enum_callback e ptr kEnumeratorMax s = (S_OK, ts, ptr', s') \<Longrightarrow> ts \<noteq> [] \<Longrightarrow> length ts \<le> kEnumeratorMax \<Longrightarrow>
    P s' \<Longrightarrow> batches e P ptr' s' bs \<Longrightarrow> batches e P ptr s (ts # bs)"

text \<open>The abstract loop over a list of tokens.\<close>

fun loop_until :: "(mdToken \<Rightarrow> 'a \<Rightarrow> 'a \<times> bool) \<Rightarrow> mdToken list \<Rightarrow> 'a \<Rightarrow> 'a" where
  "loop_until f [] acc = acc"
| "loop_until f (t # ts) acc = (if snd (f t acc) then fst (f t acc) else loop_until f ts (fst (f t acc)))"

fun loop_leaves :: "(mdToken \<Rightarrow> 'a \<Rightarrow> 'a \<times> bool) \<Rightarrow> mdToken list \<Rightarrow> 'a \<Rightarrow> bool" where
  "loop_leaves f [] acc = False"
| "loop_leaves f (t # ts) acc = (snd (f t acc) \<or> loop_leaves f ts (fst (f t acc)))"

lemma loop_until_append_leaves:
  "loop_until f (ts @ us) acc = (if loop_leaves f ts acc then loop_until f ts acc else loop_until f us (loop_until f ts acc))"
  by (induction ts arbitrary: acc) auto

text \<open>
  The same with what is needed to say where the loop is left: \<open>delivers e P ptr s ds fin\<close> gives
  each array with the handle and the state the runtime left when it delivered it; \<open>fin\<close> is what
  the call that delivered nothing left. The loop over them ends with the accumulator and the
  handle and state it was left in.
\<close>

inductive delivers :: "'s Enumerator \<Rightarrow> ('s \<Rightarrow> bool) \<Rightarrow> HCORENUM \<Rightarrow> 's \<Rightarrow> (mdToken list \<times> HCORENUM \<times> 's) list \<Rightarrow>
    HCORENUM \<times> 's \<Rightarrow> bool" for e P where
  nothing: "enum_callback e ptr kEnumeratorMax s = (hr, ts, ptr', s') \<Longrightarrow> hr \<noteq> S_OK \<or> ts = [] \<Longrightarrow> P s' \<Longrightarrow>
    delivers e P ptr s [] (ptr', s')"
| array: "enum_callback e ptr kEnumeratorMax s = (S_OK, ts, ptr', s') \<Longrightarrow> ts \<noteq> [] \<Longrightarrow> length ts \<le> kEnumeratorMax \<Longrightarrow>
    P s' \<Longrightarrow> delivers e P ptr' s' ds fin \<Longrightarrow> delivers e P ptr s ((ts, ptr', s') # ds) fin"

fun loop_over :: "(mdToken \<Rightarrow> 'a \<Rightarrow> 'a \<times> bool) \<Rightarrow> (mdToken list \<times> HCORENUM \<times> 's) list \<Rightarrow> HCORENUM \<times> 's \<Rightarrow> 'a \<Rightarrow>
    'a \<times> HCORENUM \<times> 's" where
  "loop_over f [] fin acc = (acc, fin)"
| "loop_over f ((ts, ptr, s) # ds) fin acc =
     (if loop_leaves f ts acc then (loop_until f ts acc, ptr, s) else loop_over f ds fin (loop_until f ts acc))"

lemma loop_over_tokens: "fst (loop_over f ds fin acc) = loop_until f (concat (map fst ds)) acc"
  by (induction f ds fin acc rule: loop_over.induct) (simp_all add: loop_until_append_leaves)

lemma delivers_P: "delivers e P ptr s ds fin \<Longrightarrow> P (snd (snd (loop_over f ds fin acc)))"
  by (induction arbitrary: acc rule: delivers.induct) simp_all

lemma batches_delivered: "batches e P ptr s bs \<Longrightarrow> \<exists>ds fin. delivers e P ptr s ds fin \<and> map fst ds = bs"
proof (induction rule: batches.induct)
  case last
  then show ?case by (blast intro: delivers.nothing)
next
  case (more ptr s ts ptr' s' bs)
  then obtain ds fin where "delivers e P ptr' s' ds fin" "map fst ds = bs" by blast
  with more.hyps(1-4) show ?case by (intro exI [of _ "(ts, ptr', s') # ds"] exI [of _ fin]) (simp add: delivers.array)
qed

lemma loop_until_fold: "(\<And>t a. \<not> snd (f t a)) \<Longrightarrow> loop_until f ts acc = fold (\<lambda>t a. fst (f t a)) ts acc"
  by (induction ts arbitrary: acc) auto

lemma loop_until_append:
  "(\<And>t a. \<not> snd (f t a)) \<Longrightarrow> loop_until f (ts @ us) acc = loop_until f us (loop_until f ts acc)"
  by (simp add: loop_until_fold)

text \<open>Inside an array: from the index on, and then what the next arrays give.\<close>

lemma enum_loop_array:
  assumes body: "\<And>t acc. body t s acc = f t acc"
    and rest: "\<And>it acc. it_sz it \<noteq> 0 \<Longrightarrow> it_idx it = it_sz it - 1 \<Longrightarrow>
      (case iterator_inc e it ptr s of (it, p, s) \<Rightarrow> enum_loop e body it p s acc) = Some (loop_over f ds fin acc)"
  shows "it_status it = S_OK \<Longrightarrow> unat (it_idx it) < unat (it_sz it) \<Longrightarrow> take (unat (it_sz it)) (it_arr it) = ts \<Longrightarrow>
    length ts = unat (it_sz it) \<Longrightarrow>
    enum_loop e body it ptr s acc = Some (loop_over f ((drop (unat (it_idx it)) ts, ptr, s) # ds) fin acc)"
proof (induction "unat (it_sz it) - unat (it_idx it)" arbitrary: it acc)
  case 0
  then show ?case by simp
next
  case (Suc n)
  let ?i = "unat (it_idx it)"
  have get: "iterator_get it = ts ! ?i" using Suc.prems by (auto simp: iterator_get_def)
  have d: "drop ?i ts = ts ! ?i # drop (Suc ?i) ts" using Suc.prems by (simp add: Cons_nth_drop_Suc)
  have ne: "not_end it" using Suc.prems(1) by (simp add: not_end_def)
  obtain acc' stop where f: "f (ts ! ?i) acc = (acc', stop)" by (cases "f (ts ! ?i) acc")
  show ?case
  proof (cases stop)
    case True
    then show ?thesis using ne f by (subst enum_loop.simps) (simp add: get body d)
  next
    case False
    have step: "enum_loop e body it ptr s acc =
        (case iterator_inc e it ptr s of (it, ptr, s) \<Rightarrow> enum_loop e body it ptr s acc')"
      using ne False f by (subst enum_loop.simps) (simp add: get body)
    have sz: "it_sz it \<noteq> 0" using Suc.prems(2) by auto
    then have sz1: "unat (it_sz it - 1) = unat (it_sz it) - 1" by (simp add: unat_minus_one)
    show ?thesis
    proof (cases "it_idx it < it_sz it - 1")
      case True
      then have i: "Suc ?i < unat (it_sz it)" by (simp add: word_less_nat_alt sz1)
      have "unat (it_sz it) < 2 ^ LENGTH(32)" by (rule unsigned_less)
      with i have i1: "unat (it_idx it + 1) = Suc ?i" by (simp add: unat_word_ariths)
      show ?thesis
        using Suc.hyps(1) [of "it\<lparr>it_idx := it_idx it + 1\<rparr>" acc'] Suc.hyps(2) Suc.prems i False True f
        by (simp add: step iterator_inc_def d i1)
    next
      case last: False
      then have l: "it_idx it = it_sz it - 1"
        using Suc.prems(2) by (simp add: word_less_nat_alt word_unat_eq_iff [where 'a = 32] sz1)
      then have "drop (Suc ?i) ts = []" using Suc.prems(4) sz by (simp add: sz1)
      with rest [OF sz l, of acc'] False f show ?thesis by (simp add: step d)
    qed
  qed
qed

lemma enum_loop_delivered:
  assumes body: "\<And>t s acc. P s \<Longrightarrow> body t s acc = f t acc"
  shows "delivers e P ptr s ds fin \<Longrightarrow> it_idx it = 0 \<Longrightarrow>
    (case fetch e it ptr s of (it, p, s) \<Rightarrow> enum_loop e body it p s acc) = Some (loop_over f ds fin acc)"
proof (induction arbitrary: it acc rule: delivers.induct)
  case (nothing ptr s hr ts ptr' s')
  have "enum_loop e body it' ptr' s' acc = Some (acc, ptr', s')" if "it_status it' \<noteq> S_OK" for it'
    using that by (subst enum_loop.simps) (simp add: not_end_def)
  with nothing.hyps show ?case by (auto simp: fetch_def)
next
  case (array ptr s ts ptr' s' ds fin)
  let ?it = "it\<lparr>it_status := S_OK, it_arr := ts @ drop (length ts) (it_arr it), it_sz := word_of_nat (length ts)\<rparr>"
  have sz: "unat (it_sz ?it) = length ts" using array.hyps(3) by (simp add: unat_of_nat_u32)
  have "enum_loop e body ?it ptr' s' acc = Some (loop_over f ((drop (unat (it_idx ?it)) ts, ptr', s') # ds) fin acc)"
  proof (rule enum_loop_array)
    show "body t s' acc = f t acc" for t acc using body array.hyps(4) by blast
    show "(case iterator_inc e it1 ptr' s' of (it, p, s) \<Rightarrow> enum_loop e body it p s acc) = Some (loop_over f ds fin acc)"
      if "it_sz it1 \<noteq> 0" "it_idx it1 = it_sz it1 - 1" for it1 acc
      using array.IH [of "it1\<lparr>it_idx := 0\<rparr>" acc] that by (simp add: iterator_inc_def)
  qed (use array.hyps array.prems sz in simp_all)
  then show ?case using array.hyps(1,2) array.prems by (simp add: fetch_def)
qed

text \<open>The whole loop, with the handle that is closed, and without it.\<close>

lemma for_each_delivered:
  assumes "\<And>t s acc. P s \<Longrightarrow> body t s acc = f t acc" "delivers e P 0 s ds fin"
  shows "for_each e body s acc = (case loop_over f ds fin acc of (acc', ptr, s') \<Rightarrow> Some (acc', enum_close e ptr s'))"
proof -
  let ?it = "\<lparr>it_status = S_FALSE, it_arr = replicate kEnumeratorMax 0, it_idx = 0, it_sz = 0\<rparr>"
  have "(case fetch e ?it 0 s of (it, p, s) \<Rightarrow> enum_loop e body it p s acc) = Some (loop_over f ds fin acc)"
    by (rule enum_loop_delivered [where P = P, OF assms]) simp_all
  then show ?thesis by (auto simp: for_each_def iterator_begin_def split: prod.splits)
qed

lemma enum_loop_fetch:
  assumes body: "\<And>t s acc. P s \<Longrightarrow> body t s acc = f t acc" and b: "batches e P ptr s bs" and it: "it_idx it = 0"
  shows "\<exists>ptr' s'. P s' \<and> (case fetch e it ptr s of (it, p, s) \<Rightarrow> enum_loop e body it p s acc) =
      Some (loop_until f (concat bs) acc, ptr', s')"
proof -
  obtain ds fin where d: "delivers e P ptr s ds fin" "map fst ds = bs" using batches_delivered [OF b] by blast
  obtain acc' ptr' s' where l: "loop_over f ds fin acc = (acc', ptr', s')" by (metis prod_cases3)
  have "P s'" "acc' = loop_until f (concat bs) acc"
    using delivers_P [OF d(1), of f acc] loop_over_tokens [of f ds fin acc] d(2) by (simp_all add: l)
  with enum_loop_delivered [where P = P and body = body and f = f, OF body d(1) it, of acc] l show ?thesis by auto
qed

text \<open>
  C27. A loop over an enumerator runs its body on the tokens of all arrays the runtime delivers,
  in order, as if over one list, until the body leaves it or the runtime has no more. On both ways
  out the one handle that is closed is the runtime's latest: the one it left with the array in
  which the body leaves the loop, or else with the call that delivered nothing; and it is closed
  in the state of that moment.
\<close>

theorem for_each_refines:
  assumes "\<And>t s acc. P s \<Longrightarrow> body t s acc = f t acc" "delivers e P 0 s ds fin"
  shows "case loop_over f ds fin acc of (acc', ptr, s') \<Rightarrow>
    for_each e body s acc = Some (acc', enum_close e ptr s') \<and> acc' = loop_until f (concat (map fst ds)) acc \<and> P s'"
  using for_each_delivered [where P = P and body = body and f = f, OF assms] loop_over_tokens [of f ds fin acc]
    delivers_P [OF assms(2), of f acc]
  by (cases "loop_over f ds fin acc") auto

text \<open>A runtime with two arrays of tokens, whose state counts the calls and lists the handles that were closed.\<close>

definition sample_enum :: "(nat \<times> HCORENUM list) Enumerator" where
  "sample_enum = \<lparr>enum_callback = (\<lambda>ptr n s. (if fst s = 0 then (S_OK, [1, 2], 7, (1, snd s))
      else if fst s = 1 then (S_OK, [3], 8, (2, snd s)) else (S_FALSE, [], 9, (3, snd s)))),
    enum_close = (\<lambda>ptr s. (fst s, ptr # snd s))\<rparr>"

text \<open>Left in the second array, at the end of it, and not left at all.\<close>

theorem for_each_refines_witness:
  "for_each sample_enum (\<lambda>t s acc. (acc @ [t], t = 2)) (0, []) [] = Some ([1, 2], (1, [7])) \<and>
   for_each sample_enum (\<lambda>t s acc. (acc @ [t], t = 3)) (0, []) [] = Some ([1, 2, 3], (2, [8])) \<and>
   for_each sample_enum (\<lambda>t s acc. (acc @ [t], False)) (0, []) [] = Some ([1, 2, 3], (3, [9]))"
proof -
  have "delivers sample_enum (\<lambda>_. True) 8 (2, []) [] (9, (3, []))"
    by (rule delivers.nothing [where hr = S_FALSE and ts = "[]"]) (simp_all add: sample_enum_def)
  then have "delivers sample_enum (\<lambda>_. True) 7 (1, []) [([3], 8, (2, []))] (9, (3, []))"
    by (rule delivers.array [rotated 4]) (simp_all add: sample_enum_def)
  then have d: "delivers sample_enum (\<lambda>_. True) 0 (0, []) [([1, 2], 7, (1, [])), ([3], 8, (2, []))] (9, (3, []))"
    by (rule delivers.array [rotated 4]) (simp_all add: sample_enum_def)
  have "for_each sample_enum (\<lambda>t s acc. (acc @ [t], P t)) (0, []) [] =
      (case loop_over (\<lambda>t acc. (acc @ [t], P t)) [([1, 2], 7, (1, [])), ([3], 8, (2, []))] (9, (3, [])) [] of
        (acc, ptr, s) \<Rightarrow> Some (acc, (fst s, ptr # snd s)))" for P
    using for_each_refines [OF _ d, of "\<lambda>t s acc. (acc @ [t], P t)" "\<lambda>t acc. (acc @ [t], P t)" "[]"]
    by (auto simp: sample_enum_def split: prod.splits)
  then show ?thesis by simp
qed

end
