(* ===== verification/Clr_Helpers.thy ===== *)
theory Clr_Helpers
  imports Sig_Parser Integrations Clr_Enum
begin

text \<open>
  What clr\_helpers.cpp asks the runtime about assemblies, functions and types, the filters on
  integrations, the names of the types of a signature, and the type of a return value.

  The interfaces of the runtime are parameters: for one module the record \<open>metadata\<close> of the
  functions called through \<open>IMetaDataImport2\<close>, \<open>IMetaDataEmit2\<close> and their assembly counterparts,
  over the state \<open>'s\<close> of the runtime. A name is the C string left in the buffer of
  \<open>kNameMaxSize\<close> units and the length reported.
\<close>

section \<open>The runtime\<close>

type_synonym name_props = "hresult \<times> WSTRING \<times> u32"

record 's metadata =
  GetMemberRefProps :: "'s \<Rightarrow> mdToken \<Rightarrow> hresult \<times> mdToken \<times> WSTRING \<times> u32 \<times> byte list"
  GetMemberProps :: "'s \<Rightarrow> mdToken \<Rightarrow> hresult \<times> mdToken \<times> WSTRING \<times> u32 \<times> byte list"
  GetMethodSpecProps :: "'s \<Rightarrow> mdToken \<Rightarrow> hresult \<times> mdToken \<times> byte list"
  GetTypeDefProps :: "'s \<Rightarrow> mdToken \<Rightarrow> name_props"
  GetTypeRefProps :: "'s \<Rightarrow> mdToken \<Rightarrow> name_props"
  GetTypeSpecFromToken :: "'s \<Rightarrow> mdToken \<Rightarrow> hresult \<times> byte list"
  GetModuleRefProps :: "'s \<Rightarrow> mdToken \<Rightarrow> name_props"
  GetNestedClassProps :: "'s \<Rightarrow> mdToken \<Rightarrow> mdToken"
  FindTypeRef :: "'s \<Rightarrow> mdToken \<Rightarrow> WSTRING \<Rightarrow> hresult \<times> mdToken"
  FindMemberRef :: "'s \<Rightarrow> mdToken \<Rightarrow> WSTRING \<Rightarrow> byte list \<Rightarrow> hresult \<times> mdToken"
  GetAssemblyFromScope :: "'s \<Rightarrow> hresult \<times> mdToken"
  GetAssemblyProps :: "'s \<Rightarrow> mdToken \<Rightarrow> hresult \<times> WSTRING \<times> u32 \<times> Version"
  GetAssemblyRefProps :: "'s \<Rightarrow> mdToken \<Rightarrow> hresult \<times> WSTRING \<times> u32 \<times> Version"
  EnumAssemblyRefs :: "HCORENUM \<Rightarrow> nat \<Rightarrow> 's \<Rightarrow> hresult \<times> mdToken list \<times> HCORENUM \<times> 's"
  CloseEnum :: "HCORENUM \<Rightarrow> 's \<Rightarrow> 's"
  DefineAssemblyRef :: "byte list \<Rightarrow> WSTRING \<Rightarrow> Version \<Rightarrow> WSTRING option \<Rightarrow> 's \<Rightarrow> hresult \<times> mdToken \<times> 's"
  DefineTypeRefByName :: "mdToken \<Rightarrow> WSTRING \<Rightarrow> 's \<Rightarrow> hresult \<times> mdToken \<times> 's"
  DefineMemberRef :: "mdToken \<Rightarrow> WSTRING \<Rightarrow> byte list \<Rightarrow> 's \<Rightarrow> hresult \<times> mdToken \<times> 's"
  DefineMethodSpec_emit :: "mdToken \<Rightarrow> byte list \<Rightarrow> 's \<Rightarrow> hresult \<times> mdToken \<times> 's"
  GetTokenFromTypeSpec :: "byte list \<Rightarrow> 's \<Rightarrow> hresult \<times> mdToken \<times> 's"

section \<open>Assemblies\<close>

record AssemblyMetadata =
  amd_module_id :: u64
  amd_name :: WSTRING
  assembly_token :: mdToken
  amd_version :: Version

definition AssemblyMetadata_nil :: AssemblyMetadata where
  "AssemblyMetadata_nil = \<lparr>amd_module_id = 0, amd_name = [], assembly_token = mdTokenNil, amd_version = Version_nil\<rparr>"

definition GetAssemblyImportMetadata :: "('s, 'z) metadata_scheme \<Rightarrow> 's \<Rightarrow> AssemblyMetadata" where
  "GetAssemblyImportMetadata md s =
     (let (hr, current) = GetAssemblyFromScope md s in
      if FAILED hr then AssemblyMetadata_nil
      else
        (let (hr, name, name_len, version) = GetAssemblyProps md s current in
         if FAILED hr \<or> name_len = 0 then AssemblyMetadata_nil
         else \<lparr>amd_module_id = 0, amd_name = name, assembly_token = current, amd_version = version\<rparr>))"

definition GetReferencedAssemblyMetadata :: "('s, 'z) metadata_scheme \<Rightarrow> 's \<Rightarrow> mdToken \<Rightarrow> AssemblyMetadata" where
  "GetReferencedAssemblyMetadata md s assembly_ref =
     (let (hr, name, name_len, version) = GetAssemblyRefProps md s assembly_ref in
      if FAILED hr \<or> name_len = 0 then AssemblyMetadata_nil
      else \<lparr>amd_module_id = 0, amd_name = name, assembly_token = assembly_ref, amd_version = version\<rparr>)"

definition enum_assembly_refs :: "('s, 'z) metadata_scheme \<Rightarrow> 's Enumerator" where
  "enum_assembly_refs md = \<lparr>enum_callback = EnumAssemblyRefs md, enum_close = CloseEnum md\<rparr>"

definition FindAssemblyRef :: "('s, 'z) metadata_scheme \<Rightarrow> WSTRING \<Rightarrow> 's \<Rightarrow> (mdToken \<times> 's) option" where
  "FindAssemblyRef md assembly_name s =
     for_each (enum_assembly_refs md)
       (\<lambda>assembly_ref s acc.
          if amd_name (GetReferencedAssemblyMetadata md s assembly_ref) = assembly_name then (assembly_ref, True)
          else (acc, False)) s mdAssemblyRefNil"

section \<open>Functions and types\<close>

record TypeInfo =
  ti_id :: mdToken
  ti_name :: WSTRING

definition TypeInfo_nil :: TypeInfo where
  "TypeInfo_nil = \<lparr>ti_id = 0, ti_name = []\<rparr>"

record FunctionInfo =
  fi_id :: mdToken
  fi_name :: WSTRING
  fi_type :: TypeInfo
  is_generic :: bool
  fi_signature :: MethodSignature
  function_spec_signature :: MethodSignature
  method_def_id :: mdToken

definition FunctionInfo_nil :: FunctionInfo where
  "FunctionInfo_nil = \<lparr>fi_id = 0, fi_name = [], fi_type = TypeInfo_nil, is_generic = False, fi_signature = [],
     function_spec_signature = [], method_def_id = 0\<rparr>"

definition FunctionInfo_IsValid :: "FunctionInfo \<Rightarrow> bool" where
  "FunctionInfo_IsValid f \<longleftrightarrow> fi_id f \<noteq> 0"

definition TypeInfo_IsValid :: "TypeInfo \<Rightarrow> bool" where
  "TypeInfo_IsValid t \<longleftrightarrow> ti_id t \<noteq> 0"

text \<open>
  The two functions call each other; nothing in them bounds the recursion, so the number of
  nested calls is an argument: \<open>None\<close> is a recursion deeper than that, or a read outside of a
  signature.
\<close>

fun GetFunctionInfo :: "nat \<Rightarrow> ('s, 'z) metadata_scheme \<Rightarrow> 's \<Rightarrow> mdToken \<Rightarrow> FunctionInfo option"
  and GetTypeInfo :: "nat \<Rightarrow> ('s, 'z) metadata_scheme \<Rightarrow> 's \<Rightarrow> mdToken \<Rightarrow> TypeInfo option" where
  "GetFunctionInfo 0 md s token = None"
| "GetFunctionInfo (Suc n) md s token =
     (if TypeFromToken token = mdtMemberRef \<or> TypeFromToken token = mdtMethodDef then
        (let (hr, parent_token, function_name, function_name_len, raw_signature) =
               (if TypeFromToken token = mdtMemberRef then GetMemberRefProps md s token else GetMemberProps md s token) in
         if FAILED hr \<or> function_name_len = 0 then Some FunctionInfo_nil
         else do {
           type_info \<leftarrow> GetTypeInfo n md s parent_token;
           Some \<lparr>fi_id = token, fi_name = function_name, fi_type = type_info, is_generic = False,
             fi_signature = raw_signature, function_spec_signature = [], method_def_id = 0\<rparr>
         })
      else if TypeFromToken token = mdtMethodSpec then
        (let (hr, parent_token, raw_signature) = GetMethodSpecProps md s token in
         if FAILED hr then Some FunctionInfo_nil
         else do {
           generic_info \<leftarrow> GetFunctionInfo n md s parent_token;
           type_info \<leftarrow> GetTypeInfo n md s parent_token;
           Some \<lparr>fi_id = token, fi_name = fi_name generic_info, fi_type = type_info, is_generic = True,
             fi_signature = fi_signature generic_info, function_spec_signature = raw_signature,
             method_def_id = fi_id generic_info\<rparr>
         })
      else Some FunctionInfo_nil)"
| "GetTypeInfo 0 md s token = None"
| "GetTypeInfo (Suc n) md s token =
     (let named = (\<lambda>(hr, type_name, type_name_len).
            if FAILED hr \<or> type_name_len = 0 then TypeInfo_nil else \<lparr>ti_id = token, ti_name = type_name\<rparr>) in
      if TypeFromToken token = mdtTypeDef then Some (named (GetTypeDefProps md s token))
      else if TypeFromToken token = mdtTypeRef then Some (named (GetTypeRefProps md s token))
      else if TypeFromToken token = mdtTypeSpec then
        (let (hr, signature) = GetTypeSpecFromToken md s token in
         if FAILED hr \<or> length signature < 3 then Some TypeInfo_nil
         else if signature ! 0 AND ELEMENT_TYPE_GENERICINST \<noteq> 0 then do {
           (_, type_token) \<leftarrow> CorSigUncompressToken (drop 2 signature);
           GetTypeInfo n md s type_token }
         else Some (named (hr, [], 0)))
      else if TypeFromToken token = mdtModuleRef then
        (let (_, type_name, type_name_len) = GetModuleRefProps md s token
         in Some (named (E_FAIL, type_name, type_name_len)))
      else if TypeFromToken token = mdtMemberRef \<or> TypeFromToken token = mdtMethodDef then
        map_option fi_type (GetFunctionInfo n md s token)
      else Some (named (E_FAIL, [], 0)))"

section \<open>Filters on integrations\<close>

definition FilterIntegrationsByName :: "Integration list \<Rightarrow> WSTRING list \<Rightarrow> Integration list" where
  "FilterIntegrationsByName integrations integration_names =
     filter (\<lambda>i. \<not> list_ex (\<lambda>d. integration_name i = d) integration_names) integrations"

definition FlattenIntegrations :: "Integration list \<Rightarrow> IntegrationMethod list" where
  "FlattenIntegrations integrations =
     concat (map (\<lambda>i. map (\<lambda>mr. \<lparr>im_integration_name = integration_name i, replacement = mr\<rparr>)
       (method_replacements i)) integrations)"

record AssemblyInfo =
  ai_id :: u64
  ai_name :: WSTRING
  manifest_module_id :: u64
  app_domain_id :: u64
  app_domain_name :: WSTRING

definition FilterIntegrationsByCaller :: "IntegrationMethod list \<Rightarrow> AssemblyInfo \<Rightarrow> IntegrationMethod list" where
  "FilterIntegrationsByCaller integrations assembly =
     filter (\<lambda>i. let name = ar_name (mr_assembly (caller_method (replacement i))) in name = [] \<or> name = ai_name assembly)
       integrations"

definition AssemblyMeetsIntegrationRequirements :: "AssemblyMetadata \<Rightarrow> MethodReplacement \<Rightarrow> bool" where
  "AssemblyMeetsIntegrationRequirements m method_replacement =
     (let target = target_method method_replacement in
      if ar_name (mr_assembly target) \<noteq> amd_name m then False
      else if Version_greater (min_version target) (amd_version m) then False
      else if Version_less (max_version target) (amd_version m) then False
      else True)"

text \<open>The loop over the integrations, with a new enumerator in every turn.\<close>

fun filter_by_target :: "('s, 'z) metadata_scheme \<Rightarrow> AssemblyMetadata \<Rightarrow> IntegrationMethod list \<Rightarrow>
    IntegrationMethod list \<Rightarrow> 's \<Rightarrow> (IntegrationMethod list \<times> 's) option" where
  "filter_by_target md assembly_metadata [] enabled s = Some (enabled, s)"
| "filter_by_target md assembly_metadata (i # is) enabled s = do {
     (found, s) \<leftarrow> for_each (enum_assembly_refs md)
       (\<lambda>assembly_ref s found.
          (if AssemblyMeetsIntegrationRequirements (GetReferencedAssemblyMetadata md s assembly_ref) (replacement i)
           then True else found, False)) s
       (AssemblyMeetsIntegrationRequirements assembly_metadata (replacement i));
     filter_by_target md assembly_metadata is (if found then enabled @ [i] else enabled) s
   }"

definition FilterIntegrationsByTarget :: "('s, 'z) metadata_scheme \<Rightarrow> IntegrationMethod list \<Rightarrow> 's \<Rightarrow>
    (IntegrationMethod list \<times> 's) option" where
  "FilterIntegrationsByTarget md integrations s = filter_by_target md (GetAssemblyImportMetadata md s) integrations [] s"

section \<open>Small helpers\<close>

definition DefineMethodSpec :: "('s, 'z) metadata_scheme \<Rightarrow> mdToken \<Rightarrow> MethodSignature \<Rightarrow> 's \<Rightarrow> mdToken \<times> 's" where
  "DefineMethodSpec md token signature s =
     (let (hr, spec, s) = DefineMethodSpec_emit md token signature s in (if FAILED hr then mdMethodSpecNil else spec, s))"

definition clr_disable_optimizations :: WSTRING where
  "clr_disable_optimizations = W ''SIGNALFX_CLR_DISABLE_OPTIMIZATIONS''"

definition DisableOptimizations :: "environment \<Rightarrow> bool" where
  "DisableOptimizations env =
     (let disable_optimizations = the (GetEnvironmentValue env clr_disable_optimizations) in
      if disable_optimizations = W ''1'' \<or> disable_optimizations = W ''true'' then True else False)"

section \<open>The depth of the recursion\<close>

text \<open>
  What the parent of a method specification, a member reference and a method definition can be,
  as the tables of the metadata format have it.
\<close>

definition metadata_shape :: "('s, 'z) metadata_scheme \<Rightarrow> 's \<Rightarrow> bool" where
  "metadata_shape md s \<longleftrightarrow>
     (\<forall>t. TypeFromToken (fst (snd (GetMethodSpecProps md s t))) \<in> {mdtMethodDef, mdtMemberRef}) \<and>
     (\<forall>t. TypeFromToken (fst (snd (GetMemberRefProps md s t))) \<in>
        {mdtTypeDef, mdtTypeRef, mdtTypeSpec, mdtModuleRef, mdtMethodDef}) \<and>
     (\<forall>t. TypeFromToken (fst (snd (GetMemberProps md s t))) = mdtTypeDef)"

text \<open>The table of type specifications has \<open>N\<close> rows, numbered from one.\<close>

definition spec_rows :: "('s, 'z) metadata_scheme \<Rightarrow> 's \<Rightarrow> nat \<Rightarrow> bool" where
  "spec_rows md s N \<longleftrightarrow>
     (\<forall>t. TypeFromToken t = mdtTypeSpec \<longrightarrow> \<not> FAILED (fst (GetTypeSpecFromToken md s t)) \<longrightarrow> unat (RidFromToken t) \<in> {1..N})"

text \<open>
  A type specification whose first byte has a bit in common with that of a generic instance, an
  array for instance, is opened: \<open>GetTypeInfo\<close> goes on to the token that is read from its third
  byte on.
\<close>

definition opened :: "('s, 'z) metadata_scheme \<Rightarrow> 's \<Rightarrow> mdToken \<Rightarrow> byte list option" where
  "opened md s t =
     (let (hr, sig) = GetTypeSpecFromToken md s t in
      if TypeFromToken t = mdtTypeSpec \<and> \<not> FAILED hr \<and> 3 \<le> length sig \<and> sig ! 0 AND ELEMENT_TYPE_GENERICINST \<noteq> 0
      then Some (drop 2 sig) else None)"

inductive leads_to :: "('s, 'z) metadata_scheme \<Rightarrow> 's \<Rightarrow> mdToken \<Rightarrow> mdToken \<Rightarrow> bool" for md s where
  step: "opened md s t = Some sig \<Longrightarrow> CorSigUncompressToken sig = Some (cb, u) \<Longrightarrow> leads_to md s t u"

text \<open>
  A token is lost if this way leads to a specification it leads back to, or to one in which
  the token goes beyond the end of the signature.
\<close>

definition lost :: "('s, 'z) metadata_scheme \<Rightarrow> 's \<Rightarrow> mdToken \<Rightarrow> bool" where
  "lost md s t \<longleftrightarrow> (\<exists>u. (leads_to md s)\<^sup>*\<^sup>* t u \<and>
     ((leads_to md s)\<^sup>+\<^sup>+ u u \<or> (\<exists>sig. opened md s u = Some sig \<and> CorSigUncompressToken sig = None)))"

definition chain :: "('s, 'z) metadata_scheme \<Rightarrow> 's \<Rightarrow> mdToken \<Rightarrow> mdToken set" where
  "chain md s t = {u. (leads_to md s)\<^sup>*\<^sup>* t u \<and> opened md s u \<noteq> None}"

text \<open>A result that is the same for every greater depth.\<close>

definition settled :: "nat \<Rightarrow> (nat \<Rightarrow> 'a option) \<Rightarrow> bool" where
  "settled k f \<longleftrightarrow> (\<exists>x. \<forall>n. f (n + k) = Some x)"

lemma settled_mono: "settled k f \<Longrightarrow> k \<le> j \<Longrightarrow> settled j f"
  unfolding settled_def by (metis add.assoc le_add_diff_inverse2)

lemma settled_const: "(\<And>n. f (Suc n) = Some x) \<Longrightarrow> settled (Suc 0) f"
  unfolding settled_def by auto

lemma settled_step:
  assumes "settled k g" "\<And>x n. g n = Some x \<Longrightarrow> f (Suc n) = Some (h x)"
  shows "settled (Suc k) f"
proof -
  obtain x where "\<forall>n. g (n + k) = Some x" using assms(1) unfolding settled_def by blast
  then have "\<forall>n. f (n + Suc k) = Some (h x)" using assms(2) by simp
  then show ?thesis unfolding settled_def by blast
qed

declare GetFunctionInfo.simps [simp del] GetTypeInfo.simps [simp del]

lemma type_def_ref_settled:
  assumes "TypeFromToken t \<in> {mdtTypeDef, mdtTypeRef, mdtModuleRef}"
  shows "settled (Suc 0) (\<lambda>n. GetTypeInfo n md s t)"
proof -
  from assms have "\<exists>x. \<forall>n. GetTypeInfo (Suc n) md s t = Some x"
    by (auto simp: GetTypeInfo.simps Let_def split: prod.splits)
  then show ?thesis by (auto intro: settled_const)
qed

lemma unopened_settled:
  assumes "opened md s t = None" "TypeFromToken t \<notin> {mdtMemberRef, mdtMethodDef}"
  shows "settled (Suc 0) (\<lambda>n. GetTypeInfo n md s t)"
proof -
  obtain hr sig where g: "GetTypeSpecFromToken md s t = (hr, sig)" by (cases "GetTypeSpecFromToken md s t")
  have "\<exists>x. \<forall>n. GetTypeInfo (Suc n) md s t = Some x"
  proof (cases "TypeFromToken t = mdtTypeSpec")
    case True
    with assms(1) g have "FAILED hr \<or> length sig < 3 \<or> sig ! 0 AND ELEMENT_TYPE_GENERICINST = 0"
      by (auto simp: opened_def split: if_split_asm)
    with True g show ?thesis by (auto simp: GetTypeInfo.simps Let_def)
  next
    case False
    with assms(2) show ?thesis by (auto simp: GetTypeInfo.simps Let_def split: prod.splits)
  qed
  then show ?thesis by (auto intro: settled_const)
qed

lemma GetTypeInfo_opened:
  "opened md s t = Some sig \<Longrightarrow> GetTypeInfo (Suc n) md s t = do { (_, u) \<leftarrow> CorSigUncompressToken sig; GetTypeInfo n md s u }"
  by (auto simp: opened_def GetTypeInfo.simps(2) [of n md s t] split: prod.splits if_split_asm)

text \<open>No depth is enough for a token that is lost.\<close>

lemma lost_step:
  assumes "lost md s t"
  obtains sig where "opened md s t = Some sig" "CorSigUncompressToken sig = None"
  | sig cb u where "opened md s t = Some sig" "CorSigUncompressToken sig = Some (cb, u)" "lost md s u"
proof -
  obtain u where u: "(leads_to md s)\<^sup>*\<^sup>* t u"
      "(leads_to md s)\<^sup>+\<^sup>+ u u \<or> (\<exists>sig. opened md s u = Some sig \<and> CorSigUncompressToken sig = None)"
    using assms unfolding lost_def by blast
  consider v where "leads_to md s t v" "lost md s v" | sig where "opened md s t = Some sig" "CorSigUncompressToken sig = None"
  proof (cases "\<exists>v. leads_to md s t v \<and> (leads_to md s)\<^sup>*\<^sup>* v u")
    case True
    with u(2) show ?thesis using that(1) unfolding lost_def by blast
  next
    case False
    then have t: "u = t" using u(1) by (auto elim: converse_rtranclpE)
    then have "\<not> (leads_to md s)\<^sup>+\<^sup>+ u u" using False by (auto dest: tranclpD)
    with u(2) t show ?thesis using that(2) by blast
  qed
  then show ?thesis
  proof cases
    case 1
    then show ?thesis using that(2) by (auto elim: leads_to.cases)
  qed (rule that(1))
qed

lemma lost_diverges: "lost md s t \<Longrightarrow> GetTypeInfo n md s t = None"
proof (induction n arbitrary: t)
  case (Suc n)
  from Suc.prems show ?case
    by (cases rule: lost_step) (simp_all add: GetTypeInfo_opened Suc.IH)
qed (simp add: GetTypeInfo.simps)

text \<open>The token that is read is none of a member reference: these have no code.\<close>

lemma uncompressed_kind:
  assumes "CorSigUncompressToken p = Some (cb, u)"
  shows "TypeFromToken u \<noteq> mdtMemberRef"
proof
  obtain v where v: "CorSigUncompressData p = Some (cb, v)" "u = drop_bit 2 v OR g_tkCorEncodeToken ! unat (v AND 3)"
    using assms by (auto simp: CorSigUncompressToken_def TokenFromRid_def Let_def split: option.splits)
  have "\<not> bit b n" if "8 \<le> n" for b :: byte and n using that bit_imp_le_length [of b n] by auto
  then have \<open>\<not> bit v 29\<close>
    using v(1) by (cases p) (auto simp: CorSigUncompressData_def bit_simps split: if_split_asm list.split_asm)
  have "unat (v AND 3) < 4" using word_and_le1 [of v 3] by (simp add: word_le_nat_alt)
  moreover have "length g_tkCorEncodeToken = 4" by (simp add: g_tkCorEncodeToken_def)
  ultimately have tag: "g_tkCorEncodeToken ! unat (v AND 3) \<in> set g_tkCorEncodeToken" by (intro nth_mem) simp
  assume "TypeFromToken u = mdtMemberRef"
  moreover have "bit mdtMemberRef 27 \<and> \<not> bit mdtMemberRef 28" by code_simp
  ultimately have "bit (u AND 0xff000000) 27" "\<not> bit (u AND 0xff000000) 28" unfolding TypeFromToken_def by simp_all
  moreover have "bit (0xff000000 :: u32) 28" by code_simp
  ultimately have "bit u 27" "\<not> bit u 28" unfolding bit_and_iff by simp_all
  moreover obtain g where "u = drop_bit 2 v OR g" "g \<in> set g_tkCorEncodeToken" using v(2) tag by blast
  moreover have "list_all (\<lambda>g. bit g 27 \<longrightarrow> bit g 28) g_tkCorEncodeToken" by code_simp
  ultimately show False using \<open>\<not> bit v 29\<close> by (auto simp: bit_or_iff bit_drop_bit_eq list_all_iff)
qed

lemma method_def_settled:
  assumes "metadata_shape md s" "TypeFromToken t = mdtMethodDef"
  shows "settled (Suc (Suc 0)) (\<lambda>n. GetFunctionInfo n md s t)" "settled (Suc (Suc (Suc 0))) (\<lambda>n. GetTypeInfo n md s t)"
proof -
  obtain hr parent name len sig where g: "GetMemberProps md s t = (hr, parent, name, len, sig)"
    by (cases "GetMemberProps md s t")
  have p: "TypeFromToken parent \<in> {mdtTypeDef, mdtTypeRef, mdtModuleRef}"
    using assms(1) g unfolding metadata_shape_def by (metis fst_conv insertCI snd_conv)
  show f: "settled (Suc (Suc 0)) (\<lambda>n. GetFunctionInfo n md s t)"
    by (rule settled_step [OF type_def_ref_settled [OF p, of md s], where h = "\<lambda>ti. if FAILED hr \<or> len = 0 then FunctionInfo_nil
        else \<lparr>fi_id = t, fi_name = name, fi_type = ti, is_generic = False, fi_signature = sig,
          function_spec_signature = [], method_def_id = 0\<rparr>"])
      (use g assms(2) in \<open>simp add: GetFunctionInfo.simps Let_def\<close>)
  show "settled (Suc (Suc (Suc 0))) (\<lambda>n. GetTypeInfo n md s t)"
    by (rule settled_step [OF f, where h = fi_type]) (use assms(2) in \<open>simp add: GetTypeInfo.simps Let_def\<close>)
qed

text \<open>For the others, as many nested calls as there are specifications on the way, and a few.\<close>

lemma found_settled:
  assumes "metadata_shape md s"
  shows "\<not> lost md s t \<Longrightarrow> TypeFromToken t \<noteq> mdtMemberRef \<Longrightarrow> settled (card (chain md s t) + 3) (\<lambda>n. GetTypeInfo n md s t)"
proof (induction "card (chain md s t)" arbitrary: t rule: less_induct)
  case less
  show ?case
  proof (cases "opened md s t")
    case None
    show ?thesis
    proof (cases "TypeFromToken t = mdtMethodDef")
      case True
      from method_def_settled(2) [OF assms this] show ?thesis by (rule settled_mono) simp
    next
      case False
      with less.prems(2) have "TypeFromToken t \<notin> {mdtMemberRef, mdtMethodDef}" by simp
      from unopened_settled [OF None this] show ?thesis by (rule settled_mono) simp
    qed
  next
    case (Some sig)
    obtain cb u where u: "CorSigUncompressToken sig = Some (cb, u)"
      using less.prems(1) Some unfolding lost_def by fast
    with Some have l: "leads_to md s t u" by (rule leads_to.step)
    have "\<not> lost md s u" using less.prems(1) l unfolding lost_def by (meson converse_rtranclp_into_rtranclp)
    have "\<not> (leads_to md s)\<^sup>*\<^sup>* u t" using less.prems(1) l unfolding lost_def by (meson rtranclp.rtrancl_refl rtranclp_into_tranclp2)
    then have "t \<notin> chain md s u" "t \<in> chain md s t" "chain md s u \<subseteq> chain md s t"
      using Some l by (auto simp: chain_def intro: converse_rtranclp_into_rtranclp)
    then have c: "card (chain md s u) < card (chain md s t)" by (intro psubset_card_mono) auto
    have "settled (Suc (card (chain md s u) + 3)) (\<lambda>n. GetTypeInfo n md s t)"
      by (rule settled_step [OF less.hyps [OF c \<open>\<not> lost md s u\<close> uncompressed_kind [OF u]], where h = id])
        (simp add: GetTypeInfo_opened [OF Some] u)
    then show ?thesis by (rule settled_mono) (use c in simp)
  qed
qed

lemma chain_rows:
  assumes "spec_rows md s N"
  shows "card (chain md s t) \<le> N"
proof -
  have "x = TypeFromToken x OR RidFromToken x" for x
    using token_split [of x] by (simp add: TokenFromRid_def or.commute)
  moreover have "TypeFromToken x = mdtTypeSpec" if "x \<in> chain md s t" for x
    using that by (auto simp: chain_def opened_def split: prod.split_asm if_split_asm)
  ultimately have "inj_on (unat \<circ> RidFromToken) (chain md s t)"
    by (intro inj_onI) (metis comp_apply unsigned_word_eqI)
  moreover have "(unat \<circ> RidFromToken) ` chain md s t \<subseteq> {1..N}"
    using assms by (force simp: chain_def opened_def spec_rows_def split: prod.split_asm if_split_asm)
  ultimately have "card (chain md s t) \<le> card {1..N}" by (rule card_inj_on_le) simp
  then show ?thesis by simp
qed

lemma member_ref_settled:
  assumes "metadata_shape md s" "TypeFromToken t = mdtMemberRef"
    "\<not> lost md s (fst (snd (GetMemberRefProps md s t)))" "card (chain md s (fst (snd (GetMemberRefProps md s t)))) \<le> k"
  shows "settled (k + 4) (\<lambda>n. GetFunctionInfo n md s t)" "settled (k + 5) (\<lambda>n. GetTypeInfo n md s t)"
proof -
  obtain hr parent name len sig where g: "GetMemberRefProps md s t = (hr, parent, name, len, sig)"
    by (cases "GetMemberRefProps md s t")
  have "TypeFromToken parent \<noteq> mdtMemberRef" using assms(1) g unfolding metadata_shape_def by (force dest: spec [of _ t])
  then have p: "settled (k + 3) (\<lambda>n. GetTypeInfo n md s parent)"
    using found_settled [OF assms(1), of parent] assms(3,4) g by (auto intro: settled_mono)
  have f: "settled (Suc (k + 3)) (\<lambda>n. GetFunctionInfo n md s t)"
    by (rule settled_step [OF p, where h = "\<lambda>ti. if FAILED hr \<or> len = 0 then FunctionInfo_nil
        else \<lparr>fi_id = t, fi_name = name, fi_type = ti, is_generic = False, fi_signature = sig,
          function_spec_signature = [], method_def_id = 0\<rparr>"])
      (use g assms(2) in \<open>simp add: GetFunctionInfo.simps Let_def\<close>)
  have "settled (Suc (Suc (k + 3))) (\<lambda>n. GetTypeInfo n md s t)"
    by (rule settled_step [OF f, where h = fi_type]) (use assms(2) in \<open>simp add: GetTypeInfo.simps Let_def\<close>)
  with f show "settled (k + 4) (\<lambda>n. GetFunctionInfo n md s t)" "settled (k + 5) (\<lambda>n. GetTypeInfo n md s t)"
    by (auto intro: settled_mono)
qed

lemma method_spec_settled:
  assumes "TypeFromToken t = mdtMethodSpec" "GetMethodSpecProps md s t = (hr, parent, sig)"
    "settled k (\<lambda>n. GetFunctionInfo n md s parent)" "settled k (\<lambda>n. GetTypeInfo n md s parent)"
  shows "settled (Suc k) (\<lambda>n. GetFunctionInfo n md s t)"
proof -
  let ?g = "\<lambda>n. do { f \<leftarrow> GetFunctionInfo n md s parent; ti \<leftarrow> GetTypeInfo n md s parent; Some (f, ti) }"
  have "settled k ?g" using assms(3,4) unfolding settled_def by fastforce
  then show ?thesis
    by (rule settled_step [where h = "\<lambda>(f, ti). if FAILED hr then FunctionInfo_nil
        else \<lparr>fi_id = t, fi_name = fi_name f, fi_type = ti, is_generic = True, fi_signature = fi_signature f,
          function_spec_signature = sig, method_def_id = fi_id f\<rparr>"])
      (use assms(1,2) in \<open>auto simp: GetFunctionInfo.simps Let_def split: bind_splits\<close>)
qed

text \<open>Where every specification that is opened leads to a definition or a reference, six calls are enough.\<close>

definition flat_specs :: "('s, 'z) metadata_scheme \<Rightarrow> 's \<Rightarrow> bool" where
  "flat_specs md s \<longleftrightarrow> (\<forall>t sig. opened md s t = Some sig \<longrightarrow>
     (\<exists>cb u. CorSigUncompressToken sig = Some (cb, u) \<and> TypeFromToken u \<in> {mdtTypeDef, mdtTypeRef}))"

lemma flat_chain:
  assumes "flat_specs md s"
  shows "\<not> lost md s t" "card (chain md s t) \<le> 1"
proof -
  have stop: "opened md s u = None" if l: "leads_to md s t u" for t u
  proof -
    obtain sig cb where "opened md s t = Some sig" "CorSigUncompressToken sig = Some (cb, u)"
      using l by (auto elim: leads_to.cases)
    then have "TypeFromToken u \<in> {mdtTypeDef, mdtTypeRef}" using assms unfolding flat_specs_def by fastforce
    then show ?thesis by (auto simp: opened_def)
  qed
  have "\<not> (leads_to md s)\<^sup>+\<^sup>+ u u" for u
    by (metis stop leads_to.cases option.distinct(1) tranclp.cases tranclpD)
  then show "\<not> lost md s t" using assms unfolding lost_def flat_specs_def by (metis option.distinct(1))
  have "chain md s t \<subseteq> {t}" unfolding chain_def by (auto dest: stop) (metis stop option.distinct(1) rtranclp.cases)
  then show "card (chain md s t) \<le> 1" using card_mono [of "{t}"] by fastforce
qed

lemma GetTypeInfo_settled:
  assumes "metadata_shape md s" "flat_specs md s"
  shows "\<exists>i. GetTypeInfo 6 md s t = Some i"
proof -
  note flat = flat_chain [OF assms(2)]
  have "settled 6 (\<lambda>n. GetTypeInfo n md s t)"
  proof (cases "TypeFromToken t = mdtMemberRef")
    case True
    from member_ref_settled(2) [OF assms(1) this flat] show ?thesis by simp
  next
    case False
    from found_settled [OF assms(1) flat(1) this] show ?thesis by (rule settled_mono) (use flat(2) [of t] in simp)
  qed
  then show ?thesis unfolding settled_def by (metis add_0)
qed

section \<open>The assemblies a module refers to\<close>

text \<open>
  \<open>refers_to md P refs meta\<close>: while \<open>P\<close> holds of the state, every enumeration of the assembly
  references delivers \<open>refs\<close>, their data is \<open>meta\<close>, and \<open>P\<close> is kept.
\<close>

definition refers_to :: "('s, 'z) metadata_scheme \<Rightarrow> ('s \<Rightarrow> bool) \<Rightarrow> mdToken list \<Rightarrow> (mdToken \<Rightarrow> AssemblyMetadata) \<Rightarrow> bool" where
  "refers_to md P refs meta \<longleftrightarrow>
     (\<forall>s. P s \<longrightarrow> (\<exists>bs. batches (enum_assembly_refs md) P 0 s bs \<and> concat bs = refs)) \<and>
     (\<forall>ptr s. P s \<longrightarrow> P (CloseEnum md ptr s)) \<and>
     (\<forall>s r. P s \<longrightarrow> GetReferencedAssemblyMetadata md s r = meta r)"

lemma loop_any: "loop_until (\<lambda>r found. (if p r then True else found, False)) refs b = (b \<or> list_ex p refs)"
  by (induction refs arbitrary: b) auto

lemma loop_find: "loop_until (\<lambda>r acc. if p r then (r, True) else (acc, False)) refs d = (case find p refs of None \<Rightarrow> d | Some r \<Rightarrow> r)"
  by (induction refs) auto

lemma for_each_refs:
  assumes "refers_to md P refs meta" "P s" "\<And>t s acc. P s \<Longrightarrow> body t s acc = f t acc"
  shows "\<exists>s'. P s' \<and> for_each (enum_assembly_refs md) body s acc = Some (loop_until f refs acc, s')"
proof -
  obtain bs where bs: "batches (enum_assembly_refs md) P 0 s bs" "concat bs = refs"
    using assms(1,2) by (auto simp: refers_to_def)
  from enum_loop_fetch [where P = P and body = body and f = f, OF assms(3) bs(1), of
      "\<lparr>it_status = S_FALSE, it_arr = replicate kEnumeratorMax 0, it_idx = 0, it_sz = 0\<rparr>" acc]
  obtain ptr s' where "P s'" "for_each (enum_assembly_refs md) body s acc =
      Some (loop_until f refs acc, CloseEnum md ptr s')"
    by (auto simp: for_each_def iterator_begin_def bs(2) enum_assembly_refs_def split: prod.splits)
  then show ?thesis using assms(1) by (auto simp: refers_to_def)
qed

definition required_version :: "MethodReplacement \<Rightarrow> AssemblyMetadata \<Rightarrow> bool" where
  "required_version r m \<longleftrightarrow> ar_name (mr_assembly (target_method r)) = amd_name m \<and>
     version_number (min_version (target_method r)) \<le> version_number (amd_version m) \<and>
     version_number (amd_version m) \<le> version_number (max_version (target_method r))"

lemma requirements: "AssemblyMeetsIntegrationRequirements m r \<longleftrightarrow> required_version r m"
  by (auto simp: AssemblyMeetsIntegrationRequirements_def required_version_def Version_less_number Let_def
      Version_greater_number)

lemma filter_by_target_spec:
  assumes "refers_to md P refs meta"
  shows "P s \<Longrightarrow> \<exists>s'. P s' \<and> filter_by_target md a is enabled s =
    Some (enabled @ filter (\<lambda>i. list_ex (required_version (replacement i)) (a # map meta refs)) is, s')"
proof (induction "is" arbitrary: enabled s)
  case (Cons i "is")
  let ?b = "\<lambda>r s found. (if AssemblyMeetsIntegrationRequirements (GetReferencedAssemblyMetadata md s r) (replacement i)
    then True else found, False)"
  let ?f = "\<lambda>r found. (if required_version (replacement i) (meta r) then True else found, False)"
  have "\<And>r s found. P s \<Longrightarrow> ?b r s found = ?f r found"
    using assms by (simp add: refers_to_def requirements)
  from for_each_refs [where body = ?b and f = ?f, OF assms Cons.prems this, where acc = "required_version (replacement i) a"]
  obtain s1 where s1: "P s1" "for_each (enum_assembly_refs md) ?b s (required_version (replacement i) a) =
      Some (loop_until ?f refs (required_version (replacement i) a), s1)" by blast
  from Cons.IH [OF s1(1), of enabled] Cons.IH [OF s1(1), of "enabled @ [i]"] show ?case
    using s1(2) by (auto simp: requirements loop_any list_ex_iff)
qed auto

section \<open>Contracts\<close>

lemma settledD: "settled k f \<Longrightarrow> k \<le> j \<Longrightarrow> \<exists>x. \<forall>n. f (n + j) = Some x"
  using settled_mono [of k f j] by (simp add: settled_def)

text \<open>A member reference whose parent is lost, and a method specification of it.\<close>

lemma member_ref_lost:
  assumes "TypeFromToken t = mdtMemberRef" "lost md s (fst (snd (GetMemberRefProps md s t)))"
  shows "settled (Suc 0) (\<lambda>n. GetFunctionInfo n md s t) \<or> (\<forall>n. GetFunctionInfo n md s t = None)"
proof -
  obtain hr parent name len sig where g: "GetMemberRefProps md s t = (hr, parent, name, len, sig)"
    by (cases "GetMemberRefProps md s t")
  show ?thesis
  proof (cases "FAILED hr \<or> len = 0")
    case True
    then have "GetFunctionInfo (Suc n) md s t = Some FunctionInfo_nil" for n using assms(1) g by (simp add: GetFunctionInfo.simps)
    then show ?thesis by (blast intro: settled_const)
  next
    case False
    have "GetFunctionInfo n md s t = None" for n
      using assms g False lost_diverges [of md s parent] by (cases n) (simp_all add: GetFunctionInfo.simps)
    then show ?thesis by blast
  qed
qed

lemma method_spec_lost:
  assumes "TypeFromToken t = mdtMethodSpec" "GetMethodSpecProps md s t = (hr, parent, sig)" "\<forall>n. GetFunctionInfo n md s parent = None"
  shows "settled (Suc 0) (\<lambda>n. GetFunctionInfo n md s t) \<or> (\<forall>n. GetFunctionInfo n md s t = None)"
proof (cases "FAILED hr")
  case True
  then have "GetFunctionInfo (Suc n) md s t = Some FunctionInfo_nil" for n using assms(1,2) by (simp add: GetFunctionInfo.simps)
  then show ?thesis by (blast intro: settled_const)
next
  case False
  have "GetFunctionInfo n md s t = None" for n
    using assms False by (cases n) (simp_all add: GetFunctionInfo.simps)
  then show ?thesis by blast
qed

text \<open>A method definition or a member reference, for a bound on the specifications on the way.\<close>

lemma method_settled:
  assumes "metadata_shape md s" "spec_rows md s N" "TypeFromToken t \<in> {mdtMethodDef, mdtMemberRef}"
    "TypeFromToken t = mdtMemberRef \<Longrightarrow> \<not> lost md s (fst (snd (GetMemberRefProps md s t)))"
  shows "settled (N + 4) (\<lambda>n. GetFunctionInfo n md s t)" "settled (N + 5) (\<lambda>n. GetTypeInfo n md s t)"
proof -
  consider "TypeFromToken t = mdtMethodDef" | "TypeFromToken t = mdtMemberRef" using assms(3) by blast
  then have "settled (N + 4) (\<lambda>n. GetFunctionInfo n md s t) \<and> settled (N + 5) (\<lambda>n. GetTypeInfo n md s t)"
  proof cases
    case 1
    from method_def_settled [OF assms(1) this] show ?thesis by (auto intro: settled_mono)
  next
    case 2
    from member_ref_settled [OF assms(1) this assms(4) [OF this] chain_rows [OF assms(2)]] show ?thesis by blast
  qed
  then show "settled (N + 4) (\<lambda>n. GetFunctionInfo n md s t)" "settled (N + 5) (\<lambda>n. GetTypeInfo n md s t)" by blast+
qed

lemma GetFunctionInfo_settled:
  fixes md :: "('s, 'z) metadata_scheme" and t :: mdToken
  assumes "metadata_shape md s" "spec_rows md s N"
  defines "f \<equiv> if TypeFromToken t = mdtMethodSpec then fst (snd (GetMethodSpecProps md s t)) else t"
  shows "settled (N + 6) (\<lambda>n. GetFunctionInfo n md s t) \<or> TypeFromToken f = mdtMemberRef \<and>
    lost md s (fst (snd (GetMemberRefProps md s f))) \<and> (\<forall>n. GetFunctionInfo n md s t = None)"
proof (cases "TypeFromToken t \<in> {mdtMethodDef, mdtMemberRef, mdtMethodSpec}")
  case False
  then have "GetFunctionInfo (Suc n) md s t = Some FunctionInfo_nil" for n by (simp add: GetFunctionInfo.simps)
  then have "settled (Suc 0) (\<lambda>n. GetFunctionInfo n md s t)" by (rule settled_const)
  then show ?thesis by (auto intro: settled_mono)
next
  case True
  obtain hr parent sig where g: "GetMethodSpecProps md s t = (hr, parent, sig)" by (cases "GetMethodSpecProps md s t")
  have "TypeFromToken parent \<in> {mdtMethodDef, mdtMemberRef}"
    using assms(1) g unfolding metadata_shape_def by (metis fst_conv snd_conv)
  then have f: "TypeFromToken f \<in> {mdtMethodDef, mdtMemberRef}" using True g by (auto simp: f_def)
  show ?thesis
  proof (cases "TypeFromToken f = mdtMemberRef \<and> lost md s (fst (snd (GetMemberRefProps md s f)))")
    case False
    then have m: "settled (N + 4) (\<lambda>n. GetFunctionInfo n md s f)" "settled (N + 5) (\<lambda>n. GetTypeInfo n md s f)"
      using method_settled [OF assms(1,2) f] by blast+
    have "settled (N + 6) (\<lambda>n. GetFunctionInfo n md s t)"
    proof (cases "TypeFromToken t = mdtMethodSpec")
      case spec: True
      with g have p: "f = parent" by (simp add: f_def)
      have "settled (Suc (N + 5)) (\<lambda>n. GetFunctionInfo n md s t)"
        by (rule method_spec_settled [OF spec g settled_mono [OF m(1) [unfolded p]] m(2) [unfolded p]]) simp
      then show ?thesis by (rule settled_mono) simp
    next
      case False
      then have "f = t" by (simp add: f_def)
      with m(1) show ?thesis by (auto intro: settled_mono)
    qed
    then show ?thesis ..
  next
    case True
    note m = member_ref_lost [OF conjunct1 [OF True] conjunct2 [OF True]]
    have "settled 3 (\<lambda>n. GetFunctionInfo n md s t) \<or> (\<forall>n. GetFunctionInfo n md s t = None)"
    proof (cases "TypeFromToken t = mdtMethodSpec")
      case spec: True
      with g have p: "f = parent" by (simp add: f_def)
      show ?thesis
      proof (cases "\<forall>n. GetFunctionInfo n md s parent = None")
        case True
        from method_spec_lost [OF spec g this] show ?thesis by (auto intro: settled_mono)
      next
        case False
        with m p have s1: "settled (Suc 0) (\<lambda>n. GetFunctionInfo n md s parent)" by blast
        have "settled (Suc (Suc 0)) (\<lambda>n. GetTypeInfo n md s parent)"
          by (rule settled_step [OF s1, where h = fi_type]) (use True p in \<open>simp add: GetTypeInfo.simps Let_def\<close>)
        from method_spec_settled [OF spec g settled_mono [OF s1] this] show ?thesis by (auto intro: settled_mono)
      qed
    qed (use m in \<open>auto simp: f_def intro: settled_mono\<close>)
    with True show ?thesis by (auto intro: settled_mono)
  qed
qed

text \<open>
  C28. When the mutual recursion of GetTypeInfo and GetFunctionInfo ends. In a module whose
  tables have the documented shape, with N type specifications, N + 3 nested calls are enough for
  a type and N + 6 for a method, and the result is the same for every greater depth, unless the
  type, or the parent of the member reference, is lost: type specifications that pass the test
  for a generic instance lead back to one of them, or one of them is too short for the token. In
  that case no depth is enough.
\<close>

theorem GetFunctionInfo_returns:
  assumes "metadata_shape md s" "spec_rows md s N"
  shows "(TypeFromToken u \<noteq> mdtMemberRef \<longrightarrow>
      (if lost md s u then \<forall>n. GetTypeInfo n md s u = None else \<exists>info. \<forall>n. GetTypeInfo (n + (N + 3)) md s u = Some info)) \<and>
    (let f = (if TypeFromToken t = mdtMethodSpec then fst (snd (GetMethodSpecProps md s t)) else t) in
      (\<exists>info. \<forall>n. GetFunctionInfo (n + (N + 6)) md s t = Some info) \<or>
      TypeFromToken f = mdtMemberRef \<and> lost md s (fst (snd (GetMemberRefProps md s f))) \<and> (\<forall>n. GetFunctionInfo n md s t = None))"
proof (intro conjI impI)
  assume u: "TypeFromToken u \<noteq> mdtMemberRef"
  have "\<exists>info. \<forall>n. GetTypeInfo (n + (N + 3)) md s u = Some info" if "\<not> lost md s u"
    using settledD [OF found_settled [OF assms(1) that u], of "N + 3"] chain_rows [OF assms(2), of u] by simp
  then show "if lost md s u then \<forall>n. GetTypeInfo n md s u = None else \<exists>info. \<forall>n. GetTypeInfo (n + (N + 3)) md s u = Some info"
    using lost_diverges [of md s u] by simp
qed (use GetFunctionInfo_settled [OF assms, of t] settledD [of "N + 6" "\<lambda>n. GetFunctionInfo n md s t"] in \<open>auto simp: Let_def\<close>)

text \<open>A module with one assembly reference; the handle holds the position of an enumeration.\<close>

definition sample_metadata :: "nat metadata" where
  "sample_metadata = \<lparr>
     GetMemberRefProps = (\<lambda>s t. (S_OK, 0x1b000001, W ''Get'', 4, [0, 1, 8, 8])),
     GetMemberProps = (\<lambda>s t. (S_OK, 0x02000002, W ''Run'', 4, [0, 0, 1])),
     GetMethodSpecProps = (\<lambda>s t. (S_OK, 0x0a000001, [0x0a, 1, 8])),
     GetTypeDefProps = (\<lambda>s t. (S_OK, W ''App.Program'', 12)),
     GetTypeRefProps = (\<lambda>s t. (S_OK, W ''System.List`1'', 14)),
     GetTypeSpecFromToken = (\<lambda>s t. (S_OK, [0x15, 0x12, 0x09, 1, 8])),
     GetModuleRefProps = (\<lambda>s t. (S_OK, W ''native'', 7)),
     GetNestedClassProps = (\<lambda>s t. 0),
     FindTypeRef = (\<lambda>s t n. (0x80131130, 0)), FindMemberRef = (\<lambda>s t n sig. (0x80131130, 0)),
     GetAssemblyFromScope = (\<lambda>s. (S_OK, 0x20000001)),
     GetAssemblyProps = (\<lambda>s t. (S_OK, W ''App'', 4, Version_nil)),
     GetAssemblyRefProps = (\<lambda>s t. (S_OK, W ''System.Data'', 12, \<lparr>major = 4, minor = 0, build = 0, revision = 7\<rparr>)),
     EnumAssemblyRefs = (\<lambda>ptr n s. if ptr = 0 then (S_OK, [0x23000001], 1, s) else (S_FALSE, [], ptr, s)),
     CloseEnum = (\<lambda>ptr s. s),
     DefineAssemblyRef = (\<lambda>k n v l s. (S_OK, 0x23000002, s)), DefineTypeRefByName = (\<lambda>t n s. (S_OK, 0x01000009, s)),
     DefineMemberRef = (\<lambda>t n sig s. (S_OK, 0x0a000009, s)), DefineMethodSpec_emit = (\<lambda>t sig s. (S_OK, 0x2b000009, s)),
     GetTokenFromTypeSpec = (\<lambda>sig s. (S_OK, 0x1b000009, s))\<rparr>"

lemma sample_metadata_shape: "metadata_shape sample_metadata 0" "flat_specs sample_metadata 0"
proof -
  have "CorSigUncompressToken [9, 1, 8] = Some (1, 0x01000002)" by code_simp
  then show "metadata_shape sample_metadata 0" "flat_specs sample_metadata 0"
    by (auto simp: metadata_shape_def flat_specs_def opened_def sample_metadata_def TypeFromToken_def)
qed

text \<open>One row, a generic class over a reference: seven calls. And four rows of which the last leads back to itself.\<close>

definition sample_rows :: "(mdToken \<Rightarrow> byte list) \<Rightarrow> nat \<Rightarrow> nat metadata" where
  "sample_rows sig N = sample_metadata\<lparr>GetTypeSpecFromToken :=
     (\<lambda>s t. if unat (RidFromToken t) \<in> {1..N} then (S_OK, sig t) else (E_FAIL, []))\<rparr>"

lemma sample_rows_shape: "metadata_shape (sample_rows sig N) 0" "spec_rows (sample_rows sig N) 0 N"
  using sample_metadata_shape(1) by (auto simp: sample_rows_def metadata_shape_def spec_rows_def sample_metadata_def FAILED_def)

theorem GetFunctionInfo_returns_witness:
  "(\<exists>info. \<forall>n. GetFunctionInfo (n + 7) (sample_rows (\<lambda>t. [0x15, 0x12, 0x09, 1, 8]) 1) 0 0x2b000001 = Some info) \<and>
   (\<forall>n. GetTypeInfo n (sample_rows (\<lambda>t. [0x14, 0x15, 0x12, 0x09, 1, 8, 2, 0, 0]) 4) 0 0x1b000004 = None)"
proof -
  let ?one = "sample_rows (\<lambda>t. [0x15, 0x12, 0x09, 1, 8]) 1" and ?four = "sample_rows (\<lambda>t. [0x14, 0x15, 0x12, 0x09, 1, 8, 2, 0, 0]) 4"
  have "GetFunctionInfo 7 ?one 0 0x2b000001 \<noteq> None" by code_simp
  then have "\<exists>info. \<forall>n. GetFunctionInfo (n + 7) ?one 0 0x2b000001 = Some info"
    using GetFunctionInfo_returns [OF sample_rows_shape, where t = "0x2b000001" and N = 1] by (force simp: Let_def)
  moreover have "lost ?four 0 0x1b000004"
  proof -
    have "opened ?four 0 0x1b000004 = Some [0x12, 0x09, 1, 8, 2, 0, 0]" "CorSigUncompressToken [0x12, 0x09, 1, 8, 2, 0, 0] = Some (1, 0x1b000004)"
      by code_simp+
    then have "leads_to ?four 0 0x1b000004 0x1b000004" by (rule leads_to.step)
    then show ?thesis unfolding lost_def by blast
  qed
  moreover have "TypeFromToken 0x1b000004 \<noteq> mdtMemberRef" by code_simp
  ultimately show ?thesis
    using GetFunctionInfo_returns [OF sample_rows_shape, where u = "0x1b000004" and N = 4] by presburger
qed

text \<open>
  C40. An array type whose elements are a generic class passes the test for a generic instance,
  which compares single bits, and its third byte is taken for a token: of the fourth type
  specification. If the fourth type specification itself is such an array, GetTypeInfo calls
  itself without end: no depth is enough.
\<close>

theorem GetTypeInfo_diverges:
  assumes "GetTypeSpecFromToken md s 0x1b000004 =
    (S_OK, ELEMENT_TYPE_ARRAY # ELEMENT_TYPE_GENERICINST # ELEMENT_TYPE_CLASS # rest)"
  shows "GetTypeInfo n md s 0x1b000004 = None"
proof (induction n)
  case (Suc n)
  have "CorSigUncompressToken (ELEMENT_TYPE_CLASS # rest) = Some (1, 0x1b000004)"
    by (simp add: CorSigUncompressToken_def CorSigUncompressData_def g_tkCorEncodeToken_def TokenFromRid_def)
  moreover have "TypeFromToken 0x1b000004 = mdtTypeSpec" by (simp add: TypeFromToken_def)
  ultimately show ?case using Suc assms by (simp add: GetTypeInfo.simps Let_def)
qed (simp add: GetTypeInfo.simps)

theorem GetTypeInfo_diverges_witness:
  "GetTypeInfo 1000 (sample_metadata\<lparr>GetTypeSpecFromToken := (\<lambda>s t. (S_OK, [0x14, 0x15, 0x12, 0x09, 1, 8, 2, 0, 0]))\<rparr>) 0 0x1b000004 = None"
  by (rule GetTypeInfo_diverges [where rest = "[0x09, 1, 8, 2, 0, 0]"]) simp

text \<open>
  C22. FilterIntegrationsByTarget keeps, in order, exactly the integrations whose target assembly
  is the module's own or one it refers to, by name, with a version between the bounds in major,
  minor and build; the runtime is left in a good state.
\<close>

theorem FilterIntegrationsByTarget_keeps:
  assumes "refers_to md P refs meta" "P s"
  shows "\<exists>s'. P s' \<and> FilterIntegrationsByTarget md is s =
    Some (filter (\<lambda>i. list_ex (required_version (replacement i)) (GetAssemblyImportMetadata md s # map meta refs)) is, s')"
  using filter_by_target_spec [OF assms, of "GetAssemblyImportMetadata md s" "is" "[]"]
  by (simp add: FilterIntegrationsByTarget_def)

definition sample_integration :: "WSTRING \<Rightarrow> u16 \<Rightarrow> IntegrationMethod" where
  "sample_integration name n = \<lparr>im_integration_name = W ''Sample'', replacement =
     \<lparr>caller_method = MethodReference_nil,
      target_method = MethodReference_nil\<lparr>mr_assembly := AssemblyReference_nil\<lparr>ar_name := name\<rparr>,
        min_version := \<lparr>major = n, minor = 0, build = 0, revision = 0\<rparr>\<rparr>,
      wrapper_method = MethodReference_nil\<rparr>\<rparr>"

lemma sample_refers_to:
  "refers_to sample_metadata (\<lambda>s. True) [0x23000001] (GetReferencedAssemblyMetadata sample_metadata 0)"
proof -
  have "batches (enum_assembly_refs sample_metadata) (\<lambda>s. True) 1 s []" for s
    by (rule batches.last [where hr = S_FALSE and ts = "[]" and ptr' = 1 and s' = s])
      (simp_all add: enum_assembly_refs_def sample_metadata_def)
  then have b: "batches (enum_assembly_refs sample_metadata) (\<lambda>s. True) 0 s [[0x23000001]]" for s
    by (intro batches.more [where ptr' = 1 and s' = s]) (simp_all add: enum_assembly_refs_def sample_metadata_def)
  have "GetReferencedAssemblyMetadata sample_metadata s r = GetReferencedAssemblyMetadata sample_metadata 0 r" for s r
    by (simp add: GetReferencedAssemblyMetadata_def sample_metadata_def)
  moreover have "\<exists>bs. batches (enum_assembly_refs sample_metadata) (\<lambda>s. True) 0 s bs \<and> concat bs = [0x23000001]" for s
    using b [of s] by (intro exI [of _ "[[0x23000001]]"]) simp
  ultimately show ?thesis unfolding refers_to_def by blast
qed

theorem FilterIntegrationsByTarget_keeps_witness:
  "\<exists>s. FilterIntegrationsByTarget sample_metadata
     [sample_integration (W ''System.Data'') 4, sample_integration (W ''System.Data'') 5, sample_integration (W ''App'') 0] 0 =
   Some ([sample_integration (W ''System.Data'') 4, sample_integration (W ''App'') 0], s)"
proof -
  let ?is = "[sample_integration (W ''System.Data'') 4, sample_integration (W ''System.Data'') 5, sample_integration (W ''App'') 0]"
  have "filter (\<lambda>i. list_ex (required_version (replacement i)) (GetAssemblyImportMetadata sample_metadata 0 #
      map (GetReferencedAssemblyMetadata sample_metadata 0) [0x23000001])) ?is =
    [sample_integration (W ''System.Data'') 4, sample_integration (W ''App'') 0]"
  proof -
    have "W ''System.Data'' \<noteq> W ''App''" by code_simp
    then show ?thesis
      by (simp add: sample_integration_def required_version_def version_number_def sample_metadata_def
          GetAssemblyImportMetadata_def GetReferencedAssemblyMetadata_def MethodReference_nil_def
          AssemblyReference_nil_def Version_nil_def)
  qed
  with FilterIntegrationsByTarget_keeps [OF sample_refers_to TrueI, of ?is 0] show ?thesis by auto
qed

end
