(* ===== verification/Signature_Types.thy ===== *)
theory Signature_Types
  imports Clr_Helpers
begin

text \<open>
  The names of the types of a method signature (\<open>TryParseSignatureTypes\<close> of clr\_helpers.cpp)
  and whether a return value has to be boxed (\<open>ReturnTypeIsValueTypeOrGeneric\<close>). The inner
  \<open>None\<close> of a result is the answer \<open>false\<close>; the outer one a read outside of a signature, or a
  recursion deeper than the given bound.
\<close>

section \<open>Pieces\<close>

definition primitive_type_name :: "byte \<Rightarrow> WSTRING option" where
  "primitive_type_name b =
     (if b = ELEMENT_TYPE_VOID then Some (W ''System.Void'')
      else if b = ELEMENT_TYPE_BOOLEAN then Some (W ''System.Boolean'')
      else if b = ELEMENT_TYPE_CHAR then Some (W ''System.Char16'')
      else if b = ELEMENT_TYPE_I1 then Some (W ''System.SByte'')
      else if b = ELEMENT_TYPE_U1 then Some (W ''System.Byte'')
      else if b = ELEMENT_TYPE_I2 then Some (W ''System.Int16'')
      else if b = ELEMENT_TYPE_U2 then Some (W ''System.UInt16'')
      else if b = ELEMENT_TYPE_I4 then Some (W ''System.Int32'')
      else if b = ELEMENT_TYPE_U4 then Some (W ''System.UInt32'')
      else if b = ELEMENT_TYPE_I8 then Some (W ''System.Int64'')
      else if b = ELEMENT_TYPE_U8 then Some (W ''System.UInt64'')
      else if b = ELEMENT_TYPE_R4 then Some (W ''System.Single'')
      else if b = ELEMENT_TYPE_R8 then Some (W ''System.Double'')
      else if b = ELEMENT_TYPE_STRING then Some (W ''System.String'')
      else if b = ELEMENT_TYPE_OBJECT then Some (W ''System.Object'')
      else None)"

definition RetrieveTypeForSignature :: "nat \<Rightarrow> ('s, 'z) metadata_scheme \<Rightarrow> 's \<Rightarrow> MethodSignature \<Rightarrow> nat \<Rightarrow>
    (TypeInfo \<times> u32) option" where
  "RetrieveTypeForSignature d md s sig current_index = do {
     (token_length, type_token) \<leftarrow> CorSigUncompressToken (drop current_index sig);
     type_data \<leftarrow> GetTypeInfo d md s type_token;
     Some (type_data, token_length)
   }"

text \<open>The search for the types a nested type lies in, at most \<open>d\<close> of them.\<close>

fun nested_name :: "nat \<Rightarrow> ('s, 'z) metadata_scheme \<Rightarrow> 's \<Rightarrow> mdToken \<Rightarrow> WSTRING \<Rightarrow> WSTRING \<Rightarrow> WSTRING option" where
  "nested_name 0 md s examined_type_token examined_type_name ongoing_type_name = None"
| "nested_name (Suc d) md s examined_type_token examined_type_name ongoing_type_name =
     (if find_char 0x2E examined_type_name \<noteq> None then Some ongoing_type_name
      else
        (let potentialParentToken = GetNestedClassProps md s examined_type_token in
         if potentialParentToken = mdTokenNil then Some ongoing_type_name
         else do {
           nesting_type \<leftarrow> GetTypeInfo d md s potentialParentToken;
           nested_name d md s (ti_id nesting_type) (ti_name nesting_type)
             (ti_name nesting_type @ W ''+'' @ ongoing_type_name)
         }))"

text \<open>\<open>std::stoi\<close>; \<open>None\<close> is an exception.\<close>

definition is_space :: "byte \<Rightarrow> bool" where
  "is_space c \<longleftrightarrow> c = 0x20 \<or> 9 \<le> c \<and> c \<le> 13"

definition stoi_digits :: "byte list \<Rightarrow> nat option" where
  "stoi_digits s =
     (let ds = takeWhile (\<lambda>c. 0x30 \<le> c \<and> c \<le> 0x39) s in
      if ds = [] then None else Some (foldl (\<lambda>n c. n * 10 + (unat c - 0x30)) 0 ds))"

definition stoi :: "byte list \<Rightarrow> int option" where
  "stoi s =
     (let s = dropWhile is_space s; neg = (s \<noteq> [] \<and> hd s = 0x2D);
          s = (if s \<noteq> [] \<and> (hd s = 0x2D \<or> hd s = 0x2B) then tl s else s)
      in do {
        n \<leftarrow> stoi_digits s;
        let v = (if neg then - int n else int n);
        if - (2 ^ 31) \<le> v \<and> v < 2 ^ 31 then Some v else None })"

text \<open>The number behind the last backtick; without one the whole name is read.\<close>

definition generic_arg_count :: "WSTRING \<Rightarrow> int option" where
  "generic_arg_count ty_name =
     (let start = (case rfind_char 0x60 ty_name of None \<Rightarrow> 0 | Some i \<Rightarrow> i + 1)
      in stoi (the (ToString (drop start ty_name))))"

lemma generic_named: "generic_arg_count name = Some n \<Longrightarrow> name \<noteq> []"
proof
  assume "generic_arg_count name = Some n" "name = []"
  moreover have "generic_arg_count [] = None" by code_simp
  ultimately show False by simp
qed

section \<open>The loop over the signature\<close>

record sig_state =
  type_names :: "WSTRING list"
  current_type_index :: nat
  generic_arg_stack :: "int list"
  append_to_type :: WSTRING
  current_type_name :: WSTRING

text \<open>
  What a turn of the loop decides: to go on, at the index the \<open>for\<close> statement then increments,
  or to return \<open>false\<close>.
\<close>

datatype turn = Go nat sig_state | Return_false

fun unwind :: "int list \<Rightarrow> WSTRING \<Rightarrow> int list \<times> WSTRING" where
  "unwind [] name = ([], name)"
| "unwind (k # st) name =
     (if k = 0 then
        (let name = name @ W ''>'';
             name = (if st \<noteq> [] \<and> hd st > 0 then name @ W '', '' else name)
         in unwind st name)
      else (k # st, name))"

text \<open>What follows the \<open>switch\<close>, after a complete type.\<close>

definition type_complete :: "nat \<Rightarrow> nat \<Rightarrow> sig_state \<Rightarrow> turn" where
  "type_complete expected_number_of_types index st =
     (let name = current_type_name st @ append_to_type st;
          st = st\<lparr>append_to_type := []\<rparr>;
          stack = (case generic_arg_stack st of [] \<Rightarrow> [] | k # ks \<Rightarrow> (k - 1) # ks);
          name = (if stack \<noteq> [] \<and> hd stack > 0 then name @ W '', '' else name);
          (stack, name) = unwind stack name
      in if stack \<noteq> [] then Go index (st\<lparr>generic_arg_stack := stack, current_type_name := name\<rparr>)
         else if current_type_index st \<ge> expected_number_of_types then Return_false
         else Go index (st\<lparr>type_names := (type_names st)[current_type_index st := name],
           current_type_index := current_type_index st + 1, generic_arg_stack := [], current_type_name := []\<rparr>))"

definition append_name :: "WSTRING \<Rightarrow> sig_state \<Rightarrow> sig_state" where
  "append_name name st = st\<lparr>current_type_name := current_type_name st @ name\<rparr>"

text \<open>The run of \<open>SZARRAY\<close> bytes: the brackets, and the index of the last one.\<close>

fun array_run :: "MethodSignature \<Rightarrow> nat \<Rightarrow> nat \<Rightarrow> WSTRING \<Rightarrow> (nat \<times> WSTRING) option" where
  "array_run sig 0 index app = None"
| "array_run sig (Suc n) index app = do {
     b \<leftarrow> byte_at sig (index + 1);
     if b = ELEMENT_TYPE_SZARRAY then array_run sig n (index + 1) (app @ W ''[]'') else Some (index, app)
   }"

definition parse_turn :: "nat \<Rightarrow> ('s, 'z) metadata_scheme \<Rightarrow> 's \<Rightarrow> MethodSignature \<Rightarrow> nat \<Rightarrow> nat \<Rightarrow> sig_state \<Rightarrow> turn option" where
  "parse_turn d md s sig expected index st =
     (let b = sig ! index in
      case primitive_type_name b of
        Some name \<Rightarrow> Some (type_complete expected index (append_name name st))
      | None \<Rightarrow>
          if b = ELEMENT_TYPE_VALUETYPE \<or> b = ELEMENT_TYPE_CLASS then do {
            let index = index + 1;
            (type_data, token_length) \<leftarrow> RetrieveTypeForSignature d md s sig index;
            name \<leftarrow> nested_name d md s (ti_id type_data) (ti_name type_data) (ti_name type_data);
            Some (type_complete expected (index + unat (token_length - 1)) (append_name name st))
          }
          else if b = ELEMENT_TYPE_SZARRAY then do {
            (index, app) \<leftarrow> array_run sig (length sig) index (append_to_type st @ W ''[]'');
            Some (Go index (st\<lparr>append_to_type := app\<rparr>))
          }
          else if b = ELEMENT_TYPE_MVAR \<or> b = ELEMENT_TYPE_VAR then do {
            (token_length, type_token) \<leftarrow> CorSigUncompressToken (drop index sig);
            Some (type_complete expected (index + unat token_length) (append_name (W ''T'') st))
          }
          else if b = ELEMENT_TYPE_GENERICINST then do {
            let index = index + 2;
            (generic_type_data, token_length) \<leftarrow> RetrieveTypeForSignature d md s sig index;
            let ty_name = ti_name generic_type_data;
            let st = append_name (ty_name @ W ''<'') st;
            let stack = (case generic_arg_stack st of [] \<Rightarrow> [] | k # ks \<Rightarrow> (k - 1) # ks);
            (case generic_arg_count ty_name of
               None \<Rightarrow> Some Return_false
             | Some actual_arg_count \<Rightarrow>
                 Some (Go (index + unat token_length) (st\<lparr>generic_arg_stack := actual_arg_count # stack\<rparr>)))
          }
          else if b = ELEMENT_TYPE_BYREF then Some (type_complete expected index (append_name (W ''ref'') st))
          else if b = ELEMENT_TYPE_END then Some (Go index st)
          else Some (type_complete expected index (append_name (decimal (unat b)) st)))"

text \<open>No turn moves back, so the \<open>for\<close> loop ends.\<close>

lemma type_complete_index: "type_complete e i st = Go j st' \<Longrightarrow> j = i"
  by (auto simp: type_complete_def Let_def split: prod.splits if_split_asm)

lemma array_run_index: "array_run sig n i app = Some (j, app') \<Longrightarrow> i \<le> j"
  by (induction n arbitrary: i app) (fastforce split: bind_splits if_split_asm)+

lemma parse_turn_index: "parse_turn d md s sig e i st = Some (Go j st') \<Longrightarrow> i \<le> j"
  unfolding parse_turn_def Let_def
  by (auto split: option.splits if_split_asm bind_splits dest!: type_complete_index array_run_index)

function parse_loop :: "nat \<Rightarrow> ('s, 'z) metadata_scheme \<Rightarrow> 's \<Rightarrow> MethodSignature \<Rightarrow> nat \<Rightarrow> nat \<Rightarrow> sig_state \<Rightarrow>
    WSTRING list option option" where
  "parse_loop d md s sig expected index st =
     (if \<not> index < length sig then Some (Some (type_names st))
      else
        (case parse_turn d md s sig expected index st of
           None \<Rightarrow> None
         | Some Return_false \<Rightarrow> Some None
         | Some (Go index st) \<Rightarrow> parse_loop d md s sig expected (index + 1) st))"
  by auto
termination
  by (relation "measure (\<lambda>(d, md, s, sig, expected, index, st). length sig - index)")
    (auto dest!: parse_turn_index)

declare parse_loop.simps [simp del]

definition TryParseSignatureTypes :: "nat \<Rightarrow> ('s, 'z) metadata_scheme \<Rightarrow> 's \<Rightarrow> FunctionInfo \<Rightarrow> WSTRING list option option" where
  "TryParseSignatureTypes d md s function_info =
     (let sig = fi_signature function_info;
          expected_number_of_types = NumberOfArguments sig + 1;
          current_index = (if NumberOfTypeArguments sig > 0 then 3 else 2)
      in parse_loop d md s sig expected_number_of_types current_index
           \<lparr>type_names = replicate expected_number_of_types [], current_type_index = 0, generic_arg_stack = [],
            append_to_type = [], current_type_name = []\<rparr>)"

section \<open>Types and their names\<close>

text \<open>
  The primitive types of the Common Language Infrastructure: element type and name in the
  namespace \<open>System\<close>, as its specification and the comments of clr\_helpers.cpp list them; and the
  other element types that stand for a type of that namespace and can occur in a signature of
  this form.
\<close>

definition cli_primitives :: "(byte \<times> string) list" where
  "cli_primitives = [(0x02, ''Boolean''), (0x03, ''Char''), (0x04, ''SByte''), (0x05, ''Byte''), (0x06, ''Int16''),
     (0x07, ''UInt16''), (0x08, ''Int32''), (0x09, ''UInt32''), (0x0A, ''Int64''), (0x0B, ''UInt64''), (0x0C, ''Single''),
     (0x0D, ''Double'')]"

definition cli_name :: "byte \<Rightarrow> WSTRING option" where
  "cli_name b = map_option (\<lambda>name. W (''System.'' @ name))
     (map_of ((0x01, ''Void'') # (0x0E, ''String'') # (0x1C, ''Object'') # cli_primitives) b)"

text \<open>The code has these names, but for one.\<close>

definition shown_name :: "byte \<Rightarrow> WSTRING option" where
  "shown_name b = (if b = 0x03 then Some (W ''System.Char16'') else cli_name b)"

lemma primitive_type_name_shown: "primitive_type_name b = shown_name b"
  by (simp add: primitive_type_name_def shown_name_def cli_name_def cli_primitives_def)

lemma shown_name_None: "shown_name b = None \<longleftrightarrow> cli_name b = None"
  by (simp add: shown_name_def cli_name_def cli_primitives_def)

lemma Char_named_Char16: "cli_name ELEMENT_TYPE_CHAR = Some (W ''System.Char'') \<and>
  TryParseSignatureTypes d md s (FunctionInfo_nil\<lparr>fi_signature := [0, 0, ELEMENT_TYPE_CHAR]\<rparr>) = Some (Some [W ''System.Char16''])"
proof -
  let ?st = "\<lparr>type_names = [[]], current_type_index = 0, generic_arg_stack = [], append_to_type = [], current_type_name = []\<rparr>"
  have "parse_turn d md s [0, 0, ELEMENT_TYPE_CHAR] 1 2 ?st = Some (Go 2 (?st\<lparr>type_names := [W ''System.Char16''],
      current_type_index := 1\<rparr>))"
    by (simp add: parse_turn_def primitive_type_name_def type_complete_def append_name_def)
  then have "parse_loop d md s [0, 0, ELEMENT_TYPE_CHAR] 1 2 ?st = Some (Some [W ''System.Char16''])"
    by (simp add: parse_loop.simps [of _ _ _ _ _ 2] parse_loop.simps [of _ _ _ _ _ 3])
  then show ?thesis
    by (simp add: cli_name_def cli_primitives_def TryParseSignatureTypes_def NumberOfArguments_def NumberOfTypeArguments_def
      generic_convention_def CallingConvention_def)
qed

text \<open>
  The types a signature is made of, their code and their names: an element type, possibly in
  arrays of arrays, and a generic instance.
\<close>

datatype element = Prim byte | Named bool mdToken

datatype sig_type = Elem nat element | Inst bool mdToken "sig_type list"

abbreviation (input) token_code :: "mdToken \<Rightarrow> byte list" where
  "token_code t \<equiv> snd (CorSigCompressToken t)"

definition class_byte :: "bool \<Rightarrow> byte" where
  "class_byte v = (if v then ELEMENT_TYPE_VALUETYPE else ELEMENT_TYPE_CLASS)"

fun element_code :: "element \<Rightarrow> byte list" where
  "element_code (Prim b) = [b]"
| "element_code (Named v t) = class_byte v # token_code t"

fun sig_code :: "sig_type \<Rightarrow> byte list" where
  "sig_code (Elem n e) = replicate n ELEMENT_TYPE_SZARRAY @ element_code e"
| "sig_code (Inst v t args) =
     ELEMENT_TYPE_GENERICINST # class_byte v # token_code t @ word_of_nat (length args) # concat (map sig_code args)"

fun element_name :: "(mdToken \<Rightarrow> WSTRING) \<Rightarrow> element \<Rightarrow> WSTRING" where
  "element_name nm (Prim b) = the (shown_name b)"
| "element_name nm (Named v t) = nm t"

fun join_names :: "WSTRING list \<Rightarrow> WSTRING" where
  "join_names [] = []"
| "join_names [x] = x"
| "join_names (x # xs) = x @ W '', '' @ join_names xs"

fun type_text :: "(mdToken \<Rightarrow> WSTRING) \<Rightarrow> sig_type \<Rightarrow> WSTRING" where
  "type_text nm (Elem n e) = element_name nm e @ concat (replicate n (W ''[]''))"
| "type_text nm (Inst v t args) = nm t @ W ''<'' @ join_names (map (type_text nm) args) @ W ''>''"

text \<open>
  Names are as the runtime gives them: of a class with its namespace, of a generic class with
  the number of its parameters behind the backtick.
\<close>

fun element_ok :: "(mdToken \<Rightarrow> WSTRING) \<Rightarrow> element \<Rightarrow> bool" where
  "element_ok nm (Prim b) \<longleftrightarrow> cli_name b \<noteq> None"
| "element_ok nm (Named v t) \<longleftrightarrow> sig_token t \<and> find_char 0x2E (nm t) \<noteq> None"

fun type_ok :: "(mdToken \<Rightarrow> WSTRING) \<Rightarrow> sig_type \<Rightarrow> bool" where
  "type_ok nm (Elem n e) \<longleftrightarrow> element_ok nm e"
| "type_ok nm (Inst v t args) \<longleftrightarrow> sig_token t \<and> args \<noteq> [] \<and> generic_arg_count (nm t) = Some (int (length args)) \<and>
     list_all (type_ok nm) args"

lemma element_name_byte:
  "primitive_type_name b \<noteq> None \<Longrightarrow> b \<notin> {ELEMENT_TYPE_SZARRAY, ELEMENT_TYPE_VALUETYPE, ELEMENT_TYPE_CLASS, ELEMENT_TYPE_GENERICINST}"
  "primitive_type_name ELEMENT_TYPE_SZARRAY = None" "primitive_type_name (class_byte v) = None"
  "primitive_type_name ELEMENT_TYPE_GENERICINST = None" "primitive_type_name ELEMENT_TYPE_VALUETYPE = None"
  "primitive_type_name ELEMENT_TYPE_CLASS = None"
  by (auto simp: primitive_type_name_def class_byte_def)

lemma element_code_head: "element_ok nm e \<Longrightarrow> \<exists>b r. element_code e = b # r \<and> b \<noteq> ELEMENT_TYPE_SZARRAY"
  by (cases e) (auto simp: class_byte_def cli_name_def cli_primitives_def)

section \<open>One type\<close>

text \<open>The names of the tokens are those the runtime gives, with a bound for the recursion.\<close>

definition names_types :: "nat \<Rightarrow> ('s, 'z) metadata_scheme \<Rightarrow> 's \<Rightarrow> (mdToken \<Rightarrow> WSTRING) \<Rightarrow> bool" where
  "names_types d md s nm \<longleftrightarrow> d \<noteq> 0 \<and>
     (\<forall>t. nm t \<noteq> [] \<longrightarrow> (\<exists>i. GetTypeInfo d md s t = Some \<lparr>ti_id = i, ti_name = nm t\<rparr>))"

lemma retrieve_token:
  assumes "names_types d md s nm" "nm t \<noteq> []" "sig_token t" "drop i sig = token_code t @ r"
  shows "\<exists>id. RetrieveTypeForSignature d md s sig i = Some (\<lparr>ti_id = id, ti_name = nm t\<rparr>, fst (CorSigCompressToken t))"
proof -
  obtain id where "GetTypeInfo d md s t = Some \<lparr>ti_id = id, ti_name = nm t\<rparr>" using assms(1,2) by (auto simp: names_types_def)
  then show ?thesis using assms(3,4) by (simp add: RetrieveTypeForSignature_def CorSigUncompressToken_Compress)
qed

lemma token_code_length:
  "unat (fst (CorSigCompressToken t)) = length (token_code t)"
  "Suc (unat (fst (CorSigCompressToken t) - 1)) = length (token_code t)"
proof -
  show l: "unat (fst (CorSigCompressToken t)) = length (token_code t)" by (rule CorSigCompressToken_length)
  then have "fst (CorSigCompressToken t) \<noteq> 0" using CorSigCompressToken_size [of t] by auto
  then show "Suc (unat (fst (CorSigCompressToken t) - 1)) = length (token_code t)"
    using l CorSigCompressToken_size [of t] by (auto simp: unat_minus_one)
qed

definition resume :: "nat \<Rightarrow> ('s, 'z) metadata_scheme \<Rightarrow> 's \<Rightarrow> MethodSignature \<Rightarrow> nat \<Rightarrow> turn \<Rightarrow> WSTRING list option option" where
  "resume d md s sig expected t = (case t of
     Go index st \<Rightarrow> parse_loop d md s sig expected (index + 1) st | Return_false \<Rightarrow> Some None)"

lemma parse_loop_turn:
  "drop i sig = b # r \<Longrightarrow> parse_turn d md s sig e i st = Some t \<Longrightarrow> parse_loop d md s sig e i st = resume d md s sig e t"
  by (cases "i < length sig") (auto simp: parse_loop.simps [of d md s sig e i st] resume_def split: turn.splits)

lemma drop_Cons_nth: "drop i sig = b # r \<Longrightarrow> sig ! i = b \<and> i < length sig \<and> drop (Suc i) sig = r"
  by (metis Cons_nth_drop_Suc drop_eq_Nil2 leI list.distinct(1) list.inject)

lemma parse_element:
  assumes "names_types d md s nm" "element_ok nm el" "drop i sig = element_code el @ r"
  shows "parse_loop d md s sig e i st =
    resume d md s sig e (type_complete e (i + length (element_code el) - 1) (append_name (element_name nm el) st))"
proof (cases el)
  case (Prim b)
  with assms have "sig ! i = b" "drop i sig = b # r" "primitive_type_name b = shown_name b" "shown_name b \<noteq> None"
    by (auto dest: drop_Cons_nth simp: primitive_type_name_shown shown_name_None)
  then show ?thesis using parse_loop_turn [of i sig b r] by (auto simp: Prim parse_turn_def)
next
  case (Named v t)
  have d: "sig ! i = class_byte v" "drop i sig = class_byte v # token_code t @ r" "drop (Suc i) sig = token_code t @ r"
    using assms(3) drop_Cons_nth [of i sig "class_byte v" "token_code t @ r"] by (simp_all add: Named)
  obtain id where ret: "RetrieveTypeForSignature d md s sig (Suc i) =
      Some (\<lparr>ti_id = id, ti_name = nm t\<rparr>, fst (CorSigCompressToken t))"
    using retrieve_token [OF assms(1) _ _ d(3)] assms(2) by (cases "nm t = []") (auto simp: Named find_char_def)
  obtain d' where d': "d = Suc d'" using assms(1) by (cases d) (auto simp: names_types_def)
  have nn: "nested_name d md s id (nm t) (nm t) = Some (nm t)" using assms(2) by (simp add: d' Named)
  have u: "Suc (i + unat (fst (CorSigCompressToken t) - 1)) = i + length (token_code t)"
    using token_code_length(2) [of t] by simp
  then have "parse_turn d md s sig e i st =
      Some (type_complete e (i + length (element_code el) - 1) (append_name (element_name nm el) st))"
    using ret nn d(1) by (auto simp: parse_turn_def Named element_name_byte class_byte_def Let_def u)
  then show ?thesis by (rule parse_loop_turn [OF d(2)])
qed

lemma array_run_code:
  "drop i sig = replicate (Suc k) ELEMENT_TYPE_SZARRAY @ b # r \<Longrightarrow> b \<noteq> ELEMENT_TYPE_SZARRAY \<Longrightarrow> k < n \<Longrightarrow>
   array_run sig n i app = Some (i + k, app @ concat (replicate k (W ''[]'')))"
proof (induction n arbitrary: i k app)
  case (Suc n)
  have t: "drop (Suc i) sig = replicate k ELEMENT_TYPE_SZARRAY @ b # r" using drop_Cons_nth [of i sig] Suc.prems(1) by simp
  show ?case
  proof (cases k)
    case 0
    then show ?thesis using t drop_Cons_nth [of "Suc i" sig] Suc.prems(2) by (simp add: byte_at_def)
  next
    case (Suc j)
    then have "sig ! Suc i = ELEMENT_TYPE_SZARRAY" "Suc i < length sig" using t drop_Cons_nth [of "Suc i" sig] by simp_all
    then show ?thesis using Suc.IH [of "Suc i" j "app @ W ''[]''"] Suc.prems t Suc by (simp add: byte_at_def)
  qed
qed simp

lemma type_complete_append:
  "append_to_type st = [] \<Longrightarrow> type_complete e i (append_name x (st\<lparr>append_to_type := a\<rparr>)) = type_complete e i (append_name (x @ a) st)"
  by (cases st) (simp add: type_complete_def append_name_def Let_def split: prod.split)

lemma parse_elem:
  assumes "names_types d md s nm" "element_ok nm el" "drop i sig = sig_code (Elem n el) @ r" "append_to_type st = []"
  shows "parse_loop d md s sig e i st =
    resume d md s sig e (type_complete e (i + length (sig_code (Elem n el)) - 1) (append_name (type_text nm (Elem n el)) st))"
proof (cases n)
  case 0
  then show ?thesis using parse_element [OF assms(1,2), of i sig r] assms(3) by simp
next
  case (Suc k)
  obtain b q where b: "element_code el = b # q" "b \<noteq> ELEMENT_TYPE_SZARRAY" using element_code_head [OF assms(2)] by blast
  have i: "drop i sig = replicate (Suc k) ELEMENT_TYPE_SZARRAY @ b # q @ r" using assms(3) b(1) by (simp add: Suc)
  then have "length (drop i sig) = Suc k + Suc (length (q @ r))" by simp
  then have k: "k < length sig" by simp
  have "sig ! i = ELEMENT_TYPE_SZARRAY" using i drop_Cons_nth [of i sig] by simp
  then have p: "parse_turn d md s sig e i st = Some (Go (i + k) (st\<lparr>append_to_type := concat (replicate n (W ''[]''))\<rparr>))"
    using array_run_code [OF i b(2) k, of "W ''[]''"] assms(4)
    by (simp add: parse_turn_def element_name_byte Suc)
  have "drop i sig = ELEMENT_TYPE_SZARRAY # replicate k ELEMENT_TYPE_SZARRAY @ b # q @ r" using i by simp
  from parse_loop_turn [OF this p]
  have "parse_loop d md s sig e i st = parse_loop d md s sig e (i + n) (st\<lparr>append_to_type := concat (replicate n (W ''[]''))\<rparr>)"
    by (simp add: resume_def Suc)
  moreover have "drop (i + n) sig = element_code el @ r"
    using arg_cong [OF assms(3), of "drop n"] by (simp add: add.commute)
  ultimately show ?thesis
    using parse_element [OF assms(1,2), of "i + n" sig r] type_complete_append [OF assms(4)] b(1)
    by (simp add: add.assoc)
qed

section \<open>Generic instances and signatures\<close>

text \<open>Completing the last argument of an instance completes the instance.\<close>

lemma type_complete_last:
  assumes "append_to_type st = []"
  shows "type_complete e i (append_name y (append_name x st
      \<lparr>generic_arg_stack := 1 # (case generic_arg_stack st of [] \<Rightarrow> [] | k # ks \<Rightarrow> (k - 1) # ks)\<rparr>)) =
    type_complete e i (append_name (x @ y @ W ''>'') st)"
  using assms by (cases st) (simp add: type_complete_def append_name_def Let_def split: prod.split)

text \<open>Completing an argument that is not the last one.\<close>

lemma type_complete_more:
  assumes "append_to_type st = []" "generic_arg_stack st = int (Suc (Suc n)) # ks"
  shows "type_complete e i (append_name x st) =
    Go i (append_name (x @ W '', '') (st\<lparr>generic_arg_stack := int (Suc n) # ks\<rparr>))"
  using assms by (cases st) (simp add: type_complete_def append_name_def Let_def split: prod.split)

definition parses :: "nat \<Rightarrow> ('s, 'z) metadata_scheme \<Rightarrow> 's \<Rightarrow> MethodSignature \<Rightarrow> nat \<Rightarrow> (mdToken \<Rightarrow> WSTRING) \<Rightarrow> sig_type \<Rightarrow> bool" where
  "parses d md s sig e nm t \<longleftrightarrow> (\<forall>i r st. drop i sig = sig_code t @ r \<longrightarrow> append_to_type st = [] \<longrightarrow>
     parse_loop d md s sig e i st =
       resume d md s sig e (type_complete e (i + length (sig_code t) - 1) (append_name (type_text nm t) st)))"

lemma sig_code_not_Nil: "sig_code t \<noteq> []"
proof (cases t)
  case (Elem n e)
  then show ?thesis by (cases e) auto
qed simp

lemma parse_arguments:
  "list_all (parses d md s sig e nm) ts \<Longrightarrow> ts \<noteq> [] \<Longrightarrow> drop i sig = concat (map sig_code ts) @ r \<Longrightarrow>
   append_to_type st = [] \<Longrightarrow> generic_arg_stack st = int (length ts) # ks \<Longrightarrow>
   parse_loop d md s sig e i st = resume d md s sig e (type_complete e (i + length (concat (map sig_code ts)) - 1)
     (append_name (join_names (map (type_text nm) ts)) (st\<lparr>generic_arg_stack := 1 # ks\<rparr>)))"
proof (induction ts arbitrary: i st)
  case (Cons t ts)
  have p: "parses d md s sig e nm t" "list_all (parses d md s sig e nm) ts" using Cons.prems(1) by simp_all
  have one: "parse_loop d md s sig e i st =
      resume d md s sig e (type_complete e (i + length (sig_code t) - 1) (append_name (type_text nm t) st))"
    using p(1) Cons.prems(3,4) unfolding parses_def by simp
  show ?case
  proof (cases ts)
    case Nil
    moreover have "st\<lparr>generic_arg_stack := 1 # ks\<rparr> = st" using Cons.prems(5) Nil by (cases st) simp
    ultimately show ?thesis using one by simp
  next
    case (Cons u us)
    let ?st = "append_name (type_text nm t @ W '', '') (st\<lparr>generic_arg_stack := int (length ts) # ks\<rparr>)"
    have k: "i + length (sig_code t) - 1 + 1 = i + length (sig_code t)" using sig_code_not_Nil [of t] by simp
    have "drop (i + length (sig_code t)) sig = concat (map sig_code ts) @ r"
      using arg_cong [OF Cons.prems(3), of "drop (length (sig_code t))"] by (simp add: add.commute)
    moreover have "type_complete e (i + length (sig_code t) - 1) (append_name (type_text nm t) st) =
        Go (i + length (sig_code t) - 1) ?st"
      using Cons.prems(4,5) Cons by (intro type_complete_more [THEN trans]) simp_all
    ultimately have "parse_loop d md s sig e i st = resume d md s sig e
        (type_complete e (i + length (sig_code t) + length (concat (map sig_code ts)) - 1)
          (append_name (join_names (map (type_text nm) ts)) (?st\<lparr>generic_arg_stack := 1 # ks\<rparr>)))"
      using Cons.IH [OF p(2), of "i + length (sig_code t)" ?st] Cons.prems(4) Cons one k
      by (simp add: resume_def append_name_def del: One_nat_def)
    moreover have "append_name (join_names (map (type_text nm) ts)) (?st\<lparr>generic_arg_stack := 1 # ks\<rparr>) =
        append_name (join_names (map (type_text nm) (t # ts))) (st\<lparr>generic_arg_stack := 1 # ks\<rparr>)"
      by (cases st) (simp add: Cons append_name_def)
    ultimately show ?thesis by (simp add: add.assoc)
  qed
qed simp

text \<open>The head of a generic instance, up to its first argument.\<close>

lemma parse_instance:
  fixes st :: sig_state
  assumes "names_types d md s nm" "sig_token t" "generic_arg_count (nm t) = Some (int (length args))"
    "drop i sig = sig_code (Inst v t args) @ r"
  defines "stack \<equiv> int (length args) # (case generic_arg_stack st of [] \<Rightarrow> [] | k # ks \<Rightarrow> (k - 1) # ks)"
  shows "parse_loop d md s sig e i st = parse_loop d md s sig e (i + 3 + length (token_code t))
      (append_name (nm t @ W ''<'') st\<lparr>generic_arg_stack := stack\<rparr>)"
    "drop (i + 3 + length (token_code t)) sig = concat (map sig_code args) @ r"
proof -
  let ?g = "concat (map sig_code args)" and ?n = "length (token_code t)"
  have d: "sig ! i = ELEMENT_TYPE_GENERICINST" "drop i sig = ELEMENT_TYPE_GENERICINST # drop (Suc i) sig"
    using assms(4) drop_Cons_nth [of i sig ELEMENT_TYPE_GENERICINST] by simp_all
  have d2: "drop (i + 2) sig = token_code t @ word_of_nat (length args) # ?g @ r"
    using arg_cong [OF assms(4), of "drop 2"] by (simp add: add.commute)
  show "drop (i + 3 + ?n) sig = ?g @ r"
    using arg_cong [OF d2, of "drop (?n + 1)"] by (simp add: numeral_3_eq_3 add.commute add.left_commute)
  obtain id where ret: "RetrieveTypeForSignature d md s sig (i + 2) =
      Some (\<lparr>ti_id = id, ti_name = nm t\<rparr>, fst (CorSigCompressToken t))"
    using retrieve_token [OF assms(1) generic_named [OF assms(3)] assms(2) d2] by blast
  have "parse_turn d md s sig e i st = Some (Go (i + 2 + ?n) (append_name (nm t @ W ''<'') st\<lparr>generic_arg_stack := stack\<rparr>))"
    using d(1) ret assms(3) token_code_length(1) [of t]
    by (simp add: stack_def parse_turn_def element_name_byte Let_def append_name_def split: list.splits)
  from parse_loop_turn [OF d(2) this] show "parse_loop d md s sig e i st = parse_loop d md s sig e (i + 3 + ?n)
      (append_name (nm t @ W ''<'') st\<lparr>generic_arg_stack := stack\<rparr>)"
    by (simp add: resume_def numeral_3_eq_3)
qed

lemma parses_type:
  assumes "names_types d md s nm"
  shows "type_ok nm t \<Longrightarrow> parses d md s sig e nm t"
proof (induction t)
  case (Elem n el)
  then show ?case using parse_elem [OF assms] unfolding parses_def by (simp del: sig_code.simps type_text.simps)
next
  case (Inst v t args)
  have ok: "sig_token t" "args \<noteq> []" "generic_arg_count (nm t) = Some (int (length args))"
      "list_all (parses d md s sig e nm) args"
    using Inst by (auto simp: list_all_iff)
  show ?case
    unfolding parses_def
  proof (intro allI impI)
    fix i r and st :: sig_state
    assume c: "drop i sig = sig_code (Inst v t args) @ r" and a: "append_to_type st = []"
    let ?g = "concat (map sig_code args)" and ?n = "length (token_code t)"
    let ?stack = "case generic_arg_stack st of [] \<Rightarrow> [] | k # ks \<Rightarrow> (k - 1) # ks"
    let ?st = "append_name (nm t @ W ''<'') st\<lparr>generic_arg_stack := int (length args) # ?stack\<rparr>"
    note inst = parse_instance [OF assms ok(1,3) c]
    have "parse_loop d md s sig e i st = parse_loop d md s sig e (i + 3 + ?n) ?st" by (rule inst(1))
    also have "\<dots> = resume d md s sig e (type_complete e (i + 3 + ?n + length ?g - 1)
        (append_name (join_names (map (type_text nm) args)) (?st\<lparr>generic_arg_stack := 1 # ?stack\<rparr>)))"
      by (rule parse_arguments [OF ok(4,2) inst(2)]) (simp_all add: append_name_def a)
    also have "append_name (join_names (map (type_text nm) args)) (?st\<lparr>generic_arg_stack := 1 # ?stack\<rparr>) =
        append_name (join_names (map (type_text nm) args)) (append_name (nm t @ W ''<'') st\<lparr>generic_arg_stack := 1 # ?stack\<rparr>)"
      by (simp add: append_name_def)
    also have "type_complete e (i + 3 + ?n + length ?g - 1) \<dots> =
        type_complete e (i + length (sig_code (Inst v t args)) - 1) (append_name (type_text nm (Inst v t args)) st)"
      unfolding type_complete_last [OF a] by (simp add: add.assoc numeral_3_eq_3)
    finally show "parse_loop d md s sig e i st = resume d md s sig e
        (type_complete e (i + length (sig_code (Inst v t args)) - 1) (append_name (type_text nm (Inst v t args)) st))" .
  qed
qed

lemma parse_types:
  assumes "names_types d md s nm"
  shows "list_all (type_ok nm) ts \<Longrightarrow> drop i sig = concat (map sig_code ts) \<Longrightarrow> length done + length ts = e \<Longrightarrow>
    parse_loop d md s sig e i \<lparr>type_names = done @ replicate (length ts) [], current_type_index = length done,
      generic_arg_stack = [], append_to_type = [], current_type_name = []\<rparr> = Some (Some (done @ map (type_text nm) ts))"
proof (induction ts arbitrary: i "done")
  case Nil
  then show ?case by (simp add: parse_loop.simps)
next
  case (Cons t ts)
  let ?c = "sig_code t" and ?st = "\<lparr>type_names = done @ replicate (length (t # ts)) [], current_type_index = length done,
      generic_arg_stack = [], append_to_type = [], current_type_name = []\<rparr>"
  have "parses d md s sig e nm t" using Cons.prems(1) by (intro parses_type [OF assms]) simp
  then have "parse_loop d md s sig e i ?st =
      resume d md s sig e (type_complete e (i + length ?c - 1) (append_name (type_text nm t) ?st))"
    using Cons.prems(2) unfolding parses_def by simp
  also have "\<dots> = parse_loop d md s sig e (i + length ?c) \<lparr>type_names = (done @ [type_text nm t]) @ replicate (length ts) [],
      current_type_index = length (done @ [type_text nm t]), generic_arg_stack = [], append_to_type = [], current_type_name = []\<rparr>"
    using Cons.prems(3) sig_code_not_Nil [of t] by (simp add: resume_def type_complete_def append_name_def list_update_append)
  also have "\<dots> = Some (Some ((done @ [type_text nm t]) @ map (type_text nm) ts))"
  proof (rule Cons.IH)
    show "drop (i + length ?c) sig = concat (map sig_code ts)"
      using arg_cong [OF Cons.prems(2), of "drop (length ?c)"] by (simp add: add.commute)
  qed (use Cons.prems in simp_all)
  finally show ?case by simp
qed

section \<open>Contracts\<close>

text \<open>
  C21. For every method signature built of primitive types, strings, objects, classes, arrays of
  these and generic instances, nested to any depth, the names found are those of the return type
  and the parameters in order, the arguments of an instance in brackets and separated by commas.
  Built-in types have the names the Common Language Infrastructure gives them (\<open>shown_name\<close>),
  with one deviation of the code: a \<open>Char\<close> is named \<open>System.Char16\<close>, where its name, by the
  comment beside it too, is \<open>System.Char\<close> (\<open>Char_named_Char16\<close>). Classes have the names of the
  metadata; classes are not nested and have a namespace, and the name of a generic
  class ends in the number of its parameters.
\<close>

theorem TryParseSignatureTypes_names:
  assumes "names_types d md s nm" "list_all (type_ok nm) (ret # params)" "length params < 256"
    "hdr = [conv] \<and> conv AND IMAGE_CEE_CS_CALLCONV_GENERIC = 0 \<or>
     hdr = [conv, g] \<and> conv AND IMAGE_CEE_CS_CALLCONV_GENERIC \<noteq> 0 \<and> g \<noteq> 0"
    "fi_signature f = hdr @ word_of_nat (length params) # concat (map sig_code (ret # params))"
  shows "TryParseSignatureTypes d md s f = Some (Some (map (type_text nm) (ret # params)))"
proof -
  have ret: "sig_code ret \<noteq> []" by (rule sig_code_not_Nil)
  then have e: "NumberOfArguments (fi_signature f) + 1 = length (ret # params)"
    using assms(3,4) by (cases "sig_code ret") (auto simp: assms(5) NumberOfArguments_def generic_convention_def CallingConvention_def)
  define i where "i = (if NumberOfTypeArguments (fi_signature f) > 0 then 3 else 2 :: nat)"
  have "drop i (fi_signature f) = concat (map sig_code (ret # params))"
    using assms(4) by (auto simp: i_def assms(5) NumberOfTypeArguments_def generic_convention_def CallingConvention_def unat_gt_0 unat_eq_zero)
  from parse_types [OF assms(1,2) this, of "[]" "length (ret # params)"] show ?thesis
    unfolding TryParseSignatureTypes_def Let_def e i_def [symmetric] by simp
qed

lemma names_types_of_shape:
  "metadata_shape md s \<Longrightarrow> flat_specs md s \<Longrightarrow> names_types 6 md s (\<lambda>t. ti_name (the (GetTypeInfo 6 md s t)))"
  unfolding names_types_def using GetTypeInfo_settled [of md s] by (metis TypeInfo.surjective old.unit.exhaust option.sel zero_neq_numeral)

definition sample_function :: "byte list \<Rightarrow> FunctionInfo" where
  "sample_function sig = FunctionInfo_nil\<lparr>fi_signature := sig\<rparr>"

lemma sample_names:
  "\<exists>nm. names_types 6 sample_metadata 0 nm \<and> nm 0x01000002 = W ''System.List`1''"
proof -
  have "ti_name (the (GetTypeInfo 6 sample_metadata 0 0x01000002)) = W ''System.List`1''"
    by code_simp
  with names_types_of_shape [OF sample_metadata_shape] show ?thesis by blast
qed

lemma sample_instance_ok:
  "nm 0x01000002 = W ''System.List`1'' \<Longrightarrow> type_ok nm (Inst False 0x01000002 [Elem n (Prim 8)])"
proof -
  have "generic_arg_count (W ''System.List`1'') = Some 1" "sig_token 0x01000002" "cli_name 8 \<noteq> None" by code_simp+
  then show "nm 0x01000002 = W ''System.List`1'' \<Longrightarrow> type_ok nm (Inst False 0x01000002 [Elem n (Prim 8)])" by simp
qed

theorem TryParseSignatureTypes_names_witness:
  "TryParseSignatureTypes 6 sample_metadata 0 (sample_function [0x20, 1, 0x15, 0x12, 0x09, 1, 8, 0x1d, 0x1d, 0x0e]) =
    Some (Some [W ''System.List`1<System.Int32>'', W ''System.String[][]''])"
proof -
  let ?ret = "Inst False 0x01000002 [Elem 0 (Prim 8)]" and ?p = "Elem 2 (Prim 0x0e)"
  obtain nm where nm: "names_types 6 sample_metadata 0 nm" "nm 0x01000002 = W ''System.List`1''" using sample_names by blast
  have "element_ok nm (Prim 0x0e)" by (simp add: cli_name_def)
  then have ok: "list_all (type_ok nm) [?ret, ?p]" using sample_instance_ok [of nm, OF nm(2)] by simp
  have c: "concat (map sig_code [?ret, ?p]) = [0x15, 0x12, 0x09, 1, 8, 0x1d, 0x1d, 0x0e]" by code_simp
  have t: "map (type_text nm) [?ret, ?p] = [W ''System.List`1<System.Int32>'', W ''System.String[][]'']"
    by (simp only: list.map type_text.simps element_name.simps nm(2)) code_simp
  show ?thesis
    using TryParseSignatureTypes_names [OF nm(1) ok, of "[0x20]" "0x20" 0
        "sample_function [0x20, 1, 0x15, 0x12, 0x09, 1, 8, 0x1d, 0x1d, 0x0e]"]
    unfolding c t by (simp add: sample_function_def)
qed

text \<open>
  An array of a generic instance gets the name of the instance of arrays: the brackets are
  put behind the first complete type, the first argument, so the signatures of methods that
  return the one or the other are not told apart.
\<close>

lemma array_of_instance_misread:
  assumes "names_types d md s nm" "type_ok nm (Inst v t [Elem 0 (Prim b)])"
    "fi_signature f = [0, 0] @ ELEMENT_TYPE_SZARRAY # sig_code (Inst v t [Elem 0 (Prim b)])"
    "fi_signature g = [0, 0] @ sig_code (Inst v t [Elem 1 (Prim b)])"
  shows "TryParseSignatureTypes d md s f = TryParseSignatureTypes d md s g"
proof -
  let ?f = "fi_signature f" and ?n = "length (token_code t)"
  let ?st = "\<lparr>type_names = [[]], current_type_index = 0, generic_arg_stack = [], append_to_type = [], current_type_name = []\<rparr>"
  have one: "NumberOfArguments (fi_signature h) = 0 \<and> NumberOfTypeArguments (fi_signature h) = 0"
    if "fi_signature h = [0, 0] @ x" for h :: FunctionInfo and x
    using that by (simp add: NumberOfArguments_def NumberOfTypeArguments_def generic_convention_def CallingConvention_def)
  have g: "TryParseSignatureTypes d md s g = Some (Some [nm t @ W ''<'' @ the (shown_name b) @ W ''[]'' @ W ''>''])"
    using parse_types [OF assms(1), of "[Inst v t [Elem 1 (Prim b)]]" 2 "fi_signature g" "[]" 1] assms(2) one [OF assms(4)]
    by (simp add: TryParseSignatureTypes_def assms(4))
  have d: "drop 2 ?f = ELEMENT_TYPE_SZARRAY # ELEMENT_TYPE_GENERICINST # drop 4 ?f"
    "drop 3 ?f = sig_code (Inst v t [Elem 0 (Prim b)]) @ []" by (simp_all add: assms(3))
  have b: "element_ok nm (Prim b)" using assms(2) by simp
  have "parse_turn d md s ?f 1 2 ?st = Some (Go 2 (?st\<lparr>append_to_type := W ''[]''\<rparr>))"
    using d(1) by (simp add: parse_turn_def assms(3) element_name_byte byte_at_def)
  from parse_loop_turn [OF d(1) this] have "TryParseSignatureTypes d md s f = parse_loop d md s ?f 1 3 (?st\<lparr>append_to_type := W ''[]''\<rparr>)"
    using one [OF assms(3)] by (simp add: TryParseSignatureTypes_def resume_def)
  also have "\<dots> = parse_loop d md s ?f 1 (3 + 3 + ?n)
      (append_name (nm t @ W ''<'') (?st\<lparr>append_to_type := W ''[]''\<rparr>)\<lparr>generic_arg_stack := [1]\<rparr>)"
    using parse_instance(1) [OF assms(1) _ _ d(2), of 1 "?st\<lparr>append_to_type := W ''[]''\<rparr>"] assms(2) by simp
  also have "\<dots> = resume d md s ?f 1 (type_complete 1 (3 + 3 + ?n) (append_name (the (shown_name b))
      (append_name (nm t @ W ''<'') (?st\<lparr>append_to_type := W ''[]''\<rparr>)\<lparr>generic_arg_stack := [1]\<rparr>)))"
  proof -
    have "drop (3 + 3 + ?n) ?f = element_code (Prim b) @ []"
      using parse_instance(2) [OF assms(1) _ _ d(2)] assms(2) by simp
    from parse_element [OF assms(1) _ this] b show ?thesis by simp
  qed
  also have "\<dots> = Some (Some [nm t @ W ''<'' @ the (shown_name b) @ W ''[]'' @ W ''>''])"
    by (simp add: type_complete_def append_name_def resume_def assms(3)) (subst parse_loop.simps, simp)
  finally show ?thesis using g by simp
qed

lemma array_of_instance_misread_witness:
  "TryParseSignatureTypes 6 sample_metadata 0 (sample_function [0, 0, 0x1d, 0x15, 0x12, 0x09, 1, 8]) =
   TryParseSignatureTypes 6 sample_metadata 0 (sample_function [0, 0, 0x15, 0x12, 0x09, 1, 0x1d, 8])"
proof -
  obtain nm where nm: "names_types 6 sample_metadata 0 nm" "nm 0x01000002 = W ''System.List`1''" using sample_names by blast
  show ?thesis
  proof (rule array_of_instance_misread [OF nm(1) sample_instance_ok [of nm, OF nm(2)]])
    show "fi_signature (sample_function [0, 0, 0x1d, 0x15, 0x12, 0x09, 1, 8]) =
        [0, 0] @ ELEMENT_TYPE_SZARRAY # sig_code (Inst False 0x01000002 [Elem 0 (Prim 8)])" by code_simp
    show "fi_signature (sample_function [0, 0, 0x15, 0x12, 0x09, 1, 0x1d, 8]) =
        [0, 0] @ sig_code (Inst False 0x01000002 [Elem 1 (Prim 8)])" by code_simp
  qed
qed

end
