(* ===== verification/Return_Types.thy ===== *)
theory Return_Types
  imports Signature_Types
begin

text \<open>
  Which return values have to be unboxed after a replaced call, and the token of their type:
  \<open>ReturnTypeIsValueTypeOrGeneric\<close> and what it calls in clr\_helpers.cpp. A result holds the
  answer, the token stored through \<open>ret_type_token\<close>, and the state of the runtime; \<open>None\<close> is a
  read outside of a signature.
\<close>

type_synonym 's boxing = "(bool \<times> mdToken \<times> 's) option"

section \<open>Element types\<close>

definition mscorlib_key :: "byte list" where
  "mscorlib_key = [0xB7, 0x7A, 0x5C, 0x56, 0x19, 0x34, 0xE0, 0x89]"

definition CreateAssemblyRefToMscorlib :: "('s, 'z) metadata_scheme \<Rightarrow> 's \<Rightarrow> hresult \<times> mdToken \<times> 's" where
  "CreateAssemblyRefToMscorlib md s =
     DefineAssemblyRef md mscorlib_key (W ''mscorlib'') \<lparr>major = 4, minor = 0, build = 0, revision = 0\<rparr> None s"

definition value_type_name :: "byte \<Rightarrow> WSTRING option" where
  "value_type_name b =
     (if b = ELEMENT_TYPE_VOID then Some (W ''System.Void'')
      else if b = ELEMENT_TYPE_BOOLEAN then Some (W ''System.Boolean'')
      else if b = ELEMENT_TYPE_CHAR then Some (W ''System.Char'')
      else if b = ELEMENT_TYPE_I1 then Some (W ''System.SByte'')
      else if b = ELEMENT_TYPE_U1 then Some (W ''System.Byte'')
      else if b = ELEMENT_TYPE_I2 then Some (W ''System.Int16'')
      else if b = ELEMENT_TYPE_U2 then Some (W ''System.UInt16'')
      else if b = ELEMENT_TYPE_I4 then Some (W ''System.Int32'')
      else if b = ELEMENT_TYPE_U4 then Some (W ''System.UInt32'')
      else if b = ELEMENT_TYPE_I8 then Some (W ''System.Int64'')
      else if b = ELEMENT_TYPE_U8 then Some (W ''System.UInt64'')
      else if b = ELEMENT_TYPE_R4 then Some (W ''System.Single'')
      else if b = ELEMENT_TYPE_R8 then Some (W ''System.Double'')
      else if b = ELEMENT_TYPE_TYPEDBYREF then Some (W ''System.TypedReference'')
      else if b = ELEMENT_TYPE_I then Some (W ''System.IntPtr'')
      else if b = ELEMENT_TYPE_U then Some (W ''System.UIntPtr'')
      else None)"

definition ReturnTypeTokenforValueTypeElementType :: "byte list \<Rightarrow> ('s, 'z) metadata_scheme \<Rightarrow> mdToken \<Rightarrow> 's \<Rightarrow> 's boxing" where
  "ReturnTypeTokenforValueTypeElementType p_sig md ret_type_token s = do {
     b \<leftarrow> byte_at p_sig 0;
     if b = ELEMENT_TYPE_VALUETYPE then do {
       (result, ret_type_token) \<leftarrow> CorSigUncompressToken (drop 1 p_sig);
       Some (result \<noteq> -1, ret_type_token, s)
     }
     else
       (case value_type_name b of
          None \<Rightarrow> Some (False, ret_type_token, s)
        | Some managed_type_name \<Rightarrow>
            (let (hr, mscorlib_ref, s) = CreateAssemblyRefToMscorlib md s in
             if FAILED hr then Some (False, ret_type_token, s)
             else if managed_type_name = [] then Some (False, ret_type_token, s)
             else
               (let (hr, ret_type_token, s) = DefineTypeRefByName md mscorlib_ref managed_type_name s
                in Some (\<not> FAILED hr, ret_type_token, s))))
   }"

section \<open>Generic types\<close>

text \<open>
  A generic instance at \<open>p\<close>: the runtime gives the token of its type specification if it is a
  value type.
\<close>

definition generic_instance :: "byte list \<Rightarrow> ('s, 'z) metadata_scheme \<Rightarrow> mdToken \<Rightarrow> 's \<Rightarrow> 's boxing" where
  "generic_instance p md ret_type_token s = do {
     b \<leftarrow> byte_at p 1;
     if b \<noteq> ELEMENT_TYPE_VALUETYPE then Some (False, ret_type_token, s)
     else
       (case ParseType p of
          Parsed _ r \<Rightarrow>
            (let (hr, ret_type_token, s) = GetTokenFromTypeSpec md (take (length p - length r) p) s
             in Some (SUCCEEDED hr, ret_type_token, s))
        | Rejected \<Rightarrow> Some (False, ret_type_token, s)
        | _ \<Rightarrow> None)
   }"

text \<open>The type argument of the specification that the generic parameter stands for.\<close>

definition generic_argument :: "byte list \<Rightarrow> ('s, 'z) metadata_scheme \<Rightarrow> mdToken \<Rightarrow> 's \<Rightarrow> 's boxing" where
  "generic_argument p md ret_type_token s = do {
     b \<leftarrow> byte_at p 0;
     if b = ELEMENT_TYPE_MVAR \<or> b = ELEMENT_TYPE_VAR then do {
       _ \<leftarrow> byte_at p 1;
       let (hr, ret_type_token, s) = GetTokenFromTypeSpec md (take 2 p) s;
       Some (SUCCEEDED hr, ret_type_token, s)
     }
     else if b = ELEMENT_TYPE_GENERICINST then generic_instance p md ret_type_token s
     else ReturnTypeTokenforValueTypeElementType p md ret_type_token s
   }"

text \<open>The loop over the arguments: \<open>n\<close> more of them, the wanted one after \<open>k\<close> others.\<close>

fun argument_loop :: "nat \<Rightarrow> nat \<Rightarrow> byte list \<Rightarrow> ('s, 'z) metadata_scheme \<Rightarrow> mdToken \<Rightarrow> 's \<Rightarrow> 's boxing" where
  "argument_loop 0 k p md ret_type_token s = Some (False, ret_type_token, s)"
| "argument_loop (Suc n) 0 p md ret_type_token s = generic_argument p md ret_type_token s"
| "argument_loop (Suc n) (Suc k) p md ret_type_token s =
     (case ParseType p of
        Parsed _ r \<Rightarrow> argument_loop n k r md ret_type_token s
      | Rejected \<Rightarrow> Some (False, ret_type_token, s)
      | _ \<Rightarrow> None)"

text \<open>The signature of the method specification, or of the type specification of the parent.\<close>

definition parent_spec :: "('s, 'z) metadata_scheme \<Rightarrow> 's \<Rightarrow> hresult \<Rightarrow> mdToken \<Rightarrow> hresult \<times> byte list" where
  "parent_spec md s hr parent_token = (if SUCCEEDED hr then GetTypeSpecFromToken md s parent_token else (hr, []))"

definition spec_signature :: "('s, 'z) metadata_scheme \<Rightarrow> mdToken \<Rightarrow> nat \<Rightarrow> 's \<Rightarrow> (hresult \<times> byte list) option" where
  "spec_signature md token generic_count s =
     (if TypeFromToken token = mdtMemberRef then
        (if generic_count > 0 then None
         else (let (hr, parent_token, _) = GetMemberRefProps md s token in Some (parent_spec md s hr parent_token)))
      else if TypeFromToken token = mdtMethodDef then
        (if generic_count > 0 then None
         else (let (hr, parent_token, _) = GetMemberProps md s token in Some (parent_spec md s hr parent_token)))
      else if TypeFromToken token = mdtMethodSpec then
        (let (hr, _, sig) = GetMethodSpecProps md s token in Some (hr, sig))
      else None)"

definition generic_parameter :: "('s, 'z) metadata_scheme \<Rightarrow> mdToken \<Rightarrow> nat \<Rightarrow> byte list \<Rightarrow> mdToken \<Rightarrow> 's \<Rightarrow> 's boxing" where
  "generic_parameter md token generic_count p ret_type_token s = do {
     (result, generic_type_index) \<leftarrow> CorSigUncompressData p;
     if result = -1 then Some (False, ret_type_token, s)
     else
       (case spec_signature md token generic_count s of
          None \<Rightarrow> Some (False, ret_type_token, s)
        | Some (hr, spec) \<Rightarrow>
            if FAILED hr then Some (False, ret_type_token, s)
            else do {
              index \<leftarrow> (if TypeFromToken token = mdtMethodSpec then Some 1
                 else do { (token_length, _) \<leftarrow> CorSigUncompressToken (drop 2 spec); Some (2 + unat token_length) });
              (len, num_generic_arguments) \<leftarrow> CorSigUncompressData (drop index spec);
              argument_loop (unat num_generic_arguments) (unat generic_type_index) (drop (index + unat len) spec)
                md ret_type_token s })
   }"

definition ReturnTypeIsValueTypeOrGeneric :: "('s, 'z) metadata_scheme \<Rightarrow> mdToken \<Rightarrow> MethodSignature \<Rightarrow> mdToken \<Rightarrow> 's \<Rightarrow>
    's boxing" where
  "ReturnTypeIsValueTypeOrGeneric md targetFunctionToken sig ret_type_token s =
     (let generic_count = NumberOfTypeArguments sig;
          method_def_sig_index = (if generic_count = 0 then 2 else 3)
      in do {
        ret_type \<leftarrow> byte_at sig method_def_sig_index;
        if ret_type = ELEMENT_TYPE_VOID then Some (False, ret_type_token, s)
        else if ret_type = ELEMENT_TYPE_GENERICINST then
          generic_instance (drop method_def_sig_index sig) md ret_type_token s
        else if ret_type = ELEMENT_TYPE_VAR \<or> ret_type = ELEMENT_TYPE_MVAR then
          generic_parameter md targetFunctionToken generic_count (drop (method_def_sig_index + 1) sig) ret_type_token s
        else ReturnTypeTokenforValueTypeElementType (drop method_def_sig_index sig) md ret_type_token s
      })"

section \<open>Contracts\<close>

text \<open>
  The value types that have an element type of their own, with their names in the namespace
  \<open>System\<close>: the primitive types and three more. Among the element types that are not here are
  void, strings, objects, classes, arrays and pointers.
\<close>

definition cli_value_types :: "(byte \<times> string) list" where
  "cli_value_types = cli_primitives @ [(0x16, ''TypedReference''), (0x18, ''IntPtr''), (0x19, ''UIntPtr'')]"

text \<open>A reference to the type of this name in mscorlib.\<close>

definition reference_to :: "('s, 'z) metadata_scheme \<Rightarrow> string \<Rightarrow> mdToken \<Rightarrow> 's \<Rightarrow> bool \<times> mdToken \<times> 's" where
  "reference_to md name tok s =
     (let (hr, assembly, s) = DefineAssemblyRef md [0xB7, 0x7A, 0x5C, 0x56, 0x19, 0x34, 0xE0, 0x89] (W ''mscorlib'')
        \<lparr>major = 4, minor = 0, build = 0, revision = 0\<rparr> None s in
      if FAILED hr then (False, tok, s)
      else (let (hr, tok, s) = DefineTypeRefByName md assembly (W (''System.'' @ name)) s in (\<not> FAILED hr, tok, s)))"

lemma value_type_name_listed:
  "b \<noteq> ELEMENT_TYPE_VOID \<Longrightarrow> value_type_name b = map_option (\<lambda>name. W (''System.'' @ name)) (map_of cli_value_types b)"
  by (simp add: value_type_name_def cli_value_types_def cli_primitives_def)

lemma cli_value_types_distinct: "distinct (map fst cli_value_types)" "ELEMENT_TYPE_VOID \<notin> fst ` set cli_value_types"
  "ELEMENT_TYPE_VALUETYPE \<notin> fst ` set cli_value_types" "ELEMENT_TYPE_GENERICINST \<notin> fst ` set cli_value_types"
  "ELEMENT_TYPE_VAR \<notin> fst ` set cli_value_types" "ELEMENT_TYPE_MVAR \<notin> fst ` set cli_value_types"
  by code_simp+

lemma instance_answer:
  assumes "generic_instance p md tok s = Some (ans, tok', s')"
  shows "byte_at p 1 = Some ELEMENT_TYPE_VALUETYPE \<or> \<not> ans \<and> s' = s \<and> tok' = tok"
  using assms by (auto simp: generic_instance_def split: bind_splits if_split_asm parse.splits prod.splits)

lemma element_answer:
  assumes "ReturnTypeTokenforValueTypeElementType p md tok s = Some r" "byte_at p 0 = Some b" "b \<noteq> ELEMENT_TYPE_VOID"
  shows "b = ELEMENT_TYPE_VALUETYPE \<or> (case map_of cli_value_types b of None \<Rightarrow> r = (False, tok, s) | Some name \<Rightarrow> r = reference_to md name tok s)"
proof -
  have "W (''System.'' @ name) \<noteq> []" for name by (simp add: W_def)
  then show ?thesis
    using assms by (auto simp: ReturnTypeTokenforValueTypeElementType_def value_type_name_listed reference_to_def Let_def
        CreateAssemblyRefToMscorlib_def mscorlib_key_def split: option.splits if_split_asm prod.splits)
qed

text \<open>
  C29. A call is followed by an unboxing only if its return type is a value type, a generic
  instance of a value type, or a generic parameter: for all other return types, void, classes,
  strings, objects and arrays among them, the answer is no and neither the runtime nor the token
  is touched. For each of the built-in value types the answer is yes, if the runtime gives the
  token, and the token is that of the type's own name in mscorlib.
\<close>

theorem only_value_types_unboxed:
  assumes "ReturnTypeIsValueTypeOrGeneric md f sig tok s = Some (ans, tok', s')"
    "i = (if NumberOfTypeArguments sig = 0 then 2 else 3)"
  shows "(ans = False \<and> tok' = tok \<and> s' = s \<or> sig ! i \<in> {ELEMENT_TYPE_VAR, ELEMENT_TYPE_MVAR} \<or>
      sig ! i = ELEMENT_TYPE_GENERICINST \<and> sig ! (i + 1) = ELEMENT_TYPE_VALUETYPE \<or>
      sig ! i = ELEMENT_TYPE_VALUETYPE \<or> sig ! i \<in> fst ` set cli_value_types) \<and>
    (\<forall>name. (sig ! i, name) \<in> set cli_value_types \<longrightarrow> (ans, tok', s') = reference_to md name tok s)"
proof -
  have at: "byte_at (drop i sig) j = byte_at sig (i + j)" for j
    by (auto simp: byte_at_def)
  have b: "byte_at sig i = Some (sig ! i)"
    using assms(1) by (auto simp: ReturnTypeIsValueTypeOrGeneric_def assms(2) [symmetric] Let_def byte_at_def split: if_split_asm)
  have listed: "map_of cli_value_types (sig ! i) = Some name \<longleftrightarrow> (sig ! i, name) \<in> set cli_value_types" for name
    using cli_value_types_distinct(1) by (rule map_of_eq_Some_iff)
  have one: "sig ! i \<notin> fst ` set cli_value_types" if "sig ! i \<in> {ELEMENT_TYPE_VOID, ELEMENT_TYPE_VALUETYPE, ELEMENT_TYPE_GENERICINST, ELEMENT_TYPE_VAR, ELEMENT_TYPE_MVAR}"
    using that cli_value_types_distinct by (elim insertE) simp_all
  show ?thesis
  proof (cases "sig ! i \<in> {ELEMENT_TYPE_VOID, ELEMENT_TYPE_GENERICINST, ELEMENT_TYPE_VAR, ELEMENT_TYPE_MVAR}")
    case True
    then have "\<not> (\<exists>name. (sig ! i, name) \<in> set cli_value_types)" using one by force
    with True assms(1) b show ?thesis
      by (auto simp: ReturnTypeIsValueTypeOrGeneric_def assms(2) [symmetric] Let_def at byte_at_def
        dest!: instance_answer split: if_split_asm)
  next
    case False
    then have "ReturnTypeTokenforValueTypeElementType (drop i sig) md tok s = Some (ans, tok', s')"
      using assms(1) b by (simp add: ReturnTypeIsValueTypeOrGeneric_def assms(2) [symmetric] Let_def)
    note answer = element_answer [OF this, of "sig ! i"]
    show ?thesis
    proof (cases "map_of cli_value_types (sig ! i)")
      case None
      then have "\<forall>name. (sig ! i, name) \<notin> set cli_value_types" using listed by auto
      with answer None b False show ?thesis by (auto simp: at)
    next
      case (Some n)
      then have n: "(sig ! i, n) \<in> set cli_value_types" "\<forall>name. (sig ! i, name) \<in> set cli_value_types \<longrightarrow> name = n"
        by (metis listed option.inject)+
      then have f: "sig ! i \<in> fst ` set cli_value_types" by force
      then have "sig ! i \<noteq> ELEMENT_TYPE_VALUETYPE" using one by blast
      with answer Some b False n(2) f show ?thesis by (auto simp: at)
    qed
  qed
qed

theorem only_value_types_unboxed_witness:
  "ReturnTypeIsValueTypeOrGeneric sample_metadata 0x0a000001 [0x20, 0, 0x15, 0x11, 0x09, 1, 0x0e] 0 0 = Some (True, 0x1b000009, 0) \<and>
   [0x20, 0, 0x15, 0x11, 0x09, 1, 0x0e] ! 3 = ELEMENT_TYPE_VALUETYPE"
proof -
  have e: "ReturnTypeIsValueTypeOrGeneric sample_metadata 0x0a000001 [0x20, 0, 0x15, 0x11, 0x09, 1, 0x0e] 0 0 =
      Some (True, 0x1b000009, 0)" by code_simp
  have "2 = (if NumberOfTypeArguments [0x20, 0, 0x15, 0x11, 0x09, 1, 0x0e] = 0 then 2 else 3 :: nat)" by code_simp
  from only_value_types_unboxed [OF e this] e show ?thesis by (simp add: cli_value_types_def cli_primitives_def)
qed

end
