(* ===== verification/Module_Meta.thy ===== *)
theory Module_Meta
  imports Return_Types
begin

text \<open>
  What the profiler keeps for a module it rewrites (module\_metadata.h): the caches of the
  references to wrapper methods and their types, the keys that failed, and the integrations
  that apply; and the \<open>MetadataBuilder\<close> (metadata\_builder.cpp) that fills the caches.
\<close>

section \<open>Module metadata\<close>

text \<open>
  The four metadata interfaces of a module, with the further functions the profiler calls
  through them, over the state of the runtime.
\<close>

record 's module_interfaces = "'s metadata" +
  GetModuleFromScope :: "'s \<Rightarrow> hresult \<times> mdToken"
  GetScopeProps :: "'s \<Rightarrow> hresult \<times> 128 word"
  DefineTypeDef :: "WSTRING \<Rightarrow> u32 \<Rightarrow> mdToken \<Rightarrow> 's \<Rightarrow> hresult \<times> mdToken \<times> 's"
  DefineMethod :: "mdToken \<Rightarrow> WSTRING \<Rightarrow> u32 \<Rightarrow> byte list \<Rightarrow> 's \<Rightarrow> hresult \<times> mdToken \<times> 's"
  SetMethodImplFlags :: "mdToken \<Rightarrow> u32 \<Rightarrow> 's \<Rightarrow> hresult \<times> 's"
  DefineModuleRef :: "WSTRING \<Rightarrow> 's \<Rightarrow> hresult \<times> mdToken \<times> 's"
  DefinePinvokeMap :: "mdToken \<Rightarrow> u32 \<Rightarrow> WSTRING \<Rightarrow> mdToken \<Rightarrow> 's \<Rightarrow> hresult \<times> 's"
  DefineUserString :: "WSTRING \<Rightarrow> 's \<Rightarrow> hresult \<times> mdToken \<times> 's"
  GetUserString :: "'s \<Rightarrow> mdToken \<Rightarrow> hresult"
  GetTokenFromSig :: "byte list \<Rightarrow> 's \<Rightarrow> hresult \<times> mdToken \<times> 's"

text \<open>The hash tables are finite maps and sets of keys; the four COM interfaces are \<open>mm_metadata\<close>.\<close>

record 's ModuleMetadata =
  wrapper_refs :: "WSTRING \<rightharpoonup> mdToken"
  wrapper_parent_type :: "WSTRING \<rightharpoonup> mdToken"
  failed_wrapper_keys :: "WSTRING set"
  mm_metadata :: "'s module_interfaces"
  mm_assemblyName :: WSTRING
  mm_app_domain_id :: u64
  module_version_id :: "128 word"
  mm_integrations :: "IntegrationMethod list"

definition ModuleMetadata_init :: "'s module_interfaces \<Rightarrow> WSTRING \<Rightarrow> u64 \<Rightarrow> 128 word \<Rightarrow> IntegrationMethod list \<Rightarrow> 's ModuleMetadata" where
  "ModuleMetadata_init md name domain mvid integrations =
     \<lparr>wrapper_refs = Map.empty, wrapper_parent_type = Map.empty, failed_wrapper_keys = {}, mm_metadata = md,
      mm_assemblyName = name, mm_app_domain_id = domain, module_version_id = mvid, mm_integrations = integrations\<rparr>"

definition TryGetWrapperMemberRef :: "'s ModuleMetadata \<Rightarrow> WSTRING \<Rightarrow> mdToken option" where
  "TryGetWrapperMemberRef m keyIn = wrapper_refs m keyIn"

definition TryGetWrapperParentTypeRef :: "'s ModuleMetadata \<Rightarrow> WSTRING \<Rightarrow> mdToken option" where
  "TryGetWrapperParentTypeRef m keyIn = wrapper_parent_type m keyIn"

definition IsFailedWrapperMemberKey :: "'s ModuleMetadata \<Rightarrow> WSTRING \<Rightarrow> bool" where
  "IsFailedWrapperMemberKey m key \<longleftrightarrow> key \<in> failed_wrapper_keys m"

definition SetWrapperMemberRef :: "WSTRING \<Rightarrow> mdToken \<Rightarrow> 's ModuleMetadata \<Rightarrow> 's ModuleMetadata" where
  "SetWrapperMemberRef keyIn valueIn m = m\<lparr>wrapper_refs := (wrapper_refs m)(keyIn \<mapsto> valueIn)\<rparr>"

definition SetWrapperParentTypeRef :: "WSTRING \<Rightarrow> mdToken \<Rightarrow> 's ModuleMetadata \<Rightarrow> 's ModuleMetadata" where
  "SetWrapperParentTypeRef keyIn valueIn m = m\<lparr>wrapper_parent_type := (wrapper_parent_type m)(keyIn \<mapsto> valueIn)\<rparr>"

definition SetFailedWrapperMemberKey :: "WSTRING \<Rightarrow> 's ModuleMetadata \<Rightarrow> 's ModuleMetadata" where
  "SetFailedWrapperMemberKey key m = m\<lparr>failed_wrapper_keys := insert key (failed_wrapper_keys m)\<rparr>"

definition GetMethodReplacementsForCaller :: "'s ModuleMetadata \<Rightarrow> FunctionInfo \<Rightarrow> MethodReplacement list" where
  "GetMethodReplacementsForCaller m caller =
     map replacement (filter (\<lambda>i. let c = caller_method (replacement i) in
        (type_name c = [] \<or> type_name c = ti_name (fi_type caller)) \<and>
        (method_name c = [] \<or> method_name c = fi_name caller)) (mm_integrations m))"

section \<open>Caches\<close>

text \<open>
  A cache of tokens: what was stored under a key is found under it, and under no other. The
  builder only stores what it did not find, so nothing that was cached is lost.
\<close>

locale token_cache =
  fixes lookup :: "'m \<Rightarrow> WSTRING \<Rightarrow> mdToken option"
    and store :: "WSTRING \<Rightarrow> mdToken \<Rightarrow> 'm \<Rightarrow> 'm"
  assumes lookup_store: "lookup (store k v m) k' = (if k' = k then Some v else lookup m k')"
begin

definition extends :: "'m \<Rightarrow> 'm \<Rightarrow> bool" where
  "extends m m' \<longleftrightarrow> (\<forall>k v. lookup m k = Some v \<longrightarrow> lookup m' k = Some v)"

lemma extends_refl: "extends m m"
  by (simp add: extends_def)

lemma extends_trans: "extends m m' \<Longrightarrow> extends m' m'' \<Longrightarrow> extends m m''"
  by (simp add: extends_def)

lemma extends_store: "lookup m k = None \<Longrightarrow> extends m (store k v m)"
  by (simp add: extends_def lookup_store)

lemma extends_same: "lookup m' = lookup m \<Longrightarrow> extends m m'"
  by (simp add: extends_def)

lemma extends_store_same: "lookup m' = lookup m \<Longrightarrow> lookup m k = None \<Longrightarrow> extends m (store k v m')"
  by (simp add: extends_def lookup_store)

end

interpretation members: token_cache TryGetWrapperMemberRef SetWrapperMemberRef
  by unfold_locales (simp add: TryGetWrapperMemberRef_def SetWrapperMemberRef_def)

interpretation parents: token_cache TryGetWrapperParentTypeRef SetWrapperParentTypeRef
  by unfold_locales (simp add: TryGetWrapperParentTypeRef_def SetWrapperParentTypeRef_def)

section \<open>Metadata builder\<close>

text \<open>
  The builder works on the metadata of a module by reference, with the token of the module.
  A result holds the HRESULT, the metadata and the state of the runtime; \<open>None\<close> if an
  enumeration never ends.
\<close>

abbreviation (input) CLDB_E_RECORD_NOTFOUND :: hresult where "CLDB_E_RECORD_NOTFOUND \<equiv> 0x80131130"

definition EmitAssemblyRef :: "'s ModuleMetadata \<Rightarrow> AssemblyReference \<Rightarrow> 's \<Rightarrow> hresult \<times> 's" where
  "EmitAssemblyRef m assembly_ref s =
     (let locale = (if ar_locale assembly_ref = W ''neutral'' then None else Some (ar_locale assembly_ref));
          public_key_size = (if PublicKey_eq (ar_public_key assembly_ref) PublicKey_nil then 0 else 8);
          (hr, assembly_ref_out, s) = DefineAssemblyRef (mm_metadata m) (take public_key_size (ar_public_key assembly_ref))
            (ar_name assembly_ref) (ar_version assembly_ref) locale s
      in (S_OK, s))"

definition FindWrapperTypeRef :: "mdToken \<Rightarrow> MethodReplacement \<Rightarrow> 's ModuleMetadata \<Rightarrow> 's \<Rightarrow>
    (hresult \<times> mdToken \<times> 's ModuleMetadata \<times> 's) option" where
  "FindWrapperTypeRef modul r m s =
     (let wrapper = wrapper_method r; md = mm_metadata m; cache_key = get_type_cache_key wrapper in
      case TryGetWrapperParentTypeRef m cache_key of
        Some type_ref \<Rightarrow> Some (S_OK, type_ref, m, s)
      | None \<Rightarrow>
          let finish = (\<lambda>(hr, type_ref, s).
                if FAILED hr then Some (hr, mdTypeRefNil, m, s)
                else Some (S_OK, type_ref, SetWrapperParentTypeRef cache_key type_ref m, s))
          in if mm_assemblyName m = ar_name (mr_assembly wrapper) then
               finish (DefineTypeRefByName md modul (type_name wrapper) s)
             else do {
               (assembly_ref, s) \<leftarrow> FindAssemblyRef md (ar_name (mr_assembly wrapper)) s;
               if assembly_ref = mdAssemblyRefNil then Some (E_FAIL, mdTypeRefNil, m, s)
               else
                 (let (hr, type_ref) = FindTypeRef md s assembly_ref (type_name wrapper) in
                  if hr = CLDB_E_RECORD_NOTFOUND then
                    finish (DefineTypeRefByName md assembly_ref (type_name wrapper) s)
                  else finish (hr, type_ref, s)) })"

definition StoreWrapperMethodRef :: "mdToken \<Rightarrow> MethodReplacement \<Rightarrow> 's ModuleMetadata \<Rightarrow> 's \<Rightarrow>
    (hresult \<times> 's ModuleMetadata \<times> 's) option" where
  "StoreWrapperMethodRef modul r m s =
     (let wrapper = wrapper_method r; md = mm_metadata m; cache_key = get_method_cache_key wrapper in
      case TryGetWrapperMemberRef m cache_key of
        Some member_ref \<Rightarrow> Some (S_OK, m, s)
      | None \<Rightarrow> do {
          (hr, type_ref, m, s) \<leftarrow> FindWrapperTypeRef modul r m s;
          if FAILED hr then Some (hr, SetFailedWrapperMemberKey cache_key m, s)
          else
            (let (hr, member_ref) = FindMemberRef md s type_ref (method_name wrapper) (method_signature wrapper);
                 (hr, member_ref, s) = (if hr = CLDB_E_RECORD_NOTFOUND
                   then DefineMemberRef md type_ref (method_name wrapper) (method_signature wrapper) s
                   else (hr, member_ref, s))
             in if FAILED hr then Some (hr, SetFailedWrapperMemberKey cache_key m, s)
                else Some (S_OK, SetWrapperMemberRef cache_key member_ref m, s)) })"

section \<open>What the builder changes\<close>

text \<open>The part of the metadata that is not a cache.\<close>

definition fixed_part :: "'s ModuleMetadata \<Rightarrow> 's module_interfaces \<times> WSTRING \<times> u64 \<times> 128 word \<times> IntegrationMethod list" where
  "fixed_part m = (mm_metadata m, mm_assemblyName m, mm_app_domain_id m, module_version_id m, mm_integrations m)"

lemma set_caches [simp]:
  "TryGetWrapperMemberRef (SetWrapperParentTypeRef k v m) = TryGetWrapperMemberRef m"
  "TryGetWrapperMemberRef (SetFailedWrapperMemberKey k m) = TryGetWrapperMemberRef m"
  "fixed_part (SetWrapperParentTypeRef k v m) = fixed_part m" "fixed_part (SetWrapperMemberRef k v m) = fixed_part m"
  "fixed_part (SetFailedWrapperMemberKey k m) = fixed_part m"
  "failed_wrapper_keys (SetWrapperParentTypeRef k v m) = failed_wrapper_keys m"
  "failed_wrapper_keys (SetWrapperMemberRef k v m) = failed_wrapper_keys m"
  "TryGetWrapperParentTypeRef (SetWrapperMemberRef k v m) = TryGetWrapperParentTypeRef m"
  "IsFailedWrapperMemberKey (SetFailedWrapperMemberKey k m) k' \<longleftrightarrow> k' = k \<or> IsFailedWrapperMemberKey m k'"
  by (auto simp: TryGetWrapperMemberRef_def TryGetWrapperParentTypeRef_def SetWrapperParentTypeRef_def SetFailedWrapperMemberKey_def
      SetWrapperMemberRef_def fixed_part_def IsFailedWrapperMemberKey_def)

lemma FindWrapperTypeRef_members:
  assumes "FindWrapperTypeRef modul r m s = Some (hr, t, m', s')"
  shows "TryGetWrapperMemberRef m' = TryGetWrapperMemberRef m \<and> fixed_part m' = fixed_part m \<and>
    failed_wrapper_keys m' = failed_wrapper_keys m \<and> (FAILED hr \<longrightarrow> m' = m)"
  using assms by (auto simp: FindWrapperTypeRef_def Let_def split: option.splits if_split_asm prod.splits bind_splits)

text \<open>What the caches of a module may become: the rest of the metadata stays, and so does what they hold.\<close>

definition module_extends :: "'s ModuleMetadata \<Rightarrow> 's ModuleMetadata \<Rightarrow> bool" where
  "module_extends m m' \<longleftrightarrow> members.extends m m' \<and> parents.extends m m' \<and> fixed_part m' = fixed_part m \<and>
     failed_wrapper_keys m \<subseteq> failed_wrapper_keys m'"

lemma module_extends_refl [simp]: "module_extends m m"
  by (simp add: module_extends_def members.extends_refl parents.extends_refl)

lemma module_extends_trans: "module_extends m m' \<Longrightarrow> module_extends m' m'' \<Longrightarrow> module_extends m m''"
  unfolding module_extends_def by (auto intro: members.extends_trans parents.extends_trans)

lemma module_extends_fixed: "module_extends m m' \<Longrightarrow> fixed_part m' = fixed_part m"
  by (simp add: module_extends_def)

lemma FindWrapperTypeRef_extends:
  assumes "FindWrapperTypeRef modul r m s = Some (hr, t, m', s')"
  shows "module_extends m m'"
proof -
  have m: "TryGetWrapperMemberRef m' = TryGetWrapperMemberRef m" "fixed_part m' = fixed_part m"
      "failed_wrapper_keys m' = failed_wrapper_keys m"
    using FindWrapperTypeRef_members [OF assms] by simp_all
  have "parents.extends m m'"
    using assms by (auto simp: FindWrapperTypeRef_def Let_def parents.extends_refl parents.extends_store
        split: option.splits if_split_asm prod.splits bind_splits)
  with m show ?thesis by (simp add: module_extends_def members.extends_same)
qed

lemma StoreWrapperMethodRef_extends:
  assumes "StoreWrapperMethodRef modul r m s = Some (hr, m', s')"
  shows "module_extends m m'"
proof -
  have store: "module_extends m (SetWrapperMemberRef k v m1)"
    if "module_extends m m1" "TryGetWrapperMemberRef m1 = TryGetWrapperMemberRef m" "TryGetWrapperMemberRef m k = None" for k v m1
    using that by (auto simp: module_extends_def members.extends_store_same parents.extends_def)
  have failed: "module_extends m (SetFailedWrapperMemberKey k m1)" if "module_extends m m1" for k m1
    using that by (auto simp: module_extends_def members.extends_def parents.extends_def SetFailedWrapperMemberKey_def
        TryGetWrapperMemberRef_def TryGetWrapperParentTypeRef_def fixed_part_def)
  show ?thesis
  proof (cases "TryGetWrapperMemberRef m (get_method_cache_key (wrapper_method r))")
    case None
    then obtain hr1 t m1 s1 where find: "FindWrapperTypeRef modul r m s = Some (hr1, t, m1, s1)"
      using assms by (auto simp: StoreWrapperMethodRef_def Let_def split: bind_splits)
    from FindWrapperTypeRef_extends [OF find] FindWrapperTypeRef_members [OF find] None assms show ?thesis
      by (auto simp: StoreWrapperMethodRef_def Let_def find intro: store failed split: if_split_asm prod.splits)
  qed (use assms in \<open>simp add: StoreWrapperMethodRef_def Let_def\<close>)
qed

section \<open>Contracts\<close>

text \<open>
  C23. StoreWrapperMethodRef either succeeds, and a reference is then cached under the key of
  the wrapper method, or fails, and the key is then among the failed ones; nothing that was
  cached is lost, and only the caches change. Once the key is cached, every call for a wrapper
  with this key succeeds without asking the runtime, also if its signature is another one: the
  signature is no part of the key.
\<close>

theorem StoreWrapperMethodRef_caches:
  assumes "StoreWrapperMethodRef modul r m s = Some (hr, m', s')"
    "wrapper_method r' = (wrapper_method r)\<lparr>method_signature := sig\<rparr>"
  shows "members.extends m m' \<and> fixed_part m' = fixed_part m \<and>
    (if FAILED hr then IsFailedWrapperMemberKey m' (get_method_cache_key (wrapper_method r))
     else hr = S_OK \<and> TryGetWrapperMemberRef m' (get_method_cache_key (wrapper_method r)) \<noteq> None \<and>
       StoreWrapperMethodRef module2 r' m' s2 = Some (S_OK, m', s2))"
proof -
  let ?k = "get_method_cache_key (wrapper_method r)"
  have k: "get_method_cache_key (wrapper_method r') = ?k"
    using assms(2) by (simp add: get_method_cache_key_def)
  show ?thesis
  proof (cases "TryGetWrapperMemberRef m ?k")
    case (Some ref)
    then show ?thesis using assms(1) k
      by (auto simp: StoreWrapperMethodRef_def Let_def members.extends_refl)
  next
    case None
    then have "(FAILED hr \<and> members.extends m m' \<and> fixed_part m' = fixed_part m \<and> IsFailedWrapperMemberKey m' ?k) \<or>
      (\<not> FAILED hr \<and> hr = S_OK \<and> members.extends m m' \<and> fixed_part m' = fixed_part m \<and> TryGetWrapperMemberRef m' ?k \<noteq> None)"
      using assms(1) by (auto simp: StoreWrapperMethodRef_def Let_def members.lookup_store
          split: bind_splits prod.splits if_split_asm dest!: FindWrapperTypeRef_members
          intro: members.extends_same members.extends_store_same)
    then show ?thesis using k by (auto simp: StoreWrapperMethodRef_def Let_def split: option.splits)
  qed
qed

definition sample_interfaces :: "nat module_interfaces" where
  "sample_interfaces = metadata.extend sample_metadata
     \<lparr>GetModuleFromScope = (\<lambda>s. (S_OK, 1)), GetScopeProps = (\<lambda>s. (S_OK, 0)),
      DefineTypeDef = (\<lambda>n f b s. (S_OK, 0x02000003, s)), DefineMethod = (\<lambda>t n f sig s. (S_OK, 0x06000005, s)),
      SetMethodImplFlags = (\<lambda>t f s. (S_OK, s)), DefineModuleRef = (\<lambda>n s. (S_OK, 0x1a000001, s)),
      DefinePinvokeMap = (\<lambda>t f n r s. (S_OK, s)), DefineUserString = (\<lambda>u s. (S_OK, 0x70000001, s)),
      GetUserString = (\<lambda>s t. S_OK), GetTokenFromSig = (\<lambda>sig s. (S_OK, 0x11000001, s))\<rparr>"

definition sample_module :: "nat ModuleMetadata" where
  "sample_module = ModuleMetadata_init sample_interfaces (W ''App'') 1 0 []"

text \<open>A wrapper in the assembly of the sample module, and one that only differs in the signature.\<close>

definition sample_wrapper :: MethodReplacement where
  "sample_wrapper = \<lparr>caller_method = MethodReference_nil, target_method = MethodReference_nil,
     wrapper_method = MethodReference_nil\<lparr>mr_assembly := AssemblyReference_nil\<lparr>ar_name := W ''App''\<rparr>,
       type_name := W ''Wrapper'', method_name := W ''Run'', method_signature := [0, 0, 1]\<rparr>\<rparr>"

definition sample_wrapper2 :: MethodReplacement where
  "sample_wrapper2 = sample_wrapper\<lparr>wrapper_method := (wrapper_method sample_wrapper)\<lparr>method_signature := [0, 1, 8, 8]\<rparr>\<rparr>"

lemma sample_store:
  "\<exists>m. StoreWrapperMethodRef 1 sample_wrapper sample_module 0 = Some (S_OK, m, 0)"
  by (simp add: StoreWrapperMethodRef_def FindWrapperTypeRef_def sample_wrapper_def sample_module_def Let_def
      ModuleMetadata_init_def TryGetWrapperMemberRef_def TryGetWrapperParentTypeRef_def
      sample_interfaces_def metadata.extend_def sample_metadata_def)

theorem StoreWrapperMethodRef_caches_witness:
  "\<exists>m. StoreWrapperMethodRef 1 sample_wrapper sample_module 0 = Some (S_OK, m, 0) \<and>
     TryGetWrapperMemberRef m (get_method_cache_key (wrapper_method sample_wrapper)) \<noteq> None \<and>
     StoreWrapperMethodRef 1 sample_wrapper2 m 0 = Some (S_OK, m, 0)"
proof -
  obtain m where m: "StoreWrapperMethodRef 1 sample_wrapper sample_module 0 = Some (S_OK, m, 0)"
    using sample_store by blast
  have "wrapper_method sample_wrapper2 = (wrapper_method sample_wrapper)\<lparr>method_signature := [0, 1, 8, 8]\<rparr>"
    by (simp add: sample_wrapper2_def)
  from StoreWrapperMethodRef_caches [OF m this, of 1 0] m show ?thesis by auto
qed

end
