(* ===== verification/Profiler_State.thy ===== *)
theory Profiler_State
  imports Module_Meta IL_Method IL_Wrapper
begin

text \<open>
  The state of the profiler (cor\_profiler.h) and what it asks the runtime through
  \<open>ICorProfilerInfo3\<close>: \<open>GetRuntimeInformation\<close>, \<open>GetAssemblyInfo\<close> and \<open>GetModuleInfo\<close> of
  clr\_helpers.cpp, a rewriter's way to the body of a method and back, and
  \<open>GetWrapperMethodRef\<close> and \<open>ProfilerAssemblyIsLoadedIntoAppDomain\<close> of cor\_profiler.cpp.
\<close>

section \<open>The profiling interface\<close>

text \<open>
  The functions of \<open>ICorProfilerInfo3\<close> that are called, over the state \<open>'s\<close> of the runtime. A
  name is the C string left in the buffer and the length reported. \<open>pi_GetModuleMetaData\<close> gives
  the metadata interfaces of a module. \<open>pi_SetILFunctionBody\<close> hands the body of a method over.
  \<open>pi_memory\<close> and \<open>pi_padding\<close> are what fresh buffers hold.
\<close>

record 's profiler_info =
  pi_GetRuntimeInformation :: "'s \<Rightarrow> hresult \<times> u32 \<times> u16 \<times> u16 \<times> u16 \<times> u16"
  pi_GetAssemblyInfo :: "'s \<Rightarrow> u64 \<Rightarrow> hresult \<times> u32 \<times> WSTRING \<times> u64 \<times> u64"
  pi_GetAppDomainInfo :: "'s \<Rightarrow> u64 \<Rightarrow> hresult \<times> u32 \<times> WSTRING"
  pi_GetModuleInfo2 :: "'s \<Rightarrow> u64 \<Rightarrow> hresult \<times> u32 \<times> WSTRING \<times> u64 \<times> u32"
  pi_GetFunctionInfo :: "'s \<Rightarrow> u64 \<Rightarrow> hresult \<times> u64 \<times> mdToken"
  pi_GetModuleMetaData :: "'s \<Rightarrow> u64 \<Rightarrow> hresult \<times> 's module_interfaces"
  pi_SetEventMask :: "u32 \<Rightarrow> 's \<Rightarrow> hresult \<times> 's"
  pi_GetILFunctionBody :: "'s \<Rightarrow> u64 \<Rightarrow> mdToken \<Rightarrow> hresult \<times> nat \<times> byte list"
  pi_GetILFunctionBodyAllocator :: "'s \<Rightarrow> u64 \<Rightarrow> hresult"
  pi_Alloc :: "'s \<Rightarrow> bool"
  pi_SetILFunctionBody :: "u64 \<Rightarrow> mdToken \<Rightarrow> byte list \<Rightarrow> 's \<Rightarrow> hresult \<times> 's"
  pi_memory :: "nat \<Rightarrow> byte"
  pi_padding :: "nat \<Rightarrow> byte"

record RuntimeInformation =
  runtime_type :: u32
  major_version :: u16
  minor_version :: u16
  build_version :: u16
  qfe_version :: u16

definition RuntimeInformation_nil :: RuntimeInformation where
  "RuntimeInformation_nil = \<lparr>runtime_type = 0, major_version = 0, minor_version = 0, build_version = 0, qfe_version = 0\<rparr>"

definition is_desktop :: "RuntimeInformation \<Rightarrow> bool" where
  "is_desktop r \<longleftrightarrow> runtime_type r = 1"

definition is_core :: "RuntimeInformation \<Rightarrow> bool" where
  "is_core r \<longleftrightarrow> runtime_type r = 2"

definition GetRuntimeInformation :: "'s profiler_info \<Rightarrow> 's \<Rightarrow> RuntimeInformation" where
  "GetRuntimeInformation info s =
     (let (hr, ty, ma, mi, bu, qfe) = pi_GetRuntimeInformation info s in
      if FAILED hr then RuntimeInformation_nil
      else \<lparr>runtime_type = ty, major_version = ma, minor_version = mi, build_version = bu, qfe_version = qfe\<rparr>)"

definition AssemblyInfo_nil :: AssemblyInfo where
  "AssemblyInfo_nil = \<lparr>ai_id = 0, ai_name = [], manifest_module_id = 0, app_domain_id = 0, app_domain_name = []\<rparr>"

definition AssemblyInfo_IsValid :: "AssemblyInfo \<Rightarrow> bool" where
  "AssemblyInfo_IsValid a \<longleftrightarrow> ai_id a \<noteq> 0"

definition GetAssemblyInfo :: "'s profiler_info \<Rightarrow> 's \<Rightarrow> u64 \<Rightarrow> AssemblyInfo" where
  "GetAssemblyInfo info s assembly_id =
     (let (hr, name_len, name, domain, manifest) = pi_GetAssemblyInfo info s assembly_id in
      if FAILED hr \<or> name_len = 0 then AssemblyInfo_nil
      else
        (let (hr, domain_name_len, domain_name) = pi_GetAppDomainInfo info s domain in
         if FAILED hr \<or> domain_name_len = 0 then AssemblyInfo_nil
         else \<lparr>ai_id = assembly_id, ai_name = name, manifest_module_id = manifest, app_domain_id = domain,
               app_domain_name = domain_name\<rparr>))"

record ModuleInfo =
  mi_id :: u64
  mi_path :: WSTRING
  mi_assembly :: AssemblyInfo
  mi_flags :: u32

definition ModuleInfo_nil :: ModuleInfo where
  "ModuleInfo_nil = \<lparr>mi_id = 0, mi_path = [], mi_assembly = AssemblyInfo_nil, mi_flags = 0\<rparr>"

definition ModuleInfo_IsValid :: "ModuleInfo \<Rightarrow> bool" where
  "ModuleInfo_IsValid m \<longleftrightarrow> mi_id m \<noteq> 0"

definition IsWindowsRuntime :: "ModuleInfo \<Rightarrow> bool" where
  "IsWindowsRuntime m \<longleftrightarrow> mi_flags m AND 0x40 \<noteq> 0"

definition GetModuleInfo :: "'s profiler_info \<Rightarrow> 's \<Rightarrow> u64 \<Rightarrow> ModuleInfo" where
  "GetModuleInfo info s module_id =
     (let (hr, path_len, path, assembly_id, flags) = pi_GetModuleInfo2 info s module_id in
      if FAILED hr \<or> path_len = 0 then ModuleInfo_nil
      else \<lparr>mi_id = module_id, mi_path = path, mi_assembly = GetAssemblyInfo info s assembly_id, mi_flags = flags\<rparr>)"

section \<open>A rewriter and the runtime\<close>

text \<open>
  \<open>ILRewriter rewriter(this->info_, nullptr, module_id, function_token)\<close> followed by \<open>Import\<close>;
  and \<open>Export\<close>, whose body reaches the runtime through \<open>SetILFunctionBody\<close>.
\<close>

definition rewriter_Import :: "'s profiler_info \<Rightarrow> 's \<Rightarrow> u64 \<Rightarrow> mdToken \<Rightarrow> (hresult \<times> ILRewriter) option" where
  "rewriter_Import info s module_id function_token =
     (let (hr, base, body) = pi_GetILFunctionBody info s module_id function_token
      in Import hr base body (ILRewriter_init False module_id function_token))"

definition rewriter_Export :: "'s profiler_info \<Rightarrow> ILRewriter \<Rightarrow> 's \<Rightarrow> (hresult \<times> 's) option" where
  "rewriter_Export info rw s = do {
     (hr, body, rw) \<leftarrow> Export (pi_memory info) (pi_padding info)
       \<lparr>GetILFunctionBodyAllocator = pi_GetILFunctionBodyAllocator info s (m_moduleId rw), Alloc = pi_Alloc info s,
        SetILFunctionBody_rejit = (\<lambda>body. S_OK),
        SetILFunctionBody_info = (\<lambda>module_id token body. fst (pi_SetILFunctionBody info module_id token body s))\<rparr> rw;
     Some (hr, case body of None \<Rightarrow> s | Some b \<Rightarrow> snd (pi_SetILFunctionBody info (m_moduleId rw) (m_tkMethod rw) b s))
   }"

section \<open>The profiler\<close>

text \<open>
  The members of \<open>CorProfiler\<close>, with the debug flag of logging.cpp. \<open>profiler\<close> is whether the
  global pointer has been set; \<open>corlib_app_domain_id\<close> is not initialised: it starts with
  whatever the memory held. Every callback holds the lock \<open>module_id_to_info_map_lock_\<close>, so
  they are steps one after the other. The flag \<open>is_attached_\<close> is read before the lock is taken.
\<close>

record 's CorProfiler =
  debug_logging_enabled :: bool
  profiler :: bool
  is_attached_flag :: bool
  runtime_information :: RuntimeInformation
  integrations :: "Integration list"
  instrument_domain_neutral_assemblies :: bool
  corlib_module_loaded :: bool
  corlib_app_domain_id :: u64
  managed_profiler_loaded_domain_neutral :: bool
  managed_profiler_loaded_app_domains :: "u64 set"
  first_jit_compilation_app_domains :: "u64 set"
  in_azure_app_services :: bool
  module_id_to_info_map :: "u64 \<rightharpoonup> 's ModuleMetadata"

definition CorProfiler_init :: "u64 \<Rightarrow> 's CorProfiler" where
  "CorProfiler_init memory =
     \<lparr>debug_logging_enabled = False, profiler = False, is_attached_flag = False,
      runtime_information = RuntimeInformation_nil, integrations = [], instrument_domain_neutral_assemblies = False,
      corlib_module_loaded = False, corlib_app_domain_id = memory, managed_profiler_loaded_domain_neutral = False,
      managed_profiler_loaded_app_domains = {}, first_jit_compilation_app_domains = {}, in_azure_app_services = False,
      module_id_to_info_map = Map.empty\<rparr>"

definition IsAttached :: "'s CorProfiler \<Rightarrow> bool" where
  "IsAttached p = is_attached_flag p"

text \<open>The export for managed code; \<open>None\<close> is a call through the null pointer.\<close>

definition IsProfilerAttached :: "'s CorProfiler \<Rightarrow> bool option" where
  "IsProfilerAttached p = (if profiler p then Some (IsAttached p) else None)"

definition ProfilerAssemblyIsLoadedIntoAppDomain :: "'s CorProfiler \<Rightarrow> u64 \<Rightarrow> bool" where
  "ProfilerAssemblyIsLoadedIntoAppDomain p domain \<longleftrightarrow>
     managed_profiler_loaded_domain_neutral p \<or> domain \<in> managed_profiler_loaded_app_domains p"

definition managed_assembly :: WSTRING where
  "managed_assembly = W ''SignalFx.Tracing.ClrProfiler.Managed''"

text \<open>The answer, the token, the module's metadata and the runtime.\<close>

definition GetWrapperMethodRef :: "'s profiler_info \<Rightarrow> u64 \<Rightarrow> MethodReplacement \<Rightarrow> 's ModuleMetadata \<Rightarrow> 's \<Rightarrow>
    (bool \<times> mdToken \<times> 's ModuleMetadata \<times> 's) option" where
  "GetWrapperMethodRef info module_id r m s =
     (let wrapper_method_key = get_method_cache_key (wrapper_method r) in
      case TryGetWrapperMemberRef m wrapper_method_key of
        Some wrapper_method_ref \<Rightarrow> Some (True, wrapper_method_ref, m, s)
      | None \<Rightarrow>
          (let module_info = GetModuleInfo info s module_id;
               (hr, modul) = GetModuleFromScope (mm_metadata m) s in
           if \<not> ModuleInfo_IsValid module_info then Some (False, mdMemberRefNil, m, s)
           else if FAILED hr then Some (False, mdMemberRefNil, m, s)
           else
             (let (hr, s) = EmitAssemblyRef m (mr_assembly (wrapper_method r)) s in
              if FAILED hr then Some (False, mdMemberRefNil, m, s)
              else do {
                (hr, m, s) \<leftarrow> StoreWrapperMethodRef modul r m s;
                if FAILED hr then Some (False, mdMemberRefNil, m, s)
                else Some (True, case TryGetWrapperMemberRef m wrapper_method_key of
                    Some wrapper_method_ref \<Rightarrow> wrapper_method_ref | None \<Rightarrow> mdMemberRefNil, m, s) })))"

end
