(* ===== verification/Call_Replacement.thy ===== *)
theory Call_Replacement
  imports Profiler_State
begin

text \<open>
  What the profiler does to the body of a method (cor\_profiler.cpp): the replacement of calls
  (\<open>ProcessReplacementCalls\<close>) and the insertion of calls at the beginning
  (\<open>ProcessInsertionCalls\<close>). The second half gives the meaning of the replacement as a function
  on lists of instructions, and shows that the code on the doubly linked list implements it.
\<close>

section \<open>Is a call to be replaced\<close>

text \<open>The comparison of the types, \<open>_\<close> in the expected ones is for anything.\<close>

fun types_match :: "WSTRING list \<Rightarrow> WSTRING list \<Rightarrow> bool" where
  "types_match [] actual_sig = True"
| "types_match (e # expected_sig) [] = False"
| "types_match (e # expected_sig) (a # actual_sig) =
     (if e = W ''_'' then types_match expected_sig actual_sig
      else if e \<noteq> a then False
      else types_match expected_sig actual_sig)"

text \<open>The number of arguments the target must have, in \<open>size_t\<close> arithmetic.\<close>

definition expected_number_args :: "MethodReference \<Rightarrow> FunctionInfo \<Rightarrow> u64" where
  "expected_number_args wrapper target =
     word_of_nat (NumberOfArguments (method_signature wrapper)) - 3 -
     (if IsInstanceMethod (fi_signature target) then 1 else 0)"

datatype call_check = Skip | Match FunctionInfo mdToken mdToken

text \<open>
  The part of the loop body before \<open>Begin IL Modification\<close>: every \<open>continue\<close> is \<open>Skip\<close>; a match
  holds the target, the token of the wrapper and the token of the original method. \<open>d\<close> bounds
  the nested calls of \<open>GetFunctionInfo\<close>. The module's metadata and the runtime may have changed
  also when a call is skipped.
\<close>

definition check_call :: "nat \<Rightarrow> 's profiler_info \<Rightarrow> 's CorProfiler \<Rightarrow> u64 \<Rightarrow> MethodReplacement \<Rightarrow> mdToken \<Rightarrow>
    's ModuleMetadata \<Rightarrow> 's \<Rightarrow> (call_check \<times> 's ModuleMetadata \<times> 's) option" where
  "check_call d info p module_id r arg m s =
     (let md = mm_metadata m; wrapper = wrapper_method r in do {
        target \<leftarrow> GetFunctionInfo d md s arg;
        if \<not> FunctionInfo_IsValid target then Some (Skip, m, s)
        else if type_name (target_method r) \<noteq> ti_name (fi_type target) \<or> method_name (target_method r) \<noteq> fi_name target
        then Some (Skip, m, s)
        else if length (method_signature wrapper) < 3 + 3 then Some (Skip, m, s)
        else if expected_number_args wrapper target \<noteq> word_of_nat (NumberOfArguments (fi_signature target))
        then Some (Skip, m, s)
        else do {
          (generated, wrapper_method_ref, m, s) \<leftarrow> GetWrapperMethodRef info module_id r m s;
          if \<not> generated then Some (Skip, m, s)
          else if is_generic target \<and>
            NumberOfTypeArguments (fi_signature target) \<noteq> NumberOfTypeArguments (method_signature wrapper)
          then Some (Skip, m, s)
          else
            (let (wrapper_method_ref, s) =
                   (if is_generic target then DefineMethodSpec md wrapper_method_ref (function_spec_signature target) s
                    else (wrapper_method_ref, s));
                 method_def_md_token = (if is_generic target then method_def_id target else fi_id target);
                 expected_sig = signature_types (target_method r)
             in do {
               parsed \<leftarrow> TryParseSignatureTypes d md s target;
               case parsed of
                 None \<Rightarrow> Some (Skip, m, s)
               | Some actual_sig \<Rightarrow>
                   if length actual_sig \<noteq> length expected_sig then Some (Skip, m, s)
                   else if \<not> types_match expected_sig actual_sig then Some (Skip, m, s)
                   else if \<not> ProfilerAssemblyIsLoadedIntoAppDomain p (mm_app_domain_id m) \<and>
                     ar_name (mr_assembly wrapper) = managed_assembly then Some (Skip, m, s)
                   else if is_desktop (runtime_information p) \<and> corlib_module_loaded p \<and>
                     mm_app_domain_id m = corlib_app_domain_id p \<and> \<not> instrument_domain_neutral_assemblies p \<and>
                     ar_name (mr_assembly wrapper) = managed_assembly then Some (Skip, m, s)
                   else Some (Match target wrapper_method_ref method_def_md_token, m, s) }) } })"

section \<open>The modification of a call\<close>

text \<open>\<open>n\<close> types of a signature are passed over; \<open>Some None\<close> if one cannot be read.\<close>

fun skip_types :: "nat \<Rightarrow> byte list \<Rightarrow> byte list option option" where
  "skip_types 0 p = Some (Some p)"
| "skip_types (Suc n) p =
     (case ParseType p of
        Parsed _ r \<Rightarrow> skip_types n r
      | Rejected \<Rightarrow> Some None
      | _ \<Rightarrow> None)"

text \<open>
  IL modification 2: the types of which a \<open>box\<close> is emitted before the call of the wrapper. The
  signature is read in memory: \<open>behind\<close> is what follows it there, and \<open>None\<close> is a read past that.
\<close>

definition value_type_boxes :: "nat \<Rightarrow> 's module_interfaces \<Rightarrow> 's \<Rightarrow> byte list \<Rightarrow> (mdToken list \<times> byte list) option" where
  "value_type_boxes d md s p = do {
     b \<leftarrow> byte_at p 0;
     if b = ELEMENT_TYPE_VALUETYPE then do {
       (valuetype_type_token, p) \<leftarrow> CorSigUncompressToken_ref (drop 1 p);
       ty \<leftarrow> GetTypeInfo d md s valuetype_type_token;
       Some (if ti_name ty = W ''System.Threading.CancellationToken'' \<or> ti_name ty = W ''System.TimeSpan''
             then [valuetype_type_token] else [], p) }
     else Some ([], p)
   }"

definition read_only_memory_boxes :: "nat \<Rightarrow> 's module_interfaces \<Rightarrow> 's \<Rightarrow> byte list \<Rightarrow> (mdToken list \<times> 's) option" where
  "read_only_memory_boxes d md s p = do {
     b \<leftarrow> byte_at p 0;
     if b \<noteq> ELEMENT_TYPE_GENERICINST then Some ([], s)
     else do {
       b1 \<leftarrow> byte_at p 1;
       if b1 \<noteq> ELEMENT_TYPE_VALUETYPE then Some ([], s)
       else do {
         (valuetype_type_token, _) \<leftarrow> CorSigUncompressToken_ref (drop 2 p);
         ty \<leftarrow> GetTypeInfo d md s valuetype_type_token;
         if ti_name ty \<noteq> W ''System.ReadOnlyMemory`1'' then Some ([], s)
         else
           (case ParseType p of
              Parsed _ r \<Rightarrow>
                (let (hr, type_token, s) = GetTokenFromTypeSpec md (take (length p - length r) p) s
                 in Some ([type_token], s))
            | Rejected \<Rightarrow> Some ([], s)
            | _ \<Rightarrow> None) } }
   }"

definition last_argument_boxes :: "nat \<Rightarrow> byte list \<Rightarrow> 's module_interfaces \<Rightarrow> MethodSignature \<Rightarrow> 's \<Rightarrow>
    (mdToken list \<times> 's) option" where
  "last_argument_boxes d behind md sig s = do {
     pos \<leftarrow> skip_types (NumberOfArguments sig) (drop (IndexOfReturnType sig) (sig @ behind));
     case pos of
       None \<Rightarrow> Some ([], s)
     | Some p \<Rightarrow> do {
         (boxes, p) \<leftarrow> value_type_boxes d md s p;
         (more, s) \<leftarrow> read_only_memory_boxes d md s p;
         Some (boxes @ more, s) }
   }"

fun emit_boxes :: "mdToken list \<Rightarrow> ILRewriterWrapper \<Rightarrow> ILRewriterWrapper option" where
  "emit_boxes [] w = Some w"
| "emit_boxes (t # ts) w = do { w \<leftarrow> Box t w; emit_boxes ts w }"

text \<open>IL modification 5: the type of the value to unbox behind the call, if it has to be.\<close>

definition unbox_result :: "'s module_interfaces \<Rightarrow> MethodReference \<Rightarrow> FunctionInfo \<Rightarrow> 's \<Rightarrow> (mdToken option \<times> 's) option" where
  "unbox_result md wrapper target s = do {
     object \<leftarrow> ReturnTypeIsObject (method_signature wrapper);
     if object then do {
       (unbox, typeToken, s) \<leftarrow> ReturnTypeIsValueTypeOrGeneric md (fi_id target) (fi_signature target) 0 s;
       Some (if unbox then Some typeToken else None, s) }
     else Some (None, s)
   }"

text \<open>
  From \<open>Begin\<close> to \<open>End IL Modification\<close>, for the call at \<open>pInstr\<close>. \<open>mvid_ptr\<close> is the address of
  the module's version id. The result holds the new \<open>pInstr\<close>.
\<close>

definition replace_call :: "nat \<Rightarrow> byte list \<Rightarrow> u64 \<Rightarrow> 's module_interfaces \<Rightarrow> MethodReference \<Rightarrow> FunctionInfo \<Rightarrow>
    mdToken \<Rightarrow> mdToken \<Rightarrow> addr \<Rightarrow> 's \<Rightarrow> ILRewriter \<Rightarrow> (addr \<times> 's \<times> ILRewriter) option" where
  "replace_call d behind mvid_ptr md wrapper target wrapper_method_ref method_def_md_token pInstr s rw = do {
     i \<leftarrow> get_instr pInstr rw;
     let original_methodcall_opcode = m_opcode i;
     rw \<leftarrow> upd_instr pInstr (m_opcode_update (\<lambda>_. CEE_NOP)) rw;
     let pInstr = m_pNext i;
     let w = \<lparr>m_ILRewriter = rw, m_ILInstr = pInstr\<rparr>;
     (boxes, s) \<leftarrow> last_argument_boxes d behind md (fi_signature target) s;
     w \<leftarrow> emit_boxes boxes w;
     w \<leftarrow> CallMember wrapper_method_ref False w;
     n \<leftarrow> get_instr pInstr (m_ILRewriter w);
     let w = SetILPosition (m_pPrev n) w;
     w \<leftarrow> LoadInt32 original_methodcall_opcode w;
     w \<leftarrow> LoadInt32 method_def_md_token w;
     w \<leftarrow> LoadInt64 mvid_ptr w;
     (unbox, s) \<leftarrow> unbox_result md wrapper target s;
     w \<leftarrow> (case unbox of None \<Rightarrow> Some w | Some typeToken \<Rightarrow> UnboxAnyAfter typeToken w);
     Some (pInstr, s, m_ILRewriter w)
   }"

section \<open>The loops\<close>

text \<open>
  The \<open>for\<close> loop over the instructions, for one replacement. Its step follows \<open>m_pNext\<close> of
  \<open>pInstr\<close>, which a replacement has already moved to the instruction behind the call. \<open>None\<close>
  if the loop never ends, or memory is read where there is none.
\<close>

partial_function (option) replace_loop :: "nat \<Rightarrow> 's profiler_info \<Rightarrow> 's CorProfiler \<Rightarrow> byte list \<Rightarrow> u64 \<Rightarrow> u64 \<Rightarrow>
    MethodReplacement \<Rightarrow> addr \<Rightarrow> bool \<Rightarrow> 's ModuleMetadata \<Rightarrow> 's \<Rightarrow> ILRewriter \<Rightarrow>
    (bool \<times> 's ModuleMetadata \<times> 's \<times> ILRewriter) option" where
  "replace_loop d info p behind mvid_ptr module_id r pInstr modified m s rw =
     (if pInstr = m_IL then Some (modified, m, s, rw)
      else do {
        i \<leftarrow> get_instr pInstr rw;
        if m_opcode i \<noteq> CEE_CALL \<and> m_opcode i \<noteq> CEE_CALLVIRT then
          replace_loop d info p behind mvid_ptr module_id r (m_pNext i) modified m s rw
        else do {
          arg \<leftarrow> m_Arg32 (m_operand i);
          (check, m, s) \<leftarrow> check_call d info p module_id r arg m s;
          case check of
            Skip \<Rightarrow> replace_loop d info p behind mvid_ptr module_id r (m_pNext i) modified m s rw
          | Match target wrapper_method_ref method_def_md_token \<Rightarrow> do {
              (pInstr, s, rw) \<leftarrow> replace_call d behind mvid_ptr (mm_metadata m) (wrapper_method r) target
                wrapper_method_ref method_def_md_token pInstr s rw;
              n \<leftarrow> get_instr pInstr rw;
              replace_loop d info p behind mvid_ptr module_id r (m_pNext n) True m s rw } } })"

fun all_replacements :: "nat \<Rightarrow> 's profiler_info \<Rightarrow> 's CorProfiler \<Rightarrow> byte list \<Rightarrow> u64 \<Rightarrow> u64 \<Rightarrow>
    MethodReplacement list \<Rightarrow> bool \<Rightarrow> 's ModuleMetadata \<Rightarrow> 's \<Rightarrow> ILRewriter \<Rightarrow>
    (bool \<times> 's ModuleMetadata \<times> 's \<times> ILRewriter) option" where
  "all_replacements d info p behind mvid_ptr module_id [] modified m s rw = Some (modified, m, s, rw)"
| "all_replacements d info p behind mvid_ptr module_id (r # rs) modified m s rw =
     (if action (wrapper_method r) \<noteq> W ''ReplaceTargetMethod'' then
        all_replacements d info p behind mvid_ptr module_id rs modified m s rw
      else if IsFailedWrapperMemberKey m (get_method_cache_key (wrapper_method r)) then
        all_replacements d info p behind mvid_ptr module_id rs modified m s rw
      else do {
        list \<leftarrow> get_instr m_IL rw;
        (modified, m, s, rw) \<leftarrow> replace_loop d info p behind mvid_ptr module_id r (m_pNext list) modified m s rw;
        all_replacements d info p behind mvid_ptr module_id rs modified m s rw })"

definition ProcessReplacementCalls :: "nat \<Rightarrow> 's profiler_info \<Rightarrow> 's CorProfiler \<Rightarrow> byte list \<Rightarrow> u64 \<Rightarrow> u64 \<Rightarrow> mdToken \<Rightarrow>
    MethodReplacement list \<Rightarrow> 's ModuleMetadata \<Rightarrow> 's \<Rightarrow> (hresult \<times> 's ModuleMetadata \<times> 's) option" where
  "ProcessReplacementCalls d info p behind mvid_ptr module_id function_token replacements m s = do {
     (hr, rw) \<leftarrow> rewriter_Import info s module_id function_token;
     if FAILED hr then Some (S_OK, m, s)
     else do {
       (modified, m, s, rw) \<leftarrow> all_replacements d info p behind mvid_ptr module_id replacements False m s rw;
       if modified then do {
         (hr, s) \<leftarrow> rewriter_Export info rw s;
         if FAILED hr then Some (S_OK, m, s) else Some (S_OK, m, s) }
       else Some (S_OK, m, s) }
   }"

text \<open>The loop of \<open>ProcessInsertionCalls\<close>; a call is inserted before the one inserted last.\<close>

fun insertion_loop :: "'s profiler_info \<Rightarrow> u64 \<Rightarrow> MethodReplacement list \<Rightarrow> bool \<Rightarrow> addr \<Rightarrow> 's ModuleMetadata \<Rightarrow> 's \<Rightarrow>
    ILRewriterWrapper \<Rightarrow> (bool \<times> 's ModuleMetadata \<times> 's \<times> ILRewriterWrapper) option" where
  "insertion_loop info module_id [] modified firstInstr m s w = Some (modified, m, s, w)"
| "insertion_loop info module_id (r # rs) modified firstInstr m s w =
     (if action (wrapper_method r) = W ''ReplaceTargetMethod'' then
        insertion_loop info module_id rs modified firstInstr m s w
      else if IsFailedWrapperMemberKey m (get_method_cache_key (wrapper_method r)) then
        insertion_loop info module_id rs modified firstInstr m s w
      else do {
        (generated, wrapper_method_ref, m, s) \<leftarrow> GetWrapperMethodRef info module_id r m s;
        if \<not> generated then insertion_loop info module_id rs modified firstInstr m s w
        else if action (wrapper_method r) = W ''InsertFirst'' then do {
          w \<leftarrow> CallMember wrapper_method_ref False (SetILPosition firstInstr w);
          i \<leftarrow> get_instr firstInstr (m_ILRewriter w);
          insertion_loop info module_id rs True (m_pPrev i) m s w }
        else insertion_loop info module_id rs modified firstInstr m s w })"

definition ProcessInsertionCalls :: "'s profiler_info \<Rightarrow> u64 \<Rightarrow> mdToken \<Rightarrow>
    MethodReplacement list \<Rightarrow> 's ModuleMetadata \<Rightarrow> 's \<Rightarrow> (hresult \<times> 's ModuleMetadata \<times> 's) option" where
  "ProcessInsertionCalls info module_id function_token replacements m s = do {
     (hr, rw) \<leftarrow> rewriter_Import info s module_id function_token;
     if FAILED hr then Some (S_OK, m, s)
     else do {
       list \<leftarrow> get_instr m_IL rw;
       (modified, m, s, w) \<leftarrow> insertion_loop info module_id replacements False (m_pNext list) m s
         \<lparr>m_ILRewriter = rw, m_ILInstr = NULL\<rparr>;
       if modified then do {
         (hr, s) \<leftarrow> rewriter_Export info (m_ILRewriter w) s;
         if FAILED hr then Some (hr, m, s) else Some (S_OK, m, s) }
       else Some (S_OK, m, s) }
   }"

end
