(* ===== verification/Weaving.thy ===== *)
theory Weaving
  imports IL_Method "HOL-Library.Sublist"
begin

text \<open>
  Programs that have been woven into a body: every instruction stays in its cell, a call may have
  become a \<open>nop\<close> with new instructions behind it. What \<open>Export\<close> needs of a body, that branches and
  exception clauses lead to instructions and that the opcodes can be written, survives it.
\<close>

section \<open>Weaving\<close>

definition inserted :: "opcode \<times> operand \<Rightarrow> bool" where
  "inserted i \<longleftrightarrow> byte_opcode (fst i) \<and> bits_fit (plain i) \<and> operand_ok i \<and> fst i \<noteq> CEE_SWITCH \<and> (\<forall>t. snd i \<noteq> Target t)"

lemma insertedI:
  "byte_opcode op \<Longrightarrow> op \<noteq> CEE_SWITCH \<Longrightarrow> op_flags op \<notin> {0x11, 0x14} \<Longrightarrow>
   operand_size op = 0 \<or> unat b < 256 ^ operand_size op \<Longrightarrow> inserted (op, Bits b)"
  using byte_opcode_bound [of op]
  by (auto simp: inserted_def bits_fit_def plain_def op_bits_def operand_ok_def word_less_nat_alt)

inductive woven :: "addr list \<Rightarrow> (opcode \<times> operand) list \<Rightarrow> addr list \<Rightarrow> (opcode \<times> operand) list \<Rightarrow> bool" where
  empty: "woven [] [] [] []"
| kept: "woven xs is cs js \<Longrightarrow> woven (x # xs) (i # is) (x # cs) (i # js)"
| call: "woven xs is cs js \<Longrightarrow> op = CEE_CALL \<or> op = CEE_CALLVIRT \<Longrightarrow> length ns = length new \<Longrightarrow> list_all inserted new \<Longrightarrow>
    woven (x # xs) ((op, a) # is) (x # ns @ cs) ((CEE_NOP, a) # new @ js)"

lemma woven_same: "length xs = length is \<Longrightarrow> woven xs is xs is"
  by (induction xs "is" rule: list_induct2) (auto intro: woven.intros)

lemma woven_length: "woven xs is cs js \<Longrightarrow> length xs = length is \<and> length cs = length js"
  by (induction rule: woven.induct) auto

lemma woven_subseq: "woven xs is cs js \<Longrightarrow> subseq xs cs"
  by (induction rule: woven.induct) (auto simp: list_emb_append2)

section \<open>Labels\<close>

lemma real_label_zip:
  "length xs = length is \<Longrightarrow> real_label xs is t \<longleftrightarrow> t = m_IL \<or> (\<exists>i. (t, i) \<in> set (zip xs is) \<and> fst i \<noteq> CEE_SWITCH_ARG)"
  by (simp add: real_label_def in_set_zip del: split_paired_Ex) metis

lemma nop_opcode: "byte_opcode CEE_NOP" "operand_size CEE_NOP = 0" "op_flags CEE_NOP = 0"
  "op_flags CEE_CALL = 4" "op_flags CEE_CALLVIRT = 4"
  by code_simp+

lemma inserted_not_arg: "inserted i \<Longrightarrow> fst i \<noteq> CEE_SWITCH_ARG"
  using byte_opcode_not_arg by (auto simp: inserted_def)

lemma woven_cells:
  "woven xs is cs js \<Longrightarrow> (x, i) \<in> set (zip xs is) \<Longrightarrow> fst i \<noteq> CEE_SWITCH_ARG \<Longrightarrow>
   \<exists>j. (x, j) \<in> set (zip cs js) \<and> fst j \<noteq> CEE_SWITCH_ARG"
  by (induction rule: woven.induct) (fastforce simp: zip_append)+

lemma real_label_woven: "woven xs is cs js \<Longrightarrow> real_label xs is t \<Longrightarrow> real_label cs js t"
  using woven_cells [of xs "is" cs js t] woven_length [of xs "is" cs js] by (simp add: real_label_zip del: split_paired_Ex) metis

lemma woven_targets: "woven xs is cs js \<Longrightarrow> j \<in> set js \<Longrightarrow> snd j = Target t \<Longrightarrow> \<exists>i \<in> set is. snd i = Target t"
  by (induction rule: woven.induct) (auto simp: list_all_iff inserted_def)

lemma targets_real_woven: "woven xs is cs js \<Longrightarrow> targets_real xs is \<Longrightarrow> targets_real cs js"
  unfolding targets_real_def using woven_targets real_label_woven by metis

section \<open>Opcodes\<close>

lemma operand_ok_woven: "woven xs is cs js \<Longrightarrow> list_all operand_ok is \<Longrightarrow> list_all operand_ok js"
proof (induction rule: woven.induct)
  case (call xs "is" cs js op ns new x a)
  have "operand_ok (op, a)" "list_all operand_ok js" using call by simp_all
  moreover have "operand_ok (CEE_NOP, a)"
    using calculation(1) call.hyps(2) nop_opcode by (elim disjE) (simp_all add: operand_ok_def)
  moreover have "list_all operand_ok new" using call.hyps(4) by (auto simp: list_all_iff inserted_def)
  ultimately show ?case by simp
qed simp_all

lemma well_formed_inserted: "list_all inserted new \<Longrightarrow> well_formed 0 (map plain is) \<Longrightarrow> well_formed 0 (map plain (new @ is))"
  by (induction new) (auto simp: inserted_def)

lemma well_formed_woven: "woven xs is cs js \<Longrightarrow> well_formed n (map plain is) \<Longrightarrow> well_formed n (map plain js)"
proof (induction arbitrary: n rule: woven.induct)
  case (kept xs "is" cs js x i)
  then show ?case by (auto split: if_split_asm)
next
  case (call xs "is" cs js op ns new x a)
  then have "n = 0" "well_formed 0 (map plain is)" by (auto split: if_split_asm)
  moreover have "bits_fit (plain (CEE_NOP, a))" using nop_opcode(2) by (simp add: bits_fit_def op_bits_plain)
  ultimately show ?case using well_formed_inserted [OF call.hyps(4)] call.IH nop_opcode(1) by simp
qed simp

section \<open>Exception clauses\<close>

text \<open>The last instruction of a handler, and what follows it.\<close>

lemma handler_end_iff:
  "(\<exists>j \<le> length xs. e = (m_IL # xs) ! j \<and> R ((xs @ [m_IL]) ! j)) \<longleftrightarrow>
   (\<exists>as q bs. m_IL # xs @ [m_IL] = as @ e # q # bs \<and> R q)"
proof
  assume "\<exists>j \<le> length xs. e = (m_IL # xs) ! j \<and> R ((xs @ [m_IL]) ! j)"
  then obtain j where j: "j \<le> length xs" "e = (m_IL # xs) ! j" "R ((xs @ [m_IL]) ! j)" by blast
  let ?l = "(m_IL # xs) @ [m_IL]"
  have "?l = take j ?l @ ?l ! j # drop (Suc j) ?l" using j(1) by (intro id_take_nth_drop) simp
  moreover have "drop (Suc j) ?l = (xs @ [m_IL]) ! j # drop (Suc j) (xs @ [m_IL])"
    using j(1) Cons_nth_drop_Suc [of j "xs @ [m_IL]"] by simp
  moreover have "?l ! j = e" using j(1,2) by (simp add: nth_append del: append_Cons)
  ultimately show "\<exists>as q bs. m_IL # xs @ [m_IL] = as @ e # q # bs \<and> R q" using j(3) by (metis append_Cons)
next
  assume "\<exists>as q bs. m_IL # xs @ [m_IL] = as @ e # q # bs \<and> R q"
  then obtain as q bs where l: "m_IL # xs @ [m_IL] = as @ e # q # bs" "R q" by blast
  have "length as \<le> length xs" using arg_cong [OF l(1), of length] by simp
  moreover have "e = (m_IL # xs @ [m_IL]) ! length as" "q = (m_IL # xs @ [m_IL]) ! Suc (length as)"
    unfolding l(1) by (simp_all add: nth_append)
  ultimately show "\<exists>j \<le> length xs. e = (m_IL # xs) ! j \<and> R ((xs @ [m_IL]) ! j)"
    using l(2) by (intro exI [of _ "length as"]) (auto simp: nth_append nth_Cons' split: if_split_asm)
qed

lemma real_label_tl: "real_label (x # xs) (i # is) t \<Longrightarrow> t \<noteq> x \<Longrightarrow> real_label xs is t"
  by (auto simp: real_label_def less_Suc_eq_0_disj)

lemma real_label_append: "length ns = length new \<Longrightarrow> real_label cs js t \<Longrightarrow> real_label (ns @ cs) (new @ js) t"
  by (cases "t = m_IL") (force simp: real_label_def nth_append)+

text \<open>
  A handler ends before the same instruction as before, or, if its last instruction is a call that
  has been replaced, before what has been put behind this call.
\<close>

lemma woven_handler_end:
  "woven xs is cs js \<Longrightarrow> p # xs @ [m_IL] = as @ e # q # bs \<Longrightarrow> real_label xs is q \<Longrightarrow> distinct (m_IL # xs) \<Longrightarrow>
   \<exists>as' q' bs'. p # cs @ [m_IL] = as' @ e # q' # bs' \<and> real_label cs js q'"
proof (induction arbitrary: p as bs rule: woven.induct)
  case empty
  then show ?case by blast
next
  case (kept xs "is" cs js x i)
  note label = real_label_woven [OF woven.kept [OF kept.hyps]]
  show ?case
  proof (cases as)
    case Nil
    then have "e = p" "q = x" using kept.prems(1) by simp_all
    then show ?thesis using label [OF kept.prems(2)] by (intro exI [of _ "[]"]) simp
  next
    case (Cons a as2)
    have x: "x # xs @ [m_IL] = as2 @ e # q # bs" using kept.prems(1) Cons by simp
    have "q \<in> set (xs @ [m_IL])" using arg_cong [OF x, of tl] by (cases as2) auto
    then have "q \<noteq> x" using kept.prems(3) by auto
    with kept.prems(2,3) obtain as' q' bs' where "x # cs @ [m_IL] = as' @ e # q' # bs'" "real_label cs js q'"
      using kept.IH [OF x] real_label_tl by auto
    then show ?thesis
      using real_label_append [of "[x]" "[i]" cs js q'] by (intro exI [of _ "p # as'"] exI [of _ q'] exI [of _ bs']) simp
  qed
next
  case (call xs "is" cs js op ns new x a)
  note label = real_label_woven [OF woven.call [OF call.hyps]]
  show ?case
  proof (cases as)
    case Nil
    then have "e = p" "q = x" using call.prems(1) by simp_all
    then show ?thesis using label [OF call.prems(2)] by (intro exI [of _ "[]"]) simp
  next
    case (Cons b as2)
    have x: "x # xs @ [m_IL] = as2 @ e # q # bs" using call.prems(1) Cons by simp
    have "q \<in> set (xs @ [m_IL])" using arg_cong [OF x, of tl] by (cases as2) auto
    then have "q \<noteq> x" using call.prems(3) by auto
    with call.prems(2,3) obtain as' q' bs' where IH: "x # cs @ [m_IL] = as' @ e # q' # bs'" "real_label cs js q'"
      using call.IH [OF x] real_label_tl by auto
    have label': "real_label (x # ns @ cs) ((CEE_NOP, a) # new @ js) q'"
      using real_label_append [OF _ IH(2), of "x # ns" "(CEE_NOP, a) # new"] call.hyps(3) by simp
    show ?thesis
    proof (cases as')
      case Nil
      then have e: "e = x" "cs @ [m_IL] = q' # bs'" using IH(1) by simp_all
      show ?thesis
      proof (cases ns)
        case Nil
        with e label' show ?thesis by (intro exI [of _ "[p]"] exI [of _ q'] exI [of _ bs']) simp
      next
        case (Cons c ns2)
        then obtain j new2 where "new = j # new2" "inserted j" using call.hyps(3,4) by (cases new) auto
        then have "real_label (x # ns @ cs) ((CEE_NOP, a) # new @ js) c"
          using Cons inserted_not_arg [of j] by (auto simp: real_label_def intro: exI [of _ 1])
        with e Cons show ?thesis by (intro exI [of _ "[p]"] exI [of _ c] exI [of _ "ns2 @ cs @ [m_IL]"]) simp
      qed
    next
      case (Cons b' as3)
      then have "cs @ [m_IL] = as3 @ e # q' # bs'" using IH(1) by simp
      with label' show ?thesis by (intro exI [of _ "p # x # ns @ as3"] exI [of _ q'] exI [of _ bs']) simp
    qed
  qed
qed

lemma clause_ok_woven:
  assumes w: "woven xs is cs js" and d: "distinct (m_IL # xs)" and c: "clause_ok xs is c"
  shows "clause_ok cs js c"
proof -
  note label = real_label_woven [OF w]
  obtain as q bs where "m_IL # xs @ [m_IL] = as @ m_pHandlerEnd c # q # bs" "real_label xs is q"
    using c by (auto simp: clause_ok_def handler_end_iff)
  then have "\<exists>as q bs. m_IL # cs @ [m_IL] = as @ m_pHandlerEnd c # q # bs \<and> real_label cs js q"
    using woven_handler_end [OF w _ _ d] by blast
  with c label show ?thesis by (auto simp: clause_ok_def handler_end_iff split: eh_operand.splits)
qed

text \<open>The same for instructions put in front of a body.\<close>

lemma real_label_inserted: "list_all inserted new \<Longrightarrow> length ns = length new \<Longrightarrow> x \<in> set ns \<Longrightarrow> real_label (ns @ xs) (new @ is) x"
proof -
  assume n: "list_all inserted new" "length ns = length new" "x \<in> set ns"
  then obtain j where j: "j < length ns" "ns ! j = x" by (auto simp: in_set_conv_nth)
  then have "inserted (new ! j)" using n(1,2) by (simp add: list_all_length)
  then show ?thesis
    using j n(2) inserted_not_arg [of "new ! j"] by (auto simp: real_label_def nth_append intro!: exI [of _ j])
qed

lemma clause_ok_prefix:
  assumes n: "length ns = length new" "list_all inserted new" and c: "clause_ok xs is c"
  shows "clause_ok (ns @ xs) (new @ is) c"
proof -
  note label = real_label_append [OF n(1)]
  obtain as q bs where h: "m_IL # xs @ [m_IL] = as @ m_pHandlerEnd c # q # bs" "real_label xs is q"
    using c by (auto simp: clause_ok_def handler_end_iff)
  have "\<exists>as q bs. m_IL # (ns @ xs) @ [m_IL] = as @ m_pHandlerEnd c # q # bs \<and> real_label (ns @ xs) (new @ is) q"
  proof (cases "as = [] \<and> ns \<noteq> []")
    case True
    then obtain y ns' where "ns = y # ns'" by (cases ns) auto
    then show ?thesis
      using True h(1) real_label_inserted [OF n(2,1), of y] by (intro exI [of _ "[]"] exI [of _ y] exI [of _ "ns' @ xs @ [m_IL]"]) simp
  next
    case False
    show ?thesis
    proof (cases as)
      case Nil
      then show ?thesis
        using h(1) label [OF h(2)] False by (intro exI [of _ "[]"] exI [of _ q] exI [of _ bs]) simp
    next
      case (Cons a as2)
      then have "xs @ [m_IL] = as2 @ m_pHandlerEnd c # q # bs" using h(1) by simp
      then show ?thesis using label [OF h(2)] by (intro exI [of _ "m_IL # ns @ as2"] exI [of _ q] exI [of _ bs]) simp
    qed
  qed
  from this [folded handler_end_iff [of "ns @ xs" "m_pHandlerEnd c" "real_label (ns @ xs) (new @ is)"]]
  show ?thesis using c label unfolding clause_ok_def by (cases "m_ClassToken c") simp_all
qed

section \<open>What \<open>Export\<close> needs\<close>

text \<open>A body whose branches and clauses lead to instructions, and that can be written.\<close>

definition body_ok :: "addr list \<Rightarrow> (opcode \<times> operand) list \<Rightarrow> EHClause list \<Rightarrow> bool" where
  "body_ok xs is ehs \<longleftrightarrow> length xs = length is \<and> distinct (m_IL # xs) \<and> list_all operand_ok is \<and>
     well_formed 0 (map plain is) \<and> targets_real xs is \<and> list_all (clause_ok xs is) ehs"

lemma body_ok_woven:
  assumes "woven xs is cs js" "body_ok xs is ehs" "distinct (m_IL # cs)"
  shows "body_ok cs js ehs"
  using assms woven_length [OF assms(1)] operand_ok_woven [OF assms(1)] well_formed_woven [OF assms(1)]
    targets_real_woven [OF assms(1)] clause_ok_woven [OF assms(1)]
  by (simp add: body_ok_def list_all_iff del: distinct.simps)

lemma body_ok_prefix:
  assumes "body_ok xs is ehs" "length ns = length new" "list_all inserted new" "distinct (m_IL # ns @ xs)"
  shows "body_ok (ns @ xs) (new @ is) ehs"
proof -
  have "targets_real (ns @ xs) (new @ is)"
    using assms(1,3) real_label_append [OF assms(2)] by (auto simp: body_ok_def targets_real_def list_all_iff inserted_def)
  moreover have "list_all operand_ok new" using assms(3) by (auto simp: list_all_iff inserted_def)
  moreover have "well_formed 0 (map plain (new @ is))"
    using assms(1) by (intro well_formed_inserted [OF assms(3)]) (simp add: body_ok_def)
  ultimately show ?thesis
    using assms clause_ok_prefix [OF assms(2,3)] by (auto simp: body_ok_def list_all_iff)
qed

lemma woven_all_subseq:
  assumes "(\<lambda>(xs, is) (cs, js). woven xs is cs js)\<^sup>*\<^sup>* (xs, is) (cs, js)"
  shows "subseq xs cs"
  using assms by (induction rule: rtranclp_induct2) (auto dest: woven_subseq intro: subseq_order.trans)

lemma body_ok_woven_all:
  assumes "(\<lambda>(xs, is) (cs, js). woven xs is cs js)\<^sup>*\<^sup>* (xs, is) (cs, js)"
  shows "body_ok xs is ehs \<Longrightarrow> distinct (m_IL # cs) \<Longrightarrow> body_ok cs js ehs"
  using assms
proof (induction rule: rtranclp_induct2)
  case (step cs js ds ks)
  then have s: "subseq cs ds" using woven_subseq by auto
  then have "distinct (m_IL # cs)" using step.prems(2) subseq_conv_nths [of cs ds] set_nths_subset [of ds]
    by (auto intro: distinct_nthsI)
  with step s show ?case using body_ok_woven by (auto intro: subseq_order.trans)
qed simp

lemma exportable_body:
  assumes "il_list rw xs" "map (instr_code rw) xs = map Some is" "body_ok xs is (m_pEH rw)"
    "m_nEH rw = word_of_nat (length (m_pEH rw))" "24 * length (m_pEH rw) + 4 < 2 ^ 24" "flags_ok (m_flags rw)"
    "10 * (il_brk rw - 3) + 12 < 2 ^ 32"
  shows "exportable rw xs is"
  using assms real_label_range by (fastforce simp: exportable_def program_at_def body_ok_def targets_real_def)

end
