(* ===== verification/Replacement_Spec.thy ===== *)
theory Replacement_Spec
  imports Call_Replacement Weaving
begin

text \<open>
  The meaning of the replacement of calls as a function on the sequence of instructions,
  and the proof that the loops of cor\_profiler.cpp on the linked list implement it.
\<close>

section \<open>Inserting behind a position\<close>

lemma UnboxAnyAfter_inserts:
  assumes l: "il_list (m_ILRewriter w) (as @ bs)" and as: "as \<noteq> []" "m_ILInstr w = last as"
  shows "\<exists>w' n. UnboxAnyAfter tk w = Some w' \<and> il_list (m_ILRewriter w') (as @ n # bs) \<and> n \<notin> set (as @ bs) \<and>
    instr_code (m_ILRewriter w') n = Some (CEE_UNBOX_ANY, arg32 tk) \<and>
    (\<forall>x \<in> set (as @ bs). instr_code (m_ILRewriter w') x = instr_code (m_ILRewriter w) x) \<and>
    rw_rest (m_ILRewriter w') = rw_rest (m_ILRewriter w)"
proof -
  let ?rw = "m_ILRewriter w" and ?c = "(CEE_UNBOX_ANY, arg32 tk)"
  obtain v rw1 where v: "NewILInstr ?rw = (v, rw1)" by (cases "NewILInstr ?rw")
  note new = NewILInstr_il_list [OF l v]
  let ?f = "\<lambda>i :: ILInstr. i\<lparr>m_opcode := CEE_UNBOX_ANY, m_operand := arg32 tk\<rparr>"
  define rw2 where "rw2 = rw1\<lparr>il_heap := modify (il_heap rw1) v ?f\<rparr>"
  have l2: "il_list rw2 (as @ bs)" "detached rw2 (as @ bs) v"
    unfolding rw2_def using new(1,2) by (simp_all add: modify_il_list detached_modify)
  have u: "upd_instr v ?f rw1 = Some rw2"
    using new(2) by (auto simp: rw2_def detached_def intro: upd_instr_eq)
  have "code_ok ?c" by (simp add: stack_pushes_defined)
  then obtain n where n: "stack_pushes CEE_UNBOX_ANY = Some n" by (auto simp: code_ok_def)
  obtain iv where iv: "il_heap rw1 v = Some iv" using new(2) by (auto simp: detached_def)
  have n': "stack_pushes (m_opcode (the (il_heap rw2 v))) = Some n" using n iv by (simp add: rw2_def)
  have p: "m_ILInstr w = last (m_IL # as)" using as by simp
  obtain h where h: "InsertAfter (m_ILInstr w) v rw2 = Some (rw2\<lparr>il_heap := h, m_maxStack := m_maxStack rw2 + n\<rparr>)"
      "il_list (rw2\<lparr>il_heap := h, m_maxStack := m_maxStack rw2 + n\<rparr>) (as @ v # bs)"
      "\<And>x. map_option content (h x) = map_option content (il_heap rw2 x)"
    using InsertAfter_il_list [OF l2 p n'] by blast
  have code: "instr_code (rw2\<lparr>il_heap := h, m_maxStack := m_maxStack rw2 + n\<rparr>) x = instr_code rw2 x" for x
    using content_code [of h x "il_heap rw2"] h(3) [of x] by (simp add: instr_code_def)
  have "instr_code rw2 v = Some ?c" using iv by (simp add: instr_code_def rw2_def)
  moreover have "instr_code rw2 x = instr_code ?rw x" if "x \<in> set (as @ bs)" for x
    using that new(3,4) by (cases "x = v") (simp_all add: instr_code_def rw2_def)
  moreover have "rw_rest (rw2\<lparr>il_heap := h, m_maxStack := m_maxStack rw2 + n\<rparr>) = rw_rest ?rw"
    using new(5) by (simp add: rw_rest_def rw2_def)
  ultimately show ?thesis
    using h(1,2) v u new(4) code
    by (intro exI [of _ "w\<lparr>m_ILRewriter := rw2\<lparr>il_heap := h, m_maxStack := m_maxStack rw2 + n\<rparr>\<rparr>"] exI [of _ v])
      (simp add: UnboxAnyAfter_def)
qed

lemma inserts_emit_boxes [inserts]: "inserts (emit_boxes ts) (map (\<lambda>t. (CEE_BOX, arg32 t)) ts)"
proof (induction ts)
  case Nil
  have "emit_boxes [] = Some" by (rule ext) simp
  then show ?case using inserts_nothing by simp
next
  case (Cons t ts)
  have "emit_boxes (t # ts) = (\<lambda>w. Box t w \<bind> emit_boxes ts)" by (rule ext) simp
  then show ?case using inserts_bind [OF inserts_simple(7) Cons.IH, of t] by simp
qed

section \<open>One call\<close>

text \<open>What is put behind the \<open>nop\<close> that the call becomes.\<close>

definition wrapper_call :: "opcode \<Rightarrow> mdToken list \<Rightarrow> mdToken \<Rightarrow> mdToken \<Rightarrow> u64 \<Rightarrow> mdToken option \<Rightarrow> (opcode \<times> operand) list" where
  "wrapper_call opcode boxes wrapper_method_ref method_def_md_token mvid_ptr unbox =
     map (\<lambda>t. (CEE_BOX, arg32 t)) boxes @
     [load_int32_code opcode, load_int32_code method_def_md_token, (CEE_LDC_I8, arg64 mvid_ptr),
      (CEE_CALL, arg32 wrapper_method_ref)] @
     (case unbox of None \<Rightarrow> [] | Some t \<Rightarrow> [(CEE_UNBOX_ANY, arg32 t)])"

lemma unat_arg: "unat (ucast (b :: byte) :: u64) < 256" "unat (ucast (x :: u32) :: u64) < 4294967296"
  using le_less_trans [OF take_bit_nat_less_eq_self unsigned_less, of 64 b]
    le_less_trans [OF take_bit_nat_less_eq_self unsigned_less, of 64 x] by (simp_all add: unsigned_ucast_eq)

lemma load_int32_inserted: "inserted (load_int32_code v)"
proof -
  have small: "CEE_LDC_I4_0 + v \<in> set [22, 23, 24, 25, 26, 27, 28, 29, 30]" if "0 \<le> sint v" "sint v \<le> 8"
  proof -
    have "unat v \<in> {0, 1, 2, 3, 4, 5, 6, 7, 8}" using small_int32 [OF that] by auto
    then have "v \<in> {0, 1, 2, 3, 4, 5, 6, 7, 8}" by (auto simp: word_unat_eq_iff)
    then show ?thesis by auto
  qed
  have ops: "list_all (\<lambda>op. byte_opcode op \<and> op \<noteq> CEE_SWITCH \<and> op_flags op \<notin> {0x11, 0x14} \<and> operand_size op = 0)
      [22, 23, 24, 25, 26, 27, 28, 29, 30]" by code_simp
  have flags: "operand_size CEE_LDC_I4_S = 1" "operand_size CEE_LDC_I4 = 4" "op_flags CEE_LDC_I4_S = 1" "op_flags CEE_LDC_I4 = 4"
    "byte_opcode CEE_LDC_I4_S" "byte_opcode CEE_LDC_I4" by code_simp+
  have "inserted (CEE_LDC_I4_0 + v, Bits 0)" if "0 \<le> sint v" "sint v \<le> 8"
    using ops small [OF that] unfolding list_all_iff by (intro insertedI) blast+
  then show ?thesis using flags unat_arg by (auto simp: load_int32_code_def arg8_def arg32_def intro!: insertedI)
qed

lemma wrapper_call_inserted: "list_all inserted (wrapper_call op boxes ref def ptr unbox)"
proof -
  have flags: "list_all (\<lambda>op. byte_opcode op \<and> operand_size op = 4 \<and> op_flags op = 4 \<and> op \<noteq> CEE_SWITCH)
      [CEE_BOX, CEE_CALL, CEE_UNBOX_ANY]" "byte_opcode CEE_LDC_I8" "operand_size CEE_LDC_I8 = 8" "op_flags CEE_LDC_I8 = 8"
    by code_simp+
  have "inserted (c, arg32 x)" if "c \<in> {CEE_BOX, CEE_CALL, CEE_UNBOX_ANY}" for c x
    using flags(1) that unat_arg(2) [of x] by (auto simp: arg32_def intro!: insertedI)
  moreover have "inserted (CEE_LDC_I8, arg64 x)" for x
    using flags unsigned_less [of x] by (auto simp: arg64_def intro!: insertedI)
  ultimately show ?thesis using load_int32_inserted by (auto simp: wrapper_call_def list_all_iff split: option.split)
qed

lemma il_list_prev:
  assumes "il_list rw (as @ x # y # bs)"
  shows "\<exists>i. get_instr y rw = Some i \<and> m_pPrev i = x"
  using assms chain_next(2) [of "il_heap rw" "m_IL # as" x y "bs @ [m_IL]"]
  by (auto simp: il_list_def pv_def get_instr_def)

lemma il_list_next:
  assumes "il_list rw (as @ x # bs)"
  shows "\<exists>i. get_instr x rw = Some i \<and> m_pNext i = hd (bs @ [m_IL])"
proof (cases bs)
  case Nil
  then show ?thesis using assms chain_next(1) [of "il_heap rw" "m_IL # as" x m_IL "[]"]
    by (auto simp: il_list_def nx_def get_instr_def)
next
  case (Cons y ys)
  then show ?thesis using assms chain_next(1) [of "il_heap rw" "m_IL # as" x y "ys @ [m_IL]"]
    by (auto simp: il_list_def nx_def get_instr_def)
qed

text \<open>The calls of the code generator between the \<open>nop\<close> and the instruction behind it.\<close>

lemma inserts_wrapper_call:
  "inserts (\<lambda>w. LoadInt32 v w \<bind> LoadInt32 t \<bind> LoadInt64 n)
     [load_int32_code v, load_int32_code t, (CEE_LDC_I8, arg64 n)]"
proof -
  have "inserts (\<lambda>w. (LoadInt32 v w \<bind> LoadInt32 t) \<bind> LoadInt64 n)
      (([load_int32_code v] @ [load_int32_code t]) @ [(CEE_LDC_I8, arg64 n)])"
    by (intro inserts_bind inserts)
  then show ?thesis by simp
qed

lemma inserts_boxes_call:
  "inserts (\<lambda>w. emit_boxes boxes w \<bind> CallMember ref False) (map (\<lambda>t. (CEE_BOX, arg32 t)) boxes @ [(CEE_CALL, arg32 ref)])"
  using inserts_bind [OF inserts_emit_boxes inserts_simple(9), of boxes ref False] by simp

lemma unbox_after:
  assumes l: "il_list (m_ILRewriter w) (as @ c # bs)" and p: "m_ILInstr w = c"
  obtains w' nu where "(case unbox of None \<Rightarrow> Some w | Some t \<Rightarrow> UnboxAnyAfter t w) = Some w'"
    "il_list (m_ILRewriter w') (as @ c # nu @ bs)"
    "map (instr_code (m_ILRewriter w')) nu = map Some (case unbox of None \<Rightarrow> [] | Some t \<Rightarrow> [(CEE_UNBOX_ANY, arg32 t)])"
    "\<And>z. z \<in> set (as @ c # bs) \<Longrightarrow> instr_code (m_ILRewriter w') z = instr_code (m_ILRewriter w) z"
    "rw_rest (m_ILRewriter w') = rw_rest (m_ILRewriter w)"
proof (cases unbox)
  case None
  then show thesis using l by (intro that [of w "[]"]) simp_all
next
  case (Some t)
  have "il_list (m_ILRewriter w) ((as @ [c]) @ bs)" using l by simp
  from UnboxAnyAfter_inserts [OF this, of t] p obtain w' v where v: "UnboxAnyAfter t w = Some w'"
      "il_list (m_ILRewriter w') ((as @ [c]) @ v # bs)" "instr_code (m_ILRewriter w') v = Some (CEE_UNBOX_ANY, arg32 t)"
      "\<forall>z \<in> set ((as @ [c]) @ bs). instr_code (m_ILRewriter w') z = instr_code (m_ILRewriter w) z"
      "rw_rest (m_ILRewriter w') = rw_rest (m_ILRewriter w)" by auto
  show thesis by (rule that [of w' "[v]"]) (use v Some in auto)
qed

text \<open>Every inserted instruction is a new cell.\<close>

lemma insert_instr_brk: "insert_instr op a w = Some w' \<Longrightarrow> il_brk (m_ILRewriter w') = il_brk (m_ILRewriter w) + 1"
  by (auto simp: insert_instr_def split: bind_splits dest!: emit_brk)

lemma LoadInt32_brk: "LoadInt32 v w = Some w' \<Longrightarrow> il_brk (m_ILRewriter w') = il_brk (m_ILRewriter w) + 1"
  by (auto simp: LoadInt32_def split: if_split_asm dest!: insert_instr_brk)

lemma UnboxAnyAfter_brk: "UnboxAnyAfter t w = Some w' \<Longrightarrow> il_brk (m_ILRewriter w') = il_brk (m_ILRewriter w) + 1"
  by (auto simp: UnboxAnyAfter_def split: bind_splits prod.splits dest!: instr_brk)

lemma emit_boxes_brk: "emit_boxes ts w = Some w' \<Longrightarrow> il_brk (m_ILRewriter w') = il_brk (m_ILRewriter w) + length ts"
  by (induction ts arbitrary: w) (auto simp: Box_def split: bind_splits dest!: insert_instr_brk)

lemma replace_call_brk:
  assumes "replace_call d behind ptr md wrapper target ref def a s rw = Some (a', s', rw')"
    "last_argument_boxes d behind md (fi_signature target) s = Some (boxes, s1)" "unbox_result md wrapper target s1 = Some (unbox, s2)"
  shows "il_brk rw' = il_brk rw + length (wrapper_call op boxes ref def ptr unbox)"
proof -
  from assms(1) [unfolded replace_call_def Let_def] assms(2,3) obtain i rw1 w1 w2 n w3 w4 w5 w6 where c:
      "get_instr a rw = Some i" "upd_instr a (m_opcode_update (\<lambda>_. CEE_NOP)) rw = Some rw1"
      "emit_boxes boxes \<lparr>m_ILRewriter = rw1, m_ILInstr = m_pNext i\<rparr> = Some w1" "CallMember ref False w1 = Some w2"
      "get_instr (m_pNext i) (m_ILRewriter w2) = Some n" "LoadInt32 (m_opcode i) (SetILPosition (m_pPrev n) w2) = Some w3" "LoadInt32 def w3 = Some w4" "LoadInt64 ptr w4 = Some w5"
      "(case unbox of None \<Rightarrow> Some w5 | Some t \<Rightarrow> UnboxAnyAfter t w5) = Some w6" "rw' = m_ILRewriter w6"
    by (auto split: bind_splits)
  have "il_brk (m_ILRewriter w6) = il_brk (m_ILRewriter w5) + (case unbox of None \<Rightarrow> 0 | Some t \<Rightarrow> 1)"
    using c(9) by (auto split: option.splits dest: UnboxAnyAfter_brk)
  moreover have "il_brk (m_ILRewriter w5) = il_brk (m_ILRewriter w2) + 3"
    using c(6-8) by (auto simp: LoadInt64_def SetILPosition_def dest!: insert_instr_brk LoadInt32_brk)
  moreover have "il_brk (m_ILRewriter w2) = il_brk rw + length boxes + 1"
    using c(2,3,4) by (auto simp: CallMember_def dest!: insert_instr_brk emit_boxes_brk upd_instr_brk)
  ultimately show ?thesis using c(10) by (simp add: wrapper_call_def split: option.split)
qed

text \<open>The call becomes a \<open>nop\<close>, and nothing else changes.\<close>

lemma nop_call:
  assumes l: "il_list rw (as @ x # bs)" and x: "instr_code rw x = Some (op, a)"
  obtains rw' i where "get_instr x rw = Some i" "m_pNext i = hd (bs @ [m_IL])" "m_opcode i = op"
    "upd_instr x (m_opcode_update (\<lambda>_. CEE_NOP)) rw = Some rw'" "il_list rw' (as @ x # bs)"
    "instr_code rw' x = Some (CEE_NOP, a)" "\<And>z. z \<in> set (as @ bs) \<Longrightarrow> instr_code rw' z = instr_code rw z"
    "rw_rest rw' = rw_rest rw"
proof -
  obtain i where i: "get_instr x rw = Some i" "m_pNext i = hd (bs @ [m_IL])" using il_list_next [OF l] by auto
  define rw' where "rw' = rw\<lparr>il_heap := modify (il_heap rw) x (m_opcode_update (\<lambda>_. CEE_NOP))\<rparr>"
  have "upd_instr x (m_opcode_update (\<lambda>_. CEE_NOP)) rw = Some rw'"
    using i(1) unfolding rw'_def get_instr_def by (intro upd_instr_eq) simp
  moreover have "il_list rw' (as @ x # bs)" unfolding rw'_def using l by (intro modify_il_list) simp_all
  moreover have "x \<notin> set (as @ bs)" using l by (auto simp: il_list_def)
  then have "instr_code rw' z = instr_code rw z" if "z \<in> set (as @ bs)" for z
    using that by (auto simp: rw'_def instr_code_def modify_def)
  moreover have "m_opcode i = op" "instr_code rw' x = Some (CEE_NOP, a)" "rw_rest rw' = rw_rest rw"
    using i(1) x by (auto simp: rw'_def instr_code_def get_instr_def rw_rest_def)
  ultimately show thesis using i that by blast
qed

lemma replace_call_spec:
  assumes l: "il_list rw (as @ x # y # bs)" and x: "instr_code rw x = Some (op, a)"
    and boxes: "last_argument_boxes d behind md (fi_signature target) s = Some (boxes, s1)"
    and unbox: "unbox_result md wrapper target s1 = Some (unbox, s2)"
  shows "\<exists>rw' ns. replace_call d behind mvid_ptr md wrapper target ref def x s rw = Some (y, s2, rw') \<and>
    il_list rw' (as @ x # ns @ y # bs) \<and> instr_code rw' x = Some (CEE_NOP, a) \<and>
    map (instr_code rw') ns = map Some (wrapper_call op boxes ref def mvid_ptr unbox) \<and>
    (\<forall>z \<in> set (as @ y # bs). instr_code rw' z = instr_code rw z) \<and> rw_rest rw' = rw_rest rw"
proof -
  obtain rw1 i where i: "get_instr x rw = Some i" "m_pNext i = y" "m_opcode i = op"
      "upd_instr x (m_opcode_update (\<lambda>_. CEE_NOP)) rw = Some rw1" "il_list rw1 (as @ x # y # bs)"
    and c1: "instr_code rw1 x = Some (CEE_NOP, a)" "\<And>z. z \<in> set (as @ y # bs) \<Longrightarrow> instr_code rw1 z = instr_code rw z"
      "rw_rest rw1 = rw_rest rw"
    by (rule nop_call [OF l x]) auto
  define w1 where "w1 = \<lparr>m_ILRewriter = rw1, m_ILInstr = y\<rparr>"
  have w1: "il_list (m_ILRewriter w1) ((as @ [x]) @ y # bs)" "m_ILInstr w1 = hd ((y # bs) @ [m_IL])"
    using i(5) by (simp_all add: w1_def)
  obtain w3 ncs where w3: "(emit_boxes boxes w1 \<bind> CallMember ref False) = Some w3"
      "il_list (m_ILRewriter w3) ((as @ [x]) @ ncs @ y # bs)"
      "map (instr_code (m_ILRewriter w3)) ncs = map Some (map (\<lambda>t. (CEE_BOX, arg32 t)) boxes @ [(CEE_CALL, arg32 ref)])"
      "\<And>z. z \<in> set ((as @ [x]) @ y # bs) \<Longrightarrow> instr_code (m_ILRewriter w3) z = instr_code (m_ILRewriter w1) z"
      "rw_rest (m_ILRewriter w3) = rw_rest (m_ILRewriter w1)"
    by (rule insertsD [OF inserts_boxes_call w1]) blast
  then obtain nb nc where nc: "ncs = nb @ [nc]" "instr_code (m_ILRewriter w3) nc = Some (CEE_CALL, arg32 ref)"
      "map (instr_code (m_ILRewriter w3)) nb = map Some (map (\<lambda>t. (CEE_BOX, arg32 t)) boxes)"
    by (cases ncs rule: rev_cases) auto
  have l3: "il_list (m_ILRewriter w3) ((as @ [x] @ nb) @ nc # y # bs)" using w3(2) nc by simp
  obtain n where n: "get_instr y (m_ILRewriter w3) = Some n" "m_pPrev n = nc" using il_list_prev [OF l3] by blast
  define w4 where "w4 = SetILPosition nc w3"
  have p4: "il_list (m_ILRewriter w4) ((as @ [x] @ nb) @ nc # y # bs)" "m_ILInstr w4 = hd ((nc # y # bs) @ [m_IL])"
    and r4: "m_ILRewriter w4 = m_ILRewriter w3"
    using l3 by (simp_all add: w4_def SetILPosition_def)
  obtain w5 nl where w5: "(LoadInt32 op w4 \<bind> LoadInt32 def \<bind> LoadInt64 mvid_ptr) = Some w5" "m_ILInstr w5 = m_ILInstr w4"
      "il_list (m_ILRewriter w5) ((as @ [x] @ nb) @ nl @ nc # y # bs)"
      "map (instr_code (m_ILRewriter w5)) nl = map Some [load_int32_code op, load_int32_code def, (CEE_LDC_I8, arg64 mvid_ptr)]"
      "\<And>z. z \<in> set ((as @ [x] @ nb) @ nc # y # bs) \<Longrightarrow> instr_code (m_ILRewriter w5) z = instr_code (m_ILRewriter w4) z"
      "rw_rest (m_ILRewriter w5) = rw_rest (m_ILRewriter w4)"
    by (rule insertsD [OF inserts_wrapper_call p4]) blast
  have l5: "il_list (m_ILRewriter w5) ((as @ [x] @ nb @ nl) @ nc # y # bs)" "m_ILInstr w5 = nc"
    using w5(2,3) p4(2) by simp_all
  obtain w6 nu where w6: "(case unbox of None \<Rightarrow> Some w5 | Some t \<Rightarrow> UnboxAnyAfter t w5) = Some w6"
      "il_list (m_ILRewriter w6) ((as @ [x] @ nb @ nl) @ nc # nu @ y # bs)"
      "map (instr_code (m_ILRewriter w6)) nu = map Some (case unbox of None \<Rightarrow> [] | Some t \<Rightarrow> [(CEE_UNBOX_ANY, arg32 t)])"
      "\<And>z. z \<in> set ((as @ [x] @ nb @ nl) @ nc # y # bs) \<Longrightarrow> instr_code (m_ILRewriter w6) z = instr_code (m_ILRewriter w5) z"
      "rw_rest (m_ILRewriter w6) = rw_rest (m_ILRewriter w5)"
    by (rule unbox_after [OF l5]) blast
  obtain w2 wa wb where "emit_boxes boxes w1 = Some w2" "CallMember ref False w2 = Some w3"
      "LoadInt32 op (SetILPosition nc w3) = Some wa" "LoadInt32 def wa = Some wb" "LoadInt64 mvid_ptr wb = Some w5"
    using w3(1) w5(1) by (auto simp: bind_eq_Some_conv w4_def)
  with w6(1) i boxes unbox n have "replace_call d behind mvid_ptr md wrapper target ref def x s rw = Some (y, s2, m_ILRewriter w6)"
    by (cases unbox) (simp_all add: replace_call_def Let_def w1_def [symmetric])
  moreover have same: "instr_code (m_ILRewriter w6) z = instr_code rw1 z" if "z \<in> set (as @ x # y # bs)" for z
    using that w6(4) [of z] w5(5) [of z] w3(4) [of z] r4 by (auto simp: w1_def)
  moreover have "map (instr_code (m_ILRewriter w6)) (nb @ nl @ [nc] @ nu) =
      map Some (wrapper_call op boxes ref def mvid_ptr unbox)"
  proof -
    have "map (instr_code (m_ILRewriter w6)) nb = map (instr_code (m_ILRewriter w3)) nb"
      using w6(4) w5(5) r4 by (intro map_cong) auto
    moreover have "map (instr_code (m_ILRewriter w6)) nl = map (instr_code (m_ILRewriter w5)) nl"
      using w6(4) by (intro map_cong) auto
    moreover have "instr_code (m_ILRewriter w6) nc = Some (CEE_CALL, arg32 ref)"
      using w6(4) [of nc] w5(5) [of nc] nc(2) r4 by simp
    ultimately show ?thesis using nc(3) w5(4) w6(3) by (simp add: wrapper_call_def)
  qed
  moreover have "instr_code (m_ILRewriter w6) z = instr_code rw z" if "z \<in> set (as @ y # bs)" for z
    using that same [of z] c1(2) [of z] by auto
  ultimately show ?thesis
    using c1 w6(2,5) w5(6) w3(5) r4
    by (intro exI [of _ "m_ILRewriter w6"] exI [of _ "nb @ nl @ [nc] @ nu"]) (simp add: w1_def)
qed

section \<open>The loop over the instructions\<close>

text \<open>
  What becomes of a sequence of instructions, for a decision on every call that may change the
  state: a call that is replaced becomes a \<open>nop\<close> followed by the call of the wrapper, and the
  instruction behind it is passed over, whatever it is. If there is none the result is not given.
\<close>

fun rewritten :: "(opcode \<Rightarrow> u32 \<Rightarrow> 'm \<Rightarrow> ((opcode \<times> operand) list option \<times> 'm) option) \<Rightarrow> (opcode \<times> operand) list \<Rightarrow>
    'm \<Rightarrow> bool \<Rightarrow> ((opcode \<times> operand) list \<times> bool \<times> 'm) option" where
  "rewritten dec [] ms modified = Some ([], modified, ms)"
| "rewritten dec ((op, x) # is) ms modified =
     (if op \<noteq> CEE_CALL \<and> op \<noteq> CEE_CALLVIRT then do {
        (js, modified, ms) \<leftarrow> rewritten dec is ms modified;
        Some ((op, x) # js, modified, ms) }
      else do {
        arg \<leftarrow> m_Arg32 x;
        (code, ms) \<leftarrow> dec op arg ms;
        case code of
          None \<Rightarrow> do {
            (js, modified, ms) \<leftarrow> rewritten dec is ms modified;
            Some ((op, x) # js, modified, ms) }
        | Some code \<Rightarrow>
            (case is of
               [] \<Rightarrow> None
             | i # is \<Rightarrow> do {
                 (js, modified, ms) \<leftarrow> rewritten dec is ms True;
                 Some ((CEE_NOP, x) # code @ i # js, modified, ms) }) })"

definition decide :: "nat \<Rightarrow> 's profiler_info \<Rightarrow> 's CorProfiler \<Rightarrow> byte list \<Rightarrow> u64 \<Rightarrow> u64 \<Rightarrow> MethodReplacement \<Rightarrow>
    opcode \<Rightarrow> u32 \<Rightarrow> 's ModuleMetadata \<times> 's \<Rightarrow> ((opcode \<times> operand) list option \<times> 's ModuleMetadata \<times> 's) option" where
  "decide d info p behind mvid_ptr module_id r op arg ms = do {
     (check, m, s) \<leftarrow> check_call d info p module_id r arg (fst ms) (snd ms);
     case check of
       Skip \<Rightarrow> Some (None, m, s)
     | Match target ref def \<Rightarrow> do {
         (boxes, s) \<leftarrow> last_argument_boxes d behind (mm_metadata m) (fi_signature target) s;
         (unbox, s) \<leftarrow> unbox_result (mm_metadata m) (wrapper_method r) target s;
         Some (Some (wrapper_call op boxes ref def mvid_ptr unbox), m, s) }
   }"

lemma decide_replaced:
  assumes "decide d info p behind mvid_ptr module_id r op arg (m, s) = Some (Some code, m', s')"
  obtains target ref def s1 boxes s2 unbox where
    "check_call d info p module_id r arg m s = Some (Match target ref def, m', s1)"
    "last_argument_boxes d behind (mm_metadata m') (fi_signature target) s1 = Some (boxes, s2)"
    "unbox_result (mm_metadata m') (wrapper_method r) target s2 = Some (unbox, s')"
    "code = wrapper_call op boxes ref def mvid_ptr unbox"
  using assms by (auto simp: decide_def split: bind_splits prod.splits call_check.splits)

lemma decide_skipped:
  assumes "decide d info p behind mvid_ptr module_id r op arg (m, s) = Some (None, m', s')"
  shows "check_call d info p module_id r arg m s = Some (Skip, m', s')"
  using assms by (auto simp: decide_def split: bind_splits prod.splits call_check.splits)

text \<open>An instruction that is passed over.\<close>

lemma loop_passes:
  assumes "il_list rw (as @ x # bs)" "instr_code rw x = Some (op, a)"
    and "(op \<noteq> CEE_CALL \<and> op \<noteq> CEE_CALLVIRT \<and> m' = m \<and> s' = s) \<or>
      ((op = CEE_CALL \<or> op = CEE_CALLVIRT) \<and> m_Arg32 a = Some arg \<and>
        check_call d info p module_id r arg m s = Some (Skip, m', s'))"
  shows "replace_loop d info p behind mvid_ptr module_id r x modified m s rw =
    replace_loop d info p behind mvid_ptr module_id r (hd (bs @ [m_IL])) modified m' s' rw"
proof -
  obtain i where i: "get_instr x rw = Some i" "m_pNext i = hd (bs @ [m_IL])" using il_list_next [OF assms(1)] by blast
  have "m_opcode i = op" "m_operand i = a" using i(1) assms(2) by (auto simp: instr_code_def get_instr_def)
  moreover have "x \<noteq> m_IL" using assms(1) by (auto simp: il_list_def)
  ultimately show ?thesis
    using assms(3) i by (subst replace_loop.simps) auto
qed

text \<open>A call that is replaced.\<close>

lemma loop_replaces:
  assumes l: "il_list rw (as @ x # y # bs)" and c: "instr_code rw x = Some (op, a)" "op = CEE_CALL \<or> op = CEE_CALLVIRT"
    and arg: "m_Arg32 a = Some arg"
    and dec: "decide d info p behind mvid_ptr module_id r op arg (m, s) = Some (Some code, m', s')"
  obtains rw' ns where "replace_loop d info p behind mvid_ptr module_id r x modified m s rw =
      replace_loop d info p behind mvid_ptr module_id r (hd (bs @ [m_IL])) True m' s' rw'"
    "il_list rw' (as @ x # ns @ y # bs)" "instr_code rw' x = Some (CEE_NOP, a)" "map (instr_code rw') ns = map Some code"
    "\<And>z. z \<in> set (as @ y # bs) \<Longrightarrow> instr_code rw' z = instr_code rw z" "rw_rest rw' = rw_rest rw"
    "list_all inserted code" "il_brk rw' = il_brk rw + length code"
proof -
  obtain target ref def s1 boxes s2 unbox where t: "check_call d info p module_id r arg m s = Some (Match target ref def, m', s1)"
      "last_argument_boxes d behind (mm_metadata m') (fi_signature target) s1 = Some (boxes, s2)"
      "unbox_result (mm_metadata m') (wrapper_method r) target s2 = Some (unbox, s')"
      "code = wrapper_call op boxes ref def mvid_ptr unbox"
    by (rule decide_replaced [OF dec])
  from replace_call_spec [OF l c(1) t(2,3), of mvid_ptr ref def]
  obtain rw' ns where r: "replace_call d behind mvid_ptr (mm_metadata m') (wrapper_method r) target ref def x s1 rw = Some (y, s', rw')"
      "il_list rw' (as @ x # ns @ y # bs)" "instr_code rw' x = Some (CEE_NOP, a)"
      "map (instr_code rw') ns = map Some code" "\<forall>z \<in> set (as @ y # bs). instr_code rw' z = instr_code rw z"
      "rw_rest rw' = rw_rest rw"
    unfolding t(4) by blast
  obtain i where i: "get_instr x rw = Some i" using il_list_next [OF l] by blast
  have i': "m_opcode i = op" "m_operand i = a" using i c(1) by (auto simp: instr_code_def get_instr_def)
  have "il_list rw' ((as @ x # ns) @ y # bs)" using r(2) by simp
  from il_list_next [OF this] obtain n where n: "get_instr y rw' = Some n" "m_pNext n = hd (bs @ [m_IL])" by blast
  have "x \<noteq> m_IL" using l by (auto simp: il_list_def)
  then have "replace_loop d info p behind mvid_ptr module_id r x modified m s rw =
      replace_loop d info p behind mvid_ptr module_id r (hd (bs @ [m_IL])) True m' s' rw'"
    using i i' c(2) arg t(1) r(1) n by (subst replace_loop.simps) auto
  from that [OF this r(2-4) _ r(6)] r(5) replace_call_brk [OF r(1) t(2,3), of op] wrapper_call_inserted t(4)
  show thesis by blast
qed

text \<open>The cells of the list stay in it, in their order, so that jumps to them keep their target.\<close>

lemma replace_loop_refines:
  "rewritten (decide d info p behind mvid_ptr module_id r) is (m, s) modified = Some (js, modified', m', s') \<Longrightarrow>
   il_list rw (as @ bs) \<Longrightarrow> map (instr_code rw) bs = map Some is \<Longrightarrow>
   \<exists>rw' cs. replace_loop d info p behind mvid_ptr module_id r (hd (bs @ [m_IL])) modified m s rw = Some (modified', m', s', rw') \<and>
     il_list rw' (as @ cs) \<and> map (instr_code rw') cs = map Some js \<and> woven bs is cs js \<and>
     (\<forall>z \<in> set as. instr_code rw' z = instr_code rw z) \<and> rw_rest rw' = rw_rest rw \<and>
     il_brk rw' + length is = il_brk rw + length js"
proof (induction "length is" arbitrary: "is" m s modified js rw as bs rule: less_induct)
  case less
  let ?dec = "decide d info p behind mvid_ptr module_id r" and ?loop = "replace_loop d info p behind mvid_ptr module_id r"
  show ?case
  proof (cases "is")
    case Nil
    then show ?thesis using less.prems by (intro exI [of _ rw] exI [of _ "[]"]) (simp add: replace_loop.simps woven.empty)
  next
    case (Cons j is')
    obtain op a where j: "j = (op, a)" by (cases j)
    obtain x bs' where bs: "bs = x # bs'" "instr_code rw x = Some (op, a)" "map (instr_code rw) bs' = map Some is'"
      using less.prems(3) by (auto simp: Cons j Cons_eq_map_conv map_eq_Cons_conv)
    have l: "il_list rw (as @ x # bs')" "il_list rw ((as @ [x]) @ bs')" using less.prems(2) by (simp_all add: bs)
    have passed: ?thesis if "rewritten ?dec is' (m1, s1) modified = Some (js', modified', m', s')" "js = (op, a) # js'"
        "(op \<noteq> CEE_CALL \<and> op \<noteq> CEE_CALLVIRT \<and> m1 = m \<and> s1 = s) \<or> ((op = CEE_CALL \<or> op = CEE_CALLVIRT) \<and>
          m_Arg32 a = Some arg \<and> check_call d info p module_id r arg m s = Some (Skip, m1, s1))" for m1 s1 js' arg
    proof -
      note pass = that
      have "?loop x modified m s rw = ?loop (hd (bs' @ [m_IL])) modified m1 s1 rw"
        by (rule loop_passes [OF l(1) bs(2) pass(3)])
      moreover obtain rw' cs where "?loop (hd (bs' @ [m_IL])) modified m1 s1 rw = Some (modified', m', s', rw')"
          "il_list rw' ((as @ [x]) @ cs)" "map (instr_code rw') cs = map Some js'" "woven bs' is' cs js'"
          "\<forall>z \<in> set (as @ [x]). instr_code rw' z = instr_code rw z" "rw_rest rw' = rw_rest rw"
          "il_brk rw' + length is' = il_brk rw + length js'"
        using less.hyps [OF _ pass(1) l(2) bs(3)] by (auto simp: Cons)
      ultimately show ?thesis
        using bs(1,2) pass(2) Cons j by (intro exI [of _ rw'] exI [of _ "x # cs"]) (simp add: woven.kept)
    qed
    consider "op \<noteq> CEE_CALL \<and> op \<noteq> CEE_CALLVIRT" |
      arg where "op = CEE_CALL \<or> op = CEE_CALLVIRT" "m_Arg32 a = Some arg"
      using less.prems(1) by (cases "op = CEE_CALL \<or> op = CEE_CALLVIRT") (auto simp: Cons j split: bind_splits)
    then show ?thesis
    proof cases
      case 1
      then obtain js' where "rewritten ?dec is' (m, s) modified = Some (js', modified', m', s')" "js = (op, a) # js'"
        using less.prems(1) by (auto simp: Cons j split: bind_splits)
      then show ?thesis using 1 by (intro passed) auto
    next
      case (2 arg)
      then obtain c m1 s1 where dec: "?dec op arg (m, s) = Some (c, m1, s1)"
        using less.prems(1) by (auto simp: Cons j split: bind_splits)
      show ?thesis
      proof (cases c)
        case None
        with 2 dec less.prems(1) obtain js' where
            "rewritten ?dec is' (m1, s1) modified = Some (js', modified', m', s')" "js = (op, a) # js'"
          by (auto simp: Cons j split: bind_splits)
        then show ?thesis using 2 None dec by (intro passed) (auto dest: decide_skipped)
      next
        case (Some code)
        with 2 dec less.prems(1) obtain i is2 js' where tail: "is' = i # is2"
            "rewritten ?dec is2 (m1, s1) True = Some (js', modified', m', s')" "js = (CEE_NOP, a) # code @ i # js'"
          by (auto simp: Cons j split: bind_splits list.splits)
        obtain y bs2 where y: "bs' = y # bs2" "instr_code rw y = Some i" "map (instr_code rw) bs2 = map Some is2"
          using bs(3) by (auto simp: tail Cons_eq_map_conv map_eq_Cons_conv)
        have ly: "il_list rw (as @ x # y # bs2)" using l(1) by (simp add: y)
        obtain rw1 ns where r: "?loop x modified m s rw = ?loop (hd (bs2 @ [m_IL])) True m1 s1 rw1"
            "il_list rw1 (as @ x # ns @ y # bs2)" "instr_code rw1 x = Some (CEE_NOP, a)" "map (instr_code rw1) ns = map Some code"
            "\<And>z. z \<in> set (as @ y # bs2) \<Longrightarrow> instr_code rw1 z = instr_code rw z" "rw_rest rw1 = rw_rest rw"
            "list_all inserted code" "il_brk rw1 = il_brk rw + length code"
          by (rule loop_replaces [OF ly bs(2) 2 dec [unfolded Some]]) blast
        have l1: "il_list rw1 ((as @ x # ns @ [y]) @ bs2)" using r(2) by simp
        have c1: "map (instr_code rw1) bs2 = map Some is2"
          unfolding y(3) [symmetric] using r(5) by (intro map_cong) auto
        obtain rw' cs where IH: "?loop (hd (bs2 @ [m_IL])) True m1 s1 rw1 = Some (modified', m', s', rw')"
            "il_list rw' ((as @ x # ns @ [y]) @ cs)" "map (instr_code rw') cs = map Some js'" "woven bs2 is2 cs js'"
            "\<forall>z \<in> set (as @ x # ns @ [y]). instr_code rw' z = instr_code rw1 z" "rw_rest rw' = rw_rest rw1"
            "il_brk rw' + length is2 = il_brk rw1 + length js'"
          using less.hyps [OF _ tail(2) l1 c1] by (auto simp: Cons tail)
        have "map (instr_code rw') ns = map Some code"
          unfolding r(4) [symmetric] using IH(5) by (intro map_cong) auto
        moreover have "woven bs is (x # ns @ y # cs) js"
          unfolding bs(1) y(1) Cons j tail(1,3)
          using woven.call [OF woven.kept [OF IH(4)] 2(1) _ r(7)] map_eq_imp_length_eq [OF r(4)] by simp
        moreover have "il_brk rw' + length is = il_brk rw + length js" using IH(7) r(8) by (simp add: Cons tail(1,3))
        ultimately show ?thesis
          using r(1-6) IH(1-6) y bs(1) tail(3)
          by (intro exI [of _ rw'] exI [of _ "x # ns @ y # cs"]) auto
      qed
    qed
  qed
qed

section \<open>All replacements of a method\<close>

fun rewritten_all :: "nat \<Rightarrow> 's profiler_info \<Rightarrow> 's CorProfiler \<Rightarrow> byte list \<Rightarrow> u64 \<Rightarrow> u64 \<Rightarrow> MethodReplacement list \<Rightarrow>
    (opcode \<times> operand) list \<Rightarrow> bool \<Rightarrow> 's ModuleMetadata \<Rightarrow> 's \<Rightarrow> ((opcode \<times> operand) list \<times> bool \<times> 's ModuleMetadata \<times> 's) option" where
  "rewritten_all d info p behind mvid_ptr module_id [] is modified m s = Some (is, modified, m, s)"
| "rewritten_all d info p behind mvid_ptr module_id (r # rs) is modified m s =
     (if action (wrapper_method r) \<noteq> W ''ReplaceTargetMethod'' \<or>
         IsFailedWrapperMemberKey m (get_method_cache_key (wrapper_method r))
      then rewritten_all d info p behind mvid_ptr module_id rs is modified m s
      else do {
        (is, modified, m, s) \<leftarrow> rewritten (decide d info p behind mvid_ptr module_id r) is (m, s) modified;
        rewritten_all d info p behind mvid_ptr module_id rs is modified m s })"

lemma il_list_first:
  assumes "il_list rw xs"
  shows "\<exists>i. get_instr m_IL rw = Some i \<and> m_pNext i = hd (xs @ [m_IL])"
  using il_list_ends [of rw "[]" xs m_IL "hd (xs @ [m_IL])"] assms by (auto simp: get_instr_def)

lemma all_replacements_refines:
  "rewritten_all d info p behind mvid_ptr module_id rs is modified m s = Some (js, modified', m', s') \<Longrightarrow>
   il_list rw xs \<Longrightarrow> map (instr_code rw) xs = map Some is \<Longrightarrow>
   \<exists>rw' cs. all_replacements d info p behind mvid_ptr module_id rs modified m s rw = Some (modified', m', s', rw') \<and>
     il_list rw' cs \<and> map (instr_code rw') cs = map Some js \<and> rw_rest rw' = rw_rest rw \<and>
     (\<lambda>(xs, is) (cs, js). woven xs is cs js)\<^sup>*\<^sup>* (xs, is) (cs, js) \<and> il_brk rw' + length is = il_brk rw + length js"
proof (induction rs arbitrary: "is" modified m s rw xs)
  case (Cons r rs)
  show ?case
  proof (cases "action (wrapper_method r) \<noteq> W ''ReplaceTargetMethod'' \<or>
      IsFailedWrapperMemberKey m (get_method_cache_key (wrapper_method r))")
    case True
    then show ?thesis using Cons.IH [OF _ Cons.prems(2,3)] Cons.prems(1) by auto
  next
    case False
    then obtain is1 modified1 m1 s1 where r: "rewritten (decide d info p behind mvid_ptr module_id r) is (m, s) modified =
          Some (is1, modified1, m1, s1)"
        "rewritten_all d info p behind mvid_ptr module_id rs is1 modified1 m1 s1 = Some (js, modified', m', s')"
      using Cons.prems(1) by (auto split: bind_splits)
    have l: "il_list rw ([] @ xs)" using Cons.prems(2) by simp
    obtain rw1 cs where one: "replace_loop d info p behind mvid_ptr module_id r (hd (xs @ [m_IL])) modified m s rw =
          Some (modified1, m1, s1, rw1)"
        "il_list rw1 cs" "map (instr_code rw1) cs = map Some is1" "woven xs is cs is1" "rw_rest rw1 = rw_rest rw"
        "il_brk rw1 + length is = il_brk rw + length is1"
      using replace_loop_refines [OF r(1) l Cons.prems(3)] by auto
    obtain i where i: "get_instr m_IL rw = Some i" "m_pNext i = hd (xs @ [m_IL])" using il_list_first [OF Cons.prems(2)] by blast
    obtain rw' cs' where two: "all_replacements d info p behind mvid_ptr module_id rs modified1 m1 s1 rw1 = Some (modified', m', s', rw')"
        "il_list rw' cs'" "map (instr_code rw') cs' = map Some js" "rw_rest rw' = rw_rest rw1"
        "(\<lambda>(xs, is) (cs, js). woven xs is cs js)\<^sup>*\<^sup>* (cs, is1) (cs', js)" "il_brk rw' + length is1 = il_brk rw1 + length js"
      using Cons.IH [OF r(2) one(2,3)] by blast
    have "(\<lambda>(xs, is) (cs, js). woven xs is cs js)\<^sup>*\<^sup>* (xs, is) (cs', js)"
      using one(4) two(5) by (intro converse_rtranclp_into_rtranclp [OF _ two(5)]) simp
    moreover have "il_brk rw' + length is = il_brk rw + length js" using one(6) two(6) by simp
    ultimately show ?thesis using False i one(1-3,5) two(1-4) by (intro exI [of _ rw'] exI [of _ cs']) simp
  qed
qed auto

section \<open>When a call is replaced\<close>

lemma types_match_list_all2:
  "length actual_sig = length expected_sig \<Longrightarrow>
   types_match expected_sig actual_sig \<longleftrightarrow> list_all2 (\<lambda>e a. e = W ''_'' \<or> e = a) expected_sig actual_sig"
  by (induction expected_sig actual_sig rule: types_match.induct) auto

lemma NumberOfArguments_less: "NumberOfArguments sig < 256"
  by (simp add: NumberOfArguments_def)

lemma word_of_nat_eq_iff_u64: "a < 2 ^ 64 \<Longrightarrow> b < 2 ^ 64 \<Longrightarrow> (word_of_nat a :: u64) = word_of_nat b \<longleftrightarrow> a = b"
  by (simp add: word_unat_eq_iff unat_of_nat)

text \<open>The subtraction cannot wrap into a number of arguments.\<close>

lemma expected_number_args_iff:
  "expected_number_args wrapper target = word_of_nat (NumberOfArguments (fi_signature target)) \<longleftrightarrow>
   NumberOfArguments (method_signature wrapper) =
     NumberOfArguments (fi_signature target) + 3 + (if IsInstanceMethod (fi_signature target) then 1 else 0)"
proof -
  let ?w = "NumberOfArguments (method_signature wrapper)" and ?t = "NumberOfArguments (fi_signature target)"
    and ?i = "if IsInstanceMethod (fi_signature target) then 1 else 0 :: nat"
  have "expected_number_args wrapper target = word_of_nat ?t \<longleftrightarrow> (word_of_nat ?w :: u64) = word_of_nat (?t + 3 + ?i)"
    by (auto simp: expected_number_args_def algebra_simps)
  also have "\<dots> \<longleftrightarrow> ?w = ?t + 3 + ?i"
    using NumberOfArguments_less [of "method_signature wrapper"] NumberOfArguments_less [of "fi_signature target"]
    by (intro word_of_nat_eq_iff_u64) auto
  finally show ?thesis .
qed

lemma GetWrapperMethodRef_extends:
  assumes "GetWrapperMethodRef info module_id r m s = Some (ok, ref, m', s')"
  shows "module_extends m m'"
  using assms by (auto simp: GetWrapperMethodRef_def Let_def dest: StoreWrapperMethodRef_extends
      split: option.splits if_split_asm prod.splits bind_splits)

lemma check_call_extends:
  assumes "check_call d info p module_id r arg m s = Some (c, m', s')"
  shows "module_extends m m'"
  using assms by (auto simp: check_call_def Let_def dest: GetWrapperMethodRef_extends
      split: option.splits if_split_asm prod.splits bind_splits)

end
