(* ===== verification/Replacement_Contracts.thy ===== *)
theory Replacement_Contracts
  imports Replacement_Spec
begin

text \<open>
  What the rewriting of method bodies in cor\_profiler.cpp promises: the properties of the
  replacement and of the insertion of calls, with a sample runtime.
\<close>

section \<open>A sample runtime\<close>

text \<open>
  One module, where every method consists of two calls of the sample target, one behind the
  other, and a return; the wrapper of the sample replacement has been resolved before.
\<close>

definition two_calls :: "byte list" where
  "two_calls = [0x28, 1, 0, 0, 0x0a, 0x28, 1, 0, 0, 0x0a, 0x2a]"

definition two_calls_body :: "byte list" where
  "two_calls_body = ucast (CorILMethod_TinyFormat OR push_bit 2 (word_of_nat (length two_calls) :: u32)) # two_calls"

definition sample_replacement :: MethodReplacement where
  "sample_replacement = \<lparr>caller_method = MethodReference_nil,
     target_method = MethodReference_nil\<lparr>type_name := W ''System.List`1'', method_name := W ''Get'',
       signature_types := [W ''System.Int32'', W ''_'']\<rparr>,
     wrapper_method = MethodReference_nil\<lparr>mr_assembly := AssemblyReference_nil\<lparr>ar_name := managed_assembly\<rparr>,
       type_name := W ''Wrapper'', method_name := W ''Run'', action := W ''ReplaceTargetMethod'',
       method_signature := [0, 4, 0x1c, 8, 8, 8, 0x0a]\<rparr>\<rparr>"

definition sample_key :: WSTRING where
  "sample_key = get_method_cache_key (wrapper_method sample_replacement)"

definition cached_module :: "nat ModuleMetadata" where
  "cached_module = SetWrapperMemberRef sample_key 0x0a000007 sample_module"

definition sample_info :: "nat profiler_info" where
  "sample_info = \<lparr>pi_GetRuntimeInformation = (\<lambda>s. (S_OK, 2, 3, 1, 0, 0)),
     pi_GetAssemblyInfo = (\<lambda>s a. (S_OK, 4, W ''App'', 1, 5)), pi_GetAppDomainInfo = (\<lambda>s a. (S_OK, 7, W ''Default'')),
     pi_GetModuleInfo2 = (\<lambda>s m. (S_OK, 8, W ''App.dll'', 3, 0)), pi_GetFunctionInfo = (\<lambda>s f. (S_OK, 5, 0x06000001)),
     pi_GetModuleMetaData = (\<lambda>s m. (S_OK, sample_interfaces)), pi_SetEventMask = (\<lambda>mask s. (S_OK, s)),
     pi_GetILFunctionBody = (\<lambda>s m t. (S_OK, 0, two_calls_body)),
     pi_GetILFunctionBodyAllocator = (\<lambda>s m. S_OK), pi_Alloc = (\<lambda>s. True),
     pi_SetILFunctionBody = (\<lambda>m t b s. (S_OK, Suc s)), pi_memory = (\<lambda>i. 0), pi_padding = (\<lambda>i. 0)\<rparr>"

definition sample_profiler :: "nat CorProfiler" where
  "sample_profiler = (CorProfiler_init 0)\<lparr>managed_profiler_loaded_app_domains := {1}\<rparr>"

definition sample_target :: FunctionInfo where
  "sample_target = \<lparr>fi_id = 0x0a000001, fi_name = W ''Get'', fi_type = \<lparr>ti_id = 0x01000002, ti_name = W ''System.List`1''\<rparr>,
     is_generic = False, fi_signature = [0, 1, 8, 8], function_spec_signature = [], method_def_id = 0\<rparr>"

text \<open>The metadata of the sample module does not depend on the state; neither does the check of the call.\<close>

lemma sample_GetFunctionInfo: "GetFunctionInfo 6 sample_interfaces s 0x0a000001 = Some sample_target"
  by code_simp

lemma sample_types: "TryParseSignatureTypes 6 sample_interfaces s sample_target = Some (Some [W ''System.Int32'', W ''System.Int32''])"
  by code_simp

definition sample_cached :: "nat ModuleMetadata \<Rightarrow> bool" where
  "sample_cached m \<longleftrightarrow> mm_metadata m = sample_interfaces \<and> mm_app_domain_id m = 1 \<and>
     TryGetWrapperMemberRef m sample_key = Some 0x0a000007"

lemma cached_module_cached: "sample_cached cached_module"
  by (simp add: sample_cached_def cached_module_def members.lookup_store)
    (simp add: SetWrapperMemberRef_def sample_module_def ModuleMetadata_init_def)

lemma sample_check_at:
  assumes m: "sample_cached m" and p: "ProfilerAssemblyIsLoadedIntoAppDomain p 1" "\<not> corlib_module_loaded p"
  shows "check_call 6 info p module_id sample_replacement 0x0a000001 m s =
   Some (Match sample_target 0x0a000007 0x0a000001, m, s)"
proof -
  have md: "mm_metadata m = sample_interfaces" "mm_app_domain_id m = 1" using m by (simp_all add: sample_cached_def)
  have args: "expected_number_args (wrapper_method sample_replacement) sample_target = word_of_nat (NumberOfArguments (fi_signature sample_target))"
    unfolding expected_number_args_iff by (simp add: sample_replacement_def sample_target_def NumberOfArguments_def
        generic_convention_def CallingConvention_def IsInstanceMethod_def)
  have types: "types_match (signature_types (target_method sample_replacement)) [W ''System.Int32'', W ''System.Int32'']"
    by (simp add: sample_replacement_def)
  have ref: "GetWrapperMethodRef info module_id sample_replacement m s = Some (True, 0x0a000007, m, s)"
    using m by (simp add: GetWrapperMethodRef_def sample_cached_def sample_key_def)
  show ?thesis
    by (simp add: check_call_def md sample_GetFunctionInfo args ref sample_types types Let_def)
      (simp add: sample_target_def sample_replacement_def FunctionInfo_IsValid_def md p)
qed

lemma sample_decide_at:
  assumes "sample_cached m" "ProfilerAssemblyIsLoadedIntoAppDomain p 1" "\<not> corlib_module_loaded p"
  shows "decide 6 info p [0] 0x1000 module_id sample_replacement CEE_CALL 0x0a000001 (m, s) =
    Some (Some (wrapper_call CEE_CALL [] 0x0a000007 0x0a000001 0x1000 (Some 0x01000009)), m, s)"
proof -
  have boxes: "last_argument_boxes 6 [0] sample_interfaces (fi_signature sample_target) s = Some ([], s)" by code_simp
  have unbox: "unbox_result sample_interfaces (wrapper_method sample_replacement) sample_target s = Some (Some 0x01000009, s)"
    by code_simp
  have "mm_metadata m = sample_interfaces" using assms(1) by (simp add: sample_cached_def)
  with boxes unbox show ?thesis by (simp add: decide_def sample_check_at [OF assms])
qed

lemma sample_check_in:
  assumes "ProfilerAssemblyIsLoadedIntoAppDomain p 1" "\<not> corlib_module_loaded p"
  shows "check_call 6 sample_info p 5 sample_replacement 0x0a000001 cached_module 0 =
   Some (Match sample_target 0x0a000007 0x0a000001, cached_module, 0)"
  by (rule sample_check_at [OF cached_module_cached assms])

lemma sample_loaded: "ProfilerAssemblyIsLoadedIntoAppDomain sample_profiler 1" "\<not> corlib_module_loaded sample_profiler"
  by (simp_all add: ProfilerAssemblyIsLoadedIntoAppDomain_def sample_profiler_def CorProfiler_init_def)

lemma sample_check:
  "check_call 6 sample_info sample_profiler 5 sample_replacement 0x0a000001 cached_module 0 =
   Some (Match sample_target 0x0a000007 0x0a000001, cached_module, 0)"
  by (rule sample_check_in [OF sample_loaded])

lemma sample_decide:
  "decide 6 sample_info sample_profiler [0] 0x1000 5 sample_replacement CEE_CALL 0x0a000001 (cached_module, 0) =
   Some (Some (wrapper_call CEE_CALL [] 0x0a000007 0x0a000001 0x1000 (Some 0x01000009)), cached_module, 0)"
  by (rule sample_decide_at [OF cached_module_cached sample_loaded])

section \<open>Loading a body without jumps\<close>

lemma Import_tiny_body:
  assumes n: "length code < 64" and raws: "decode_il code = Some raws"
    and straight: "list_all (\<lambda>(start, op, arg). opcode_flags op \<notin> Some ` {0x11, 0x14}) raws"
  shows "\<exists>zs rw. Import S_OK base (ucast (CorILMethod_TinyFormat OR push_bit 2 (word_of_nat (length code) :: u32)) # code)
      (ILRewriter_init control module_id tk) = Some (S_OK, rw) \<and>
    il_list rw zs \<and> map (instr_code rw) zs = map Some (map (\<lambda>(start, op, arg). (op, Bits arg)) raws)"
proof -
  let ?n = "word_of_nat (length code) :: u32"
  define rw where "rw = (ILRewriter_init control module_id tk)\<lparr>m_tkLocalVarSig := 0, m_maxStack := 8,
    m_flags := CorILMethod_TinyFormat AND CorILMethod_InitLocals, m_CodeSize := ?n\<rparr>"
  have l: "il_list rw []" using ILRewriter_init_il_list [of control module_id tk]
    il_list_cong [of rw "ILRewriter_init control module_id tk" "[]"] by (simp add: rw_def)
  have "unat (m_CodeSize rw) = length code" using n unat_of_nat_u32 [of "length code"] by (simp add: rw_def)
  from ImportIL_decode [OF this _ _ l, of code] n raws obtain zs rw' T where i: "ImportIL code rw = Some (S_OK, rw')"
      "il_list rw' zs" "map (instr_code rw') zs = map (\<lambda>r. Some (resolve T r)) raws"
    by (auto simp: Let_def)
  have r: "map (\<lambda>r. Some (resolve T r)) raws = map Some (map (\<lambda>(start, op, arg). (op, Bits arg)) raws)"
    using straight by (auto simp: resolve_def list_all_iff)
  have "Import S_OK base (ucast (CorILMethod_TinyFormat OR push_bit 2 ?n) # code) (ILRewriter_init control module_id tk) =
      Some (S_OK, rw'\<lparr>m_nEH := 0\<rparr>)"
    using i(1) by (simp add: Import_def DecoderInit_tiny [OF n] rw_def decoder_clauses_def ImportEH_def)
  moreover have "il_list (rw'\<lparr>m_nEH := 0\<rparr>) zs" using i(2) il_list_cong [of "rw'\<lparr>m_nEH := 0\<rparr>" rw' zs] by simp
  moreover have "map (instr_code (rw'\<lparr>m_nEH := 0\<rparr>)) zs = map (instr_code rw') zs" by (simp add: instr_code_def)
  ultimately show ?thesis using i(3) r by metis
qed

definition sample_instrs :: "(opcode \<times> operand) list" where
  "sample_instrs = [(CEE_CALL, Bits 0x0a000001), (CEE_CALL, Bits 0x0a000001), (CEE_RET, Bits 0)]"

lemma sample_Import:
  "\<exists>zs rw. rewriter_Import sample_info 0 5 0x06000001 = Some (S_OK, rw) \<and> il_list rw zs \<and>
    map (instr_code rw) zs = map Some sample_instrs"
proof -
  have flags: "opcode_flags 0x28 = Some 4" "opcode_flags 0x2a = Some 0" "opcode_flags 40 = Some 4" "opcode_flags 42 = Some 0"
    by code_simp+
  have "length two_calls = Suc (Suc (Suc 8))" by (simp add: two_calls_def)
  then have d: "decode_il two_calls = Some [(Some 0, 0x28, 0x0a000001), (Some 5, 0x28, 0x0a000001), (Some 10, 0x2a, 0)]"
    by (simp add: decode_il_def two_calls_def valid_opcode_def decode_operand_def flags_size_def flags)
  have "list_all (\<lambda>(start, op, arg). opcode_flags op \<notin> Some ` {0x11, 0x14})
      [(Some 0, 0x28, 0x0a000001), (Some 5, 0x28, 0x0a000001), (Some 10, 0x2a, 0) :: raw]" by code_simp
  from Import_tiny_body [OF _ d this, of 0 False 5 "0x06000001"] show ?thesis
    by (simp add: rewriter_Import_def sample_info_def two_calls_body_def sample_instrs_def two_calls_def)
qed

lemma sample_rewritten:
  "rewritten (decide 6 sample_info sample_profiler [0] 0x1000 5 sample_replacement) sample_instrs (cached_module, 0) False =
   Some ((CEE_NOP, Bits 0x0a000001) # wrapper_call CEE_CALL [] 0x0a000007 0x0a000001 0x1000 (Some 0x01000009) @
     [(CEE_CALL, Bits 0x0a000001), (CEE_RET, Bits 0)], True, cached_module, 0)"
  by (simp add: sample_instrs_def sample_decide)

lemma sample_rewritten_all:
  "rewritten_all 6 sample_info sample_profiler [0] 0x1000 5 [sample_replacement] sample_instrs False cached_module 0 =
   Some ((CEE_NOP, Bits 0x0a000001) # wrapper_call CEE_CALL [] 0x0a000007 0x0a000001 0x1000 (Some 0x01000009) @
     [(CEE_CALL, Bits 0x0a000001), (CEE_RET, Bits 0)], True, cached_module, 0)"
proof -
  have "action (wrapper_method sample_replacement) = W ''ReplaceTargetMethod''" by (simp add: sample_replacement_def)
  moreover have "\<not> IsFailedWrapperMemberKey cached_module k" for k
    by (simp add: cached_module_def IsFailedWrapperMemberKey_def sample_module_def ModuleMetadata_init_def)
  ultimately show ?thesis by (simp add: sample_rewritten)
qed

section \<open>Insertion\<close>

text \<open>The wrapper methods to insert calls of, in the order of the integrations.\<close>

fun inserted_refs :: "'s profiler_info \<Rightarrow> u64 \<Rightarrow> MethodReplacement list \<Rightarrow> 's ModuleMetadata \<Rightarrow> 's \<Rightarrow>
    (mdToken list \<times> 's ModuleMetadata \<times> 's) option" where
  "inserted_refs info module_id [] m s = Some ([], m, s)"
| "inserted_refs info module_id (r # rs) m s =
     (if action (wrapper_method r) = W ''ReplaceTargetMethod'' \<or>
         IsFailedWrapperMemberKey m (get_method_cache_key (wrapper_method r))
      then inserted_refs info module_id rs m s
      else do {
        (generated, ref, m, s) \<leftarrow> GetWrapperMethodRef info module_id r m s;
        if generated \<and> action (wrapper_method r) = W ''InsertFirst'' then do {
          (refs, m, s) \<leftarrow> inserted_refs info module_id rs m s;
          Some (ref # refs, m, s) }
        else inserted_refs info module_id rs m s })"

definition calls_of :: "mdToken list \<Rightarrow> (opcode \<times> operand) list" where
  "calls_of refs = map (\<lambda>ref. (CEE_CALL, arg32 ref)) refs"

lemma call_inserted:
  assumes l: "il_list (m_ILRewriter w) cs" and c: "map (instr_code (m_ILRewriter w)) cs = map Some is"
  obtains w' nc i where "CallMember ref False (SetILPosition (hd (cs @ [m_IL])) w) = Some w'"
    "get_instr (hd (cs @ [m_IL])) (m_ILRewriter w') = Some i" "m_pPrev i = nc"
    "il_list (m_ILRewriter w') (nc # cs)" "map (instr_code (m_ILRewriter w')) (nc # cs) = map Some (calls_of [ref] @ is)"
    "rw_rest (m_ILRewriter w') = rw_rest (m_ILRewriter w)" "il_brk (m_ILRewriter w') = il_brk (m_ILRewriter w) + 1"
proof -
  let ?w = "SetILPosition (hd (cs @ [m_IL])) w"
  have w: "il_list (m_ILRewriter ?w) ([] @ cs)" "m_ILInstr ?w = hd (cs @ [m_IL])" "m_ILRewriter ?w = m_ILRewriter w"
    using l by (simp_all add: SetILPosition_def)
  obtain w' ns where w': "CallMember ref False ?w = Some w'" "il_list (m_ILRewriter w') ([] @ ns @ cs)"
      "map (instr_code (m_ILRewriter w')) ns = map Some [(if False then CEE_CALLVIRT else CEE_CALL, arg32 ref)]"
      "\<And>z. z \<in> set ([] @ cs) \<Longrightarrow> instr_code (m_ILRewriter w') z = instr_code (m_ILRewriter ?w) z"
      "rw_rest (m_ILRewriter w') = rw_rest (m_ILRewriter ?w)"
    by (rule insertsD [OF inserts_simple(9) w(1,2)]) blast
  obtain nc where nc: "ns = [nc]" "instr_code (m_ILRewriter w') nc = Some (CEE_CALL, arg32 ref)"
    using w'(3) by (auto simp: map_eq_Cons_conv)
  have l': "il_list (m_ILRewriter w') ([nc] @ cs)" using w'(2) nc by simp
  obtain i where i: "get_instr (hd (cs @ [m_IL])) (m_ILRewriter w') = Some i" "m_pPrev i = nc"
    using il_list_ends [OF l' refl refl] by (auto simp: get_instr_def)
  have "map (instr_code (m_ILRewriter w')) cs = map Some is"
    unfolding c [symmetric] using w'(4) w(3) by (intro map_cong) auto
  moreover have "il_brk (m_ILRewriter w') = il_brk (m_ILRewriter w) + 1"
    using insert_instr_brk w'(1) w(3) by (fastforce simp: CallMember_def)
  ultimately show thesis using w' w(3) l' i nc by (intro that [of w' i nc]) (simp_all add: calls_of_def)
qed

lemma insertion_loop_refs:
  "inserted_refs info module_id rs m s = Some (refs, m', s') \<Longrightarrow> il_list (m_ILRewriter w) cs \<Longrightarrow>
   map (instr_code (m_ILRewriter w)) cs = map Some is \<Longrightarrow>
   \<exists>w' ds. insertion_loop info module_id rs modified (hd (cs @ [m_IL])) m s w = Some (modified \<or> refs \<noteq> [], m', s', w') \<and>
     il_list (m_ILRewriter w') (ds @ cs) \<and> map (instr_code (m_ILRewriter w')) (ds @ cs) = map Some (calls_of (rev refs) @ is) \<and>
     rw_rest (m_ILRewriter w') = rw_rest (m_ILRewriter w) \<and> il_brk (m_ILRewriter w') = il_brk (m_ILRewriter w) + length refs"
proof (induction rs arbitrary: m s refs w cs "is" modified)
  case Nil
  then show ?case by (auto simp: calls_of_def intro!: exI [of _ w] exI [of _ "[]"])
next
  case (Cons r rs)
  let ?skip = "action (wrapper_method r) = W ''ReplaceTargetMethod'' \<or> IsFailedWrapperMemberKey m (get_method_cache_key (wrapper_method r))"
  show ?case
  proof (cases ?skip)
    case True
    then show ?thesis using Cons.IH [OF _ Cons.prems(2,3)] Cons.prems(1) by auto
  next
    case False
    then obtain ok ref m1 s1 where g: "GetWrapperMethodRef info module_id r m s = Some (ok, ref, m1, s1)"
      using Cons.prems(1) by (auto split: bind_splits)
    show ?thesis
    proof (cases "ok \<and> action (wrapper_method r) = W ''InsertFirst''")
      case False
      then have "inserted_refs info module_id rs m1 s1 = Some (refs, m', s')"
        using Cons.prems(1) \<open>\<not> ?skip\<close> g by auto
      from Cons.IH [OF this Cons.prems(2,3), of modified] False \<open>\<not> ?skip\<close> g show ?thesis by (cases ok) simp_all
    next
      case True
      then obtain refs' where tail: "inserted_refs info module_id rs m1 s1 = Some (refs', m', s')" "refs = ref # refs'"
        using Cons.prems(1) \<open>\<not> ?skip\<close> g by (auto split: bind_splits)
      obtain w1 nc i where c: "CallMember ref False (SetILPosition (hd (cs @ [m_IL])) w) = Some w1"
          "get_instr (hd (cs @ [m_IL])) (m_ILRewriter w1) = Some i" "m_pPrev i = nc"
          "il_list (m_ILRewriter w1) (nc # cs)" "map (instr_code (m_ILRewriter w1)) (nc # cs) = map Some (calls_of [ref] @ is)"
          "rw_rest (m_ILRewriter w1) = rw_rest (m_ILRewriter w)" "il_brk (m_ILRewriter w1) = il_brk (m_ILRewriter w) + 1"
        by (rule call_inserted [OF Cons.prems(2,3)])
      obtain w' ds where IH: "insertion_loop info module_id rs True (hd ((nc # cs) @ [m_IL])) m1 s1 w1 = Some (True, m', s', w')"
          "il_list (m_ILRewriter w') (ds @ nc # cs)"
          "map (instr_code (m_ILRewriter w')) (ds @ nc # cs) = map Some (calls_of (rev refs') @ calls_of [ref] @ is)"
          "rw_rest (m_ILRewriter w') = rw_rest (m_ILRewriter w1)"
          "il_brk (m_ILRewriter w') = il_brk (m_ILRewriter w1) + length refs'"
        using Cons.IH [OF tail(1) c(4,5), of True] by auto
      have "insertion_loop info module_id (r # rs) modified (hd (cs @ [m_IL])) m s w = Some (True, m', s', w')"
        using True \<open>\<not> ?skip\<close> g c(1-3) IH(1) by simp
      then show ?thesis
        using IH c(6,7) tail(2) by (intro exI [of _ w'] exI [of _ "ds @ [nc]"]) (simp add: calls_of_def)
    qed
  qed
qed

section \<open>Contracts\<close>

text \<open>
  C5. A call is only replaced if the name of its target is the one the integration asks for, the
  wrapper takes the arguments of the target, its instance if there is one, and three more, the
  types named in the integration are those of the target's signature, and, for a wrapper in the
  managed profiler, that assembly has been loaded into the application domain of the caller,
  which is not the shared domain unless that is configured. What was cached stays cached.
\<close>

theorem replaced_only_if:
  assumes "check_call d info p module_id r arg m s = Some (Match target ref def, m', s')"
  shows "GetFunctionInfo d (mm_metadata m) s arg = Some target \<and> FunctionInfo_IsValid target \<and>
    type_name (target_method r) = ti_name (fi_type target) \<and> method_name (target_method r) = fi_name target \<and>
    NumberOfArguments (method_signature (wrapper_method r)) =
      NumberOfArguments (fi_signature target) + 3 + (if IsInstanceMethod (fi_signature target) then 1 else 0) \<and>
    (\<exists>s1 types. TryParseSignatureTypes d (mm_metadata m) s1 target = Some (Some types) \<and>
      list_all2 (\<lambda>e a. e = W ''_'' \<or> e = a) (signature_types (target_method r)) types) \<and>
    (if ar_name (mr_assembly (wrapper_method r)) = managed_assembly
     then ProfilerAssemblyIsLoadedIntoAppDomain p (mm_app_domain_id m) \<and>
       (instrument_domain_neutral_assemblies p \<or>
        \<not> (is_desktop (runtime_information p) \<and> corlib_module_loaded p \<and> mm_app_domain_id m = corlib_app_domain_id p))
     else True) \<and>
    module_extends m m'"
proof -
  have e: "module_extends m m'" by (rule check_call_extends [OF assms])
  then have f: "mm_app_domain_id m' = mm_app_domain_id m" "mm_metadata m' = mm_metadata m"
    by (simp_all add: module_extends_def fixed_part_def)
  from assms e f show ?thesis
    by (auto simp: check_call_def Let_def expected_number_args_iff types_match_list_all2
        split: option.splits if_split_asm prod.splits bind_splits)
qed

theorem replaced_only_if_witness:
  "NumberOfArguments (method_signature (wrapper_method sample_replacement)) = 4 \<and>
   ProfilerAssemblyIsLoadedIntoAppDomain sample_profiler (mm_app_domain_id cached_module)"
proof -
  have "NumberOfArguments (fi_signature sample_target) = 1" "\<not> IsInstanceMethod (fi_signature sample_target)"
      "ar_name (mr_assembly (wrapper_method sample_replacement)) = managed_assembly"
    by (simp_all add: sample_target_def sample_replacement_def NumberOfArguments_def generic_convention_def
        CallingConvention_def IsInstanceMethod_def)
  with replaced_only_if [OF sample_check] show ?thesis by simp
qed

text \<open>
  C3. ProcessReplacementCalls rewrites the body as the list function says: for every integration
  of the method, every matching call becomes a nop, followed by the boxes, the constants the
  wrapper expects, the call of the wrapper and the unboxing of its result, in place. The loops
  over the linked list end; every instruction of the body stays, in order and in its cell, so
  that jumps to a replaced call arrive at its nop; the rest of the body is untouched. The new
  body is handed to the runtime exactly if something was replaced.
\<close>

theorem ProcessReplacementCalls_implements:
  assumes "rewriter_Import info s module_id tk = Some (hr, rw)" "\<not> FAILED hr"
    "il_list rw xs" "map (instr_code rw) xs = map Some is"
    "rewritten_all d info p behind mvid_ptr module_id rs is False m s = Some (js, modified, m', s')"
  shows "\<exists>rw' cs. il_list rw' cs \<and> map (instr_code rw') cs = map Some js \<and> subseq xs cs \<and> rw_rest rw' = rw_rest rw \<and>
    ProcessReplacementCalls d info p behind mvid_ptr module_id tk rs m s =
      (if modified then map_option (\<lambda>(hr, s''). (S_OK, m', s'')) (rewriter_Export info rw' s') else Some (S_OK, m', s'))"
proof -
  obtain rw' cs where r: "all_replacements d info p behind mvid_ptr module_id rs False m s rw = Some (modified, m', s', rw')"
      "il_list rw' cs" "map (instr_code rw') cs = map Some js" "subseq xs cs" "rw_rest rw' = rw_rest rw"
    using all_replacements_refines [OF assms(5,3,4)] woven_all_subseq by blast
  have "ProcessReplacementCalls d info p behind mvid_ptr module_id tk rs m s =
      (if modified then map_option (\<lambda>(hr, s''). (S_OK, m', s'')) (rewriter_Export info rw' s') else Some (S_OK, m', s'))"
    using assms(1,2) r(1) by (cases "rewriter_Export info rw' s'") (auto simp: ProcessReplacementCalls_def)
  with r(2-5) show ?thesis by blast
qed

theorem ProcessReplacementCalls_implements_witness:
  "\<exists>rw' cs. il_list rw' cs \<and> map (instr_code rw') cs = map Some ([(CEE_NOP, Bits 0x0a000001)] @
      wrapper_call CEE_CALL [] 0x0a000007 0x0a000001 0x1000 (Some 0x01000009) @
      [(CEE_CALL, Bits 0x0a000001), (CEE_RET, Bits 0)]) \<and>
    ProcessReplacementCalls 6 sample_info sample_profiler [0] 0x1000 5 0x06000001 [sample_replacement] cached_module 0 =
      map_option (\<lambda>(hr, s''). (S_OK, cached_module, s'')) (rewriter_Export sample_info rw' 0)"
proof -
  obtain zs rw where i: "rewriter_Import sample_info 0 5 0x06000001 = Some (S_OK, rw)" "il_list rw zs"
      "map (instr_code rw) zs = map Some sample_instrs"
    using sample_Import by blast
  from ProcessReplacementCalls_implements [OF i(1) _ i(2,3) sample_rewritten_all] show ?thesis by (simp del: map_eq_Cons_conv) (elim exE conjE, intro exI conjI, assumption+)
qed

text \<open>
  C39. The instruction behind a replaced call is never looked at: also when it is a call of the same
  method, it stays as it is. Of two calls one behind the other only the first is replaced.
\<close>

theorem adjacent_call_passed_over:
  assumes "il_list rw xs" "map (instr_code rw) xs = map Some ((CEE_CALL, Bits tok) # (CEE_CALL, Bits tok) # is)"
    and "decide d info p behind mvid_ptr module_id r CEE_CALL (ucast tok) (m, s) = Some (Some code, m1, s1)"
    and "rewritten (decide d info p behind mvid_ptr module_id r) is (m1, s1) True = Some (js, modified', m', s')"
  shows "\<exists>rw' cs. replace_loop d info p behind mvid_ptr module_id r (hd (xs @ [m_IL])) modified m s rw =
      Some (modified', m', s', rw') \<and> il_list rw' cs \<and>
    map (instr_code rw') cs = map Some ((CEE_NOP, Bits tok) # code @ (CEE_CALL, Bits tok) # js)"
proof -
  have r: "rewritten (decide d info p behind mvid_ptr module_id r) ((CEE_CALL, Bits tok) # (CEE_CALL, Bits tok) # is) (m, s) modified =
      Some ((CEE_NOP, Bits tok) # code @ (CEE_CALL, Bits tok) # js, modified', m', s')"
    using assms(3,4) by simp
  have l: "il_list rw ([] @ xs)" using assms(1) by simp
  obtain rw' cs where "replace_loop d info p behind mvid_ptr module_id r (hd (xs @ [m_IL])) modified m s rw =
      Some (modified', m', s', rw')" "il_list rw' ([] @ cs)"
      "map (instr_code rw') cs = map Some ((CEE_NOP, Bits tok) # code @ (CEE_CALL, Bits tok) # js)"
    using replace_loop_refines [OF r l assms(2)] by blast
  then show ?thesis by (intro exI [of _ rw'] exI [of _ cs]) simp
qed

theorem adjacent_call_passed_over_witness:
  "\<exists>rw xs rw' cs. il_list rw xs \<and> map (instr_code rw) xs = map Some sample_instrs \<and>
    replace_loop 6 sample_info sample_profiler [0] 0x1000 5 sample_replacement (hd (xs @ [m_IL])) False cached_module 0 rw =
      Some (True, cached_module, 0, rw') \<and> il_list rw' cs \<and> (CEE_CALL, Bits 0x0a000001) \<in> set (map (the \<circ> instr_code rw') cs)"
proof -
  obtain zs rw where i: "il_list rw zs" "map (instr_code rw) zs = map Some sample_instrs"
    using sample_Import by blast
  have dec: "decide 6 sample_info sample_profiler [0] 0x1000 5 sample_replacement CEE_CALL (ucast (0x0a000001 :: u64)) (cached_module, 0) =
      Some (Some (wrapper_call CEE_CALL [] 0x0a000007 0x0a000001 0x1000 (Some 0x01000009)), cached_module, 0)"
    using sample_decide by simp
  have rest: "rewritten (decide 6 sample_info sample_profiler [0] 0x1000 5 sample_replacement) [(CEE_RET, Bits 0)] (cached_module, 0) True =
      Some ([(CEE_RET, Bits 0)], True, cached_module, 0)" by simp
  obtain rw' cs where r: "replace_loop 6 sample_info sample_profiler [0] 0x1000 5 sample_replacement (hd (zs @ [m_IL])) False cached_module 0 rw =
        Some (True, cached_module, 0, rw')" "il_list rw' cs"
      "map (instr_code rw') cs = map Some ((CEE_NOP, Bits 0x0a000001) #
        wrapper_call CEE_CALL [] 0x0a000007 0x0a000001 0x1000 (Some 0x01000009) @ (CEE_CALL, Bits 0x0a000001) # [(CEE_RET, Bits 0)])"
    using adjacent_call_passed_over [OF i(1) i(2) [unfolded sample_instrs_def] dec rest, of False] by blast
  have "map (the \<circ> instr_code rw') cs = map the (map (instr_code rw') cs)" by simp
  also have "\<dots> = (CEE_NOP, Bits 0x0a000001) #
      wrapper_call CEE_CALL [] 0x0a000007 0x0a000001 0x1000 (Some 0x01000009) @ (CEE_CALL, Bits 0x0a000001) # [(CEE_RET, Bits 0)]"
    unfolding r(3) by (simp add: o_def)
  finally show ?thesis using i r(1,2) by (intro exI [of _ rw] exI [of _ zs] exI [of _ rw'] exI [of _ cs]) simp
qed

text \<open>
  The boxing of the last argument looks at the return type if there are no arguments: after a
  call of a method without arguments that returns a TimeSpan, a box is emitted for an argument
  that does not exist. And behind a value type the byte after the signature is read; if the
  memory ends there, that is a read out of bounds.
\<close>

lemma last_argument_of_none:
  assumes "sig_token tk" "GetTypeInfo d md s tk = Some ty" "ti_name ty = W ''System.TimeSpan''" "b \<noteq> ELEMENT_TYPE_GENERICINST"
    "sig = IMAGE_CEE_CS_CALLCONV_HASTHIS # 0 # ELEMENT_TYPE_VALUETYPE # snd (CorSigCompressToken tk)"
  shows "NumberOfArguments sig = 0 \<and> last_argument_boxes d (b # behind) md sig s = Some ([tk], s) \<and>
    last_argument_boxes d [] md sig s = None"
proof -
  have n: "NumberOfArguments sig = 0" "IndexOfReturnType sig = 2"
    using assms(5) by (simp_all add: NumberOfArguments_def IndexOfReturnType_def generic_convention_def CallingConvention_def)
  have "CorSigUncompressToken_ref (snd (CorSigCompressToken tk) @ rest) = Some (tk, rest)" for rest
    using assms(1) by (simp add: CorSigUncompressToken_ref_Compress)
  note token = this this [of "[]", simplified]
  have boxes: "value_type_boxes d md s (ELEMENT_TYPE_VALUETYPE # snd (CorSigCompressToken tk) @ rest) = Some ([tk], rest)" for rest
    using token assms(2,3) by (simp add: value_type_boxes_def byte_at_def)
  have "drop (IndexOfReturnType sig) (sig @ rest) = ELEMENT_TYPE_VALUETYPE # snd (CorSigCompressToken tk) @ rest" for rest
    by (simp only: n(2)) (simp add: assms(5))
  moreover have "drop 2 sig = ELEMENT_TYPE_VALUETYPE # snd (CorSigCompressToken tk)" by (simp add: assms(5))
  ultimately show ?thesis
    using n boxes boxes [of "[]", simplified] assms(4)
    by (simp add: last_argument_boxes_def read_only_memory_boxes_def byte_at_def)
qed

lemma last_argument_of_none_witness:
  "last_argument_boxes 6 [0] (sample_interfaces\<lparr>GetTypeRefProps := (\<lambda>s t. (S_OK, W ''System.TimeSpan'', 16))\<rparr>)
     [0x20, 0, 0x11, 9] 0 = Some ([0x01000002], 0)"
proof -
  let ?md = "sample_interfaces\<lparr>GetTypeRefProps := (\<lambda>s t. (S_OK, W ''System.TimeSpan'', 16))\<rparr>"
  have "GetTypeInfo 6 ?md 0 0x01000002 = Some \<lparr>ti_id = 0x01000002, ti_name = W ''System.TimeSpan''\<rparr>" by code_simp
  moreover have "sig_token 0x01000002" "snd (CorSigCompressToken 0x01000002) = [9]" by code_simp+
  ultimately show ?thesis
    using last_argument_of_none [of "0x01000002" 6 ?md 0 _ 0 "[0x20, 0, 0x11, 9]" "[]"] by simp
qed

text \<open>
  ProcessInsertionCalls puts a call of every wrapper whose action is InsertFirst and whose
  reference can be had in front of the body, the last integration first, and leaves the body
  behind the calls as it was; the new body is handed to the runtime exactly if there is a call.
\<close>

lemma ProcessInsertionCalls_prepends:
  assumes "rewriter_Import info s module_id tk = Some (hr, rw)" "\<not> FAILED hr"
    "il_list rw xs" "map (instr_code rw) xs = map Some is"
    "inserted_refs info module_id rs m s = Some (refs, m', s')"
  shows "\<exists>rw' ds. il_list rw' (ds @ xs) \<and> map (instr_code rw') (ds @ xs) = map Some (calls_of (rev refs) @ is) \<and>
    rw_rest rw' = rw_rest rw \<and> il_brk rw' = il_brk rw + length refs \<and>
    ProcessInsertionCalls info module_id tk rs m s =
      (if refs = [] then Some (S_OK, m', s')
       else map_option (\<lambda>(hr, s''). (if FAILED hr then hr else S_OK, m', s'')) (rewriter_Export info rw' s'))"
proof -
  let ?w = "\<lparr>m_ILRewriter = rw, m_ILInstr = NULL\<rparr>"
  obtain w' ds where r: "insertion_loop info module_id rs False (hd (xs @ [m_IL])) m s ?w = Some (refs \<noteq> [], m', s', w')"
      "il_list (m_ILRewriter w') (ds @ xs)" "map (instr_code (m_ILRewriter w')) (ds @ xs) = map Some (calls_of (rev refs) @ is)"
      "rw_rest (m_ILRewriter w') = rw_rest rw" "il_brk (m_ILRewriter w') = il_brk rw + length refs"
    using insertion_loop_refs [OF assms(5), of ?w xs "is" False] assms(3,4) by auto
  obtain i where i: "get_instr m_IL rw = Some i" "m_pNext i = hd (xs @ [m_IL])" using il_list_first [OF assms(3)] by blast
  have "ProcessInsertionCalls info module_id tk rs m s =
      (if refs = [] then Some (S_OK, m', s')
       else map_option (\<lambda>(hr, s''). (if FAILED hr then hr else S_OK, m', s'')) (rewriter_Export info (m_ILRewriter w') s'))"
    using assms(1,2) r(1) i by (cases "rewriter_Export info (m_ILRewriter w') s'") (auto simp: ProcessInsertionCalls_def)
  with r(2-5) show ?thesis by blast
qed

definition sample_insertion :: MethodReplacement where
  "sample_insertion = sample_replacement\<lparr>wrapper_method := (wrapper_method sample_replacement)\<lparr>action := W ''InsertFirst''\<rparr>\<rparr>"

lemma sample_inserted_refs:
  "inserted_refs sample_info 5 [sample_insertion] cached_module 0 = Some ([0x0a000007], cached_module, 0)"
proof -
  have a: "action (wrapper_method sample_insertion) = W ''InsertFirst''" "W ''InsertFirst'' \<noteq> W ''ReplaceTargetMethod''"
    by (simp add: sample_insertion_def) code_simp
  have "get_method_cache_key (wrapper_method sample_insertion) = sample_key"
    by (simp add: sample_insertion_def sample_key_def get_method_cache_key_def)
  then have "GetWrapperMethodRef sample_info 5 sample_insertion cached_module 0 = Some (True, 0x0a000007, cached_module, 0)"
    by (simp add: GetWrapperMethodRef_def cached_module_def members.lookup_store)
  moreover have "\<not> IsFailedWrapperMemberKey cached_module k" for k
    by (simp add: cached_module_def IsFailedWrapperMemberKey_def sample_module_def ModuleMetadata_init_def)
  ultimately show ?thesis using a by simp
qed

end
