(* ===== verification/Startup.thy ===== *)
theory Startup
  imports Call_Replacement
begin

text \<open>
  The startup hook (cor\_profiler.cpp): \<open>GenerateVoidILStartupMethod\<close> adds to a module a type
  with a method that loads the managed loader from memory, and \<open>RunILStartupHook\<close> calls it at
  the beginning of the method that is about to be compiled; and what the generated method calls
  back, \<open>GetAssemblyAndSymbolsBytes\<close>.
\<close>

section \<open>Names and signatures\<close>

abbreviation (input) CEE_LDLOC_1 :: opcode where "CEE_LDLOC_1 \<equiv> 0x07"
abbreviation (input) CEE_LDLOC_2 :: opcode where "CEE_LDLOC_2 \<equiv> 0x08"
abbreviation (input) CEE_LDLOC_3 :: opcode where "CEE_LDLOC_3 \<equiv> 0x09"
abbreviation (input) CEE_LDLOC_S :: opcode where "CEE_LDLOC_S \<equiv> 0x11"
abbreviation (input) CEE_LDLOCA_S :: opcode where "CEE_LDLOCA_S \<equiv> 0x12"
abbreviation (input) CEE_STLOC_S :: opcode where "CEE_STLOC_S \<equiv> 0x13"
abbreviation (input) IMAGE_CEE_CS_CALLCONV_DEFAULT :: byte where "IMAGE_CEE_CS_CALLCONV_DEFAULT \<equiv> 0x00"
abbreviation (input) IMAGE_CEE_CS_CALLCONV_LOCAL_SIG :: byte where "IMAGE_CEE_CS_CALLCONV_LOCAL_SIG \<equiv> 0x07"

definition initialize_signature :: "byte list" where
  "initialize_signature = [IMAGE_CEE_CS_CALLCONV_DEFAULT, 0, ELEMENT_TYPE_VOID, ELEMENT_TYPE_OBJECT]"

definition get_assembly_bytes_signature :: "byte list" where
  "get_assembly_bytes_signature =
     [IMAGE_CEE_CS_CALLCONV_DEFAULT, 4, ELEMENT_TYPE_VOID, ELEMENT_TYPE_BYREF, ELEMENT_TYPE_I, ELEMENT_TYPE_BYREF,
      ELEMENT_TYPE_I4, ELEMENT_TYPE_BYREF, ELEMENT_TYPE_I, ELEMENT_TYPE_BYREF, ELEMENT_TYPE_I4]"

definition marshal_copy_signature :: "byte list" where
  "marshal_copy_signature =
     [IMAGE_CEE_CS_CALLCONV_DEFAULT, 4, ELEMENT_TYPE_VOID, ELEMENT_TYPE_I, ELEMENT_TYPE_SZARRAY, ELEMENT_TYPE_U1,
      ELEMENT_TYPE_I4, ELEMENT_TYPE_I4]"

definition appdomain_get_current_domain_signature :: "mdToken \<Rightarrow> byte list" where
  "appdomain_get_current_domain_signature system_appdomain_type_ref =
     [IMAGE_CEE_CS_CALLCONV_DEFAULT, 0, ELEMENT_TYPE_CLASS] @ snd (CorSigCompressToken system_appdomain_type_ref)"

definition appdomain_load_signature :: "mdToken \<Rightarrow> byte list" where
  "appdomain_load_signature system_reflection_assembly_type_ref =
     [IMAGE_CEE_CS_CALLCONV_HASTHIS, 2, ELEMENT_TYPE_CLASS] @ snd (CorSigCompressToken system_reflection_assembly_type_ref) @
     [ELEMENT_TYPE_SZARRAY, ELEMENT_TYPE_U1, ELEMENT_TYPE_SZARRAY, ELEMENT_TYPE_U1]"

definition assembly_create_instance_signature :: "byte list" where
  "assembly_create_instance_signature = [IMAGE_CEE_CS_CALLCONV_HASTHIS, 1, ELEMENT_TYPE_OBJECT, ELEMENT_TYPE_STRING]"

text \<open>An array of 15 bytes, of which the initialiser leaves the last four zero.\<close>

definition locals_signature :: "mdToken \<Rightarrow> byte list" where
  "locals_signature system_reflection_assembly_type_ref =
     take 15 ([IMAGE_CEE_CS_CALLCONV_LOCAL_SIG, 7, ELEMENT_TYPE_I, ELEMENT_TYPE_I4, ELEMENT_TYPE_I, ELEMENT_TYPE_I4,
       ELEMENT_TYPE_SZARRAY, ELEMENT_TYPE_U1, ELEMENT_TYPE_SZARRAY, ELEMENT_TYPE_U1, ELEMENT_TYPE_CLASS] @
       snd (CorSigCompressToken system_reflection_assembly_type_ref) @ replicate 4 0)"

definition load_helper_str :: WSTRING where
  "load_helper_str = W ''Datadog.Trace.ClrProfiler.Managed.Loader.Startup''"

text \<open>\<open>bit64\<close> is whether \<open>BIT64\<close> is defined in the build.\<close>

definition native_profiler_file :: "bool \<Rightarrow> environment \<Rightarrow> WSTRING" where
  "native_profiler_file bit64 env =
     (case env of
        Windows _ \<Rightarrow> W ''SignalFx.Tracing.ClrProfiler.Native.DLL''
      | Unix _ \<Rightarrow>
          (let native_profiler_file = the (GetEnvironmentValue env
                 (if bit64 then W ''CORECLR_PROFILER_PATH_64'' else W ''CORECLR_PROFILER_PATH_32'')) in
           if native_profiler_file = [] then the (GetEnvironmentValue env (W ''CORECLR_PROFILER_PATH''))
           else native_profiler_file))"

section \<open>GenerateVoidILStartupMethod\<close>

text \<open>A call of the runtime and what follows it: a failure ends the function with its HRESULT.\<close>

definition attempt :: "hresult \<times> 'a \<times> 's \<Rightarrow> ('a \<Rightarrow> 's \<Rightarrow> (hresult + 'b) \<times> 's) \<Rightarrow> (hresult + 'b) \<times> 's" where
  "attempt r f = (let (hr, x, s) = r in if FAILED hr then (Inl hr, s) else f x s)"

definition result_only :: "hresult \<times> 's \<Rightarrow> hresult \<times> unit \<times> 's" where
  "result_only r = (fst r, (), snd r)"

record startup_tokens =
  ret_method_token :: mdToken
  pinvoke_method_def :: mdToken
  byte_type_ref :: mdToken
  marshal_copy_member_ref :: mdToken
  system_reflection_assembly_type_ref :: mdToken
  system_appdomain_type_ref :: mdToken
  appdomain_get_current_domain_member_ref :: mdToken
  appdomain_load_member_ref :: mdToken
  assembly_create_instance_member_ref :: mdToken
  load_helper_token :: mdToken
  locals_signature_token :: mdToken

text \<open>
  Everything before the instructions are added. The result of \<open>SetMethodImplFlags\<close> is tested,
  but never assigned.
\<close>

definition define_startup_method :: "bool \<Rightarrow> environment \<Rightarrow> 's module_interfaces \<Rightarrow> 's \<Rightarrow> (hresult + startup_tokens) \<times> 's" where
  "define_startup_method bit64 env md s =
     attempt (CreateAssemblyRefToMscorlib md s) (\<lambda>mscorlib_ref s.
     attempt (DefineTypeRefByName md mscorlib_ref (W ''System.Object'') s) (\<lambda>object_type_ref s.
     attempt (DefineTypeDef md (W ''__DDVoidMethodType__'') 0x180 object_type_ref s) (\<lambda>new_type_def s.
     attempt (DefineMethod md new_type_def (W ''__DDVoidMethodCall__'') 0x10 initialize_signature s) (\<lambda>ret_method s.
     attempt (DefineMethod md new_type_def (W ''GetAssemblyAndSymbolsBytes'') 0x2090 get_assembly_bytes_signature s) (\<lambda>pinvoke_method s.
     let s = snd (SetMethodImplFlags md pinvoke_method 0x80 s) in
     attempt (DefineModuleRef md (c_str (native_profiler_file bit64 env)) s) (\<lambda>profiler_ref s.
     attempt (result_only (DefinePinvokeMap md pinvoke_method 0 (W ''GetAssemblyAndSymbolsBytes'') profiler_ref s)) (\<lambda>_ s.
     attempt (DefineTypeRefByName md mscorlib_ref (W ''System.Byte'') s) (\<lambda>byte_type s.
     attempt (DefineTypeRefByName md mscorlib_ref (W ''System.Runtime.InteropServices.Marshal'') s) (\<lambda>marshal_type_ref s.
     attempt (DefineMemberRef md marshal_type_ref (W ''Copy'') marshal_copy_signature s) (\<lambda>marshal_copy s.
     attempt (DefineTypeRefByName md mscorlib_ref (W ''System.Reflection.Assembly'') s) (\<lambda>assembly_type s.
     attempt (DefineTypeRefByName md mscorlib_ref (W ''System.Object'') s) (\<lambda>system_object_type_ref s.
     attempt (DefineTypeRefByName md mscorlib_ref (W ''System.AppDomain'') s) (\<lambda>appdomain_type s.
     attempt (DefineMemberRef md appdomain_type (W ''get_CurrentDomain'') (appdomain_get_current_domain_signature appdomain_type) s) (\<lambda>get_current_domain s.
     attempt (DefineMemberRef md appdomain_type (W ''Load'') (appdomain_load_signature assembly_type) s) (\<lambda>appdomain_load s.
     attempt (DefineMemberRef md assembly_type (W ''CreateInstance'') assembly_create_instance_signature s) (\<lambda>create_instance s.
     attempt (DefineUserString md load_helper_str s) (\<lambda>load_helper s.
     attempt (GetUserString md s load_helper, (), s) (\<lambda>_ s.
     attempt (GetTokenFromSig md (locals_signature assembly_type) s) (\<lambda>locals_token s.
     (Inr \<lparr>ret_method_token = ret_method, pinvoke_method_def = pinvoke_method, byte_type_ref = byte_type,
       marshal_copy_member_ref = marshal_copy, system_reflection_assembly_type_ref = assembly_type,
       system_appdomain_type_ref = appdomain_type, appdomain_get_current_domain_member_ref = get_current_domain,
       appdomain_load_member_ref = appdomain_load, assembly_create_instance_member_ref = create_instance,
       load_helper_token = load_helper, locals_signature_token = locals_token\<rparr>, s))))))))))))))))))))"

text \<open>The instructions, each inserted before the end of the list.\<close>

definition startup_code :: "startup_tokens \<Rightarrow> (opcode \<times> operand) list" where
  "startup_code t =
     [(CEE_LDLOCA_S, arg32 0), (CEE_LDLOCA_S, arg32 1), (CEE_LDLOCA_S, arg32 2), (CEE_LDLOCA_S, arg32 3),
      (CEE_CALL, arg32 (pinvoke_method_def t)),
      (CEE_LDLOC_1, Bits 0), (CEE_NEWARR, arg32 (byte_type_ref t)), (CEE_STLOC_S, arg8 4),
      (CEE_LDLOC_0, Bits 0), (CEE_LDLOC_S, arg8 4), (CEE_LDC_I4_0, Bits 0), (CEE_LDLOC_1, Bits 0),
      (CEE_CALL, arg32 (marshal_copy_member_ref t)),
      (CEE_LDLOC_3, Bits 0), (CEE_NEWARR, arg32 (byte_type_ref t)), (CEE_STLOC_S, arg8 5),
      (CEE_LDLOC_2, Bits 0), (CEE_LDLOC_S, arg8 5), (CEE_LDC_I4_0, Bits 0), (CEE_LDLOC_3, Bits 0),
      (CEE_CALL, arg32 (marshal_copy_member_ref t)),
      (CEE_CALL, arg32 (appdomain_get_current_domain_member_ref t)), (CEE_LDLOC_S, arg8 4), (CEE_LDLOC_S, arg8 5),
      (CEE_CALLVIRT, arg32 (appdomain_load_member_ref t)), (CEE_STLOC_S, arg8 6),
      (CEE_LDLOC_S, arg8 6), (CEE_LDSTR, arg32 (load_helper_token t)),
      (CEE_CALLVIRT, arg32 (assembly_create_instance_member_ref t)), (CEE_POP, Bits 0), (CEE_RET, Bits 0)]"

text \<open>
  The result is the HRESULT of the call that failed, or the token of the new method; \<open>None\<close> if
  the rewriter reads memory it must not.
\<close>

definition GenerateVoidILStartupMethod :: "bool \<Rightarrow> environment \<Rightarrow> 's profiler_info \<Rightarrow> u64 \<Rightarrow> 's \<Rightarrow>
    ((hresult + mdToken) \<times> 's) option" where
  "GenerateVoidILStartupMethod bit64 env info module_id s =
     (let (hr, md) = pi_GetModuleMetaData info s module_id in
      if FAILED hr then Some (Inl hr, s)
      else
        (case define_startup_method bit64 env md s of
           (Inl hr, s) \<Rightarrow> Some (Inl hr, s)
         | (Inr t, s) \<Rightarrow> do {
             let rewriter_void = SetTkLocalVarSig (locals_signature_token t)
               (InitializeTiny (ILRewriter_init False module_id (ret_method_token t)));
             list \<leftarrow> get_instr m_IL rewriter_void;
             let pFirstInstr = m_pNext list;
             (_, rewriter_void) \<leftarrow> emit_all emit pFirstInstr (startup_code t) rewriter_void;
             (hr, s) \<leftarrow> rewriter_Export info rewriter_void s;
             if FAILED hr then Some (Inl hr, s) else Some (Inr (ret_method_token t), s) }))"

section \<open>RunILStartupHook\<close>

definition RunILStartupHook :: "bool \<Rightarrow> environment \<Rightarrow> 's profiler_info \<Rightarrow> u64 \<Rightarrow> mdToken \<Rightarrow> 's \<Rightarrow> (hresult \<times> 's) option" where
  "RunILStartupHook bit64 env info module_id function_token s = do {
     (generated, s) \<leftarrow> GenerateVoidILStartupMethod bit64 env info module_id s;
     case generated of
       Inl hr \<Rightarrow> Some (S_OK, s)
     | Inr ret_method \<Rightarrow> do {
         (hr, rewriter) \<leftarrow> rewriter_Import info s module_id function_token;
         if FAILED hr then Some (S_OK, s)
         else do {
           list \<leftarrow> get_instr m_IL rewriter;
           let pInstr = m_pNext list;
           w \<leftarrow> CallMember ret_method False (SetILPosition pInstr \<lparr>m_ILRewriter = rewriter, m_ILInstr = NULL\<rparr>);
           (hr, s) \<leftarrow> rewriter_Export info (m_ILRewriter w) s;
           if FAILED hr then Some (S_OK, s) else Some (S_OK, s) } }
   }"

text \<open>
  The arrays handed out by \<open>GetAssemblyAndSymbolsBytes\<close>. On Windows they are resources of the
  library, found by their number and kind, the size as the Win32 call gives it; elsewhere they
  lie between symbols of the linker.
\<close>

datatype embedded =
    Resources "nat \<Rightarrow> string \<Rightarrow> byte list \<times> u32"
  | Linked "byte list" "byte list"

definition GetAssemblyAndSymbolsBytes :: "embedded \<Rightarrow> RuntimeInformation \<Rightarrow> (byte list \<times> u32) \<times> (byte list \<times> u32)" where
  "GetAssemblyAndSymbolsBytes e runtime =
     (case e of
        Resources resource \<Rightarrow>
          (let dllLpName = (if is_desktop runtime then 403 else 401);
               symbolsLpName = (if is_desktop runtime then 404 else 402)
           in (resource dllLpName ''ASSEMBLY'', resource symbolsLpName ''SYMBOLS''))
      | Linked dll pdb \<Rightarrow> ((dll, word_of_nat (length dll)), (pdb, word_of_nat (length pdb))))"

end
