(* ===== verification/Startup_Contracts.thy ===== *)
theory Startup_Contracts
  imports Startup Replacement_Contracts
begin

text \<open>
  What the startup hook writes: the body of the generated method, its types, and the call of it
  in front of the method that is compiled first in a domain.
\<close>

section \<open>Straight code\<close>

text \<open>Code without jumps, every operand in the range of its encoding.\<close>

definition straight :: "(opcode \<times> operand) list \<Rightarrow> bool" where
  "straight is \<longleftrightarrow> list_all (\<lambda>i. byte_opcode (fst i) \<and> bits_fit i \<and> fst i \<noteq> CEE_SWITCH \<and>
     op_flags (fst i) \<notin> {0x11, 0x14} \<and> (\<exists>b. snd i = Bits b)) is"

lemma straight_operand_ok: "straight is \<Longrightarrow> list_all operand_ok is"
  by (auto simp: straight_def list_all_iff operand_ok_def dest!: byte_opcode_bound simp: word_less_nat_alt)

lemma straight_code_ok: "straight is \<Longrightarrow> list_all code_ok is"
  using straight_operand_ok [of "is"] by (auto simp: list_all_iff operand_ok_def stack_pushes_defined)

lemma straight_well_formed: "straight is \<Longrightarrow> well_formed 0 is"
  by (induction "is") (auto simp: straight_def)

lemma straight_targets: "straight is \<Longrightarrow> targets_real xs is"
  by (fastforce simp: straight_def targets_real_def list_all_iff)

lemma straight_relabel: "straight is \<Longrightarrow> map (relabel xs zs) is = is"
  by (rule map_idI) (fastforce simp: straight_def list_all_iff relabel_def)

lemma straight_widened: "list_all2 widened is is' \<Longrightarrow> straight is \<Longrightarrow> is' = is"
  by (induction rule: list_all2_induct) (auto simp: straight_def widened_def)

text \<open>
  A rewriter filled with straight code from the start: its body, once handed over, is read back
  as this code.
\<close>

lemma Export_rest:
  assumes "Export mem pad env rw = Some (hr, b, rw')" "program_at rw xs is" "well_formed 0 is" "10 * (il_brk rw - 3) < 2 ^ 32"
  shows "rw_rest rw' = rw_rest rw"
proof -
  obtain buf n rw1 where "export_buffer mem rw = Some (buf, n, rw1)" "links_same rw rw1"
    using export_decodes [OF assms(2-4), of mem] unfolding Let_def by blast
  with assms(1) show ?thesis
    using links_same_fields(3) [of rw rw1] by (auto simp: Export_def bind_eq_Some_conv split: if_split_asm)
qed

lemma straight_body:
  assumes s: "straight is" and small: "length is < 1000"
    and rw: "rw = SetTkLocalVarSig sig (InitializeTiny (ILRewriter_init False module_id tk))"
    and alloc: "\<not> FAILED (GetILFunctionBodyAllocator env)" "Alloc env"
    and rw2: "il_list rw2 []" "m_pEH rw2 = []" and base: "base AND 3 = 0"
  shows "\<exists>ws rw1 body rw' zs rw3. emit_all emit m_IL is rw = Some (ws, rw1) \<and> m_moduleId rw1 = module_id \<and>
    Export mem pad env rw1 = Some (let hr = SetILFunctionBody_info env module_id tk body in if FAILED hr then hr else S_OK, Some body, rw') \<and>
    m_moduleId rw' = module_id \<and> m_tkMethod rw' = tk \<and> Import S_OK base body rw2 = Some (S_OK, rw3) \<and> il_list rw3 zs \<and>
    map (instr_code rw3) zs = map Some is \<and> m_tkLocalVarSig rw3 = sig"
proof -
  have l: "il_list rw []"
    using ILRewriter_init_il_list [of False module_id tk] il_list_cong [of rw "ILRewriter_init False module_id tk" "[]"]
    by (simp add: rw SetTkLocalVarSig_def InitializeTiny_def)
  obtain ws rw1 where e: "emit_all emit m_IL is rw = Some (ws, rw1)" "il_list rw1 ws"
      "map (instr_code rw1) ws = map Some is" "rw_rest rw1 = rw_rest rw"
    using il.emit_all_append [OF l straight_code_ok [OF s]] by auto
  have brk: "il_brk rw1 = 3 + length is"
    using emit_all_brk [OF e(1)] by (simp add: rw SetTkLocalVarSig_def InitializeTiny_def ILRewriter_init_def)
  have rest: "m_flags rw1 = 2" "\<not> m_fGenerateTinyHeader rw1" "\<not> m_pICorProfilerFunctionControl rw1"
      "m_moduleId rw1 = module_id" "m_tkMethod rw1 = tk" "m_tkLocalVarSig rw1 = sig" "m_pEH rw1 = []" "m_nEH rw1 = 0"
    using arg_cong [OF e(4), of m_flags] arg_cong [OF e(4), of m_fGenerateTinyHeader] arg_cong [OF e(4), of m_moduleId]
      arg_cong [OF e(4), of m_pICorProfilerFunctionControl] arg_cong [OF e(4), of m_tkMethod]
      arg_cong [OF e(4), of m_tkLocalVarSig] arg_cong [OF e(4), of m_pEH] arg_cong [OF e(4), of m_nEH]
    by (simp_all add: rw rw_rest_def SetTkLocalVarSig_def InitializeTiny_def ILRewriter_init_def)
  have p: "program_at rw1 ws is"
    using e(2,3) straight_operand_ok [OF s] s by (fastforce simp: program_at_def straight_def list_all_iff)
  have m: "method_ok rw1 ws is"
    using p straight_well_formed [OF s] straight_targets [OF s] rest brk small
    by (intro method_okI) (simp_all add: flags_ok_def)
  have a: "AllocateILMemory env rw1" using alloc rest(3) by (simp add: AllocateILMemory_def)
  obtain body is' rw' zs rw3 where b: "Export mem pad env rw1 = Some (SetILFunctionBody env rw' body, Some body, rw')"
      "list_all2 widened is is'" "Import S_OK base body rw2 = Some (S_OK, rw3)" "program_at rw3 zs (map (relabel ws zs) is')"
      "m_tkLocalVarSig rw3 = m_tkLocalVarSig rw1"
    using exported_body_method [OF m rest(2) a rw2 base, of mem pad] by blast
  have "is' = is" by (rule straight_widened [OF b(2) s])
  then have z: "il_list rw3 zs" "map (instr_code rw3) zs = map Some is"
    using b(4) straight_relabel [OF s] by (simp_all add: program_at_def)
  have "rw_rest rw' = rw_rest rw1"
    using Export_rest [OF b(1) p straight_well_formed [OF s]] brk small by simp
  note rest' = this [THEN arg_cong, of m_moduleId] this [THEN arg_cong, of m_tkMethod]
    this [THEN arg_cong, of m_pICorProfilerFunctionControl]
  then have "m_moduleId rw' = module_id" "m_tkMethod rw' = tk" "\<not> m_pICorProfilerFunctionControl rw'"
    using rest by (simp_all add: rw_rest_def)
  moreover from this have "SetILFunctionBody env rw' body =
      (let hr = SetILFunctionBody_info env module_id tk body in if FAILED hr then hr else S_OK)"
    by (simp add: SetILFunctionBody_def)
  moreover have "m_tkLocalVarSig rw3 = sig" using b(5) rest(6) by simp
  ultimately show ?thesis using e(1) b(1,3) z rest(4) by (metis (no_types, lifting))
qed

section \<open>The generated method\<close>

lemma startup_code_straight: "straight (startup_code t)"
proof -
  let ?none = "[CEE_LDLOC_0, CEE_LDLOC_1, CEE_LDLOC_2, CEE_LDLOC_3, CEE_LDC_I4_0, CEE_POP, CEE_RET]"
  let ?one = "[CEE_LDLOCA_S, CEE_LDLOC_S, CEE_STLOC_S]" and ?four = "[CEE_CALL, CEE_CALLVIRT, CEE_NEWARR, CEE_LDSTR]"
  let ?ok = "\<lambda>n op. byte_opcode op \<and> op \<noteq> CEE_SWITCH \<and> op_flags op \<notin> {0x11, 0x14} \<and> operand_size op = n"
  have "list_all (?ok 0) ?none" "list_all (?ok 1) ?one" "list_all (?ok 4) ?four" by code_simp+
  moreover have "unat (ucast (x :: byte) :: u64) < 256" for x
    using le_less_trans [OF take_bit_nat_less_eq_self unsigned_less, of 64 x] by (simp add: unsigned_ucast_eq)
  moreover have "unat (ucast (x :: u32) :: u64) < 4294967296" for x
    using le_less_trans [OF take_bit_nat_less_eq_self unsigned_less, of 64 x] by (simp add: unsigned_ucast_eq)
  moreover have "unat (ucast (x :: u32) :: u64) < 256" if "x \<in> {0, 1, 2, 3}" for x using that by auto
  ultimately show ?thesis
    by (simp add: straight_def startup_code_def bits_fit_def op_bits_def arg32_def arg8_def)
qed

lemma GenerateVoid_body:
  assumes md: "pi_GetModuleMetaData info s module_id = (hr, md)" "\<not> FAILED hr" "define_startup_method bit64 env md s = (Inr t, s1)"
    and alloc: "\<not> FAILED (pi_GetILFunctionBodyAllocator info s1 module_id)" "pi_Alloc info s1"
    and rw: "il_list rw []" "m_pEH rw = []" and base: "base AND 3 = 0"
  shows "\<exists>body zs rw'.
    GenerateVoidILStartupMethod bit64 env info module_id s =
      (let (hr, s') = pi_SetILFunctionBody info module_id (ret_method_token t) body s1
       in Some (if FAILED hr then Inl hr else Inr (ret_method_token t), s')) \<and>
    Import S_OK base body rw = Some (S_OK, rw') \<and> il_list rw' zs \<and>
    map (instr_code rw') zs = map Some (startup_code t) \<and> m_tkLocalVarSig rw' = locals_signature_token t"
proof -
  define rw0 where "rw0 = SetTkLocalVarSig (locals_signature_token t)
    (InitializeTiny (ILRewriter_init False module_id (ret_method_token t)))"
  define e where "e = \<lparr>GetILFunctionBodyAllocator = pi_GetILFunctionBodyAllocator info s1 module_id, Alloc = pi_Alloc info s1,
        SetILFunctionBody_rejit = (\<lambda>body. S_OK),
        SetILFunctionBody_info = (\<lambda>module_id token body. fst (pi_SetILFunctionBody info module_id token body s1))\<rparr>"
  have small: "length (startup_code t) < 1000" by (simp add: startup_code_def)
  have first: "\<exists>i. get_instr m_IL rw0 = Some i \<and> m_pNext i = m_IL"
    by (simp add: rw0_def get_instr_def SetTkLocalVarSig_def InitializeTiny_def ILRewriter_init_def)
  obtain ws rw1 body rw2 zs rw' where b: "emit_all emit m_IL (startup_code t) rw0 = Some (ws, rw1)" "m_moduleId rw1 = module_id"
      "Export (pi_memory info) (pi_padding info) e rw1 = Some (let hr = SetILFunctionBody_info e module_id (ret_method_token t) body
         in if FAILED hr then hr else S_OK, Some body, rw2)"
      "m_moduleId rw2 = module_id" "m_tkMethod rw2 = ret_method_token t"
      "Import S_OK base body rw = Some (S_OK, rw')" "il_list rw' zs" "map (instr_code rw') zs = map Some (startup_code t)"
      "m_tkLocalVarSig rw' = locals_signature_token t"
    using straight_body [OF startup_code_straight small rw0_def _ _ rw base, of e "pi_memory info" "pi_padding info"] alloc
    by (auto simp: e_def)
  have "rewriter_Export info rw1 s1 = Some (let hr = fst (pi_SetILFunctionBody info module_id (ret_method_token t) body s1)
      in if FAILED hr then hr else S_OK, snd (pi_SetILFunctionBody info module_id (ret_method_token t) body s1))"
    using b(2-5) by (simp add: rewriter_Export_def e_def)
  then have "GenerateVoidILStartupMethod bit64 env info module_id s =
      (let (hr, s') = pi_SetILFunctionBody info module_id (ret_method_token t) body s1
       in Some (if FAILED hr then Inl hr else Inr (ret_method_token t), s'))"
    using md first b(1) by (auto simp: GenerateVoidILStartupMethod_def rw0_def [symmetric] Let_def FAILED_def split: prod.split)
  with b(6-9) show ?thesis by blast
qed

section \<open>Types\<close>

text \<open>
  The types of CIL the generated method uses, how a signature names them, and the stack of types
  along straight code. \<open>member\<close> gives the signature of a token, and the class an instance method
  belongs to.
\<close>

datatype il_type = T_int | T_native | T_bytes | T_ref il_type | T_class mdToken | T_object | T_string

definition decode_il_type :: "byte list \<Rightarrow> (il_type \<times> byte list) option" where
  "decode_il_type p =
     (case p of
        [] \<Rightarrow> None
      | b # p \<Rightarrow>
          if b = ELEMENT_TYPE_I4 then Some (T_int, p)
          else if b = ELEMENT_TYPE_I then Some (T_native, p)
          else if b = ELEMENT_TYPE_OBJECT then Some (T_object, p)
          else if b = ELEMENT_TYPE_STRING then Some (T_string, p)
          else if b = ELEMENT_TYPE_SZARRAY \<and> take 1 p = [ELEMENT_TYPE_U1] then Some (T_bytes, drop 1 p)
          else if b = ELEMENT_TYPE_CLASS then map_option (\<lambda>(tk, p). (T_class tk, p)) (CorSigUncompressToken_ref p)
          else None)"

definition decode_param :: "byte list \<Rightarrow> (il_type \<times> byte list) option" where
  "decode_param p =
     (if take 1 p = [ELEMENT_TYPE_BYREF] then map_option (\<lambda>(t, p). (T_ref t, p)) (decode_il_type (drop 1 p))
      else decode_il_type p)"

text \<open>Has the method a \<open>this\<close>, what does it return, and what are its parameters.\<close>

definition decode_method :: "byte list \<Rightarrow> (bool \<times> il_type option \<times> il_type list) option" where
  "decode_method sig =
     (case sig of
        conv # n # p \<Rightarrow> do {
          (ret, p) \<leftarrow> (if take 1 p = [ELEMENT_TYPE_VOID] then Some (None, drop 1 p)
            else map_option (\<lambda>(t, p). (Some t, p)) (decode_il_type p));
          (params, p) \<leftarrow> dec_n decode_param (unat n) p;
          if p = [] \<and> conv \<in> {IMAGE_CEE_CS_CALLCONV_DEFAULT, IMAGE_CEE_CS_CALLCONV_HASTHIS}
          then Some (conv = IMAGE_CEE_CS_CALLCONV_HASTHIS, ret, params) else None }
      | _ \<Rightarrow> None)"

definition decode_locals :: "byte list \<Rightarrow> il_type list option" where
  "decode_locals sig =
     (case sig of
        conv # n # p \<Rightarrow> if conv = IMAGE_CEE_CS_CALLCONV_LOCAL_SIG then map_option fst (dec_n decode_il_type (unat n) p) else None
      | _ \<Rightarrow> None)"

definition call_types :: "(mdToken \<Rightarrow> (mdToken option \<times> byte list) option) \<Rightarrow> mdToken \<Rightarrow> (il_type list \<times> il_type option) option" where
  "call_types member tk = do {
     (parent, sig) \<leftarrow> member tk;
     (this, ret, params) \<leftarrow> decode_method sig;
     if this then map_option (\<lambda>c. (T_class c # params, ret)) parent else Some (params, ret)
   }"

definition typed_step :: "il_type list \<Rightarrow> mdToken \<Rightarrow> (mdToken \<Rightarrow> (mdToken option \<times> byte list) option) \<Rightarrow> opcode \<times> operand \<Rightarrow>
    il_type list \<Rightarrow> il_type list option" where
  "typed_step locals byte_type member i st =
     (let (opc, x) = i; n = op_bits x; tk = the (m_Arg32 x);
          load = (\<lambda>n. if n < length locals then Some (locals ! n # st) else None) in
      if opc = CEE_LDLOC_0 then load 0 else if opc = CEE_LDLOC_1 then load 1
      else if opc = CEE_LDLOC_2 then load 2 else if opc = CEE_LDLOC_3 then load 3
      else if opc = CEE_LDLOC_S then load n
      else if opc = CEE_LDLOCA_S then (if n < length locals then Some (T_ref (locals ! n) # st) else None)
      else if opc = CEE_STLOC_S then (if n < length locals \<and> take 1 st = [locals ! n] then Some (drop 1 st) else None)
      else if opc = CEE_LDC_I4_0 then Some (T_int # st)
      else if opc = CEE_LDSTR then Some (T_string # st)
      else if opc = CEE_NEWARR then (if take 1 st = [T_int] \<and> tk = byte_type then Some (T_bytes # drop 1 st) else None)
      else if opc = CEE_POP then (if st = [] then None else Some (drop 1 st))
      else if opc = CEE_CALL \<or> opc = CEE_CALLVIRT then do {
        (args, ret) \<leftarrow> call_types member tk;
        if take (length args) st = rev args
        then Some ((case ret of None \<Rightarrow> [] | Some t \<Rightarrow> [t]) @ drop (length args) st) else None }
      else None)"

text \<open>Well typed: no step fails, the stack never holds more than \<open>limit\<close> values, and is empty at the return, which ends the code.\<close>

fun well_typed :: "il_type list \<Rightarrow> mdToken \<Rightarrow> (mdToken \<Rightarrow> (mdToken option \<times> byte list) option) \<Rightarrow> nat \<Rightarrow>
    (opcode \<times> operand) list \<Rightarrow> il_type list \<Rightarrow> bool" where
  "well_typed locals byte_type member limit [] st = False"
| "well_typed locals byte_type member limit (i # is) st =
     (length st \<le> limit \<and>
      (if fst i = CEE_RET then st = [] \<and> is = []
       else case typed_step locals byte_type member i st of
         None \<Rightarrow> False
       | Some st \<Rightarrow> well_typed locals byte_type member limit is st))"

text \<open>The methods the generated code calls; the class matters for instance methods only.\<close>

definition startup_members :: "startup_tokens \<Rightarrow> (mdToken \<times> mdToken option \<times> byte list) list" where
  "startup_members t =
     [(pinvoke_method_def t, None, get_assembly_bytes_signature), (marshal_copy_member_ref t, None, marshal_copy_signature),
      (appdomain_get_current_domain_member_ref t, None, appdomain_get_current_domain_signature (system_appdomain_type_ref t)),
      (appdomain_load_member_ref t, Some (system_appdomain_type_ref t), appdomain_load_signature (system_reflection_assembly_type_ref t)),
      (assembly_create_instance_member_ref t, Some (system_reflection_assembly_type_ref t), assembly_create_instance_signature)]"

text \<open>A token was defined by the runtime with this signature, and for this class.\<close>

definition defined_with :: "'s module_interfaces \<Rightarrow> mdToken \<times> mdToken option \<times> byte list \<Rightarrow> bool" where
  "defined_with md m \<longleftrightarrow> (case m of (tk, parent, sig) \<Rightarrow>
     \<exists>hr c name flags s s'. \<not> FAILED hr \<and> (parent = None \<or> parent = Some c) \<and>
       (DefineMemberRef md c name sig s = (hr, tk, s') \<or> DefineMethod md c name flags sig s = (hr, tk, s')))"

lemma attempt_Inr:
  "attempt r f = (Inr y, s') \<longleftrightarrow> (\<exists>hr x s. r = (hr, x, s) \<and> \<not> FAILED hr \<and> f x s = (Inr y, s'))"
  by (cases r) (auto simp: attempt_def)

lemma define_startup_method_defined:
  assumes "define_startup_method bit64 env md s = (Inr t, s1)"
  shows "list_all (defined_with md) (startup_members t) \<and>
    (\<exists>hr s s'. \<not> FAILED hr \<and> GetTokenFromSig md (locals_signature (system_reflection_assembly_type_ref t)) s =
      (hr, locals_signature_token t, s'))"
  using assms
  by (clarsimp simp: define_startup_method_def attempt_Inr Let_def startup_members_def defined_with_def) blast

lemma token_decoded:
  "sig_token tk \<Longrightarrow> CorSigUncompressToken_ref (snd (CorSigCompressToken tk) @ rest) = Some (tk, rest)"
  "sig_token tk \<Longrightarrow> CorSigUncompressToken_ref (snd (CorSigCompressToken tk)) = Some (tk, [])"
  using CorSigUncompressToken_ref_Compress [of tk rest] CorSigUncompressToken_ref_Compress [of tk "[]"] by simp_all

lemma dec_n_numeral:
  "dec_n dec (numeral k) p = (case dec p of None \<Rightarrow> None | Some (x, q) \<Rightarrow>
     (case dec_n dec (pred_numeral k) q of None \<Rightarrow> None | Some (xs, r) \<Rightarrow> Some (x # xs, r)))"
  by (simp add: numeral_eq_Suc)

lemma decode_il_type_heads:
  "decode_il_type (ELEMENT_TYPE_I4 # p) = Some (T_int, p)" "decode_il_type (ELEMENT_TYPE_I # p) = Some (T_native, p)"
  "decode_il_type (ELEMENT_TYPE_SZARRAY # ELEMENT_TYPE_U1 # p) = Some (T_bytes, p)"
  "sig_token tk \<Longrightarrow> decode_il_type (ELEMENT_TYPE_CLASS # snd (CorSigCompressToken tk) @ p) = Some (T_class tk, p)"
  "sig_token tk \<Longrightarrow> decode_il_type (ELEMENT_TYPE_CLASS # snd (CorSigCompressToken tk)) = Some (T_class tk, [])"
  by (simp_all add: decode_il_type_def token_decoded)

lemma startup_signatures_decoded:
  assumes "sig_token a" "sig_token d"
  shows "decode_method get_assembly_bytes_signature = Some (False, None, [T_ref T_native, T_ref T_int, T_ref T_native, T_ref T_int])"
    "decode_method marshal_copy_signature = Some (False, None, [T_native, T_bytes, T_int, T_int])"
    "decode_method (appdomain_get_current_domain_signature d) = Some (False, Some (T_class d), [])"
    "decode_method (appdomain_load_signature a) = Some (True, Some (T_class a), [T_bytes, T_bytes])"
    "decode_method assembly_create_instance_signature = Some (True, Some T_object, [T_string])"
    "decode_locals (locals_signature a) = Some [T_native, T_int, T_native, T_int, T_bytes, T_bytes, T_class a]"
proof -
  show "decode_method get_assembly_bytes_signature = Some (False, None, [T_ref T_native, T_ref T_int, T_ref T_native, T_ref T_int])"
    "decode_method marshal_copy_signature = Some (False, None, [T_native, T_bytes, T_int, T_int])"
    "decode_method assembly_create_instance_signature = Some (True, Some T_object, [T_string])"
    by code_simp+
  show "decode_method (appdomain_get_current_domain_signature d) = Some (False, Some (T_class d), [])"
    "decode_method (appdomain_load_signature a) = Some (True, Some (T_class a), [T_bytes, T_bytes])"
    using assms by (simp_all add: decode_method_def appdomain_get_current_domain_signature_def appdomain_load_signature_def
        decode_param_def decode_il_type_heads dec_n_numeral)
  have "length (snd (CorSigCompressToken a)) \<le> 4" using CorSigCompressToken_size [of a] by auto
  then have "take 4 (snd (CorSigCompressToken a) @ r) = snd (CorSigCompressToken a) @ take (4 - length (snd (CorSigCompressToken a))) r" for r
    by simp
  then show "decode_locals (locals_signature a) = Some [T_native, T_int, T_native, T_int, T_bytes, T_bytes, T_class a]"
    using assms by (simp add: decode_locals_def locals_signature_def decode_il_type_heads dec_n_numeral del: take_append)
qed

lemma startup_code_well_typed:
  assumes tokens: "sig_token (system_reflection_assembly_type_ref t)" "sig_token (system_appdomain_type_ref t)"
    and dist: "distinct (map fst (startup_members t))"
    and l: "decode_locals (locals_signature (system_reflection_assembly_type_ref t)) = Some locals"
  shows "well_typed locals (byte_type_ref t) (map_of (startup_members t)) 8 (startup_code t) []"
proof -
  note d = startup_signatures_decoded [OF tokens]
  have locals: "locals = [T_native, T_int, T_native, T_int, T_bytes, T_bytes, T_class (system_reflection_assembly_type_ref t)]"
    using l d(6) by simp
  let ?m = "map_of (startup_members t)"
  have call: "call_types ?m (pinvoke_method_def t) = Some ([T_ref T_native, T_ref T_int, T_ref T_native, T_ref T_int], None)"
    "call_types ?m (marshal_copy_member_ref t) = Some ([T_native, T_bytes, T_int, T_int], None)"
    "call_types ?m (appdomain_get_current_domain_member_ref t) = Some ([], Some (T_class (system_appdomain_type_ref t)))"
    "call_types ?m (appdomain_load_member_ref t) =
       Some ([T_class (system_appdomain_type_ref t), T_bytes, T_bytes], Some (T_class (system_reflection_assembly_type_ref t)))"
    "call_types ?m (assembly_create_instance_member_ref t) =
       Some ([T_class (system_reflection_assembly_type_ref t), T_string], Some T_object)"
    using dist by (auto simp: call_types_def startup_members_def d)
  have arg: "m_Arg32 (arg32 x) = Some x" "op_bits (arg8 b) = unat b" for x b
  proof -
    have "(ucast (ucast x :: u64) :: u32) = x" by (rule bit_word_eqI) (simp add: bit_simps)
    moreover have "unat b < 2 ^ 64" by (rule less_trans [OF unsigned_less]) simp
    then have "unat (ucast b :: u64) = unat b" by (simp only: unsigned_ucast_eq) (simp add: take_bit_nat_eq_self)
    ultimately show "m_Arg32 (arg32 x) = Some x" "op_bits (arg8 b) = unat b"
      by (simp_all add: arg32_def arg8_def op_bits_def)
  qed
  have small: "op_bits (arg32 0) = 0" "op_bits (arg32 1) = 1" "op_bits (arg32 2) = 2" "op_bits (arg32 3) = 3"
    by (simp_all add: arg32_def op_bits_def)
  show ?thesis
    unfolding startup_code_def locals
    by (simp add: typed_step_def call arg small)
qed

section \<open>Contracts\<close>

definition startup_rewriter :: ILRewriter where
  "startup_rewriter = ILRewriter_init False 5 0x06000001"

text \<open>
  C19. The startup method GenerateVoidILStartupMethod hands to the runtime: once its tokens have
  been defined, and if there is memory, a body is set for the new method, and any rewriter that
  imports that body gets exactly the 31 instructions of the hook, with the local variables that
  were declared. The token is the result, or the HRESULT with which the runtime refused the body.
\<close>

theorem GenerateVoidILStartupMethod_body:
  assumes "pi_GetModuleMetaData info s module_id = (hr, md)" "\<not> FAILED hr" "define_startup_method bit64 env md s = (Inr t, s1)"
    "\<not> FAILED (pi_GetILFunctionBodyAllocator info s1 module_id)" "pi_Alloc info s1"
    "il_list rw []" "m_pEH rw = []" "base AND 3 = 0"
  shows "\<exists>body zs rw'.
    GenerateVoidILStartupMethod bit64 env info module_id s =
      (let (hr, s') = pi_SetILFunctionBody info module_id (ret_method_token t) body s1
       in Some (if FAILED hr then Inl hr else Inr (ret_method_token t), s')) \<and>
    Import S_OK base body rw = Some (S_OK, rw') \<and> il_list rw' zs \<and>
    map (instr_code rw') zs = map Some (startup_code t) \<and> m_tkLocalVarSig rw' = locals_signature_token t"
  by (rule GenerateVoid_body [OF assms])

definition sample_tokens :: startup_tokens where
  "sample_tokens = \<lparr>ret_method_token = 0x06000005, pinvoke_method_def = 0x06000005, byte_type_ref = 0x01000009,
     marshal_copy_member_ref = 0x0a000009, system_reflection_assembly_type_ref = 0x01000009,
     system_appdomain_type_ref = 0x01000009, appdomain_get_current_domain_member_ref = 0x0a000009,
     appdomain_load_member_ref = 0x0a000009, assembly_create_instance_member_ref = 0x0a000009,
     load_helper_token = 0x70000001, locals_signature_token = 0x11000001\<rparr>"

lemma sample_define:
  "define_startup_method bit64 env sample_interfaces 0 = (Inr sample_tokens, 0)"
  by (simp add: define_startup_method_def attempt_def result_only_def CreateAssemblyRefToMscorlib_def sample_tokens_def
      sample_interfaces_def metadata.extend_def sample_metadata_def FAILED_def)

theorem GenerateVoidILStartupMethod_body_witness:
  "\<exists>body rw' zs. GenerateVoidILStartupMethod True (Windows (\<lambda>_ _. (0, []))) sample_info 5 0 = Some (Inr 0x06000005, 1) \<and>
     Import S_OK 0 body startup_rewriter = Some (S_OK, rw') \<and>
     map (instr_code rw') zs = map Some (startup_code sample_tokens) \<and> m_tkLocalVarSig rw' = 0x11000001"
proof -
  have "pi_GetModuleMetaData sample_info 0 5 = (S_OK, sample_interfaces)" "\<not> FAILED (pi_GetILFunctionBodyAllocator sample_info 0 5)"
    "pi_Alloc sample_info 0" "m_pEH startup_rewriter = []" "il_list startup_rewriter []"
    by (simp_all add: sample_info_def startup_rewriter_def ILRewriter_init_il_list) (simp add: ILRewriter_init_def)
  from GenerateVoidILStartupMethod_body [OF this(1) _ sample_define [of True "Windows (\<lambda>_ _. (0, []))"] this(2,3,5,4), of 0]
  show ?thesis by (auto simp: sample_info_def sample_tokens_def FAILED_def)
qed

text \<open>
  C13. The generated method is well typed: each member it calls has been defined by the runtime
  with the signature the code relies on, so have its local variables, and with these signatures
  every instruction finds operands of the types it needs on the stack, which never holds more
  than the eight values an InitializeTiny declares and is empty at the return, provided the
  runtime gives different tokens to different members.
\<close>

theorem startup_method_well_typed:
  assumes "define_startup_method bit64 env md s = (Inr t, s1)" "distinct (map fst (startup_members t))"
    "sig_token (system_reflection_assembly_type_ref t)" "sig_token (system_appdomain_type_ref t)"
  shows "list_all (defined_with md) (startup_members t) \<and>
    (\<exists>hr s s' locals. \<not> FAILED hr \<and>
      GetTokenFromSig md (locals_signature (system_reflection_assembly_type_ref t)) s = (hr, locals_signature_token t, s') \<and>
      decode_locals (locals_signature (system_reflection_assembly_type_ref t)) = Some locals \<and>
      well_typed locals (byte_type_ref t) (map_of (startup_members t)) 8 (startup_code t) [])"
  using define_startup_method_defined [OF assms(1)] startup_code_well_typed [OF assms(3,4,2)]
    startup_signatures_decoded(6) [OF assms(3,4)] by metis

text \<open>A runtime that numbers its tokens.\<close>

definition numbering :: "nat module_interfaces" where
  "numbering = sample_interfaces
     \<lparr>DefineMemberRef := (\<lambda>c n sig s. (S_OK, 0x0a000000 + word_of_nat s, Suc s)),
      DefineMethod := (\<lambda>c n f sig s. (S_OK, 0x06000000 + word_of_nat s, Suc s))\<rparr>"

theorem startup_method_well_typed_witness:
  "\<exists>t locals. define_startup_method True (Windows (\<lambda>_ _. (0, []))) numbering 0 = (Inr t, 6) \<and>
     well_typed locals 0x01000009 (map_of (startup_members t)) 8 (startup_code t) []"
proof -
  let ?env = "Windows (\<lambda>_ _. (0, []))"
  define t where "t = sample_tokens\<lparr>ret_method_token := 0x06000000, pinvoke_method_def := 0x06000001,
     marshal_copy_member_ref := 0x0a000002, appdomain_get_current_domain_member_ref := 0x0a000003,
     appdomain_load_member_ref := 0x0a000004, assembly_create_instance_member_ref := 0x0a000005\<rparr>"
  have d: "define_startup_method True ?env numbering 0 = (Inr t, 6)"
    by (simp add: define_startup_method_def attempt_def result_only_def CreateAssemblyRefToMscorlib_def sample_tokens_def t_def
      numbering_def sample_interfaces_def metadata.extend_def sample_metadata_def FAILED_def)
  have "distinct (map fst (startup_members t))" by (simp add: startup_members_def t_def)
  moreover have "sig_token (system_reflection_assembly_type_ref t)" "sig_token (system_appdomain_type_ref t)"
    by (simp_all add: t_def sample_tokens_def) code_simp+
  moreover have "byte_type_ref t = 0x01000009" by (simp add: t_def sample_tokens_def)
  ultimately show ?thesis using startup_method_well_typed [OF d] d by metis
qed

text \<open>RunILStartupHook reports success whatever happens.\<close>

lemma RunILStartupHook_succeeds: "RunILStartupHook bit64 env info module_id tk s = Some (hr, s') \<Longrightarrow> hr = S_OK"
  by (auto simp: RunILStartupHook_def split: bind_splits sum.splits if_split_asm)

text \<open>
  If the startup method cannot be generated the method that is compiled is not touched;
  otherwise, if its body can be imported, the body handed over is a call of the startup method followed by the old instructions.
\<close>

lemma RunILStartupHook_prepends:
  assumes "GenerateVoidILStartupMethod bit64 env info module_id s = Some (generated, s1)"
    "rewriter_Import info s1 module_id tk = Some (hr, rw)" "il_list rw xs" "map (instr_code rw) xs = map Some is"
  shows "\<exists>rw' n. RunILStartupHook bit64 env info module_id tk s =
      (case generated of
         Inl hr' \<Rightarrow> Some (S_OK, s1)
       | Inr startup \<Rightarrow> if FAILED hr then Some (S_OK, s1)
           else map_option (\<lambda>(hr', s2). (S_OK, s2)) (rewriter_Export info rw' s1)) \<and>
    (case generated of
       Inl hr' \<Rightarrow> True
     | Inr startup \<Rightarrow> il_list rw' (n # xs) \<and> rw_rest rw' = rw_rest rw \<and> il_brk rw' = il_brk rw + 1 \<and>
         map (instr_code rw') (n # xs) = map Some ((CEE_CALL, arg32 startup) # is))"
proof (cases generated)
  case (Inl hr')
  with assms(1) show ?thesis by (simp add: RunILStartupHook_def)
next
  case (Inr startup)
  obtain i where i: "get_instr m_IL rw = Some i" "m_pNext i = hd (xs @ [m_IL])" using il_list_first [OF assms(3)] by blast
  define w where "w = SetILPosition (m_pNext i) \<lparr>m_ILRewriter = rw, m_ILInstr = NULL\<rparr>"
  have w: "il_list (m_ILRewriter w) ([] @ xs)" "m_ILInstr w = hd (xs @ [m_IL])" "m_ILRewriter w = rw"
    using assms(3) i(2) by (simp_all add: w_def SetILPosition_def)
  obtain w' ns where c: "CallMember startup False w = Some w'" "il_list (m_ILRewriter w') ([] @ ns @ xs)"
      "map (instr_code (m_ILRewriter w')) ns = map Some [(CEE_CALL, arg32 startup)]"
      "\<And>x. x \<in> set ([] @ xs) \<Longrightarrow> instr_code (m_ILRewriter w') x = instr_code (m_ILRewriter w) x"
      "rw_rest (m_ILRewriter w') = rw_rest (m_ILRewriter w)"
    by (rule insertsD [OF inserts_simple(9) [of startup False] w(1,2)]) auto
  obtain n where n: "ns = [n]" using c(3) by (auto simp: Cons_eq_map_conv)
  have "map (instr_code (m_ILRewriter w')) xs = map Some is"
    using c(4) w(3) assms(4) by (metis (no_types, lifting) append_Nil map_cong)
  moreover have "RunILStartupHook bit64 env info module_id tk s = (if FAILED hr then Some (S_OK, s1)
      else map_option (\<lambda>(hr', s2). (S_OK, s2)) (rewriter_Export info (m_ILRewriter w') s1))"
    using assms(1,2) i(1) c(1) Inr
    by (cases "rewriter_Export info (m_ILRewriter w') s1") (auto simp: RunILStartupHook_def w_def)
  moreover have "il_brk (m_ILRewriter w') = il_brk rw + 1"
    using insert_instr_brk c(1) w(3) by (fastforce simp: CallMember_def)
  ultimately show ?thesis using c n w(3) Inr by (intro exI [of _ "m_ILRewriter w'"] exI [of _ n]) simp
qed

lemma sample_generate:
  "GenerateVoidILStartupMethod bit64 env sample_info 5 0 = Some (Inr 0x06000005, 1)"
proof -
  have "pi_GetModuleMetaData sample_info 0 5 = (S_OK, sample_interfaces)" "\<not> FAILED (pi_GetILFunctionBodyAllocator sample_info 0 5)"
    "pi_Alloc sample_info 0" "m_pEH startup_rewriter = []" "il_list startup_rewriter []"
    by (simp_all add: sample_info_def startup_rewriter_def ILRewriter_init_il_list) (simp add: ILRewriter_init_def)
  from GenerateVoid_body [OF this(1) _ sample_define this(2,3,5,4), of 0]
  show ?thesis by (auto simp: sample_info_def sample_tokens_def FAILED_def)
qed

end
