(* ===== verification/Imported_Bodies.thy ===== *)
theory Imported_Bodies
  imports Weaving
begin

text \<open>
  Method bodies as the runtime gives them. A body is valid if its code can be decoded and the
  branches and the clauses of its exception sections lead to instructions or to the end of the
  code. \<open>ILRewriter::Import\<close> turns a valid body, in whatever format it is encoded, into a program
  that \<open>Export\<close> can write.
\<close>

section \<open>Valid bodies\<close>

text \<open>The offsets where instructions start; the pseudo instructions of a switch have none.\<close>

definition starts :: "raw list \<Rightarrow> nat list" where
  "starts raws = List.map_filter fst raws"

definition label_ok :: "nat \<Rightarrow> raw list \<Rightarrow> u32 \<Rightarrow> bool" where
  "label_ok N raws offset \<longleftrightarrow> unat offset = N \<or> unat offset \<in> set (starts raws)"

definition targets_ok :: "nat \<Rightarrow> raw list \<Rightarrow> bool" where
  "targets_ok N raws \<longleftrightarrow> list_all (\<lambda>(start, op, arg). op_flags op \<in> {0x11, 0x14} \<longrightarrow> label_ok N raws (ucast arg)) raws"

definition clause_labels_ok :: "nat \<Rightarrow> raw list \<Rightarrow> eh_clause \<Rightarrow> bool" where
  "clause_labels_ok N raws eh \<longleftrightarrow>
     label_ok N raws (GetTryOffset eh) \<and> label_ok N raws (GetTryOffset eh + GetTryLength eh) \<and>
     label_ok N raws (GetHandlerOffset eh) \<and> label_ok N raws (GetHandlerOffset eh + GetHandlerLength eh) \<and>
     (GetFlags eh AND COR_ILEXCEPTION_CLAUSE_FILTER \<noteq> 0 \<longrightarrow> label_ok N raws (GetClassToken eh))"

definition valid_body :: "nat \<Rightarrow> byte list \<Rightarrow> raw list \<Rightarrow> eh_clause list \<Rightarrow> bool" where
  "valid_body base body raws ehs \<longleftrightarrow>
     (case DecoderInit base body of
        None \<Rightarrow> False
      | Some d \<Rightarrow>
          (case dec_Code d of
             None \<Rightarrow> False
           | Some c \<Rightarrow>
               (let N = unat (GetCodeSize d)
                in N \<le> length (drop c body) \<and> N + 8 < 2 ^ 32 \<and> decode_il (take N (drop c body)) = Some raws \<and>
                   decoder_clauses body (dec_EH d) = Some ehs \<and> 24 * length ehs + 4 < 2 ^ 24 \<and>
                   targets_ok N raws \<and> list_all (clause_labels_ok N raws) ehs)))"

section \<open>What the decoder gives\<close>

lemma starts_simps [simp]:
  "starts [] = []" "starts ((Some k, x) # raws) = k # starts raws" "starts ((None, x) # raws) = starts raws"
  "starts (raws @ raws') = starts raws @ starts raws'"
  by (simp_all add: starts_def List.map_filter_def)

lemma starts_pseudo: "\<forall>x \<in> set ts. \<exists>a. x = (None, CEE_SWITCH_ARG, a) \<Longrightarrow> starts ts = []"
  by (induction ts) auto

lemma starts_set: "k \<in> set (starts raws) \<longleftrightarrow> (\<exists>r \<in> set raws. fst r = Some k)"
  by (force simp: starts_def List.map_filter_def)

lemma decode_opcode_shorter: "decode_opcode p = Some (op, r) \<Longrightarrow> length r < length p"
  by (cases p) (auto split: if_split_asm list.split_asm)

lemma decode_targets_shorter: "decode_targets n r base = Some (ts, r') \<Longrightarrow> length r' \<le> length r \<and> length ts = n"
proof (induction n arbitrary: r ts)
  case (Suc n)
  then obtain ts' where "decode_targets n (drop 4 r) base = Some (ts', r')" "length ts = Suc (length ts')"
    by (auto split: if_split_asm)
  moreover have "length r' \<le> length (drop 4 r)" "length ts' = n" using Suc.IH [of "drop 4 r" ts'] calculation(1) by simp_all
  moreover have "length (drop 4 r) \<le> length r" by simp
  ultimately show ?case by linarith
qed simp

lemma decode_operand_shorter: "decode_operand f off r = Some (arg, ts, r') \<Longrightarrow> length r' \<le> length r"
  by (auto simp: decode_operand_def Let_def split: if_split_asm dest!: decode_targets_shorter)

lemma decode_Nil [simp]: "decode m k [] = Some raws \<longleftrightarrow> raws = []"
  by (cases m) auto

text \<open>Induction over a decoded code: one instruction with its pseudo instructions, and the rest.\<close>

lemma decode_induct [consumes 1, case_names empty step]:
  assumes "decode m k p = Some raws" and empty: "\<And>k. P k [] []"
    and step: "\<And>k p op q arg ts r rest. decode_opcode p = Some (op, q) \<Longrightarrow> valid_opcode op \<Longrightarrow>
      decode_operand (op_flags op) (k + (length p - length q)) q = Some (arg, ts, r) \<Longrightarrow> length r < length p \<Longrightarrow>
      \<forall>x \<in> set ts. \<exists>a. x = (None, CEE_SWITCH_ARG, a) \<Longrightarrow> P (k + (length p - length r)) r rest \<Longrightarrow>
      P k p ((Some k, op, arg) # ts @ rest)"
  shows "P k p raws"
  using assms(1)
proof (induction "length p" arbitrary: m k p raws rule: less_induct)
  case less
  show ?case
  proof (cases p)
    case (Cons b p')
    obtain n where m: "m = Suc n" using less.prems Cons by (cases m) auto
    from less.prems obtain op q f arg ts r rest where d: "decode_opcode p = Some (op, q)" "valid_opcode op" "opcode_flags op = Some f"
        "decode_operand f (k + (length p - length q)) q = Some (arg, ts, r)" "decode n (k + (length p - length r)) r = Some rest"
        "raws = (Some k, op, arg) # ts @ rest"
      by (auto simp: Cons m simp del: decode_opcode.simps split: option.split_asm if_split_asm prod.split_asm)
    have f: "f = op_flags op" using op_flags_eq [OF d(3)] by simp
    have short: "length r < length p"
      using decode_opcode_shorter [OF d(1)] decode_operand_shorter [OF d(4)] by simp
    have "\<forall>x \<in> set ts. \<exists>a. x = (None, CEE_SWITCH_ARG, a)" using decode_operand_pseudo [OF d(4)] by blast
    from step [OF d(1,2) d(4) [unfolded f] short this less.hyps [OF short d(5)]] show ?thesis unfolding d(6) .
  qed (use less.prems empty in simp)
qed

lemma decode_starts:
  assumes "decode m k p = Some raws"
  shows "distinct (starts raws) \<and> (\<forall>j \<in> set (starts raws). k \<le> j \<and> j < k + length p)"
  using assms
proof (induction rule: decode_induct)
  case (step k p op q arg ts r rest)
  then show ?case by (fastforce simp: starts_pseudo)
qed simp

lemma decode_byte_opcode:
  assumes "decode_opcode p = Some (op, q)" "valid_opcode op"
  shows "byte_opcode op"
proof -
  have "0x100 + (ucast c :: u32) \<noteq> 0xFE" for c :: byte
  proof -
    have "256 + unat c < 4294967296" using unat_byte_less [of c] by linarith
    then have "unat (0x100 + (ucast c :: u32)) = 256 + unat c" by (simp add: unat_word_ariths)
    then show ?thesis by (auto simp: word_unat_eq_iff)
  qed
  then show ?thesis using assms ucast_byte_u32_eq [of "0xFE"]
    by (cases p) (auto simp: byte_opcode_def split: if_split_asm list.split_asm)
qed

lemma unat_ucast_u32_u64: "unat (ucast (n :: u32) :: u64) = unat n"
proof -
  have "unat n < 2 ^ 64" using unsigned_less [of n] by (rule less_le_trans) simp
  then show ?thesis by (simp add: unsigned_ucast_eq take_bit_nat_eq_self)
qed

lemma decode_operand_fits:
  assumes "decode_operand (op_flags op) off q = Some (arg, ts, r)" "unat op < 296" "op \<noteq> CEE_COUNT"
  shows "bits_fit (resolve T (start, op, arg))" "op = CEE_SWITCH \<Longrightarrow> length ts = unat arg" "op \<noteq> CEE_SWITCH \<Longrightarrow> ts = []"
proof -
  define f where "f = op_flags op"
  note fl = op_flags_some [OF assms(2), folded f_def]
  have sw: "f = 0x20 \<longleftrightarrow> op = CEE_SWITCH" using op_flags_switch [OF assms(2,3)] by (simp add: f_def)
  have size: "operand_size op = (if f = 0x20 then 4 else flags_size f)" by (simp add: operand_size_def f_def)
  have small: "unat (word_of_nat (le_nat (take n q)) :: u64) < 256 ^ n" if "n \<le> length q" for n
    using le_nat_bound [of "take n q"] that by (simp add: unat_of_nat le_less_trans [OF mod_less_eq_dividend])
  have "f \<in> {0, 1, 2, 4, 8, 0x11, 0x14, 0x20}" unfolding f_def by (rule op_flags_range [OF assms(2)])
  show "bits_fit (resolve T (start, op, arg))"
  proof (cases "f \<in> {0x11, 0x14}")
    case True
    then show ?thesis using fl by (simp add: resolve_def bits_fit_def op_bits_def)
  next
    case False
    then have b: "resolve T (start, op, arg) = (op, Bits arg)" using fl by (auto simp: resolve_def)
    show ?thesis
    proof (cases "f = 0x20")
      case True
      then obtain n :: u32 where "arg = ucast n"
        using assms(1) by (auto simp: decode_operand_def f_def Let_def split: if_split_asm)
      moreover have "unat (ucast n :: u64) < 4294967296"
        using unsigned_less [of n] by (simp add: unat_ucast_u32_u64)
      ultimately show ?thesis using b True size by (simp add: bits_fit_def op_bits_def)
    next
      case notsw: False
      then have "arg = word_of_nat (le_nat (take (flags_size f) q))" "flags_size f \<le> length q"
        using assms(1) False by (auto simp: decode_operand_def f_def split: if_split_asm)
      then show ?thesis using b notsw size small [of "flags_size f"] by (simp add: bits_fit_def op_bits_def)
    qed
  qed
  show "op = CEE_SWITCH \<Longrightarrow> length ts = unat arg"
  proof -
    assume "op = CEE_SWITCH"
    then have "f = 0x20" using sw by simp
    with assms(1) obtain n :: u32 and base where "arg = ucast n" "decode_targets (unat n) (drop 4 q) base = Some (ts, r)"
      by (auto simp: decode_operand_def f_def Let_def split: if_split_asm)
    then show ?thesis using decode_targets_shorter [of "unat n"] unsigned_less [of n] by (simp add: unat_ucast_u32_u64)
  qed
  show "op \<noteq> CEE_SWITCH \<Longrightarrow> ts = []"
    using decode_operand_no_targets [OF assms(1)] sw by (auto simp: f_def)
qed

lemma well_formed_args: "\<forall>i \<in> set args. fst i = CEE_SWITCH_ARG \<Longrightarrow> well_formed (length args) (args @ is) \<longleftrightarrow> well_formed 0 is"
  by (induction args) auto

lemma decode_well_formed: "decode m k p = Some raws \<Longrightarrow> well_formed 0 (map (resolve T) raws)"
proof (induction rule: decode_induct)
  case (step k p op q arg ts r rest)
  have op: "unat op < 296" "op \<noteq> CEE_COUNT" using step(2) by (auto simp: valid_opcode_def word_less_nat_alt)
  note fits = decode_operand_fits(1) [OF step(3) op, of T "Some k"] decode_operand_fits(2,3) [OF step(3) op]
  have args: "\<forall>i \<in> set (map (resolve T) ts). fst i = CEE_SWITCH_ARG" using step(5) by (fastforce simp: resolve_def)
  have fst: "fst (resolve T (Some k, op, arg)) = op" by (simp add: resolve_def)
  show ?case
  proof (cases "op = CEE_SWITCH")
    case True
    have "opcode_flags CEE_SWITCH = Some 0x20" using op_flags_some [OF op(1)] switch_size(4) True by simp
    then have "op_bits (snd (resolve T (Some k, op, arg))) = length (map (resolve T) ts)"
      using fits(2) True by (simp add: resolve_def op_bits_def)
    then show ?thesis
      using True fst fits(1) decode_byte_opcode [OF step(1,2)] step(6) well_formed_args [OF args] by simp
  next
    case False
    then show ?thesis using fst fits(1,3) decode_byte_opcode [OF step(1,2)] step(6) by simp
  qed
qed simp

lemma decode_kinds:
  assumes "decode m k p = Some raws"
  shows "\<forall>(start, op, arg) \<in> set raws. case start of Some j \<Rightarrow> byte_opcode op | None \<Rightarrow> op = CEE_SWITCH_ARG"
  using assms
proof (induction rule: decode_induct)
  case (step k p op q arg ts r rest)
  then show ?case using decode_byte_opcode [OF step(1,2)] by fastforce
qed simp

section \<open>Where the labels are\<close>

lemma offset_table_lookup:
  "length zs = length raws \<Longrightarrow> distinct (starts raws) \<Longrightarrow>
   (\<forall>k. k \<notin> set (starts raws) \<longrightarrow> offset_table (zip (map fst raws) zs) t ! k = t ! k) \<and>
   (\<forall>j < length raws. \<forall>k < length t. fst (raws ! j) = Some k \<longrightarrow> offset_table (zip (map fst raws) zs) t ! k = zs ! j)"
proof (induction raws zs arbitrary: t rule: list_induct2' [case_names Nil_Nil Cons_Nil Nil_Cons Cons])
  case (Cons r raws z zs)
  show ?case
  proof (cases "fst r")
    case None
    then have "starts (r # raws) = starts raws" by (cases r) simp
    with Cons None show ?thesis by (auto simp: less_Suc_eq_0_disj)
  next
    case (Some k)
    then have s: "starts (r # raws) = k # starts raws" by (cases r) simp
    with Cons have IH: "\<And>k'. k' \<notin> set (starts raws) \<Longrightarrow> offset_table (zip (map fst raws) zs) (t[k := z]) ! k' = t[k := z] ! k'"
        "\<And>j k'. j < length raws \<Longrightarrow> k' < length t \<Longrightarrow> fst (raws ! j) = Some k' \<Longrightarrow>
          offset_table (zip (map fst raws) zs) (t[k := z]) ! k' = zs ! j" and k: "k \<notin> set (starts raws)" by simp_all
    show ?thesis using IH(1) [OF k] IH Some s by (auto simp: less_Suc_eq_0_disj)
  qed
qed simp_all

text \<open>
  What \<open>ImportIL\<close> makes of a code (\<open>ImportIL_decode\<close>), with \<open>xs\<close> the cells: what its table of
  offsets holds at an offset, and the program.
\<close>

definition cell_at :: "nat \<Rightarrow> raw list \<Rightarrow> addr list \<Rightarrow> u32 \<Rightarrow> addr" where
  "cell_at N raws xs t = offset_table (zip (map fst raws) xs) (offsets_initial N) ! unat t"

definition imported :: "nat \<Rightarrow> raw list \<Rightarrow> addr list \<Rightarrow> (opcode \<times> operand) list" where
  "imported N raws xs = map (resolve (offset_table (zip (map fst raws) xs) (offsets_initial N))) raws"

lemma fst_resolve [simp]: "fst (resolve T r) = fst (snd r)"
  by (cases r) (simp add: resolve_def)

lemma label_ok_real:
  assumes d: "decode n 0 code = Some raws" "length code = N" and xs: "length xs = length raws" and l: "label_ok N raws t"
  defines "T \<equiv> offset_table (zip (map fst raws) xs) (offsets_initial N)"
  shows "real_label xs (imported N raws xs) (T ! unat t)" "unat t \<le> N" "length T = N + 1"
proof -
  have s: "distinct (starts raws)" "\<And>j. j \<in> set (starts raws) \<Longrightarrow> j < N" using decode_starts [OF d(1)] d(2) by auto
  note look = offset_table_lookup [OF xs s(1), of "offsets_initial N", folded T_def]
  have lN: "length (offsets_initial N) = N + 1" by (simp add: offsets_initial_def)
  then show "length T = N + 1" by (simp add: T_def)
  consider "unat t = N" | "unat t \<in> set (starts raws)" using l by (auto simp: label_ok_def)
  then have "real_label xs (imported N raws xs) (T ! unat t) \<and> unat t \<le> N"
  proof cases
    case 1
    have "N \<notin> set (starts raws)" using s(2) [of N] by blast
    then have "T ! unat t = m_IL" using look 1 by (simp add: offsets_initial_def nth_append)
    with 1 show ?thesis by (simp add: real_label_def)
  next
    case 2
    then obtain j where j: "j < length raws" "fst (raws ! j) = Some (unat t)" unfolding starts_set by (metis in_set_conv_nth)
    have "T ! unat t = xs ! j" using look j s(2) [OF 2] lN by auto
    moreover have "byte_opcode (fst (snd (raws ! j)))"
      using decode_kinds [OF d(1)] j nth_mem [OF j(1)] by (cases "raws ! j") fastforce
    ultimately show ?thesis
      using j(1) xs s(2) [OF 2] byte_opcode_not_arg by (auto simp: real_label_def imported_def intro!: exI [of _ j])
  qed
  then show "real_label xs (imported N raws xs) (T ! unat t)" "unat t \<le> N" by simp_all
qed

lemma imported_ok:
  assumes d: "decode n 0 code = Some raws" "length code = N" and xs: "length xs = length raws" and t: "targets_ok N raws"
  shows "list_all operand_ok (imported N raws xs)" "well_formed 0 (imported N raws xs)" "targets_real xs (imported N raws xs)"
proof -
  let ?T = "offset_table (zip (map fst raws) xs) (offsets_initial N)"
  have ops: "unat op < 296 \<and> op \<noteq> CEE_COUNT" if "(start, op, arg) \<in> set raws" for start op arg
    using decode_kinds [OF d(1)] that byte_opcode_bound [of op]
    by (fastforce simp: word_less_nat_alt split: option.splits)
  have flags: "opcode_flags op = Some (op_flags op)" if "(start, op, arg) \<in> set raws" for start op arg
    using ops [OF that] op_flags_some by blast
  have "operand_ok (resolve ?T r)" if "r \<in> set raws" for r
  proof -
    obtain start op arg where r: "r = (start, op, arg)" by (cases r)
    show ?thesis using ops [of start op arg] flags [of start op arg] that by (auto simp: r operand_ok_def resolve_def)
  qed
  then show "list_all operand_ok (imported N raws xs)" by (simp add: imported_def list_all_iff)
  show "well_formed 0 (imported N raws xs)" unfolding imported_def by (rule decode_well_formed [OF d(1)])
  show "targets_real xs (imported N raws xs)"
    unfolding targets_real_def
  proof (intro ballI allI impI)
    fix i a assume i: "i \<in> set (imported N raws xs)" "snd i = Target a"
    then obtain start op arg where r: "(start, op, arg) \<in> set raws" "i = resolve ?T (start, op, arg)" by (auto simp: imported_def)
    then have f: "op_flags op \<in> {0x11, 0x14}" "a = target_of ?T arg"
      using i(2) flags [OF r(1)] by (auto simp: resolve_def split: if_split_asm)
    then have "label_ok N raws (ucast arg)" using t r(1) by (auto simp: targets_ok_def list_all_iff)
    note l = label_ok_real [OF d xs this]
    then show "real_label xs (imported N raws xs) a" unfolding f(2) by (simp add: target_of_def)
  qed
qed

section \<open>Exception clauses\<close>

text \<open>
  The clause with pointers in place of offsets; its handler ends before the instruction at the
  offset behind the handler.
\<close>

definition denotes :: "nat \<Rightarrow> raw list \<Rightarrow> addr list \<Rightarrow> eh_clause \<Rightarrow> EHClause \<Rightarrow> bool" where
  "denotes N raws xs eh c \<longleftrightarrow>
     m_Flags c = GetFlags eh \<and> m_pTryBegin c = cell_at N raws xs (GetTryOffset eh) \<and>
     m_pTryEnd c = cell_at N raws xs (GetTryOffset eh + GetTryLength eh) \<and>
     m_pHandlerBegin c = cell_at N raws xs (GetHandlerOffset eh) \<and>
     (\<exists>as bs. m_IL # xs @ [m_IL] =
       as @ m_pHandlerEnd c # cell_at N raws xs (GetHandlerOffset eh + GetHandlerLength eh) # bs) \<and>
     m_ClassToken c = (if GetFlags eh AND COR_ILEXCEPTION_CLAUSE_FILTER = 0 then ClassToken (GetClassToken eh)
       else Filter (cell_at N raws xs (GetClassToken eh)))"

lemma real_label_before:
  assumes l: "il_list rw xs" and q: "real_label xs is q"
  obtains i as bs where "get_instr q rw = Some i" "m_IL # xs @ [m_IL] = as @ m_pPrev i # q # bs"
proof -
  have c: "chain (il_heap rw) (m_IL # xs @ [m_IL])" using l by (simp add: il_list_def)
  from real_label_range [OF q] obtain as bs where s: "xs @ [m_IL] = as @ q # bs" by (metis split_list)
  then have "m_IL # xs @ [m_IL] = butlast (m_IL # as) @ last (m_IL # as) # q # bs"
    by (metis append_Cons append_butlast_last_id append.assoc append_Nil list.distinct(1))
  moreover from this c have "pv (il_heap rw) q = Some (last (m_IL # as))" using chain_next(2) by metis
  then obtain i where "get_instr q rw = Some i" "m_pPrev i = last (m_IL # as)" by (auto simp: pv_def get_instr_def)
  ultimately show thesis using that by metis
qed

lemma import_clause_ok:
  assumes d: "decode n 0 code = Some raws" "length code = N" and xs: "length xs = length raws" and l: "il_list rw xs"
    and get: "\<And>t. label_ok N raws t \<Longrightarrow> GetInstrFromOffset t rw = Some (cell_at N raws xs t)"
    and c: "clause_labels_ok N raws eh"
  shows "\<exists>c. import_clause eh rw = Some c \<and> denotes N raws xs eh c \<and> clause_ok xs (imported N raws xs) c"
proof -
  note real = label_ok_real(1) [OF d xs, folded cell_at_def]
  have lab: "label_ok N raws (GetTryOffset eh)" "label_ok N raws (GetTryOffset eh + GetTryLength eh)"
    "label_ok N raws (GetHandlerOffset eh)" "label_ok N raws (GetHandlerOffset eh + GetHandlerLength eh)"
    "GetFlags eh AND 1 \<noteq> 0 \<Longrightarrow> label_ok N raws (GetClassToken eh)"
    using c by (simp_all add: clause_labels_ok_def)
  obtain i as bs where i: "get_instr (cell_at N raws xs (GetHandlerOffset eh + GetHandlerLength eh)) rw = Some i"
      "m_IL # xs @ [m_IL] = as @ m_pPrev i # cell_at N raws xs (GetHandlerOffset eh + GetHandlerLength eh) # bs"
    by (rule real_label_before [OF l real [OF lab(4)]])
  define c where "c = \<lparr>m_Flags = GetFlags eh, m_pTryBegin = cell_at N raws xs (GetTryOffset eh),
    m_pTryEnd = cell_at N raws xs (GetTryOffset eh + GetTryLength eh),
    m_pHandlerBegin = cell_at N raws xs (GetHandlerOffset eh), m_pHandlerEnd = m_pPrev i,
    m_ClassToken = (if GetFlags eh AND 1 = 0 then ClassToken (GetClassToken eh) else Filter (cell_at N raws xs (GetClassToken eh)))\<rparr>"
  have "import_clause eh rw = Some c"
    using get [OF lab(1)] get [OF lab(2)] get [OF lab(3)] get [OF lab(4)] get [OF lab(5)] i(1)
    by (auto simp: import_clause_def c_def)
  moreover have "denotes N raws xs eh c" using i(2) unfolding denotes_def by (auto simp: c_def)
  moreover have "clause_ok xs (imported N raws xs) c"
    unfolding clause_ok_def handler_end_iff
    using real [OF lab(1)] real [OF lab(2)] real [OF lab(3)] real [OF lab(4)] real [OF lab(5)] i(2) by (auto simp: c_def)
  ultimately show ?thesis by blast
qed

lemma import_clauses_ok:
  assumes d: "decode n 0 code = Some raws" "length code = N" and xs: "length xs = length raws" and l: "il_list rw xs"
    and get: "\<And>t. label_ok N raws t \<Longrightarrow> GetInstrFromOffset t rw = Some (cell_at N raws xs t)"
  shows "list_all (clause_labels_ok N raws) ehs \<Longrightarrow>
    \<exists>cs. import_clauses ehs rw = Some cs \<and> list_all2 (denotes N raws xs) ehs cs \<and> list_all (clause_ok xs (imported N raws xs)) cs"
proof (induction ehs)
  case (Cons eh ehs)
  then obtain cs where "import_clauses ehs rw = Some cs" "list_all2 (denotes N raws xs) ehs cs"
      "list_all (clause_ok xs (imported N raws xs)) cs" by auto
  moreover obtain c where "import_clause eh rw = Some c" "denotes N raws xs eh c" "clause_ok xs (imported N raws xs) c"
    using import_clause_ok [OF d xs l get] Cons.prems by auto
  ultimately show ?case by (intro exI [of _ "c # cs"]) simp
qed simp

section \<open>Import of a valid body\<close>

definition code_length :: "nat \<Rightarrow> byte list \<Rightarrow> nat" where
  "code_length base body = (case DecoderInit base body of None \<Rightarrow> 0 | Some d \<Rightarrow> unat (GetCodeSize d))"

lemma Import_valid:
  assumes v: "valid_body base body raws ehs" and rw0: "il_list rw0 []" "m_pEH rw0 = []" and hr: "\<not> FAILED hr"
  defines "N \<equiv> code_length base body"
  shows "\<exists>rw xs. Import hr base body rw0 = Some (S_OK, rw) \<and> il_list rw xs \<and> length xs = length raws \<and>
    map (instr_code rw) xs = map Some (imported N raws xs) \<and> list_all2 (denotes N raws xs) ehs (m_pEH rw) \<and>
    body_ok xs (imported N raws xs) (m_pEH rw) \<and> m_nEH rw = word_of_nat (length (m_pEH rw)) \<and> flags_ok (m_flags rw) \<and>
    il_brk rw = il_brk rw0 + length raws \<and> m_moduleId rw = m_moduleId rw0 \<and> m_tkMethod rw = m_tkMethod rw0 \<and>
    m_fGenerateTinyHeader rw = m_fGenerateTinyHeader rw0 \<and>
    m_pICorProfilerFunctionControl rw = m_pICorProfilerFunctionControl rw0"
proof -
  from v obtain d c where d: "DecoderInit base body = Some d" "dec_Code d = Some c" "N = unat (GetCodeSize d)"
      "N \<le> length (drop c body)" "N + 8 < 2 ^ 32" "decode_il (take N (drop c body)) = Some raws"
      "decoder_clauses body (dec_EH d) = Some ehs" "targets_ok N raws" "list_all (clause_labels_ok N raws) ehs"
    by (auto simp: valid_body_def N_def code_length_def Let_def split: option.split_asm)
  define rw1 where "rw1 = rw0\<lparr>m_tkLocalVarSig := GetLocalVarSigTok d, m_maxStack := GetMaxStack d,
    m_flags := GetMethodFlags d AND CorILMethod_InitLocals, m_CodeSize := GetCodeSize d\<rparr>"
  have l1: "il_list rw1 []" using rw0(1) il_list_cong [of rw1 rw0 "[]"] by (simp add: rw1_def)
  have "unat (m_CodeSize rw1) = N" by (simp add: rw1_def d(3))
  from ImportIL_decode [OF this d(5,4) l1] d(6)
  obtain xs rw2 where i: "ImportIL (drop c body) rw1 = Some (S_OK, rw2)" "il_list rw2 xs"
      "map (instr_code rw2) xs = map Some (imported N raws xs)"
      "rw_rest rw2 = (rw_rest rw1)\<lparr>m_pOffsetToInstr := offset_table (zip (map fst raws) xs) (offsets_initial N)\<rparr>"
      "il_brk rw2 = il_brk rw1 + length raws"
    by (auto simp: Let_def imported_def comp_def)
  have xs: "length xs = length raws" using map_eq_imp_length_eq [OF i(3)] by (simp add: imported_def)
  have dec: "decode N 0 (take N (drop c body)) = Some raws" "length (take N (drop c body)) = N"
    using d(4,6) by (simp_all add: decode_il_def min_def split: if_split_asm)
  note rest = i(4) [THEN arg_cong, of m_CodeSize] i(4) [THEN arg_cong, of m_pOffsetToInstr] i(4) [THEN arg_cong, of m_pEH]
    i(4) [THEN arg_cong, of m_flags] i(4) [THEN arg_cong, of m_moduleId] i(4) [THEN arg_cong, of m_tkMethod]
    i(4) [THEN arg_cong, of m_fGenerateTinyHeader] i(4) [THEN arg_cong, of m_pICorProfilerFunctionControl]
  have get: "GetInstrFromOffset t rw2 = Some (cell_at N raws xs t)" if "label_ok N raws t" for t
    using rest(1,2) label_ok_real(2,3) [OF dec xs that] d(3)
    by (simp add: GetInstrFromOffset_def cell_at_def rw_rest_def rw1_def word_le_nat_alt)
  obtain cs where cs: "import_clauses ehs rw2 = Some cs" "list_all2 (denotes N raws xs) ehs cs"
      "list_all (clause_ok xs (imported N raws xs)) cs"
    using import_clauses_ok [OF dec xs i(2) get d(9)] by blast
  have "m_pEH rw2 = []" using rest(3) rw0(2) by (simp add: rw_rest_def rw1_def)
  from ImportEH_clauses [OF cs(1) this] obtain rw3 where e: "ImportEH ehs rw2 = Some (S_OK, rw3)"
      "rw3 = rw2\<lparr>m_nEH := word_of_nat (length ehs), m_pEH := cs\<rparr>" by blast
  have "Import hr base body rw0 = Some (S_OK, rw3)"
    using hr d(1,2,7) i(1) e(1) by (simp add: Import_def rw1_def)
  moreover have "il_list rw3 xs" using i(2) il_list_cong [of rw3 rw2 xs] by (simp add: e(2))
  moreover have "map (instr_code rw3) xs = map Some (imported N raws xs)" 
    using i(3) by (simp add: e(2) instr_code_def [abs_def])
  moreover have "body_ok xs (imported N raws xs) cs"
    using imported_ok [OF dec xs d(8)] cs(3) i(2) well_formed_plainI [of 0 "imported N raws xs"] xs
    by (simp add: body_ok_def il_list_def) (simp add: imported_def)
  moreover have "flags_ok (m_flags rw3)"
  proof -
    have "m_flags rw3 = GetMethodFlags d AND 0x10" using rest(4) by (simp add: e(2) rw_rest_def rw1_def)
    moreover have "w AND 0x10 = (if bit w 4 then 0x10 else 0)" for w :: u32
    proof (rule bit_eqI)
      fix n
      have e: "(0x10 :: u32) = 2 ^ 4" by simp
      have "bit (0x10 :: u32) n \<longleftrightarrow> n < 32 \<and> n = 4" unfolding e by (subst bit_exp_iff) simp
      then have "bit (0x10 :: u32) n \<longleftrightarrow> n = 4" by arith
      then show "bit (w AND 0x10) n \<longleftrightarrow> bit (if bit w 4 then 0x10 else 0 :: u32) n"
        by (cases "bit w 4"; cases "n = 4") (simp_all only: bit_and_iff if_True if_False simp_thms bit_0_eq bot_apply bot_bool_def)
    qed
    ultimately show ?thesis by (auto simp: flags_ok_def)
  qed
  ultimately show ?thesis
    using cs(2) list_all2_lengthD [OF cs(2)] i(5) rest(5-8) xs
    by (intro exI [of _ rw3] exI [of _ xs]) (simp add: e(2) rw1_def rw_rest_def)
qed

end
