(* ===== verification/Exported_Bodies.thy ===== *)
theory Exported_Bodies
  imports Imported_Bodies
begin

text \<open>
  The bodies \<open>ILRewriter::Export\<close> writes are valid: they can be decoded, and their branches and
  exception clauses lead to instructions. So what has been handed to the runtime can be
  taken back and rewritten again.
\<close>

section \<open>Offsets of labels\<close>

lemma raw_program_start:
  "j < length is \<Longrightarrow> fst (is ! j) \<noteq> CEE_SWITCH_ARG \<Longrightarrow> k + code_size (take j is) \<in> set (starts (raw_program L k is))"
proof (induction "is" arbitrary: j k)
  case (Cons i "is")
  show ?case
  proof (cases j)
    case 0
    with Cons.prems show ?thesis by (simp add: code_size_def)
  next
    case (Suc j')
    with Cons show ?thesis by (simp add: add.assoc [symmetric])
  qed
qed simp

lemma raw_program_set: "(s, op, arg) \<in> set (raw_program L k is) \<Longrightarrow> \<exists>i \<in> set is. fst i = op \<and> arg = raw_operand L (snd i)"
  by (induction "is" arbitrary: k) auto

lemma real_label_ok:
  assumes lay: "layout L 0 xs is" and N: "code_size is = N" "N < 2 ^ 32" and t: "real_label xs is t"
  shows "label_ok N (raw_program L 0 is) (L t)"
proof -
  have le: "code_size (take j is) \<le> N" for j
    unfolding N(1) [symmetric]
    by (subst (2) append_take_drop_id [of j "is", symmetric], simp only: code_size_def map_append sum_list_append)
  from t consider "t = m_IL" | j where "j < length xs" "xs ! j = t" "fst (is ! j) \<noteq> CEE_SWITCH_ARG"
    unfolding real_label_def by blast
  then show ?thesis
  proof cases
    case 1
    then show ?thesis using layout_end [OF lay] N unat_of_nat_u32 [of N] by (simp add: label_ok_def)
  next
    case 2
    have "unat (L t) = code_size (take j is)"
      using layout_nth [OF lay 2(1)] 2(2) le [of j] N(2) unat_of_nat_u32 [of "code_size (take j is)"] by simp
    then show ?thesis
      using raw_program_start [of j "is" 0 L] 2 layout_length [OF lay] by (simp add: label_ok_def)
  qed
qed

lemma raw_program_targets:
  assumes lay: "layout L 0 xs is" and N: "code_size is = N" "N < 2 ^ 32" and ok: "list_all operand_ok is"
    and tgt: "targets_real xs is"
  shows "targets_ok N (raw_program L 0 is)"
proof -
  have "label_ok N (raw_program L 0 is) (ucast arg)"
    if r: "(s, op, arg) \<in> set (raw_program L 0 is)" "op_flags op \<in> {0x11, 0x14}" for s op arg
  proof -
    obtain i where i: "i \<in> set is" "fst i = op" "arg = raw_operand L (snd i)"
      using raw_program_set [OF r(1)] by blast
    then have "operand_ok i" using ok by (simp add: list_all_iff)
    then obtain t where t: "snd i = Target t" using r(2) i(2) by (auto simp: operand_ok_def)
    have "(ucast (ucast (L t) :: u64) :: u32) = L t" by (rule bit_word_eqI) (simp add: bit_simps)
    then show ?thesis
      using real_label_ok [OF lay N, of t] tgt i(1,3) t by (simp add: targets_real_def raw_operand_def)
  qed
  then show ?thesis by (force simp: targets_ok_def list_all_iff)
qed

lemma images_labels:
  assumes lay: "layout L 0 xs is" and N: "code_size is = N" "N < 2 ^ 32" and c: "images L xs is c eh"
  shows "clause_labels_ok N (raw_program L 0 is) eh"
proof -
  note label = real_label_ok [OF lay N]
  obtain j where "clause_ok xs is c" "real_label xs is ((xs @ [m_IL]) ! j)" "eh = clause_image L ((xs @ [m_IL]) ! j) c"
    using c by (auto simp: images_def)
  then show ?thesis
    using label by (auto simp: clause_labels_ok_def clause_image_def clause_ok_def split: eh_operand.splits)
qed

section \<open>Exported bodies\<close>

lemma exported_body_valid:
  assumes m: "exportable rw xs is" and tiny: "\<not> m_fGenerateTinyHeader rw" and alloc: "AllocateILMemory env rw"
  shows "\<exists>body is' rw' raws ehs. Export mem pad env rw = Some (SetILFunctionBody env rw' body, Some body, rw') \<and>
    program_at rw' xs is' \<and> (\<forall>base. base AND 3 = 0 \<longrightarrow> valid_body base body raws ehs \<and> code_length base body = code_size is') \<and>
    (\<forall>zs. length zs = length xs \<longrightarrow> imported (code_size is') raws zs = map (relabel xs zs \<circ> plain) is')"
proof -
  have p: "program_at rw xs is" and wf: "well_formed 0 (map plain is)" and tgt: "targets_real xs is"
    and eh: "list_all (clause_ok xs is) (m_pEH rw)" "m_nEH rw = word_of_nat (length (m_pEH rw))"
      "24 * length (m_pEH rw) + 4 < 2 ^ 24"
    and f: "flags_ok (m_flags rw)" and size: "10 * (il_brk rw - 3) + 8 < 2 ^ 32" "10 * (il_brk rw - 3) < 2 ^ 32"
    using m by (simp_all add: exportable_def)
  from export_decodes_plain [OF p wf size(2)]
  obtain buf is' rw' where e: "export_buffer mem rw = Some (buf, word_of_nat (code_size is'), rw')"
      "list_all2 widened is is'" "program_at rw' xs is'" "well_formed 0 (map plain is')" "links_same rw rw'"
      "code_size is' \<le> length buf" "layout (\<lambda>x. the (offset_at x rw')) 0 xs is'"
      "decode_il (take (code_size is') buf) = Some (raw_program (\<lambda>x. the (offset_at x rw')) 0 (map plain is'))"
      "\<forall>x \<in> set (m_IL # xs). offset_at x rw' \<noteq> None"
    unfolding Let_def by blast
  define L where "L = (\<lambda>x. the (offset_at x rw'))"
  define N where "N = code_size is'"
  have ok: "list_all operand_ok is" using p by (simp add: program_at_def)
  note len = program_at_length [OF p]
  note links = links_same_members [OF e(5)]
  have p': "il_list rw' xs" "list_all operand_ok (map plain is')" "length xs = length is'"
    using e(3) program_at_length [OF e(3)] by (simp_all add: program_at_def)
  have eh': "list_all (clause_ok xs (map plain is')) (m_pEH rw')" "m_nEH rw' = word_of_nat (length (m_pEH rw'))"
      "24 * length (m_pEH rw') + 4 < 2 ^ 24" "flags_ok (m_flags rw')"
    using eh f clause_ok_widened [OF e(2) ok len] p'(3) by (auto simp: links list_all_iff)
  have N: "N + 8 < 2 ^ 32" "code_size (map plain is') = N" "N \<le> length buf" "N < 2 ^ 32"
    using export_size_bound [OF e(3,5) size(1)] e(6) by (simp_all add: N_def)
  have off: "offset_at x rw' \<noteq> None" if "x \<in> set (m_IL # xs)" for x using e(9) that by blast
  have lay: "layout L 0 xs (map plain is')" using e(7) p'(3) by (simp add: L_def)
  have tgt': "targets_real xs (map plain is')" using targets_real_widened [OF e(2) ok len tgt] p'(3) by simp
  obtain body ehs where b: "fat_body pad buf (word_of_nat N) rw' = Some body" "take N (drop 12 body) = take N buf"
      "N \<le> length (drop 12 body)" "list_all2 (images L xs (map plain is')) (m_pEH rw') ehs"
      "\<forall>base. base AND 3 = 0 \<longrightarrow> (\<exists>d. DecoderInit base body = Some d \<and> dec_Code d = Some 12 \<and>
        GetCodeSize d = word_of_nat N \<and> decoder_clauses body (dec_EH d) = Some ehs)"
    using fat_body_decoded [OF p'(1) N(1,3) off eh', of pad] unfolding L_def by blast
  define raws where "raws = raw_program L 0 (map plain is')"
  have uN: "unat (word_of_nat N :: u32) = N" using N(4) by (rule unat_of_nat_u32)
  have v: "list_all (clause_labels_ok N raws) ehs" "targets_ok N raws" "decode_il (take N (drop 12 body)) = Some raws"
    "24 * length ehs + 4 < 2 ^ 24"
    using b(4) images_labels [OF lay N(2,4)] raw_program_targets [OF lay N(2,4) p'(2) tgt'] e(8) b(2) eh'(3)
      list_all2_lengthD [OF b(4)]
    by (auto simp: raws_def N_def L_def list_all_length list_all2_conv_all_nth)
  have "valid_body base body raws ehs \<and> code_length base body = N" if aligned: "base AND 3 = 0" for base
  proof -
    obtain d where "DecoderInit base body = Some d" "dec_Code d = Some 12" "GetCodeSize d = word_of_nat N"
        "decoder_clauses body (dec_EH d) = Some ehs" using b(5) aligned by blast
    then show ?thesis using v b(3) N(1) uN by (simp add: valid_body_def code_length_def)
  qed
  moreover have "imported N raws zs = map (relabel xs zs \<circ> plain) is'" if "length zs = length xs" for zs
  proof -
    have "distinct (m_IL # xs)" using p'(1) by (simp add: il_list_def)
    from resolve_raw_program [OF lay this _ N(2,4) e(4) p'(2) tgt', of zs] that p'(3) show ?thesis
      by (simp add: imported_def raws_def)
  qed
  moreover have "Export mem pad env rw = Some (SetILFunctionBody env rw' body, Some body, rw')"
    using Export_fat [OF tiny alloc e(1,5)] b(1) by (simp add: N_def)
  ultimately show ?thesis using e(3) unfolding N_def by blast
qed

end
