(* ===== verification/Rewritten_Bodies.thy ===== *)
theory Rewritten_Bodies
  imports Replacement_Contracts Startup_Contracts Exported_Bodies
begin

text \<open>
  From the body the runtime gives for a method to the body it is handed. The importer, the rewriting
  of the instruction list and the exporter are composed: the new body, read back by the importer,
  is the rewritten program, with all branches and exception clauses where they belong.
\<close>

section \<open>Handing over a body\<close>

text \<open>
  \<open>body\<close> is, at any aligned address, a valid body, and decoded as the program \<open>is\<close>; it is read
  by the importer, into any empty rewriter, as this program with the clauses \<open>ehs\<close>. \<open>xs\<close> are the
  cells the labels in \<open>is\<close> and \<open>ehs\<close> name.
\<close>

definition decodes_to :: "byte list \<Rightarrow> addr list \<Rightarrow> (opcode \<times> operand) list \<Rightarrow> bool" where
  "decodes_to body xs is \<longleftrightarrow>
     (\<exists>raws ehs. (\<forall>base. base AND 3 = 0 \<longrightarrow> valid_body base body raws ehs \<and> code_length base body = code_size is) \<and>
        (\<forall>zs. length zs = length xs \<longrightarrow> imported (code_size is) raws zs = map (relabel xs zs \<circ> plain) is))"

definition reads_back :: "byte list \<Rightarrow> addr list \<Rightarrow> (opcode \<times> operand) list \<Rightarrow> EHClause list \<Rightarrow> mdToken \<Rightarrow> u32 \<Rightarrow> bool" where
  "reads_back body xs is ehs sig flags \<longleftrightarrow> decodes_to body xs is \<and>
     (\<forall>base rw. base AND 3 = 0 \<longrightarrow> il_list rw [] \<longrightarrow> m_pEH rw = [] \<longrightarrow>
        (\<exists>zs rw'. Import S_OK base body rw = Some (S_OK, rw') \<and> program_at rw' zs (map (relabel xs zs \<circ> plain) is) \<and>
           m_pEH rw' = map (relabel_clause xs zs) ehs \<and> m_tkLocalVarSig rw' = sig \<and>
           m_flags rw' = flags AND CorILMethod_InitLocals))"

lemma exportable_reads_back:
  assumes e: "exportable rw xs is" and t: "\<not> m_fGenerateTinyHeader rw" and a: "AllocateILMemory env rw"
  shows "\<exists>body is' rw'. Export mem pad env rw = Some (SetILFunctionBody env rw' body, Some body, rw') \<and> links_same rw rw' \<and>
    list_all2 widened is is' \<and> reads_back body xs is' (m_pEH rw) (m_tkLocalVarSig rw) (m_flags rw)"
proof -
  have empty: "il_list (ILRewriter_init False 0 0) []" "m_pEH (ILRewriter_init False 0 0) = []" "(0 :: nat) AND 3 = 0"
    by (simp_all add: ILRewriter_init_il_list) (simp add: ILRewriter_init_def)
  note read = exported_body_imports [OF e t a, of _ _ mem pad]
  obtain body is' rw' where b: "Export mem pad env rw = Some (SetILFunctionBody env rw' body, Some body, rw')"
      "list_all2 widened is is'" "links_same rw rw'" "program_at rw' xs is'"
    using read [OF empty] by blast
  have one: "is'' = is'" if "program_at rw' xs is''" for is''
    using that b(4) by (simp add: program_at_def)
  have "\<exists>zs rw''. Import S_OK base body rw2 = Some (S_OK, rw'') \<and> program_at rw'' zs (map (relabel xs zs \<circ> plain) is') \<and>
      m_pEH rw'' = map (relabel_clause xs zs) (m_pEH rw) \<and> m_tkLocalVarSig rw'' = m_tkLocalVarSig rw \<and>
      m_flags rw'' = m_flags rw AND CorILMethod_InitLocals"
    if r: "base AND 3 = 0" "il_list rw2 []" "m_pEH rw2 = []" for base rw2
    using read [OF r(2,3,1)] b(1) one by force
  moreover have "decodes_to body xs is'"
    using exported_body_valid [OF e t a, of mem pad] b(1) one unfolding decodes_to_def by force
  ultimately show ?thesis using b(1-3) unfolding reads_back_def by blast
qed

text \<open>\<open>Export\<close> as the profiler calls it, on what is left of a valid body.\<close>

definition hand_over :: "'s profiler_info \<Rightarrow> u64 \<Rightarrow> mdToken \<Rightarrow> byte list \<Rightarrow> 's \<Rightarrow> hresult \<times> 's" where
  "hand_over info module_id tk body s =
     (case pi_SetILFunctionBody info module_id tk body s of (hr, s') \<Rightarrow> (if FAILED hr then hr else S_OK, s'))"

lemma hand_over_result: "hand_over info module_id tk body s = (hr, s') \<Longrightarrow> (if FAILED hr then hr else S_OK) = hr"
  by (auto simp: hand_over_def FAILED_def split: prod.split_asm if_split_asm)

text \<open>Without memory for the body the runtime is left as it is.\<close>

definition export_result :: "'s profiler_info \<Rightarrow> u64 \<Rightarrow> mdToken \<Rightarrow> byte list \<Rightarrow> 's \<Rightarrow> hresult \<times> 's" where
  "export_result info module_id tk body s =
     (if FAILED (pi_GetILFunctionBodyAllocator info s module_id) \<or> \<not> pi_Alloc info s then (E_OUTOFMEMORY, s)
      else hand_over info module_id tk body s)"

lemma rewriter_Export_body:
  assumes l: "il_list rw xs" "map (instr_code rw) xs = map Some is" "body_ok xs is (m_pEH rw)"
    and eh: "m_nEH rw = word_of_nat (length (m_pEH rw))" "24 * length (m_pEH rw) + 4 < 2 ^ 24" "flags_ok (m_flags rw)"
    and size: "10 * (il_brk rw - 3) + 12 < 2 ^ 32"
    and kind: "\<not> m_fGenerateTinyHeader rw" "\<not> m_pICorProfilerFunctionControl rw"
  shows "\<exists>body is'. rewriter_Export info rw s = Some (export_result info (m_moduleId rw) (m_tkMethod rw) body s) \<and>
    list_all2 widened is is' \<and> reads_back body xs is' (m_pEH rw) (m_tkLocalVarSig rw) (m_flags rw)"
proof -
  let ?env = "\<lparr>GetILFunctionBodyAllocator = pi_GetILFunctionBodyAllocator info s (m_moduleId rw), Alloc = pi_Alloc info s,
        SetILFunctionBody_rejit = (\<lambda>body. S_OK),
        SetILFunctionBody_info = (\<lambda>module_id token body. fst (pi_SetILFunctionBody info module_id token body s))\<rparr>"
  let ?roomy = "?env\<lparr>GetILFunctionBodyAllocator := S_OK, Alloc := True\<rparr>"
  have "AllocateILMemory ?roomy rw" by (simp add: AllocateILMemory_def FAILED_def)
  from exportable_reads_back [OF exportable_body [OF l eh size] kind(1) this, of "pi_memory info" "pi_padding info"]
  obtain body is' rw' where b: "Export (pi_memory info) (pi_padding info) ?roomy rw = Some (SetILFunctionBody ?roomy rw' body, Some body, rw')"
      "links_same rw rw'" "list_all2 widened is is'" "reads_back body xs is' (m_pEH rw) (m_tkLocalVarSig rw) (m_flags rw)" by blast
  have "rw' = rw\<lparr>il_heap := il_heap rw'\<rparr>" using b(2) by (simp add: links_same_def)
  then obtain h where "rw' = rw\<lparr>il_heap := h\<rparr>" by blast
  then have same: "m_moduleId rw' = m_moduleId rw" "m_tkMethod rw' = m_tkMethod rw"
    "m_pICorProfilerFunctionControl rw' \<longleftrightarrow> m_pICorProfilerFunctionControl rw" by simp_all
  have "Export (pi_memory info) (pi_padding info) ?env rw =
      (if AllocateILMemory ?env rw then Some (SetILFunctionBody ?env rw' body, Some body, rw') else Some (E_OUTOFMEMORY, None, rw'))"
    using b(1) kind same(3) by (auto simp: Export_def AllocateILMemory_def SetILFunctionBody_def split: bind_splits if_split_asm)
  then have "rewriter_Export info rw s = Some (export_result info (m_moduleId rw) (m_tkMethod rw) body s)"
    using kind(2) same
    by (simp add: rewriter_Export_def hand_over_def export_result_def AllocateILMemory_def SetILFunctionBody_def Let_def split: prod.split)
  with b(3,4) show ?thesis by blast
qed

section \<open>Bodies of the runtime\<close>

text \<open>\<open>rw\<close> is what the importer makes of a valid body, \<open>xs\<close> its cells, and \<open>is\<close> the program.\<close>

lemma rewriter_Import_valid_body:
  assumes "pi_GetILFunctionBody info s module_id tk = (hr, base, body)" "\<not> FAILED hr" "valid_body base body raws ehs"
  defines "N \<equiv> code_length base body"
  shows "\<exists>rw xs. rewriter_Import info s module_id tk = Some (S_OK, rw) \<and> il_list rw xs \<and> length xs = length raws \<and>
    map (instr_code rw) xs = map Some (imported N raws xs) \<and> list_all2 (denotes N raws xs) ehs (m_pEH rw) \<and>
    body_ok xs (imported N raws xs) (m_pEH rw) \<and> m_nEH rw = word_of_nat (length (m_pEH rw)) \<and> flags_ok (m_flags rw) \<and>
    il_brk rw = 3 + length raws \<and> m_moduleId rw = module_id \<and> m_tkMethod rw = tk \<and>
    \<not> m_fGenerateTinyHeader rw \<and> \<not> m_pICorProfilerFunctionControl rw"
proof -
  have "m_pEH (ILRewriter_init False module_id tk) = []" by (simp add: ILRewriter_init_def)
  from Import_valid [OF assms(3) ILRewriter_init_il_list this assms(2)] show ?thesis
    using assms(1) by (simp add: rewriter_Import_def N_def) (simp add: ILRewriter_init_def)
qed

lemma valid_body_clauses: "valid_body base body raws ehs \<Longrightarrow> 24 * length ehs + 4 < 2 ^ 24"
  by (auto simp: valid_body_def Let_def split: option.split_asm)

lemma rw_rest_fields:
  assumes "rw_rest rw' = rw_rest rw"
  shows "m_pEH rw' = m_pEH rw" "m_nEH rw' = m_nEH rw" "m_flags rw' = m_flags rw" "m_tkLocalVarSig rw' = m_tkLocalVarSig rw"
    "m_moduleId rw' = m_moduleId rw" "m_tkMethod rw' = m_tkMethod rw"
    "m_fGenerateTinyHeader rw' = m_fGenerateTinyHeader rw" "m_pICorProfilerFunctionControl rw' = m_pICorProfilerFunctionControl rw"
  using arg_cong [OF assms, of m_pEH] arg_cong [OF assms, of m_nEH] arg_cong [OF assms, of m_flags]
    arg_cong [OF assms, of m_tkLocalVarSig] arg_cong [OF assms, of m_moduleId] arg_cong [OF assms, of m_tkMethod]
    arg_cong [OF assms, of m_fGenerateTinyHeader] arg_cong [OF assms, of m_pICorProfilerFunctionControl]
  by (simp_all add: rw_rest_def)

lemma rewriter_Import_valid_cells:
  assumes body: "pi_GetILFunctionBody info s module_id tk = (hr, base, body)" "\<not> FAILED hr" "valid_body base body raws ehs"
    and rw: "rewriter_Import info s module_id tk = Some (S_OK, rw)" "il_list rw xs"
  shows "length xs = length raws" "map (instr_code rw) xs = map Some (imported (code_length base body) raws xs)"
proof -
  from rewriter_Import_valid_body [OF body] rw(1) obtain ys where v: "il_list rw ys" "length ys = length raws"
      "map (instr_code rw) ys = map Some (imported (code_length base body) raws ys)" by auto
  have "ys = xs" using GetILList_il_list [OF v(1)] GetILList_il_list [OF rw(2)] by simp
  with v show "length xs = length raws" "map (instr_code rw) xs = map Some (imported (code_length base body) raws xs)" by simp_all
qed

text \<open>A program made from that of a valid body is handed over as it is.\<close>

lemma rewritten_body_exported:
  assumes body: "pi_GetILFunctionBody info s module_id tk = (hr, base, body)" "\<not> FAILED hr" "valid_body base body raws ehs"
    and rw: "rewriter_Import info s module_id tk = Some (S_OK, rw)" "il_list rw xs"
    and rw': "il_list rw' cs" "map (instr_code rw') cs = map Some js" "rw_rest rw' = rw_rest rw"
      "il_brk rw' + length xs = il_brk rw + length js"
    and ok: "body_ok xs (imported (code_length base body) raws xs) (m_pEH rw) \<Longrightarrow> distinct (m_IL # cs) \<Longrightarrow> body_ok cs js (m_pEH rw)"
    and size: "10 * length js + 12 < 2 ^ 32"
  shows "\<exists>body' js'. rewriter_Export info rw' s' = Some (export_result info module_id tk body' s') \<and>
    list_all2 widened js js' \<and> reads_back body' cs js' (m_pEH rw) (m_tkLocalVarSig rw) (m_flags rw)"
proof -
  from rewriter_Import_valid_body [OF body] rw(1) obtain ys where v: "il_list rw ys" "length ys = length raws"
      "list_all2 (denotes (code_length base body) raws ys) ehs (m_pEH rw)"
      "body_ok ys (imported (code_length base body) raws ys) (m_pEH rw)" "m_nEH rw = word_of_nat (length (m_pEH rw))" "flags_ok (m_flags rw)"
      "il_brk rw = 3 + length raws" "m_moduleId rw = module_id" "m_tkMethod rw = tk" "\<not> m_fGenerateTinyHeader rw"
      "\<not> m_pICorProfilerFunctionControl rw" by auto
  have ys: "ys = xs" using GetILList_il_list [OF v(1)] GetILList_il_list [OF rw(2)] by simp
  have "distinct (m_IL # cs)" using rw'(1) by (simp add: il_list_def)
  then have b: "body_ok cs js (m_pEH rw)" using ok v(4) ys by simp
  note f = rw_rest_fields [OF rw'(3)]
  have n: "24 * length (m_pEH rw) + 4 < 2 ^ 24" using valid_body_clauses [OF body(3)] list_all2_lengthD [OF v(3)] by simp
  have "il_brk rw' = 3 + length js" using rw'(4) v(2,7) ys by simp
  then have "10 * (il_brk rw' - 3) + 12 < 2 ^ 32" using size by simp
  from rewriter_Export_body [OF rw'(1,2) _ _ _ _ this, of info s'] b n v(5,6,8-11) show ?thesis
    by (simp add: f)
qed

lemma calls_inserted: "list_all inserted (calls_of refs)"
proof -
  have "byte_opcode CEE_CALL" "op_flags CEE_CALL = 4" "operand_size CEE_CALL = 4" by code_simp+
  then have "inserted (CEE_CALL, arg32 x)" for x
    using unat_arg(2) [of x] by (auto simp: arg32_def intro!: insertedI)
  then show ?thesis by (simp add: calls_of_def list_all_iff)
qed

text \<open>Calls put in front of a valid body.\<close>

lemma prefixed_body_exported:
  assumes body: "pi_GetILFunctionBody info s module_id tk = (hr, base, body)" "\<not> FAILED hr" "valid_body base body raws ehs"
    and rw: "rewriter_Import info s module_id tk = Some (S_OK, rw)" "il_list rw xs"
    and rw': "il_list rw' (ns @ xs)" "map (instr_code rw') (ns @ xs) = map Some (calls_of refs @ imported (code_length base body) raws xs)"
      "rw_rest rw' = rw_rest rw" "il_brk rw' = il_brk rw + length refs"
    and size: "10 * (length refs + length raws) + 12 < 2 ^ 32"
  shows "\<exists>body' js. rewriter_Export info rw' s' = Some (export_result info module_id tk body' s') \<and>
    list_all2 widened (calls_of refs @ imported (code_length base body) raws xs) js \<and>
    reads_back body' (ns @ xs) js (m_pEH rw) (m_tkLocalVarSig rw) (m_flags rw)"
proof -
  let ?is = "imported (code_length base body) raws xs"
  have n: "length ?is = length raws" "length (calls_of refs) = length refs" by (simp_all add: imported_def calls_of_def)
  have ns: "length (ns @ xs) = length (calls_of refs @ ?is)" using rw'(2) by (metis length_map)
  have ok: "body_ok (ns @ xs) (calls_of refs @ ?is) (m_pEH rw)" if "body_ok xs ?is (m_pEH rw)" "distinct (m_IL # ns @ xs)"
    using body_ok_prefix [OF that(1) _ calls_inserted that(2)] ns that(1) by (simp add: body_ok_def)
  have brk: "il_brk rw' + length xs = il_brk rw + length (calls_of refs @ ?is)" if "length xs = length raws"
    using rw'(4) n that by simp
  note brk = brk [OF rewriter_Import_valid_cells(1) [OF body rw]]
  from rewritten_body_exported [OF body rw rw'(1-3) brk ok] size n show ?thesis by simp
qed

section \<open>Replacement and startup hook\<close>

lemma replaced_body_exported:
  assumes "pi_GetILFunctionBody info s module_id tk = (hr, base, body)" "\<not> FAILED hr" "valid_body base body raws ehs"
    and "rewriter_Import info s module_id tk = Some (S_OK, rw)" "il_list rw xs"
    and "rewritten_all d info p behind mvid_ptr module_id rs (imported (code_length base body) raws xs) False m s =
      Some (js, True, m', s')" "10 * length js + 12 < 2 ^ 32"
    and "\<not> FAILED (pi_GetILFunctionBodyAllocator info s' module_id)" "pi_Alloc info s'"
  shows "\<exists>body' js' cs. ProcessReplacementCalls d info p behind mvid_ptr module_id tk rs m s =
      Some (S_OK, m', snd (hand_over info module_id tk body' s')) \<and>
    subseq xs cs \<and> list_all2 widened js js' \<and> reads_back body' cs js' (m_pEH rw) (m_tkLocalVarSig rw) (m_flags rw)"
proof -
  let ?is = "imported (code_length base body) raws xs"
  have code: "map (instr_code rw) xs = map Some ?is" "length xs = length ?is"
    using rewriter_Import_valid_cells [OF assms(1-5)] by (simp_all add: imported_def)
  obtain rw' cs where r: "all_replacements d info p behind mvid_ptr module_id rs False m s rw = Some (True, m', s', rw')"
      "il_list rw' cs" "map (instr_code rw') cs = map Some js" "rw_rest rw' = rw_rest rw"
      "(\<lambda>(xs, is) (cs, js). woven xs is cs js)\<^sup>*\<^sup>* (xs, ?is) (cs, js)" "il_brk rw' + length ?is = il_brk rw + length js"
    using all_replacements_refines [OF assms(6,5) code(1)] by blast
  have brk: "il_brk rw' + length xs = il_brk rw + length js" using r(6) code(2) by simp
  obtain body' js' where e: "rewriter_Export info rw' s' = Some (hand_over info module_id tk body' s')"
      "list_all2 widened js js'" "reads_back body' cs js' (m_pEH rw) (m_tkLocalVarSig rw) (m_flags rw)"
    using rewritten_body_exported [OF assms(1-5) r(2-4) brk _ assms(7), of s'] body_ok_woven_all [OF r(5)] assms(8,9)
    by (auto simp: export_result_def)
  have "ProcessReplacementCalls d info p behind mvid_ptr module_id tk rs m s =
      Some (S_OK, m', snd (hand_over info module_id tk body' s'))"
    using assms(4) r(1) e(1) by (cases "hand_over info module_id tk body' s'") (simp add: ProcessReplacementCalls_def)
  with e(2,3) woven_all_subseq [OF r(5)] show ?thesis by blast
qed

lemma hooked_body_exported:
  assumes g: "GenerateVoidILStartupMethod bit64 env info module_id s = Some (Inr startup, s1)"
    and body: "pi_GetILFunctionBody info s1 module_id tk = (hr, base, body)" "\<not> FAILED hr" "valid_body base body raws ehs"
    and i: "rewriter_Import info s1 module_id tk = Some (S_OK, rw)" "il_list rw xs"
    and size: "10 * (1 + length raws) + 12 < 2 ^ 32"
  shows "\<exists>n body' js. RunILStartupHook bit64 env info module_id tk s = Some (S_OK, snd (export_result info module_id tk body' s1)) \<and>
    list_all2 widened ((CEE_CALL, arg32 startup) # imported (code_length base body) raws xs) js \<and>
    reads_back body' (n # xs) js (m_pEH rw) (m_tkLocalVarSig rw) (m_flags rw)"
proof -
  have ok: "FAILED S_OK \<longleftrightarrow> False" by (simp add: FAILED_def)
  obtain rw' n where p: "RunILStartupHook bit64 env info module_id tk s =
      map_option (\<lambda>(hr', s2). (S_OK, s2)) (rewriter_Export info rw' s1)"
    "il_list rw' (n # xs)" "rw_rest rw' = rw_rest rw" "il_brk rw' = il_brk rw + 1"
    "map (instr_code rw') (n # xs) = map Some ((CEE_CALL, arg32 startup) # imported (code_length base body) raws xs)"
    using RunILStartupHook_prepends [OF g i rewriter_Import_valid_cells(2) [OF body i], unfolded ok] by auto
  have "il_list rw' ([n] @ xs)" "il_brk rw' = il_brk rw + length [startup]"
    "map (instr_code rw') ([n] @ xs) = map Some (calls_of [startup] @ imported (code_length base body) raws xs)"
    using p(2,4,5) by (simp_all add: calls_of_def)
  from prefixed_body_exported [OF body i this(1,3) p(3) this(2), of s1] size
  obtain body' js where e: "rewriter_Export info rw' s1 = Some (export_result info module_id tk body' s1)"
      "list_all2 widened ((CEE_CALL, arg32 startup) # imported (code_length base body) raws xs) js"
      "reads_back body' (n # xs) js (m_pEH rw) (m_tkLocalVarSig rw) (m_flags rw)"
    by (auto simp: calls_of_def)
  have "RunILStartupHook bit64 env info module_id tk s = Some (S_OK, snd (export_result info module_id tk body' s1))"
    using p(1) e(1) by (cases "export_result info module_id tk body' s1") simp
  with e(2,3) show ?thesis by blast
qed

section \<open>Contracts\<close>

text \<open>
  C7. The import of a body. \<open>raws\<close> and \<open>ehs\<close> are what a decoder of byte code and of exception
  sections says of the body, whatever its format; the list built of it is this program, with
  pointers to instructions for offsets, and the clauses denote the same parts of it.
\<close>

theorem valid_body_imported:
  assumes "pi_GetILFunctionBody info s module_id tk = (hr, base, body)" "\<not> FAILED hr" "valid_body base body raws ehs"
  shows "\<exists>rw xs. rewriter_Import info s module_id tk = Some (S_OK, rw) \<and> il_list rw xs \<and>
    map (instr_code rw) xs = map Some (imported (code_length base body) raws xs) \<and>
    list_all2 (denotes (code_length base body) raws xs) ehs (m_pEH rw)"
  using rewriter_Import_valid_body [OF assms] by blast

text \<open>
  A body with a fat header and a small exception clause: a try block \<open>nop; leave.s\<close>, its handler
  \<open>pop; leave.s\<close>, and a return.
\<close>

definition guarded_body :: "byte list" where
  "guarded_body = [0x1b, 0x30, 1, 0, 7, 0, 0, 0, 0, 0, 0, 0, 0x00, 0xde, 3, 0x26, 0xde, 0, 0x2a, 0,
     1, 0x10, 0, 0, 0, 0, 0, 0, 3, 3, 0, 3, 1, 0, 0, 1]"

definition guarded_raws :: "raw list" where
  "guarded_raws = [(Some 0, CEE_NOP, 0), (Some 1, CEE_LEAVE_S, 6), (Some 3, CEE_POP, 0), (Some 4, CEE_LEAVE_S, 6), (Some 6, CEE_RET, 0)]"

definition guarded_clause :: eh_clause where
  "guarded_clause = \<lparr>GetFlags = 0, GetTryOffset = 0, GetTryLength = 3, GetHandlerOffset = 3, GetHandlerLength = 3,
     GetClassToken = 0x01000001\<rparr>"

definition guarded_decoder :: COR_ILMETHOD_DECODER where
  "guarded_decoder = \<lparr>GetMethodFlags = 0x1b, GetMaxStack = 1, GetCodeSize = 7, GetLocalVarSigTok = 0,
     dec_Code = Some 12, dec_EH = Some 20, dec_Sect = None\<rparr>"

lemma guarded_decoded:
  "DecoderInit 0 guarded_body = Some guarded_decoder"
  "decoder_clauses guarded_body (Some 20) = Some [guarded_clause]"
  "decode_il (take 7 (drop 12 guarded_body)) = Some guarded_raws"
  "targets_ok 7 guarded_raws" "clause_labels_ok 7 guarded_raws guarded_clause"
proof -
  note sections = word_at_def bytes_at_def sect_Kind_def sect_IsFat_def sect_More_def sect_size_field_def sect_EHCount_def
    sect_EHClause_def sect_Next_def sect_DataSize_def
  show "DecoderInit 0 guarded_body = Some guarded_decoder"
    by (simp add: DecoderInit_def sections guarded_body_def guarded_decoder_def decoder_zero_def Tiny_IsTiny_def Fat_IsFat_def
      Fat_GetSect_def decode_sections_def Align_def Let_def)
  show "decoder_clauses guarded_body (Some 20) = Some [guarded_clause]"
    by (simp add: decoder_clauses_def sections guarded_body_def guarded_clause_def Let_def)
  show "decode_il (take 7 (drop 12 guarded_body)) = Some guarded_raws" by code_simp
  show "targets_ok 7 guarded_raws" by code_simp
  show "clause_labels_ok 7 guarded_raws guarded_clause"
    by (simp add: clause_labels_ok_def label_ok_def guarded_raws_def guarded_clause_def)
qed

lemma guarded_valid: "valid_body 0 guarded_body guarded_raws [guarded_clause]" "code_length 0 guarded_body = 7"
proof -
  have "length guarded_body = 36" by (simp add: guarded_body_def)
  then show "valid_body 0 guarded_body guarded_raws [guarded_clause]" "code_length 0 guarded_body = 7"
    using guarded_decoded by (simp_all add: valid_body_def code_length_def guarded_decoder_def)
qed

definition guarded_info :: "nat profiler_info" where
  "guarded_info = sample_info\<lparr>pi_GetILFunctionBody := (\<lambda>s m t. (S_OK, 0, guarded_body))\<rparr>"

lemma guarded_imported: "imported 7 guarded_raws [a, b, c, d, e] =
    [(CEE_NOP, Bits 0), (CEE_LEAVE_S, Target e), (CEE_POP, Bits 0), (CEE_LEAVE_S, Target e), (CEE_RET, Bits 0)]"
proof -
  have "opcode_flags CEE_NOP = Some 0" "opcode_flags CEE_LEAVE_S = Some 0x11" "opcode_flags CEE_POP = Some 0" "opcode_flags CEE_RET = Some 0"
    by code_simp+
  then show ?thesis by (simp add: imported_def guarded_raws_def resolve_def target_of_def offsets_initial_def)
qed

theorem valid_body_imported_witness:
  "\<exists>rw a b c d e. rewriter_Import guarded_info 0 5 0x06000001 = Some (S_OK, rw) \<and> il_list rw [a, b, c, d, e] \<and>
    map (instr_code rw) [a, b, c, d, e] = map Some
      [(CEE_NOP, Bits 0), (CEE_LEAVE_S, Target e), (CEE_POP, Bits 0), (CEE_LEAVE_S, Target e), (CEE_RET, Bits 0)] \<and>
    (\<exists>eh. m_pEH rw = [eh] \<and> m_pTryBegin eh = a \<and> m_pTryEnd eh = c \<and> m_pHandlerBegin eh = c)"
proof -
  have "pi_GetILFunctionBody guarded_info 0 5 0x06000001 = (S_OK, 0, guarded_body)" "\<not> FAILED S_OK"
    by (simp_all add: guarded_info_def FAILED_def)
  from valid_body_imported [OF this guarded_valid(1)] guarded_valid(2) obtain rw xs where
    rw: "rewriter_Import guarded_info 0 5 0x06000001 = Some (S_OK, rw)" "il_list rw xs"
      "map (instr_code rw) xs = map Some (imported 7 guarded_raws xs)" "list_all2 (denotes 7 guarded_raws xs) [guarded_clause] (m_pEH rw)"
    by auto
  have "length xs = 5" using arg_cong [OF rw(3), of length] by (simp add: imported_def guarded_raws_def)
  then obtain a b c d e where xs: "xs = [a, b, c, d, e]" by (auto simp: length_Suc_conv eval_nat_numeral)
  from rw(4) obtain eh where "m_pEH rw = [eh]" "denotes 7 guarded_raws xs guarded_clause eh" by (auto simp: list_all2_Cons1)
  moreover have "cell_at 7 guarded_raws xs 0 = a" "cell_at 7 guarded_raws xs 3 = c"
    by (simp_all add: xs cell_at_def guarded_raws_def offsets_initial_def)
  ultimately have "m_pEH rw = [eh] \<and> m_pTryBegin eh = a \<and> m_pTryEnd eh = c \<and> m_pHandlerBegin eh = c"
    by (simp add: denotes_def guarded_clause_def)
  with rw(1-3) guarded_imported show ?thesis unfolding xs by metis
qed

text \<open>
  C1. The whole way of a method body through ProcessReplacementCalls. The runtime gives a valid
  body, and a function on instruction sequences says that something is to be replaced in it and
  what becomes of it, \<open>js\<close>. Then a valid body is handed to the runtime, under the token of the method,
  which the importer, in any rewriter, reads as \<open>js\<close> (short branches may have been widened), with
  the same exception clauses and local variables; all old instructions are still in it, in
  their cells, so what led to one of them still does.
\<close>

theorem replaced_body_handed_over:
  assumes "pi_GetILFunctionBody info s module_id tk = (hr, base, body)" "\<not> FAILED hr" "valid_body base body raws ehs"
    and "rewriter_Import info s module_id tk = Some (S_OK, rw)" "il_list rw xs"
    and "rewritten_all d info p behind mvid_ptr module_id rs (imported (code_length base body) raws xs) False m s =
      Some (js, True, m', s')" "10 * length js + 12 < 2 ^ 32"
    and "\<not> FAILED (pi_GetILFunctionBodyAllocator info s' module_id)" "pi_Alloc info s'"
  shows "\<exists>body' js' cs. ProcessReplacementCalls d info p behind mvid_ptr module_id tk rs m s =
      Some (S_OK, m', snd (hand_over info module_id tk body' s')) \<and>
    subseq xs cs \<and> list_all2 widened js js' \<and> reads_back body' cs js' (m_pEH rw) (m_tkLocalVarSig rw) (m_flags rw)"
  by (rule replaced_body_exported [OF assms])

text \<open>The body of the sample runtime.\<close>

definition two_calls_raws :: "raw list" where
  "two_calls_raws = [(Some 0, CEE_CALL, 0x0a000001), (Some 5, CEE_CALL, 0x0a000001), (Some 10, CEE_RET, 0)]"

lemma two_calls_valid: "valid_body 0 two_calls_body two_calls_raws []" "code_length 0 two_calls_body = 11"
  "imported 11 two_calls_raws xs = sample_instrs"
proof -
  have flags: "opcode_flags 0x28 = Some 4" "opcode_flags 0x2a = Some 0" "opcode_flags CEE_CALL = Some 4" "opcode_flags CEE_RET = Some 0"
    by code_simp+
  have d: "DecoderInit 0 two_calls_body = Some (decoder_zero\<lparr>GetMaxStack := 8, dec_Code := Some 1, GetCodeSize := 11,
      GetMethodFlags := CorILMethod_TinyFormat\<rparr>)"
    by (simp add: DecoderInit_def word_at_def bytes_at_def two_calls_body_def two_calls_def Tiny_IsTiny_def)
  have b: "drop (Suc 0) two_calls_body = two_calls" "length two_calls = 11" by (simp_all add: two_calls_body_def two_calls_def)
  have "length two_calls = Suc (Suc (Suc 8))" by (simp add: two_calls_def)
  then have "decode_il two_calls = Some two_calls_raws"
    by (simp add: decode_il_def two_calls_def two_calls_raws_def valid_opcode_def decode_operand_def flags_size_def flags)
  moreover have "targets_ok 11 two_calls_raws" by (simp add: targets_ok_def two_calls_raws_def op_flags_def flags)
  ultimately show "valid_body 0 two_calls_body two_calls_raws []"
    using b by (simp add: valid_body_def d decoder_zero_def decoder_clauses_def)
  show "code_length 0 two_calls_body = 11" by (simp add: code_length_def d)
  show "imported 11 two_calls_raws xs = sample_instrs"
    by (simp add: imported_def two_calls_raws_def resolve_def flags sample_instrs_def)
qed

lemma sample_body: "pi_GetILFunctionBody sample_info s 5 0x06000001 = (S_OK, 0, two_calls_body)" "\<not> FAILED S_OK"
  "\<not> FAILED (pi_GetILFunctionBodyAllocator sample_info s 5)" "pi_Alloc sample_info s"
  "snd (hand_over sample_info 5 0x06000001 body s) = Suc s" "fst (hand_over sample_info 5 0x06000001 body s) = S_OK"
  by (simp_all add: sample_info_def hand_over_def FAILED_def)

lemma sample_rewriter:
  "\<exists>rw xs. rewriter_Import sample_info s 5 0x06000001 = Some (S_OK, rw) \<and> il_list rw xs \<and> m_pEH rw = []"
  using rewriter_Import_valid_body [OF sample_body(1) [of s] sample_body(2) two_calls_valid(1)] by fastforce

theorem replaced_body_handed_over_witness:
  "\<exists>body' js' cs sig flags. ProcessReplacementCalls 6 sample_info sample_profiler [0] 0x1000 5 0x06000001 [sample_replacement] cached_module 0 =
      Some (S_OK, cached_module, 1) \<and>
    list_all2 widened ((CEE_NOP, Bits 0x0a000001) # wrapper_call CEE_CALL [] 0x0a000007 0x0a000001 0x1000 (Some 0x01000009) @
      [(CEE_CALL, Bits 0x0a000001), (CEE_RET, Bits 0)]) js' \<and> reads_back body' cs js' [] sig flags"
proof -
  obtain rw xs where i: "rewriter_Import sample_info 0 5 0x06000001 = Some (S_OK, rw)" "il_list rw xs" "m_pEH rw = []"
    using sample_rewriter by blast
  note r = sample_rewritten_all [folded two_calls_valid(3) [of xs], folded two_calls_valid(2)]
  have "\<exists>body' js' cs. ProcessReplacementCalls 6 sample_info sample_profiler [0] 0x1000 5 0x06000001 [sample_replacement] cached_module 0 =
      Some (S_OK, cached_module, snd (hand_over sample_info 5 0x06000001 body' 0)) \<and> subseq xs cs \<and>
    list_all2 widened ((CEE_NOP, Bits 0x0a000001) # wrapper_call CEE_CALL [] 0x0a000007 0x0a000001 0x1000 (Some 0x01000009) @
      [(CEE_CALL, Bits 0x0a000001), (CEE_RET, Bits 0)]) js' \<and> reads_back body' cs js' (m_pEH rw) (m_tkLocalVarSig rw) (m_flags rw)"
    by (rule replaced_body_handed_over [OF sample_body(1,2) two_calls_valid(1) i(1,2) r _ sample_body(3,4)]) (simp add: wrapper_call_def)
  then show ?thesis unfolding i(3) sample_body(5) One_nat_def by blast
qed

text \<open>
  C18. RunILStartupHook answers S_OK whatever happens. If no startup method could be generated,
  or the body of the method that is compiled cannot be imported, or there is no memory for the
  new one, nothing more is done and the state of the runtime is the one the generation left.
  Otherwise the body handed over, whether the runtime takes it or not, is valid and, read by an
  importer, the call of the startup method followed by the old program.
\<close>

theorem hooked_body_handed_over:
  assumes "GenerateVoidILStartupMethod bit64 env info module_id s = Some (generated, s1)"
  shows "(\<forall>hr' s'. RunILStartupHook bit64 env info module_id tk s = Some (hr', s') \<longrightarrow> hr' = S_OK) \<and>
    (case generated of
      Inl hr' \<Rightarrow> RunILStartupHook bit64 env info module_id tk s = Some (S_OK, s1)
    | Inr startup \<Rightarrow>
        (\<forall>hr' rw. rewriter_Import info s1 module_id tk = Some (hr', rw) \<and> FAILED hr' \<longrightarrow>
          RunILStartupHook bit64 env info module_id tk s = Some (S_OK, s1)) \<and>
        (\<forall>hr base body raws ehs. pi_GetILFunctionBody info s1 module_id tk = (hr, base, body) \<and> \<not> FAILED hr \<and>
            valid_body base body raws ehs \<and> 10 * (1 + length raws) + 12 < 2 ^ 32 \<longrightarrow>
          (if FAILED (pi_GetILFunctionBodyAllocator info s1 module_id) \<or> \<not> pi_Alloc info s1
           then RunILStartupHook bit64 env info module_id tk s = Some (S_OK, s1)
           else \<exists>rw xs n body' js. rewriter_Import info s1 module_id tk = Some (S_OK, rw) \<and> il_list rw xs \<and>
             RunILStartupHook bit64 env info module_id tk s = Some (S_OK, snd (hand_over info module_id tk body' s1)) \<and>
             list_all2 widened ((CEE_CALL, arg32 startup) # imported (code_length base body) raws xs) js \<and>
             reads_back body' (n # xs) js (m_pEH rw) (m_tkLocalVarSig rw) (m_flags rw))))"
proof (cases generated)
  case (Inl hr')
  then have "RunILStartupHook bit64 env info module_id tk s = Some (S_OK, s1)"
    using assms by (simp add: RunILStartupHook_def)
  with Inl show ?thesis by simp
next
  case (Inr startup)
  note generated = assms [unfolded Inr]
  have "RunILStartupHook bit64 env info module_id tk s = Some (S_OK, s1)"
    if "rewriter_Import info s1 module_id tk = Some (hr', rw)" "FAILED hr'" for hr' rw
    using generated that by (simp add: RunILStartupHook_def)
  moreover have "if FAILED (pi_GetILFunctionBodyAllocator info s1 module_id) \<or> \<not> pi_Alloc info s1
      then RunILStartupHook bit64 env info module_id tk s = Some (S_OK, s1)
      else \<exists>rw xs n body' js. rewriter_Import info s1 module_id tk = Some (S_OK, rw) \<and> il_list rw xs \<and>
        RunILStartupHook bit64 env info module_id tk s = Some (S_OK, snd (hand_over info module_id tk body' s1)) \<and>
        list_all2 widened ((CEE_CALL, arg32 startup) # imported (code_length base body) raws xs) js \<and>
        reads_back body' (n # xs) js (m_pEH rw) (m_tkLocalVarSig rw) (m_flags rw)"
    if v: "pi_GetILFunctionBody info s1 module_id tk = (hr, base, body)" "\<not> FAILED hr" "valid_body base body raws ehs"
      and size: "10 * (1 + length raws) + 12 < 2 ^ 32" for hr base body raws ehs
  proof -
    obtain rw xs where i: "rewriter_Import info s1 module_id tk = Some (S_OK, rw)" "il_list rw xs"
      using rewriter_Import_valid_body [OF v] by blast
    obtain n body' js where "RunILStartupHook bit64 env info module_id tk s = Some (S_OK, snd (export_result info module_id tk body' s1))"
        "list_all2 widened ((CEE_CALL, arg32 startup) # imported (code_length base body) raws xs) js"
        "reads_back body' (n # xs) js (m_pEH rw) (m_tkLocalVarSig rw) (m_flags rw)"
      using hooked_body_exported [OF generated v i size] by blast
    note out = this
    show ?thesis
    proof (cases "FAILED (pi_GetILFunctionBodyAllocator info s1 module_id) \<or> \<not> pi_Alloc info s1")
      case True
      with out(1) show ?thesis by (simp add: export_result_def)
    next
      case False
      then have "export_result info module_id tk body' s1 = hand_over info module_id tk body' s1" by (simp add: export_result_def)
      with out i show ?thesis unfolding if_not_P [OF False] by auto
    qed
  qed
  ultimately show ?thesis
    using RunILStartupHook_succeeds [of bit64 env info module_id tk s] unfolding Inr sum.case by blast
qed

theorem hooked_body_handed_over_witness:
  "\<exists>n xs body' js sig flags. RunILStartupHook True (Windows (\<lambda>_ _. (0, []))) sample_info 5 0x06000001 0 = Some (S_OK, 2) \<and>
    list_all2 widened ((CEE_CALL, arg32 0x06000005) # sample_instrs) js \<and> reads_back body' (n # xs) js [] sig flags"
proof -
  have "10 * (1 + length two_calls_raws) + 12 < 2 ^ 32" by (simp add: two_calls_raws_def)
  from hooked_body_handed_over [OF sample_generate [of True "Windows (\<lambda>_ _. (0, []))"], where tk = "0x06000001"] this
    sample_body(1) [of 1] sample_body(2) two_calls_valid(1) sample_body(3,4) [of 1]
  obtain rw xs n body' js where h: "rewriter_Import sample_info 1 5 0x06000001 = Some (S_OK, rw)"
      "RunILStartupHook True (Windows (\<lambda>_ _. (0, []))) sample_info 5 0x06000001 0 = Some (S_OK, 2)"
      "list_all2 widened ((CEE_CALL, arg32 0x06000005) # sample_instrs) js"
      "reads_back body' (n # xs) js (m_pEH rw) (m_tkLocalVarSig rw) (m_flags rw)"
    unfolding sum.case by (metis (no_types, lifting) two_calls_valid(2,3) sample_body(5) Suc_1)
  have "m_pEH rw = []" using sample_rewriter [of 1] h(1) by auto
  with h(2-4) show ?thesis by metis
qed

text \<open>
  C20. ProcessInsertionCalls hands over a valid body that an importer reads as calls of the wrappers
  whose action is InsertFirst and whose references can be had, the last integration first, followed by the
  old program; if there are none it hands over nothing.
\<close>

theorem inserted_body_handed_over:
  assumes "pi_GetILFunctionBody info s module_id tk = (hr, base, body)" "\<not> FAILED hr" "valid_body base body raws ehs"
    and "inserted_refs info module_id rs m s = Some (refs, m', s')" "10 * (length refs + length raws) + 12 < 2 ^ 32"
    and "\<not> FAILED (pi_GetILFunctionBodyAllocator info s' module_id)" "pi_Alloc info s'"
  shows "if refs = [] then ProcessInsertionCalls info module_id tk rs m s = Some (S_OK, m', s')
    else \<exists>rw xs ns body' js. rewriter_Import info s module_id tk = Some (S_OK, rw) \<and> il_list rw xs \<and>
      ProcessInsertionCalls info module_id tk rs m s =
        Some (fst (hand_over info module_id tk body' s'), m', snd (hand_over info module_id tk body' s')) \<and>
      list_all2 widened (calls_of (rev refs) @ imported (code_length base body) raws xs) js \<and>
      reads_back body' (ns @ xs) js (m_pEH rw) (m_tkLocalVarSig rw) (m_flags rw)"
proof -
  obtain rw xs where i: "rewriter_Import info s module_id tk = Some (S_OK, rw)" "il_list rw xs"
      "map (instr_code rw) xs = map Some (imported (code_length base body) raws xs)"
    using rewriter_Import_valid_body [OF assms(1-3)] by blast
  have ok: "\<not> FAILED S_OK" by (simp add: FAILED_def)
  obtain rw' ns where p: "il_list rw' (ns @ xs)"
      "map (instr_code rw') (ns @ xs) = map Some (calls_of (rev refs) @ imported (code_length base body) raws xs)"
      "rw_rest rw' = rw_rest rw" "il_brk rw' = il_brk rw + length (rev refs)"
      "ProcessInsertionCalls info module_id tk rs m s =
        (if refs = [] then Some (S_OK, m', s')
         else map_option (\<lambda>(hr, s''). (if FAILED hr then hr else S_OK, m', s'')) (rewriter_Export info rw' s'))"
    using ProcessInsertionCalls_prepends [OF i(1) ok i(2,3) assms(4)] by auto
  from prefixed_body_exported [OF assms(1-3) i(1,2) p(1-4), of s'] assms(5-7)
  obtain body' js where "rewriter_Export info rw' s' = Some (hand_over info module_id tk body' s')"
      "list_all2 widened (calls_of (rev refs) @ imported (code_length base body) raws xs) js"
      "reads_back body' (ns @ xs) js (m_pEH rw) (m_tkLocalVarSig rw) (m_flags rw)" by (auto simp: export_result_def)
  moreover have "ProcessInsertionCalls info module_id tk rs m s =
      Some (fst (hand_over info module_id tk body' s'), m', snd (hand_over info module_id tk body' s'))" if "refs \<noteq> []"
    using p(5) that calculation(1) hand_over_result [of info module_id tk body' s']
    by (cases "hand_over info module_id tk body' s'") simp
  ultimately have "refs \<noteq> [] \<Longrightarrow> \<exists>rw xs ns body' js. rewriter_Import info s module_id tk = Some (S_OK, rw) \<and> il_list rw xs \<and>
      ProcessInsertionCalls info module_id tk rs m s =
        Some (fst (hand_over info module_id tk body' s'), m', snd (hand_over info module_id tk body' s')) \<and>
      list_all2 widened (calls_of (rev refs) @ imported (code_length base body) raws xs) js \<and>
      reads_back body' (ns @ xs) js (m_pEH rw) (m_tkLocalVarSig rw) (m_flags rw)"
    using i(1,2) by blast
  moreover have "refs = [] \<Longrightarrow> ProcessInsertionCalls info module_id tk rs m s = Some (S_OK, m', s')"
    using p(5) by simp
  ultimately show ?thesis by (cases "refs = []") (simp_all only: if_True if_False simp_thms)
qed

theorem inserted_body_handed_over_witness:
  "\<exists>xs body' js sig flags.
    ProcessInsertionCalls sample_info 5 0x06000001 [sample_insertion] cached_module 0 = Some (S_OK, cached_module, 1) \<and>
    list_all2 widened (calls_of [0x0a000007] @ sample_instrs) js \<and> reads_back body' xs js [] sig flags"
proof -
  have "10 * (length [0x0a000007 :: mdToken] + length two_calls_raws) + 12 < 2 ^ 32" by (simp add: two_calls_raws_def)
  from inserted_body_handed_over [OF sample_body(1,2) two_calls_valid(1) sample_inserted_refs this sample_body(3,4)]
  obtain rw xs ns body' js where h: "rewriter_Import sample_info 0 5 0x06000001 = Some (S_OK, rw)"
      "ProcessInsertionCalls sample_info 5 0x06000001 [sample_insertion] cached_module 0 = Some (S_OK, cached_module, 1)"
      "list_all2 widened (calls_of [0x0a000007] @ sample_instrs) js"
      "reads_back body' (ns @ xs) js (m_pEH rw) (m_tkLocalVarSig rw) (m_flags rw)"
    by (auto simp: two_calls_valid(2,3) sample_body(5,6) calls_of_def)
  have "m_pEH rw = []" using sample_rewriter [of 0] h(1) by auto
  with h(2-4) show ?thesis by metis
qed

end
