(* ===== verification/Profiler.thy ===== *)
theory Profiler
  imports Startup Integration_Loader
begin

text \<open>
  The callbacks of the profiler (cor\_profiler.cpp, over cor\_profiler\_base.cpp): \<open>Initialize\<close>,
  \<open>AssemblyLoadFinished\<close>, \<open>ModuleLoadFinished\<close>, \<open>ModuleUnloadStarted\<close>, \<open>JITCompilationStarted\<close> and
  \<open>Shutdown\<close>, as functions on the state of the profiler and of the runtime. Log messages are left
  out; what the base class does beyond them is return \<open>S_OK\<close>.
\<close>

section \<open>Configuration\<close>

text \<open>The names of environment\_variables.h.\<close>

definition tracing_enabled :: WSTRING where "tracing_enabled = W ''SIGNALFX_TRACING_ENABLED''"
definition debug_enabled :: WSTRING where "debug_enabled = W ''SIGNALFX_TRACE_DEBUG''"
definition include_process_names :: WSTRING where "include_process_names = W ''SIGNALFX_PROFILER_PROCESSES''"
definition exclude_process_names :: WSTRING where "exclude_process_names = W ''SIGNALFX_PROFILER_EXCLUDE_PROCESSES''"
definition disabled_integrations :: WSTRING where "disabled_integrations = W ''SIGNALFX_DISABLED_INTEGRATIONS''"
definition domain_neutral_instrumentation :: WSTRING where
  "domain_neutral_instrumentation = W ''SIGNALFX_TRACE_DOMAIN_NEUTRAL_INSTRUMENTATION''"
definition azure_app_services :: WSTRING where "azure_app_services = W ''SIGNALFX_AZURE_APP_SERVICES''"
definition azure_app_services_app_pool_id :: WSTRING where "azure_app_services_app_pool_id = W ''APP_POOL_ID''"
definition azure_app_services_cli_telemetry_profile_value :: WSTRING where
  "azure_app_services_cli_telemetry_profile_value = W ''DOTNET_CLI_TELEMETRY_PROFILE''"

text \<open>A variable always has a value (\<open>conversion_bounds\<close>); unset is the empty string.\<close>

definition env_value :: "environment \<Rightarrow> WSTRING \<Rightarrow> WSTRING" where
  "env_value env name = the (GetEnvironmentValue env name)"

definition env_values :: "environment \<Rightarrow> WSTRING \<Rightarrow> WSTRING list" where
  "env_values env name = the (GetEnvironmentValues env name)"

definition env_on :: "environment \<Rightarrow> WSTRING \<Rightarrow> bool" where
  "env_on env name \<longleftrightarrow> env_value env name = W ''1'' \<or> env_value env name = W ''true''"

text \<open>
  The name of the process: on Windows the last component of the absolute path the Win32 call
  leaves in the buffer, elsewhere the first line of \<open>/proc/self/comm\<close>.
\<close>

datatype process = Image_path WSTRING | Comm "byte list"

definition GetCurrentProcessName :: "process \<Rightarrow> WSTRING" where
  "GetCurrentProcessName process =
     (case process of
        Image_path buffer \<Rightarrow> rev (takeWhile (\<lambda>c. c \<noteq> 0x5C \<and> c \<noteq> 0x2F) (rev (c_str buffer)))
      | Comm comm \<Rightarrow> wide (takeWhile (\<lambda>c. c \<noteq> 0x0A) comm))"

section \<open>Initialize\<close>

definition event_mask :: "bool \<Rightarrow> u32" where
  "event_mask disable_optimizations =
     (0x20 OR 0x40000000 OR 0x200000 OR 0x4 OR 0x8 OR 0x80000000) OR (if disable_optimizations then 0x400000 else 0)"

text \<open>
  Reasons to leave the process alone that only depend on the configuration and the process name:
  tracing is switched off, or the lists of processes say so; the second group, for Azure App
  Services, is tested after the profiling interface has been obtained.
\<close>

definition process_refused :: "environment \<Rightarrow> WSTRING \<Rightarrow> bool" where
  "process_refused env process_name \<longleftrightarrow>
     env_value env tracing_enabled = W ''0'' \<or> env_value env tracing_enabled = W ''false'' \<or>
     env_values env include_process_names \<noteq> [] \<and> \<not> Contains (env_values env include_process_names) process_name \<or>
     Contains (env_values env exclude_process_names) process_name"

definition azure_reserved :: "environment \<Rightarrow> bool" where
  "azure_reserved env \<longleftrightarrow>
     (let app_pool_id_value = env_value env azure_app_services_app_pool_id in
      length app_pool_id_value > 1 \<and> app_pool_id_value ! 0 = 0x7E) \<or>
     env_value env azure_app_services_cli_telemetry_profile_value = W ''AzureKudu''"

text \<open>
  \<open>query\<close> is the answer of the runtime's object to \<open>QueryInterface\<close> for \<open>ICorProfilerInfo3\<close>, \<open>info\<close>
  the interface. An exception of the loader leaves the callback.
\<close>

definition Initialize :: "platform \<Rightarrow> 'j json_lib \<Rightarrow> (byte list \<Rightarrow> 'j throwing option) \<Rightarrow> environment \<Rightarrow> process \<Rightarrow>
    hresult \<Rightarrow> 's profiler_info \<Rightarrow> 's CorProfiler \<Rightarrow> 's \<Rightarrow> (hresult \<times> 's CorProfiler \<times> 's) throwing" where
  "Initialize pf lib files env process query info p s =
     (let p = (if env_on env debug_enabled then p\<lparr>debug_logging_enabled := True\<rparr> else p) in
      if process_refused env (GetCurrentProcessName process) then Inr (E_FAIL, p, s)
      else if FAILED query then Inr (E_FAIL, p, s)
      else
        (let azure = env_value env azure_app_services = W ''1'';
             p = (if azure then p\<lparr>in_azure_app_services := True\<rparr> else p) in
         if azure \<and> azure_reserved env then Inr (E_FAIL, p, s)
         else if env_value env integrations_path = [] then Inr (E_FAIL, p, s)
         else try_then (LoadIntegrationsFromEnvironment pf lib files env) (\<lambda>all_integrations.
           let p = p\<lparr>integrations := FilterIntegrationsByName all_integrations (env_values env disabled_integrations)\<rparr> in
           if integrations p = [] then Inr (E_FAIL, p, s)
           else
             (let p = (if env_on env domain_neutral_instrumentation then p\<lparr>instrument_domain_neutral_assemblies := True\<rparr> else p);
                  (hr, s) = pi_SetEventMask info (event_mask (DisableOptimizations env)) s in
              if FAILED hr then Inr (E_FAIL, p, s)
              else Inr (S_OK, p\<lparr>runtime_information := GetRuntimeInformation info s, is_attached_flag := True,
                profiler := True\<rparr>, s)))))"

section \<open>AssemblyLoadFinished\<close>

definition PROFILER_VERSION :: WSTRING where
  "PROFILER_VERSION = W ''0.1.15''"

definition assembly_version :: "Version \<Rightarrow> WSTRING" where
  "assembly_version v = decimal (unat (major v)) @ W ''.'' @ decimal (unat (minor v)) @ W ''.'' @ decimal (unat (build v))"

definition AssemblyLoadFinished :: "'s profiler_info \<Rightarrow> u64 \<Rightarrow> hresult \<Rightarrow> 's CorProfiler \<Rightarrow> 's \<Rightarrow> hresult \<times> 's CorProfiler" where
  "AssemblyLoadFinished info assembly_id hr_status p s =
     (if FAILED hr_status then (S_OK, p)
      else if \<not> is_attached_flag p then (S_OK, p)
      else
        (let assembly_info = GetAssemblyInfo info s assembly_id in
         if \<not> AssemblyInfo_IsValid assembly_info then (S_OK, p)
         else
           (let (hr, md) = pi_GetModuleMetaData info s (manifest_module_id assembly_info) in
            if FAILED hr then (S_OK, p)
            else
              (let assembly_metadata = GetAssemblyImportMetadata md s in
               if ai_name assembly_info = managed_assembly \<and> assembly_version (amd_version assembly_metadata) = PROFILER_VERSION
               then
                 (let p = p\<lparr>managed_profiler_loaded_app_domains :=
                        insert (app_domain_id assembly_info) (managed_profiler_loaded_app_domains p)\<rparr> in
                  if is_desktop (runtime_information p) \<and> corlib_module_loaded p \<and>
                    app_domain_id assembly_info = corlib_app_domain_id p
                  then (S_OK, p\<lparr>managed_profiler_loaded_domain_neutral := True\<rparr>)
                  else (S_OK, p))
               else (S_OK, p)))))"

section \<open>ModuleLoadFinished\<close>

definition skip_assemblies :: "WSTRING list" where
  "skip_assemblies = map W
     [''mscorlib'', ''netstandard'', ''SignalFx.Tracing'', ''SignalFx.Tracing.ClrProfiler.Managed'',
      ''SignalFx.Tracing.OpenTracing'', ''MsgPack'',
      ''MsgPack.Serialization.EmittingSerializers.GeneratedSerealizers0'',
      ''MsgPack.Serialization.EmittingSerializers.GeneratedSerealizers1'',
      ''MsgPack.Serialization.EmittingSerializers.GeneratedSerealizers2'', ''Sigil'', ''Sigil.Emit.DynamicAssembly'',
      ''System.Core'', ''System.Runtime'', ''System.IO.FileSystem'', ''System.Collections'', ''System.Runtime.Extensions'',
      ''System.Threading.Tasks'', ''System.Runtime.InteropServices'', ''System.Runtime.InteropServices.RuntimeInformation'',
      ''System.ComponentModel'', ''System.Console'', ''System.Diagnostics.DiagnosticSource'', ''Microsoft.Extensions.Options'',
      ''Microsoft.Extensions.ObjectPool'', ''System.Configuration'', ''System.Xml.Linq'', ''Microsoft.AspNetCore.Razor.Language'',
      ''Microsoft.AspNetCore.Mvc.RazorPages'', ''Microsoft.CSharp'', ''Newtonsoft.Json'',
      ''Anonymously Hosted DynamicMethods Assembly'', ''ISymWrapper'']"

definition hosting :: WSTRING where
  "hosting = W ''Microsoft.AspNetCore.Hosting''"

text \<open>The last part: the metadata of the module is stored for later.\<close>

definition store_module :: "'s module_interfaces \<Rightarrow> AssemblyInfo \<Rightarrow> u64 \<Rightarrow> IntegrationMethod list \<Rightarrow> 's CorProfiler \<Rightarrow> 's \<Rightarrow>
    hresult \<times> 's CorProfiler" where
  "store_module md assembly module_id filtered_integrations p s =
     (let (hr, modul) = GetModuleFromScope md s in
      if FAILED hr then (S_OK, p)
      else
        (let (hr, mvid) = GetScopeProps md s in
         if FAILED hr then (S_OK, p)
         else (S_OK, p\<lparr>module_id_to_info_map := (module_id_to_info_map p)(module_id \<mapsto>
           ModuleMetadata_init md (ai_name assembly) (app_domain_id assembly) mvid filtered_integrations)\<rparr>)))"

text \<open>\<open>None\<close> if the enumeration of the assembly references never ends.\<close>

definition ModuleLoadFinished :: "'s profiler_info \<Rightarrow> u64 \<Rightarrow> hresult \<Rightarrow> 's CorProfiler \<Rightarrow> 's \<Rightarrow>
    (hresult \<times> 's CorProfiler \<times> 's) option" where
  "ModuleLoadFinished info module_id hr_status p s =
     (if FAILED hr_status then Some (S_OK, p, s)
      else if \<not> is_attached_flag p then Some (S_OK, p, s)
      else
        (let module_info = GetModuleInfo info s module_id; assembly = mi_assembly module_info in
         if \<not> ModuleInfo_IsValid module_info then Some (S_OK, p, s)
         else if \<not> corlib_module_loaded p \<and> (ai_name assembly = W ''mscorlib'' \<or> ai_name assembly = W ''System.Private.CoreLib'')
         then Some (S_OK, p\<lparr>corlib_module_loaded := True, corlib_app_domain_id := app_domain_id assembly\<rparr>, s)
         else if IsWindowsRuntime module_info then Some (S_OK, p, s)
         else if list_ex (\<lambda>skip_assembly. ai_name assembly = skip_assembly) skip_assemblies then Some (S_OK, p, s)
         else
           (let filtered_integrations = FilterIntegrationsByCaller (FlattenIntegrations (integrations p)) assembly in
            if filtered_integrations = [] then Some (S_OK, p, s)
            else
              (let (hr, md) = pi_GetModuleMetaData info s module_id in
               if FAILED hr then Some (S_OK, p, s)
               else do {
                 (skip, filtered_integrations, s) \<leftarrow>
                   (if ai_name assembly \<noteq> hosting then do {
                      (filtered_integrations, s) \<leftarrow> FilterIntegrationsByTarget md filtered_integrations s;
                      Some (filtered_integrations = [], filtered_integrations, s) }
                    else Some (False, filtered_integrations, s));
                 if skip then Some (S_OK, p, s)
                 else
                   (let (hr, p) = store_module md assembly module_id filtered_integrations p s in Some (hr, p, s)) }))))"

section \<open>ModuleUnloadStarted and Shutdown\<close>

definition ModuleUnloadStarted :: "u64 \<Rightarrow> 's CorProfiler \<Rightarrow> hresult \<times> 's CorProfiler" where
  "ModuleUnloadStarted module_id p =
     (case module_id_to_info_map p module_id of
        None \<Rightarrow> (S_OK, p)
      | Some m \<Rightarrow>
          (S_OK, p\<lparr>managed_profiler_loaded_app_domains := managed_profiler_loaded_app_domains p - {mm_app_domain_id m},
             module_id_to_info_map := (module_id_to_info_map p)(module_id := None)\<rparr>))"

definition Shutdown :: "'s CorProfiler \<Rightarrow> hresult \<times> 's CorProfiler" where
  "Shutdown p = (S_OK, p\<lparr>is_attached_flag := False\<rparr>)"

section \<open>JITCompilationStarted\<close>

text \<open>
  What does not change while a process runs: the build, the environment, the profiling interface,
  the bound on nested calls of \<open>GetFunctionInfo\<close>, what lies in memory behind a signature, and the
  address of the version id of a module's metadata. The metadata of a module is shared by
  reference: what is done to it is done in the map.
\<close>

record 's jit_context =
  jc_bit64 :: bool
  jc_env :: environment
  jc_info :: "'s profiler_info"
  jc_depth :: nat
  jc_behind :: "byte list"
  jc_mvid_ptr :: "u64 \<Rightarrow> u64"

text \<open>What follows the startup hook: the calls inserted and replaced in the method.\<close>

definition instrument_caller :: "'s jit_context \<Rightarrow> u64 \<Rightarrow> mdToken \<Rightarrow> FunctionInfo \<Rightarrow> 's ModuleMetadata \<Rightarrow> 's CorProfiler \<Rightarrow> 's \<Rightarrow>
    (hresult \<times> 's CorProfiler \<times> 's) option" where
  "instrument_caller c module_id function_token caller m p s =
     (if mm_assemblyName m = hosting then Some (S_OK, p, s)
      else
        (let method_replacements = GetMethodReplacementsForCaller m caller in
         if method_replacements = [] then Some (S_OK, p, s)
         else do {
           (hr, m, s) \<leftarrow> ProcessInsertionCalls (jc_info c) module_id function_token method_replacements m s;
           let p = p\<lparr>module_id_to_info_map := (module_id_to_info_map p)(module_id \<mapsto> m)\<rparr>;
           if FAILED hr then Some (S_OK, p, s)
           else do {
             (hr, m, s) \<leftarrow> ProcessReplacementCalls (jc_depth c) (jc_info c) p (jc_behind c) (jc_mvid_ptr c module_id) module_id
               function_token method_replacements m s;
             let p = p\<lparr>module_id_to_info_map := (module_id_to_info_map p)(module_id \<mapsto> m)\<rparr>;
             if FAILED hr then Some (S_OK, p, s) else Some (S_OK, p, s) } }))"

definition JITCompilationStarted :: "'s jit_context \<Rightarrow> u64 \<Rightarrow> bool \<Rightarrow> 's CorProfiler \<Rightarrow> 's \<Rightarrow>
    (hresult \<times> 's CorProfiler \<times> 's) option" where
  "JITCompilationStarted c function_id is_safe_to_block p s =
     (if \<not> is_attached_flag p \<or> \<not> is_safe_to_block then Some (S_OK, p, s)
      else
        (let info = jc_info c; (hr, module_id, function_token) = pi_GetFunctionInfo info s function_id in
         if FAILED hr then Some (S_OK, p, s)
         else
           (case module_id_to_info_map p module_id of
              None \<Rightarrow> Some (S_OK, p, s)
            | Some m \<Rightarrow> do {
                caller \<leftarrow> GetFunctionInfo (jc_depth c) (mm_metadata m) s function_token;
                if \<not> FunctionInfo_IsValid caller then Some (S_OK, p, s)
                else do {
                  (hr, p, s) \<leftarrow>
                    (if mm_app_domain_id m \<notin> first_jit_compilation_app_domains p
                     then map_option (\<lambda>(hr, s). (hr, p\<lparr>first_jit_compilation_app_domains :=
                            insert (mm_app_domain_id m) (first_jit_compilation_app_domains p)\<rparr>, s))
                          (RunILStartupHook (jc_bit64 c) (jc_env c) info module_id function_token s)
                     else Some (S_OK, p, s));
                  if FAILED hr then Some (S_OK, p, s)
                  else instrument_caller c module_id function_token caller m p s } })))"

end
