(* ===== verification/Profiler_Runs.thy ===== *)
theory Profiler_Runs
  imports Profiler Replacement_Contracts
begin

text \<open>
  The runs of the profiler: the callbacks as steps between states of the profiler and the
  runtime, what each of them may change, and what holds in every state that can be reached.
\<close>

section \<open>What rewriting a method changes\<close>

lemma replace_loop_extends:
  assumes "replace_loop d info p behind mvid_ptr module_id r pInstr modified m s rw = Some y"
  shows "module_extends m (fst (snd y))"
proof (rule replace_loop.raw_induct [where P = "\<lambda>d info p behind mvid_ptr module_id r pInstr modified m s rw y.
    module_extends m (fst (snd y))", OF _ assms], goal_cases)
  case (1 rec d info p behind mvid_ptr module_id r pInstr modified m s rw y)
  note IH = 1(1)
  from 1(2) show ?case
    by (auto split: if_split_asm bind_splits call_check.splits prod.splits
        dest!: check_call_extends intro: module_extends_trans dest: IH)
qed

lemma all_replacements_extends:
  "all_replacements d info p behind mvid_ptr module_id rs modified m s rw = Some (b, m', s', rw') \<Longrightarrow> module_extends m m'"
proof (induction rs arbitrary: modified m s rw)
  case (Cons r rs)
  from Cons.prems show ?case
    by (auto split: if_split_asm bind_splits dest!: Cons.IH replace_loop_extends intro: module_extends_trans)
qed simp

lemma ProcessReplacementCalls_extends:
  "ProcessReplacementCalls d info p behind mvid_ptr module_id tk rs m s = Some (hr, m', s') \<Longrightarrow> hr = S_OK \<and> module_extends m m'"
  by (auto simp: ProcessReplacementCalls_def split: if_split_asm bind_splits dest!: all_replacements_extends)

lemma insertion_loop_extends:
  "insertion_loop info module_id rs modified firstInstr m s w = Some (b, m', s', w') \<Longrightarrow> module_extends m m'"
proof (induction rs arbitrary: modified firstInstr m s w)
  case (Cons r rs)
  from Cons.prems show ?case
    by (auto split: if_split_asm bind_splits dest!: Cons.IH GetWrapperMethodRef_extends intro: module_extends_trans)
qed simp

lemma ProcessInsertionCalls_extends:
  "ProcessInsertionCalls info module_id tk rs m s = Some (hr, m', s') \<Longrightarrow> module_extends m m'"
  by (auto simp: ProcessInsertionCalls_def split: if_split_asm bind_splits dest!: insertion_loop_extends)

text \<open>The metadata of the modules: none appears or goes, the caches of each may grow.\<close>

definition modules_extend :: "(u64 \<rightharpoonup> 's ModuleMetadata) \<Rightarrow> (u64 \<rightharpoonup> 's ModuleMetadata) \<Rightarrow> bool" where
  "modules_extend mods mods' \<longleftrightarrow> (\<forall>k. case mods k of None \<Rightarrow> mods' k = None | Some m \<Rightarrow> \<exists>m'. mods' k = Some m' \<and> module_extends m m')"

lemma modules_extend_refl [simp]: "modules_extend mods mods"
  by (simp add: modules_extend_def split: option.split)

lemma modules_extend_upd: "mods k = Some m \<Longrightarrow> module_extends m m' \<Longrightarrow> modules_extend mods (mods(k \<mapsto> m'))"
  by (auto simp: modules_extend_def split: option.split)

text \<open>
  The compilations that are looked at: the profiler is attached, the runtime lets it block and
  knows the method, its module has metadata and the method is found there. What is compiled is
  the module, the method's token, the metadata and what they say of the method.
\<close>

definition compilation :: "'s jit_context \<Rightarrow> u64 \<Rightarrow> bool \<Rightarrow> 's CorProfiler \<Rightarrow> 's \<Rightarrow>
    (u64 \<times> mdToken \<times> 's ModuleMetadata \<times> FunctionInfo) option" where
  "compilation c function_id is_safe_to_block p s =
     (let (hr, module_id, function_token) = pi_GetFunctionInfo (jc_info c) s function_id in
      if \<not> is_attached_flag p \<or> \<not> is_safe_to_block \<or> FAILED hr then None
      else
        (case module_id_to_info_map p module_id of
           None \<Rightarrow> None
         | Some m \<Rightarrow>
             (case GetFunctionInfo (jc_depth c) (mm_metadata m) s function_token of
                None \<Rightarrow> None
              | Some caller \<Rightarrow> if FunctionInfo_IsValid caller then Some (module_id, function_token, m, caller) else None)))"

text \<open>The domain of such a compilation, and whether it is one the profiler does not remember.\<close>

definition compiled_in :: "'s jit_context \<Rightarrow> u64 \<Rightarrow> bool \<Rightarrow> 's CorProfiler \<Rightarrow> 's \<Rightarrow> u64 option" where
  "compiled_in c function_id is_safe_to_block p s =
     map_option (\<lambda>(module_id, tk, m, caller). mm_app_domain_id m) (compilation c function_id is_safe_to_block p s)"

definition hook_domain :: "'s jit_context \<Rightarrow> u64 \<Rightarrow> bool \<Rightarrow> 's CorProfiler \<Rightarrow> 's \<Rightarrow> u64 option" where
  "hook_domain c function_id is_safe_to_block p s =
     (case compiled_in c function_id is_safe_to_block p s of
        None \<Rightarrow> None
      | Some domain \<Rightarrow> if domain \<in> first_jit_compilation_app_domains p then None else Some domain)"

lemma instrument_caller_changes:
  assumes "instrument_caller c module_id tk caller m p s = Some (hr, p', s')" "module_id_to_info_map p module_id = Some m"
  shows "hr = S_OK \<and> (\<exists>mods. modules_extend (module_id_to_info_map p) mods \<and> p' = p\<lparr>module_id_to_info_map := mods\<rparr>)"
proof -
  have same: "\<exists>mods. modules_extend (module_id_to_info_map p) mods \<and> p = p\<lparr>module_id_to_info_map := mods\<rparr>"
    by (intro exI [of _ "module_id_to_info_map p"]) simp
  have one: "\<exists>mods. modules_extend (module_id_to_info_map p) mods \<and>
      p\<lparr>module_id_to_info_map := (module_id_to_info_map p)(module_id \<mapsto> m1)\<rparr> = p\<lparr>module_id_to_info_map := mods\<rparr>"
    if "module_extends m m1" for m1
    by (intro exI conjI) (rule modules_extend_upd [of "module_id_to_info_map p" module_id m, OF assms(2) that], rule refl)
  note two = one [OF module_extends_trans]
  from assms(1) same show ?thesis
    by (auto simp: instrument_caller_def Let_def split: if_split_asm bind_splits
      dest!: ProcessInsertionCalls_extends ProcessReplacementCalls_extends intro: one two)
qed

text \<open>
  The callback in terms of these: nothing is done if it is no such compilation; otherwise the
  startup hook is run in a domain that is not remembered, and then the method is instrumented.
\<close>

lemma compilationD:
  assumes "compilation c f safe p s = Some (module_id, tk, m, caller)"
  shows "is_attached_flag p" "safe" "\<exists>hr. pi_GetFunctionInfo (jc_info c) s f = (hr, module_id, tk) \<and> \<not> FAILED hr"
    "module_id_to_info_map p module_id = Some m" "GetFunctionInfo (jc_depth c) (mm_metadata m) s tk = Some caller"
    "FunctionInfo_IsValid caller"
  using assms by (auto simp: compilation_def split: if_split_asm option.splits prod.splits)

lemma JITCompilationStarted_skips:
  "compilation c f safe p s = None \<Longrightarrow> JITCompilationStarted c f safe p s \<in> {None, Some (S_OK, p, s)}"
  by (auto simp: compilation_def JITCompilationStarted_def Let_def split: if_split_asm option.splits prod.splits)

lemma JITCompilationStarted_compiles:
  assumes "compilation c f safe p s = Some (module_id, tk, m, caller)"
  shows "JITCompilationStarted c f safe p s =
    (if mm_app_domain_id m \<in> first_jit_compilation_app_domains p then instrument_caller c module_id tk caller m p s
     else do {
       (hr, s) \<leftarrow> RunILStartupHook (jc_bit64 c) (jc_env c) (jc_info c) module_id tk s;
       let p = p\<lparr>first_jit_compilation_app_domains := insert (mm_app_domain_id m) (first_jit_compilation_app_domains p)\<rparr>;
       if FAILED hr then Some (S_OK, p, s) else instrument_caller c module_id tk caller m p s })"
proof -
  have "\<not> FAILED S_OK" by (simp add: FAILED_def)
  with compilationD [OF assms] show ?thesis
    by (cases "RunILStartupHook (jc_bit64 c) (jc_env c) (jc_info c) module_id tk s") (auto simp: JITCompilationStarted_def Let_def)
qed

text \<open>What the compilation of a method does to the state, whatever the runtime answers.\<close>

lemma JITCompilationStarted_changes:
  assumes "JITCompilationStarted c f safe p s = Some (hr, p', s')"
  shows "hr = S_OK \<and> (\<exists>mods. modules_extend (module_id_to_info_map p) mods \<and>
    p' = p\<lparr>first_jit_compilation_app_domains := first_jit_compilation_app_domains p \<union> set_option (hook_domain c f safe p s),
      module_id_to_info_map := mods\<rparr>)"
proof (cases "compilation c f safe p s")
  case None
  then have "hr = S_OK \<and> p' = p \<and> hook_domain c f safe p s = None"
    using JITCompilationStarted_skips [OF None] assms by (auto simp: hook_domain_def compiled_in_def)
  then show ?thesis by (auto intro!: exI [of _ "module_id_to_info_map p"])
next
  case (Some x)
  obtain module_id tk m caller where c: "compilation c f safe p s = Some (module_id, tk, m, caller)"
    using Some by (cases x) auto
  define p1 where "p1 = p\<lparr>first_jit_compilation_app_domains := first_jit_compilation_app_domains p \<union> set_option (hook_domain c f safe p s)\<rparr>"
  have p1: "p1 = (if mm_app_domain_id m \<in> first_jit_compilation_app_domains p then p
      else p\<lparr>first_jit_compilation_app_domains := insert (mm_app_domain_id m) (first_jit_compilation_app_domains p)\<rparr>)"
    by (simp add: p1_def hook_domain_def compiled_in_def c)
  have m1: "module_id_to_info_map p1 module_id = Some m" using compilationD(4) [OF c] by (simp add: p1_def)
  have "hr = S_OK \<and> p' = p1 \<or> (\<exists>s1. instrument_caller c module_id tk caller m p1 s1 = Some (hr, p', s'))"
    using assms by (auto simp: JITCompilationStarted_compiles [OF c] p1 Let_def split: if_split_asm bind_splits)
  then have "hr = S_OK \<and> (\<exists>mods. modules_extend (module_id_to_info_map p1) mods \<and> p' = p1\<lparr>module_id_to_info_map := mods\<rparr>)"
  proof
    assume "hr = S_OK \<and> p' = p1"
    then show ?thesis by (intro conjI exI [of _ "module_id_to_info_map p1"]) simp_all
  next
    assume "\<exists>s1. instrument_caller c module_id tk caller m p1 s1 = Some (hr, p', s')"
    then show ?thesis by (elim exE) (rule instrument_caller_changes [OF _ m1])
  qed
  then show ?thesis by (simp add: p1_def)
qed

section \<open>Steps and runs\<close>

text \<open>
  The calls of the runtime, each of which is one step, since the callbacks hold a lock. Between
  them the runtime goes on by itself.
\<close>

datatype event = Runtime_step | AssemblyLoad u64 hresult | ModuleLoad u64 hresult | ModuleUnload u64
  | JITCompilation u64 bool | Shut_down

inductive callback :: "'s jit_context \<Rightarrow> event \<Rightarrow> 's CorProfiler \<times> 's \<Rightarrow> 's CorProfiler \<times> 's \<Rightarrow> bool" for c where
  runtime: "callback c Runtime_step (p, s) (p, s')"
| assembly_load: "AssemblyLoadFinished (jc_info c) a status p s = (hr, p') \<Longrightarrow> callback c (AssemblyLoad a status) (p, s) (p', s)"
| module_load: "ModuleLoadFinished (jc_info c) k status p s = Some (hr, p', s') \<Longrightarrow> callback c (ModuleLoad k status) (p, s) (p', s')"
| module_unload: "ModuleUnloadStarted k p = (hr, p') \<Longrightarrow> callback c (ModuleUnload k) (p, s) (p', s)"
| jit_compilation: "JITCompilationStarted c f safe p s = Some (hr, p', s') \<Longrightarrow> callback c (JITCompilation f safe) (p, s) (p', s')"
| shut_down: "Shutdown p = (hr, p') \<Longrightarrow> callback c Shut_down (p, s) (p', s)"

inductive_cases callbackE: "callback c e (p, s) (p', s')"

text \<open>A run with its history: every event with the state it happened in.\<close>

inductive run :: "('e \<Rightarrow> 'st \<Rightarrow> 'st \<Rightarrow> bool) \<Rightarrow> 'st \<Rightarrow> ('e \<times> 'st) list \<Rightarrow> 'st \<Rightarrow> bool" for step st0 where
  start: "run step st0 [] st0"
| more: "run step st0 tr st \<Longrightarrow> step e st st' \<Longrightarrow> run step st0 (tr @ [(e, st)]) st'"

text \<open>What every step keeps of the history and the state holds at the end of every run.\<close>

locale history_invariant =
  fixes step :: "'e \<Rightarrow> 'st \<Rightarrow> 'st \<Rightarrow> bool" and inv :: "('e \<times> 'st) list \<Rightarrow> 'st \<Rightarrow> bool"
  assumes step_keeps: "step e st st' \<Longrightarrow> inv tr st \<Longrightarrow> inv (tr @ [(e, st)]) st'"
begin

lemma run_keeps: "run step st0 tr st \<Longrightarrow> inv [] st0 \<Longrightarrow> inv tr st"
  by (induction rule: run.induct) (auto intro: step_keeps)

end

section \<open>What each callback changes\<close>

text \<open>The managed assembly, in the version of the profiler, has been reported in this event.\<close>

definition managed_load :: "'s jit_context \<Rightarrow> event \<times> 's CorProfiler \<times> 's \<Rightarrow> u64 \<Rightarrow> bool" where
  "managed_load c h domain \<longleftrightarrow>
     (case h of (AssemblyLoad a status, p, s) \<Rightarrow>
        (let info = GetAssemblyInfo (jc_info c) s a; (hr, md) = pi_GetModuleMetaData (jc_info c) s (manifest_module_id info) in
         \<not> FAILED status \<and> is_attached_flag p \<and> AssemblyInfo_IsValid info \<and> \<not> FAILED hr \<and> ai_name info = managed_assembly \<and>
         assembly_version (amd_version (GetAssemblyImportMetadata md s)) = PROFILER_VERSION \<and> app_domain_id info = domain)
      | _ \<Rightarrow> False)"

lemma AssemblyLoadFinished_changes:
  assumes "AssemblyLoadFinished (jc_info c) a status p s = (hr, p')"
  shows "hr = S_OK \<and> (p' = p \<or> (\<exists>domain neutral. managed_load c (AssemblyLoad a status, p, s) domain \<and>
    (neutral \<longleftrightarrow> is_desktop (runtime_information p) \<and> corlib_module_loaded p \<and> domain = corlib_app_domain_id p) \<and>
    p' = p\<lparr>managed_profiler_loaded_app_domains := insert domain (managed_profiler_loaded_app_domains p),
      managed_profiler_loaded_domain_neutral := neutral \<or> managed_profiler_loaded_domain_neutral p\<rparr>))"
  using assms by (auto simp: AssemblyLoadFinished_def managed_load_def Let_def split: if_split_asm prod.splits)

text \<open>The metadata of a module as it is stored first.\<close>

definition fresh_module :: "Integration list \<Rightarrow> 's ModuleMetadata \<Rightarrow> bool" where
  "fresh_module is m \<longleftrightarrow> mm_assemblyName m \<notin> set skip_assemblies \<and> mm_integrations m \<noteq> [] \<and>
     set (mm_integrations m) \<subseteq> set (FlattenIntegrations is) \<and>
     list_all (\<lambda>i. let name = ar_name (mr_assembly (caller_method (replacement i))) in name = [] \<or> name = mm_assemblyName m)
       (mm_integrations m)"

lemma filter_by_target_subset:
  "filter_by_target md am is enabled s = Some (out, s') \<Longrightarrow> set out \<subseteq> set enabled \<union> set is"
proof (induction "is" arbitrary: enabled s)
  case (Cons i "is")
  from Cons.prems show ?case by (fastforce split: bind_splits if_split_asm dest!: Cons.IH)
qed simp

lemma ModuleLoadFinished_changes:
  assumes "ModuleLoadFinished info k status p s = Some (hr, p', s')"
  shows "hr = S_OK \<and> (p' = p \<or>
    \<not> FAILED status \<and> is_attached_flag p \<and>
    (\<not> corlib_module_loaded p \<and> p' = p\<lparr>corlib_module_loaded := True, corlib_app_domain_id := app_domain_id (mi_assembly (GetModuleInfo info s k))\<rparr> \<or>
     (\<exists>m. fresh_module (integrations p) m \<and> p' = p\<lparr>module_id_to_info_map := (module_id_to_info_map p)(k \<mapsto> m)\<rparr>)))"
proof -
  let ?a = "mi_assembly (GetModuleInfo info s k)"
  let ?f = "FilterIntegrationsByCaller (FlattenIntegrations (integrations p)) ?a"
  have fresh: "fresh_module (integrations p) (ModuleMetadata_init md (ai_name ?a) d mvid is)"
    if "ai_name ?a \<notin> set skip_assemblies" "set is \<subseteq> set ?f" "is \<noteq> []" for md d mvid "is"
    using that by (auto simp: fresh_module_def ModuleMetadata_init_def FilterIntegrationsByCaller_def list_all_iff Let_def)
  have skip: "list_ex (\<lambda>x. ai_name ?a = x) skip_assemblies \<longleftrightarrow> ai_name ?a \<in> set skip_assemblies"
    by (auto simp: list_ex_iff)
  show ?thesis
  proof (cases "FAILED status \<or> \<not> is_attached_flag p \<or> \<not> ModuleInfo_IsValid (GetModuleInfo info s k)")
    case True
    then show ?thesis using assms by (elim disjE) (simp_all add: ModuleLoadFinished_def Let_def split: if_split_asm)
  next
    case start: False
    show ?thesis
    proof (cases "\<not> corlib_module_loaded p \<and> (ai_name ?a = W ''mscorlib'' \<or> ai_name ?a = W ''System.Private.CoreLib'')")
      case True
      then have "ModuleLoadFinished info k status p s =
          Some (S_OK, p\<lparr>corlib_module_loaded := True, corlib_app_domain_id := app_domain_id ?a\<rparr>, s)"
        using start by (simp add: ModuleLoadFinished_def Let_def)
      with assms start True show ?thesis by auto
    next
      case corlib: False
      obtain hr1 md where md: "pi_GetModuleMetaData info s k = (hr1, md)" by fastforce
      show ?thesis
      proof (cases "IsWindowsRuntime (GetModuleInfo info s k) \<or> ai_name ?a \<in> set skip_assemblies \<or> ?f = [] \<or> FAILED hr1")
        case True
        have "ModuleLoadFinished info k status p s = Some (S_OK, p, s)"
          unfolding ModuleLoadFinished_def using start corlib True md by (elim disjE) (auto simp: Let_def skip)
        with assms show ?thesis by simp
      next
        case False
        define X where "X = (if ai_name ?a \<noteq> hosting then do {
            (fs, s) \<leftarrow> FilterIntegrationsByTarget md ?f s; Some (fs = [], fs, s) } else Some (False, ?f, s))"
        have e: "do { (sk, fs, s1) \<leftarrow> X; if sk then Some (S_OK, p, s1) else (let (hr, p) = store_module md ?a k fs p s1 in Some (hr, p, s1)) } =
            Some (hr, p', s')"
        proof -
          have "\<not> list_ex (\<lambda>x. ai_name ?a = x) skip_assemblies" using False skip by simp
          moreover have "(\<not> corlib_module_loaded p \<and> (ai_name ?a = W ''mscorlib'' \<or> ai_name ?a = W ''System.Private.CoreLib'')) = False"
            using corlib by simp
          ultimately show ?thesis
            unfolding assms [symmetric] ModuleLoadFinished_def X_def using start False md by (simp only: Let_def if_False if_True) simp
        qed
        then obtain sk fs s1 where x: "X = Some (sk, fs, s1)" by (cases X) auto
        with e have r: "Some (hr, p', s') = (if sk then Some (S_OK, p, s1) else (let (hr, p) = store_module md ?a k fs p s1 in Some (hr, p, s1)))"
          by simp
        have "set fs \<subseteq> set ?f" "\<not> sk \<Longrightarrow> fs \<noteq> []"
          using x False by (auto simp: X_def FilterIntegrationsByTarget_def split: if_split_asm bind_splits dest!: filter_by_target_subset)
        then have f: "\<not> sk \<Longrightarrow> fresh_module (integrations p) (ModuleMetadata_init md (ai_name ?a) d mvid fs)" for d mvid
          using False by (intro fresh) auto
        have "p' = p \<or> (\<exists>m. fresh_module (integrations p) m \<and> p' = p\<lparr>module_id_to_info_map := (module_id_to_info_map p)(k \<mapsto> m)\<rparr>)" "hr = S_OK"
          using r by (auto simp: store_module_def Let_def split: if_split_asm prod.splits intro: f)
        with start show ?thesis by blast
      qed
    qed
  qed
qed

lemma ModuleUnloadStarted_changes:
  assumes "ModuleUnloadStarted k p = (hr, p')"
  shows "hr = S_OK \<and> (p' = p \<and> module_id_to_info_map p k = None \<or> (\<exists>m. module_id_to_info_map p k = Some m \<and>
    p' = p\<lparr>managed_profiler_loaded_app_domains := managed_profiler_loaded_app_domains p - {mm_app_domain_id m},
      module_id_to_info_map := (module_id_to_info_map p)(k := None)\<rparr>))"
  using assms by (auto simp: ModuleUnloadStarted_def split: option.splits)

lemmas callback_changes = AssemblyLoadFinished_changes ModuleLoadFinished_changes ModuleUnloadStarted_changes
  JITCompilationStarted_changes

section \<open>Invariants\<close>

text \<open>
  The state: a domain-neutral managed assembly is only known on the desktop runtime after its
  core library, and every module that is kept is one to instrument, under integrations that are
  enabled.
\<close>

lemma fresh_module_extends: "fresh_module is m \<Longrightarrow> module_extends m m' \<Longrightarrow> fresh_module is m'"
  by (auto dest!: module_extends_fixed simp: fixed_part_def fresh_module_def)

definition profiler_inv :: "'s CorProfiler \<Rightarrow> bool" where
  "profiler_inv p \<longleftrightarrow>
     (managed_profiler_loaded_domain_neutral p \<longrightarrow> is_desktop (runtime_information p) \<and> corlib_module_loaded p) \<and>
     (\<forall>k m. module_id_to_info_map p k = Some m \<longrightarrow> fresh_module (integrations p) m)"

text \<open>What no callback after \<open>Initialize\<close> changes.\<close>

definition settings :: "'s CorProfiler \<Rightarrow> _" where
  "settings p = (debug_logging_enabled p, profiler p, runtime_information p, integrations p,
     instrument_domain_neutral_assemblies p, in_azure_app_services p)"

lemma callback_settings:
  assumes "callback c e (p, s) (p', s')"
  shows "settings p' = settings p"
  using assms
  by (cases rule: callbackE) (auto simp: settings_def Shutdown_def dest!: callback_changes)

lemma callback_inv:
  assumes "callback c e (p, s) (p', s')" "profiler_inv p"
  shows "profiler_inv p'"
  using assms
proof (cases rule: callback.cases)
  case (jit_compilation f safe hr)
  have "fresh_module is m'" if "modules_extend mods mods'" "\<forall>k m. mods k = Some m \<longrightarrow> fresh_module is m" "mods' k = Some m'" for mods mods' k m' "is"
    using that by (auto simp: modules_extend_def split: option.splits intro: fresh_module_extends) (metis fresh_module_extends option.distinct(1) option.exhaust option.sel)
  with jit_compilation assms(2) show ?thesis
    by (auto simp: profiler_inv_def dest!: JITCompilationStarted_changes)
qed (auto simp: profiler_inv_def Shutdown_def split: if_split_asm dest!: callback_changes)

text \<open>
  The history: whether a method has been compiled in a domain, in which domains this made the
  profiler remember them, in order, and what was loaded where.
\<close>

definition compiles :: "'s jit_context \<Rightarrow> u64 \<Rightarrow> event \<times> 's CorProfiler \<times> 's \<Rightarrow> bool" where
  "compiles c domain h \<longleftrightarrow>
     (case h of (JITCompilation f safe, p, s) \<Rightarrow> compiled_in c f safe p s = Some domain | _ \<Rightarrow> False)"

definition compiled_before :: "'s jit_context \<Rightarrow> (event \<times> 's CorProfiler \<times> 's) list \<Rightarrow> u64 \<Rightarrow> bool" where
  "compiled_before c tr domain \<longleftrightarrow> list_ex (compiles c domain) tr"

definition hooks :: "'s jit_context \<Rightarrow> (event \<times> 's CorProfiler \<times> 's) list \<Rightarrow> u64 list" where
  "hooks c tr = concat (map (\<lambda>(e, p, s). case e of
     JITCompilation f safe \<Rightarrow> (case hook_domain c f safe p s of None \<Rightarrow> [] | Some domain \<Rightarrow> [domain]) | _ \<Rightarrow> []) tr)"

definition compiled_inv :: "'s jit_context \<Rightarrow> (event \<times> 's CorProfiler \<times> 's) list \<Rightarrow> 's CorProfiler \<times> 's \<Rightarrow> bool" where
  "compiled_inv c tr st \<longleftrightarrow> (\<forall>domain. domain \<in> first_jit_compilation_app_domains (fst st) \<longleftrightarrow> compiled_before c tr domain)"

definition loads_inv :: "'s jit_context \<Rightarrow> (event \<times> 's CorProfiler \<times> 's) list \<Rightarrow> 's CorProfiler \<times> 's \<Rightarrow> bool" where
  "loads_inv c tr st \<longleftrightarrow>
     (\<forall>domain \<in> managed_profiler_loaded_app_domains (fst st). \<exists>h \<in> set tr. managed_load c h domain) \<and>
     (managed_profiler_loaded_domain_neutral (fst st) \<longrightarrow>
       corlib_module_loaded (fst st) \<and> (\<exists>h \<in> set tr. managed_load c h (corlib_app_domain_id (fst st))))"

definition state_inv :: "'s CorProfiler \<Rightarrow> (event \<times> 's CorProfiler \<times> 's) list \<Rightarrow> 's CorProfiler \<times> 's \<Rightarrow> bool" where
  "state_inv p0 tr st \<longleftrightarrow> profiler_inv (fst st) \<and> settings (fst st) = settings p0"

lemma hooks_once:
  "set (hooks c [(e, p, s)]) = {domain. compiles c domain (e, p, s)} - first_jit_compilation_app_domains p"
  by (cases e) (auto simp: hooks_def hook_domain_def compiles_def split: option.splits if_split_asm)

lemma callback_first_jit:
  assumes "callback c e (p, s) (p', s')"
  shows "first_jit_compilation_app_domains p' = first_jit_compilation_app_domains p \<union> set (hooks c [(e, p, s)])"
  using assms
proof (cases rule: callback.cases)
  case (jit_compilation f safe hr)
  then show ?thesis by (auto simp: hooks_def dest!: JITCompilationStarted_changes split: option.split)
qed (auto simp: hooks_def Shutdown_def dest!: AssemblyLoadFinished_changes ModuleLoadFinished_changes ModuleUnloadStarted_changes)

lemma compiled_step:
  assumes "callback c e st st'" "compiled_inv c tr st"
  shows "compiled_inv c (tr @ [(e, st)]) st'"
proof -
  obtain p s p' s' where st: "st = (p, s)" "st' = (p', s')" by (cases st; cases st')
  from callback_first_jit [OF assms(1) [unfolded st]] hooks_once [of c e p s] assms(2) show ?thesis
    by (auto simp: compiled_inv_def compiled_before_def st)
qed

interpretation compiled_history: history_invariant "callback c" "compiled_inv c" for c
  by unfold_locales (rule compiled_step)

lemma callback_corlib:
  assumes "callback c e (p, s) (p', s')" "corlib_module_loaded p"
  shows "corlib_module_loaded p' \<and> corlib_app_domain_id p' = corlib_app_domain_id p"
  using assms by (cases rule: callbackE) (auto simp: Shutdown_def dest!: callback_changes)

lemma callback_loads:
  assumes "callback c e (p, s) (p', s')"
  shows "(\<forall>domain \<in> managed_profiler_loaded_app_domains p'. domain \<in> managed_profiler_loaded_app_domains p \<or> managed_load c (e, p, s) domain) \<and>
    (managed_profiler_loaded_domain_neutral p' \<longrightarrow> managed_profiler_loaded_domain_neutral p \<or>
      corlib_module_loaded p \<and> managed_load c (e, p, s) (corlib_app_domain_id p))"
  using assms by (cases rule: callbackE) (auto simp: Shutdown_def dest!: callback_changes)

lemma loads_step:
  assumes "callback c e st st'" "loads_inv c tr st"
  shows "loads_inv c (tr @ [(e, st)]) st'"
proof -
  obtain p s p' s' where st: "st = (p, s)" "st' = (p', s')" by (cases st; cases st')
  note call = assms(1) [unfolded st]
  from callback_loads [OF call] callback_corlib [OF call] assms(2) show ?thesis
    by (fastforce simp: loads_inv_def st)
qed

interpretation load_history: history_invariant "callback c" "loads_inv c" for c
  by unfold_locales (rule loads_step)

interpretation state_history: history_invariant "callback c" "state_inv p0" for c p0
  by unfold_locales (auto simp: state_inv_def intro: callback_inv dest: callback_settings)

text \<open>What \<open>Initialize\<close> leaves, whether it attaches or not.\<close>

lemma Initialize_start:
  assumes "Initialize pf lib files env process query info (CorProfiler_init memory) s = Inr (hr, p, s')"
  shows "first_jit_compilation_app_domains p = {}" "managed_profiler_loaded_app_domains p = {}"
    "\<not> managed_profiler_loaded_domain_neutral p" "module_id_to_info_map p = Map.empty" "\<not> corlib_module_loaded p"
    "is_attached_flag p \<longleftrightarrow> \<not> FAILED hr" "profiler p \<longleftrightarrow> is_attached_flag p" "hr = S_OK \<or> hr = E_FAIL"
proof -
  have "first_jit_compilation_app_domains p = {} \<and> managed_profiler_loaded_app_domains p = {} \<and>
    \<not> managed_profiler_loaded_domain_neutral p \<and> module_id_to_info_map p = Map.empty \<and> \<not> corlib_module_loaded p \<and>
    (is_attached_flag p \<longleftrightarrow> \<not> FAILED hr) \<and> (profiler p \<longleftrightarrow> is_attached_flag p) \<and> (hr = S_OK \<or> hr = E_FAIL)"
    using assms by (auto simp: Initialize_def CorProfiler_init_def Let_def try_then_def FAILED_def split: if_split_asm sum.splits prod.splits)
  then show "first_jit_compilation_app_domains p = {}" "managed_profiler_loaded_app_domains p = {}"
    "\<not> managed_profiler_loaded_domain_neutral p" "module_id_to_info_map p = Map.empty" "\<not> corlib_module_loaded p"
    "is_attached_flag p \<longleftrightarrow> \<not> FAILED hr" "profiler p \<longleftrightarrow> is_attached_flag p" "hr = S_OK \<or> hr = E_FAIL"
    by blast+
qed

end
