(* ===== verification/Profiler_Contracts.thy ===== *)
theory Profiler_Contracts
  imports Profiler_Runs Startup_Contracts
begin

text \<open>
  What the profiler promises over its whole life: when it attaches, what it keeps of the modules,
  that the first compilation in a domain, and no other, runs the startup hook, and what has to happen before a call is redirected
  into the managed assembly. At the end, what goes wrong when a module is unloaded.
\<close>

section \<open>A sample process\<close>

text \<open>
  One integration for calls into the assembly App, in a process where assembly 9 is the managed
  one and method bodies cannot be read.
\<close>

definition sample_json :: json where
  "sample_json = Array [Object [(''name'', Text ''A''), (''method_replacements'', Array [Object
     [(''caller'', Object [(''type'', Text ''Other'')]),
      (''target'', Object [(''assembly'', Text ''App''), (''type'', Text ''T'')]),
      (''wrapper'', Object [(''assembly'', Text ''SignalFx.Tracing.ClrProfiler.Managed''), (''type'', Text ''W'')])]])]]"

definition sample_reference_in :: "WSTRING \<Rightarrow> WSTRING \<Rightarrow> MethodReference" where
  "sample_reference_in assembly name = MethodReference_nil\<lparr>mr_assembly :=
     AssemblyReference_nil\<lparr>ar_name := assembly, ar_locale := W ''neutral''\<rparr>, type_name := name\<rparr>"

definition sample_replacement_A :: MethodReplacement where
  "sample_replacement_A = \<lparr>caller_method = sample_reference_in [] (W ''Other''), target_method = sample_reference_in (W ''App'') (W ''T''),
     wrapper_method = sample_reference_in managed_assembly (W ''W'')\<rparr>"

definition sample_enabled :: Integration where
  "sample_enabled = \<lparr>integration_name = W ''A'', method_replacements = [sample_replacement_A]\<rparr>"

definition sample_env :: environment where
  "sample_env = Windows (\<lambda>name n. if name = integrations_path then (6, W ''a.json'') else (0, []))"

definition sample_files :: "byte list \<Rightarrow> json throwing option" where
  "sample_files f = Some (Inr sample_json)"

definition managed_interfaces :: "nat module_interfaces" where
  "managed_interfaces = sample_interfaces\<lparr>GetAssemblyProps :=
     (\<lambda>s t. (S_OK, managed_assembly, 37, \<lparr>major = 0, minor = 1, build = 15, revision = 0\<rparr>))\<rparr>"

definition process_info :: "nat profiler_info" where
  "process_info = sample_info
     \<lparr>pi_GetAssemblyInfo := (\<lambda>s a. if a = 9 then (S_OK, 37, managed_assembly, 1, 9) else (S_OK, 4, W ''App'', 1, 5)),
      pi_GetModuleMetaData := (\<lambda>s m. (S_OK, if m = 9 then managed_interfaces else sample_interfaces)),
      pi_GetILFunctionBody := (\<lambda>s m t. (E_FAIL, 0, [])),
      pi_SetILFunctionBody := (\<lambda>m t b s. (S_OK, if m = 5 \<and> t \<in> {0x06000001, 0x06000005} then Suc (2 * (s div 2)) else s + 2))\<rparr>"

definition process_context :: "nat jit_context" where
  "process_context = \<lparr>jc_bit64 = True, jc_env = sample_env, jc_info = process_info, jc_depth = 6, jc_behind = [0],
     jc_mvid_ptr = (\<lambda>_. 0x1000)\<rparr>"

lemma sample_load: "IntegrationFromJson Win32 sample_lib (hd (items sample_lib sample_json)) = Inr (Some sample_enabled)"
  by code_simp

lemma sample_values:
  "env_value sample_env name = (if name = integrations_path then W ''a.json'' else [])"
  "env_values sample_env name = (if name = integrations_path then [W ''a.json''] else [])"
proof -
  have "Trim (W ''a.json'') = W ''a.json''" "Trim [] = []" "Split (W ''a.json'') 0x3B = [W ''a.json'']" "Split [] 0x3B = [[]]"
      "W ''a.json'' \<noteq> []" "take 6 (W ''a.json'') = W ''a.json''"
    by code_simp+
  then show "env_value sample_env name = (if name = integrations_path then W ''a.json'' else [])"
    "env_values sample_env name = (if name = integrations_path then [W ''a.json''] else [])"
    by (simp_all add: env_value_def env_values_def GetEnvironmentValue_def GetEnvironmentValues_def GetEnvironmentValues_delim_def
        sample_env_def substr_def)
qed

lemma sample_names_differ:
  "tracing_enabled \<noteq> integrations_path" "debug_enabled \<noteq> integrations_path" "include_process_names \<noteq> integrations_path"
  "exclude_process_names \<noteq> integrations_path" "disabled_integrations \<noteq> integrations_path"
  "domain_neutral_instrumentation \<noteq> integrations_path" "azure_app_services \<noteq> integrations_path"
  "clr_disable_optimizations \<noteq> integrations_path"
  by code_simp+

lemma sample_LoadIntegrations:
  "LoadIntegrationsFromEnvironment Win32 sample_lib sample_files sample_env = Inr [sample_enabled]"
proof -
  obtain j where "items sample_lib sample_json = [j]" by (simp add: sample_json_def sample_lib_def)
  then show ?thesis
    using sample_load sample_values(2) [of integrations_path]
    by (simp add: LoadIntegrationsFromEnvironment_def env_values_def LoadIntegrationsFromFile_def sample_files_def
        LoadIntegrationsFromStream_def try_then_def)
qed

definition attached_profiler :: "nat CorProfiler" where
  "attached_profiler = (CorProfiler_init 0)\<lparr>integrations := [sample_enabled], is_attached_flag := True, profiler := True,
     runtime_information := GetRuntimeInformation process_info 0\<rparr>"

lemma sample_Initialize:
  "Initialize Win32 sample_lib sample_files sample_env (Comm []) S_OK process_info (CorProfiler_init 0) 0 =
   Inr (S_OK, attached_profiler, 0)"
proof -
  have w: "W ''0'' \<noteq> []" "W ''1'' \<noteq> []" "W ''true'' \<noteq> []" "W ''false'' \<noteq> []" "W ''a.json'' \<noteq> []" by code_simp+
  have off: "\<not> env_on sample_env name" if "name \<noteq> integrations_path" for name
    using that w by (auto simp: env_on_def sample_values)
  show ?thesis
    using w sample_names_differ
    by (simp add: Initialize_def off process_refused_def sample_values Contains_def sample_LoadIntegrations try_then_def
      FilterIntegrationsByName_def attached_profiler_def CorProfiler_init_def process_info_def sample_info_def)
qed

definition sample_method :: IntegrationMethod where
  "sample_method = \<lparr>im_integration_name = W ''A'', replacement = sample_replacement_A\<rparr>"

definition stored_module :: "nat ModuleMetadata" where
  "stored_module = ModuleMetadata_init sample_interfaces (W ''App'') 1 0 [sample_method]"

definition loaded_profiler :: "nat CorProfiler" where
  "loaded_profiler = attached_profiler\<lparr>managed_profiler_loaded_app_domains := {1}\<rparr>"

definition storing_profiler :: "nat CorProfiler" where
  "storing_profiler = loaded_profiler\<lparr>module_id_to_info_map := [5 \<mapsto> stored_module]\<rparr>"

definition hooked_profiler :: "nat CorProfiler" where
  "hooked_profiler = storing_profiler\<lparr>first_jit_compilation_app_domains := {1}\<rparr>"

lemma sample_interfaces_refer:
  "refers_to sample_interfaces (\<lambda>s. s = 0) [0x23000001] (GetReferencedAssemblyMetadata sample_interfaces 0)"
proof -
  have "batches (enum_assembly_refs sample_interfaces) (\<lambda>s. s = 0) 1 0 []"
    by (rule batches.last [where hr = S_FALSE and ts = "[]" and ptr' = 1 and s' = 0])
      (simp_all add: enum_assembly_refs_def sample_interfaces_def metadata.extend_def sample_metadata_def)
  then have "batches (enum_assembly_refs sample_interfaces) (\<lambda>s. s = 0) 0 0 [[0x23000001]]"
    by (intro batches.more [where ptr' = 1 and s' = 0])
      (simp_all add: enum_assembly_refs_def sample_interfaces_def metadata.extend_def sample_metadata_def)
  moreover have "CloseEnum sample_interfaces ptr s = s" for ptr s
    by (simp add: sample_interfaces_def metadata.extend_def sample_metadata_def)
  ultimately show ?thesis unfolding refers_to_def by (auto intro!: exI [of _ "[[0x23000001]]"])
qed

lemma sample_filter: "FilterIntegrationsByTarget sample_interfaces [sample_method] 0 = Some ([sample_method], 0)"
proof -
  have "required_version (replacement sample_method) (GetAssemblyImportMetadata sample_interfaces 0)"
    by (simp add: sample_method_def sample_replacement_A_def sample_reference_in_def required_version_def version_number_def
        sample_interfaces_def metadata.extend_def sample_metadata_def GetAssemblyImportMetadata_def MethodReference_nil_def
        AssemblyReference_nil_def Version_nil_def)
  then show ?thesis
    using filter_by_target_spec [OF sample_interfaces_refer, of 0 "GetAssemblyImportMetadata sample_interfaces 0" "[sample_method]" "[]"]
    by (auto simp: FilterIntegrationsByTarget_def)
qed

lemma sample_AssemblyLoad: "AssemblyLoadFinished process_info 9 S_OK attached_profiler 0 = (S_OK, loaded_profiler)"
proof -
  have "GetAssemblyInfo process_info 0 9 = \<lparr>ai_id = 9, ai_name = managed_assembly, manifest_module_id = 9, app_domain_id = 1,
      app_domain_name = W ''Default''\<rparr>"
    by (simp add: GetAssemblyInfo_def process_info_def sample_info_def)
  moreover have "assembly_version (amd_version (GetAssemblyImportMetadata managed_interfaces 0)) = PROFILER_VERSION" by code_simp
  moreover have "pi_GetModuleMetaData process_info 0 9 = (S_OK, managed_interfaces)" by (simp add: process_info_def)
  moreover have "is_attached_flag attached_profiler" "\<not> is_desktop (runtime_information attached_profiler)"
      "managed_profiler_loaded_app_domains attached_profiler = {}"
    by (simp_all add: attached_profiler_def is_desktop_def GetRuntimeInformation_def process_info_def sample_info_def CorProfiler_init_def)
  ultimately show ?thesis by (simp add: AssemblyLoadFinished_def AssemblyInfo_IsValid_def loaded_profiler_def)
qed

lemma sample_ModuleLoad: "ModuleLoadFinished process_info 5 S_OK loaded_profiler 0 = Some (S_OK, storing_profiler, 0)"
proof -
  let ?a = "\<lparr>ai_id = 3, ai_name = W ''App'', manifest_module_id = 5, app_domain_id = 1, app_domain_name = W ''Default''\<rparr>"
  have i: "GetModuleInfo process_info 0 5 = \<lparr>mi_id = 5, mi_path = W ''App.dll'', mi_assembly = ?a, mi_flags = 0\<rparr>"
    by (simp add: GetModuleInfo_def GetAssemblyInfo_def process_info_def sample_info_def)
  have n: "W ''App'' \<noteq> W ''mscorlib''" "W ''App'' \<noteq> W ''System.Private.CoreLib''" "W ''App'' \<noteq> hosting"
      "\<not> list_ex (\<lambda>skip_assembly. W ''App'' = skip_assembly) skip_assemblies"
    by code_simp+
  have f: "FilterIntegrationsByCaller (FlattenIntegrations [sample_enabled]) ?a = [sample_method]" by code_simp
  have p: "is_attached_flag loaded_profiler" "\<not> corlib_module_loaded loaded_profiler" "integrations loaded_profiler = [sample_enabled]"
      "module_id_to_info_map loaded_profiler = Map.empty"
    by (simp_all add: loaded_profiler_def attached_profiler_def CorProfiler_init_def)
  have "pi_GetModuleMetaData process_info 0 5 = (S_OK, sample_interfaces)" "GetModuleFromScope sample_interfaces 0 = (S_OK, 1)"
      "GetScopeProps sample_interfaces 0 = (S_OK, 0)"
    by (simp_all add: process_info_def sample_interfaces_def metadata.extend_def)
  then show ?thesis
    using n p f by (simp add: ModuleLoadFinished_def i ModuleInfo_IsValid_def IsWindowsRuntime_def sample_filter store_module_def
      storing_profiler_def stored_module_def)
qed

definition run_method :: FunctionInfo where
  "run_method = \<lparr>fi_id = 0x06000001, fi_name = W ''Run'', fi_type = \<lparr>ti_id = 0x02000002, ti_name = W ''App.Program''\<rparr>,
     is_generic = False, fi_signature = [0, 0, 1], function_spec_signature = [], method_def_id = 0\<rparr>"

lemma sample_caller:
  "GetFunctionInfo 6 sample_interfaces 0 0x06000001 = Some run_method" "GetFunctionInfo 6 sample_interfaces 1 0x06000001 = Some run_method"
  "FunctionInfo_IsValid run_method"
  by code_simp+

lemma sample_JIT: "JITCompilationStarted process_context 1 True storing_profiler 0 = Some (S_OK, hooked_profiler, 1)"
proof -
  have f: "pi_GetFunctionInfo process_info 0 1 = (S_OK, 5, 0x06000001)" by (simp add: process_info_def sample_info_def)
  have "pi_GetModuleMetaData process_info 0 5 = (S_OK, sample_interfaces)" "\<not> FAILED (pi_GetILFunctionBodyAllocator process_info 0 5)"
    "pi_Alloc process_info 0" "m_pEH startup_rewriter = []" "il_list startup_rewriter []"
    by (simp_all add: process_info_def sample_info_def startup_rewriter_def ILRewriter_init_il_list) (simp add: ILRewriter_init_def)
  from GenerateVoid_body [OF this(1) _ sample_define [of True sample_env] this(2,3,5,4), of 0]
  have g: "GenerateVoidILStartupMethod True sample_env process_info 5 0 = Some (Inr 0x06000005, 1)"
    by (auto simp: process_info_def sample_info_def sample_tokens_def FAILED_def)
  obtain rw where "rewriter_Import process_info 1 5 0x06000001 = Some (E_FAIL, rw)"
    by (simp add: rewriter_Import_def process_info_def Import_def)
  then have h: "RunILStartupHook True sample_env process_info 5 0x06000001 0 = Some (S_OK, 1)"
    using g by (simp add: RunILStartupHook_def)
  have "W ''Other'' \<noteq> ti_name (fi_type run_method)" "W ''Other'' \<noteq> []" "W ''App'' \<noteq> hosting" by code_simp+
  then have i: "instrument_caller process_context 5 0x06000001 run_method stored_module p s = Some (S_OK, p, s)" for p s
    by (simp add: instrument_caller_def GetMethodReplacementsForCaller_def stored_module_def ModuleMetadata_init_def
        sample_method_def sample_replacement_A_def sample_reference_in_def)
  have m: "mm_metadata stored_module = sample_interfaces" "mm_app_domain_id stored_module = 1"
    by (simp_all add: stored_module_def ModuleMetadata_init_def)
  show ?thesis
    by (simp add: JITCompilationStarted_def process_context_def f storing_profiler_def hooked_profiler_def loaded_profiler_def
      attached_profiler_def CorProfiler_init_def m sample_caller h i [unfolded process_context_def])
qed

definition sample_history :: "(event \<times> nat CorProfiler \<times> nat) list" where
  "sample_history = [(AssemblyLoad 9 S_OK, attached_profiler, 0), (ModuleLoad 5 S_OK, loaded_profiler, 0),
     (JITCompilation 1 True, storing_profiler, 0)]"

lemma sample_run: "run (callback process_context) (attached_profiler, 0) sample_history (hooked_profiler, 1)"
proof -
  have info: "jc_info process_context = process_info" by (simp add: process_context_def)
  have "run (callback process_context) (attached_profiler, 0) (([] @ [(AssemblyLoad 9 S_OK, attached_profiler, 0)]) @
      [(ModuleLoad 5 S_OK, loaded_profiler, 0)]) (storing_profiler, 0)"
    by (intro run.more run.start callback.assembly_load callback.module_load)
      (simp_all add: info sample_AssemblyLoad sample_ModuleLoad)
  from run.more [OF this callback.jit_compilation [OF sample_JIT]] show ?thesis by (simp add: sample_history_def)
qed

lemma sample_compilation:
  "compilation process_context 1 True storing_profiler 0 = Some (5, 0x06000001, stored_module, run_method)"
  "compilation process_context 1 True hooked_profiler 1 = Some (5, 0x06000001, stored_module, run_method)"
  by (simp_all add: compilation_def process_context_def process_info_def sample_info_def hooked_profiler_def storing_profiler_def
    loaded_profiler_def attached_profiler_def stored_module_def ModuleMetadata_init_def sample_caller del: One_nat_def)

lemma sample_compiled: "compiled_in process_context 1 True storing_profiler 0 = Some 1"
  by (simp add: compiled_in_def sample_compilation stored_module_def ModuleMetadata_init_def)

lemma sample_start:
  "Initialize Win32 sample_lib sample_files sample_env (Comm []) S_OK (jc_info process_context) (CorProfiler_init 0) 0 =
   Inr (S_OK, attached_profiler, 0)"
  by (simp add: process_context_def sample_Initialize)

section \<open>Contracts\<close>

lemma run_start:
  assumes "Initialize pf lib files env process query (jc_info c) (CorProfiler_init memory) s = Inr (hr, p0, s0)"
  shows "compiled_inv c [] (p0, s0)" "loads_inv c [] (p0, s0)" "state_inv p0 [] (p0, s0)"
  using Initialize_start [OF assms] by (simp_all add: compiled_inv_def compiled_before_def loads_inv_def state_inv_def profiler_inv_def)

lemma run_split: "run step st0 (tr1 @ (e, st1) # tr2) st \<Longrightarrow> run step st0 tr1 st1 \<and> (\<exists>st2. step e st1 st2)"
proof (induction "tr1 @ (e, st1) # tr2" st arbitrary: tr2 rule: run.induct)
  case (more tr st e' st')
  show ?case
  proof (cases tr2 rule: rev_cases)
    case Nil
    with more show ?thesis by auto
  next
    case (snoc tr3 h)
    with more show ?thesis by auto
  qed
qed simp

text \<open>
  C4. In every state the profiler can reach, by any sequence of callbacks with any answers of the
  runtime, whether it attached or not: a module whose metadata is kept is no assembly that must be
  skipped, and its integrations are some of the enabled ones that apply to it as the caller, at
  least one; the managed assembly is only taken to be domain-neutral on the desktop runtime and
  after the core library has been loaded; and the settings are those made by Initialize.
\<close>

theorem profiler_invariant:
  assumes "Initialize pf lib files env process query (jc_info c) (CorProfiler_init memory) s = Inr (hr, p0, s0)"
    "run (callback c) (p0, s0) tr (p, s')"
  shows "profiler_inv p \<and> settings p = settings p0"
  using state_history.run_keeps [OF assms(2) run_start(3) [OF assms(1)]] by (simp add: state_inv_def)

theorem profiler_invariant_witness:
  "profiler_inv hooked_profiler \<and> module_id_to_info_map hooked_profiler 5 = Some stored_module"
  using profiler_invariant [OF sample_start sample_run] by (simp add: hooked_profiler_def storing_profiler_def)

text \<open>
  The hook in terms of the history: a compilation runs it if and only if it is the first in its
  domain.
\<close>

lemma JITCompilationStarted_after:
  assumes "compiled_inv c tr (q, t)" "compilation c f safe q t = Some (module_id, tk, m, caller)"
  shows "JITCompilationStarted c f safe q t =
    (if compiled_before c tr (mm_app_domain_id m) then instrument_caller c module_id tk caller m q t
     else do {
       (_, t) \<leftarrow> RunILStartupHook (jc_bit64 c) (jc_env c) (jc_info c) module_id tk t;
       instrument_caller c module_id tk caller m
         (q\<lparr>first_jit_compilation_app_domains := insert (mm_app_domain_id m) (first_jit_compilation_app_domains q)\<rparr>) t })"
proof -
  have "\<not> FAILED S_OK" by (simp add: FAILED_def)
  with assms(1) show ?thesis
    unfolding JITCompilationStarted_compiles [OF assms(2)] compiled_inv_def
    by (cases "RunILStartupHook (jc_bit64 c) (jc_env c) (jc_info c) module_id tk t") (auto dest: RunILStartupHook_succeeds)
qed

text \<open>
  C10. The startup hook is run once in every application domain, however callbacks, unloading
  and failures are ordered. After any run, a compilation in a domain in which the run had none
  yet is a call of RunILStartupHook followed by what is done to instrument the method; a
  compilation in any other domain is the latter alone, in the same state. If the profiler is not
  attached, may not block, or does not keep the module, JITCompilationStarted changes nothing.
\<close>

theorem startup_hook_once:
  assumes "Initialize pf lib files env process query (jc_info c) (CorProfiler_init memory) s = Inr (hr, p0, s0)"
    "run (callback c) (p0, s0) tr (q, t)"
  shows "case compilation c f safe q t of
      None \<Rightarrow> JITCompilationStarted c f safe q t \<in> {None, Some (S_OK, q, t)}
    | Some (module_id, tk, m, caller) \<Rightarrow>
        JITCompilationStarted c f safe q t =
          (if compiled_before c tr (mm_app_domain_id m) then instrument_caller c module_id tk caller m q t
           else do {
             (_, t) \<leftarrow> RunILStartupHook (jc_bit64 c) (jc_env c) (jc_info c) module_id tk t;
             instrument_caller c module_id tk caller m
               (q\<lparr>first_jit_compilation_app_domains := insert (mm_app_domain_id m) (first_jit_compilation_app_domains q)\<rparr>) t })"
  using compiled_history.run_keeps [OF assms(2) run_start(1) [OF assms(1)]]
  by (auto dest: JITCompilationStarted_skips simp: JITCompilationStarted_after split: option.split)

theorem startup_hook_once_witness:
  "compiled_before process_context sample_history 1 \<and>
   JITCompilationStarted process_context 1 True hooked_profiler 1 =
     instrument_caller process_context 5 0x06000001 run_method stored_module hooked_profiler 1"
proof -
  have "compiled_before process_context sample_history 1"
    using sample_compiled by (simp add: compiled_before_def compiles_def sample_history_def)
  moreover have "mm_app_domain_id stored_module = 1" by (simp add: stored_module_def ModuleMetadata_init_def)
  ultimately show ?thesis
    using startup_hook_once [OF sample_start sample_run, of 1 True] by (simp add: sample_compilation del: One_nat_def)
qed

text \<open>The first of the elements with a property.\<close>

lemma first_with: "list_ex P xs \<Longrightarrow> \<exists>ys x zs. xs = ys @ x # zs \<and> P x \<and> \<not> list_ex P ys"
  using split_list_first_prop [of xs P] by (auto simp: list_ex_iff)

text \<open>
  C15. The startup hook is not missed. If a run compiles a method of a module with metadata in
  some domain while the profiler is attached and may block, then there is a first such
  compilation in the domain, and the call of JITCompilationStarted for it was a successful call of
  RunILStartupHook on that method, followed by what is done to instrument it.
\<close>

theorem startup_hook_runs:
  assumes "Initialize pf lib files env process query (jc_info c) (CorProfiler_init memory) s = Inr (hr, p0, s0)"
    "run (callback c) (p0, s0) tr st" "compiled_before c tr domain"
  shows "\<exists>tr1 f safe q t tr2 module_id tk m caller t1.
    tr = tr1 @ (JITCompilation f safe, q, t) # tr2 \<and> \<not> compiled_before c tr1 domain \<and>
    compilation c f safe q t = Some (module_id, tk, m, caller) \<and> mm_app_domain_id m = domain \<and>
    RunILStartupHook (jc_bit64 c) (jc_env c) (jc_info c) module_id tk t = Some (S_OK, t1) \<and>
    JITCompilationStarted c f safe q t = instrument_caller c module_id tk caller m
      (q\<lparr>first_jit_compilation_app_domains := insert domain (first_jit_compilation_app_domains q)\<rparr>) t1"
proof -
  obtain tr1 h tr2 where tr: "tr = tr1 @ h # tr2" "compiles c domain h" "\<not> compiled_before c tr1 domain"
    using first_with [of "compiles c domain" tr] assms(3) by (auto simp: compiled_before_def)
  obtain f safe q t where h: "h = (JITCompilation f safe, q, t)" "compiled_in c f safe q t = Some domain"
    using tr(2) by (cases h) (auto simp: compiles_def split: event.splits)
  then obtain module_id tk m caller where m: "compilation c f safe q t = Some (module_id, tk, m, caller)" "mm_app_domain_id m = domain"
    by (auto simp: compiled_in_def)
  have before: "run (callback c) (p0, s0) tr1 (q, t)" and "\<exists>st'. callback c (JITCompilation f safe) (q, t) st'"
    using run_split [OF assms(2) [unfolded tr(1) h(1)]] by auto
  then obtain r where r: "JITCompilationStarted c f safe q t = Some r" by (auto elim: callback.cases)
  have j: "JITCompilationStarted c f safe q t = do {
      (_, t) \<leftarrow> RunILStartupHook (jc_bit64 c) (jc_env c) (jc_info c) module_id tk t;
      instrument_caller c module_id tk caller m
        (q\<lparr>first_jit_compilation_app_domains := insert domain (first_jit_compilation_app_domains q)\<rparr>) t }"
    using JITCompilationStarted_after [OF compiled_history.run_keeps [OF before run_start(1) [OF assms(1)]] m(1)] tr(3) m(2) by simp
  then obtain hr1 t1 where hook: "RunILStartupHook (jc_bit64 c) (jc_env c) (jc_info c) module_id tk t = Some (hr1, t1)"
    using r by (cases "RunILStartupHook (jc_bit64 c) (jc_env c) (jc_info c) module_id tk t") auto
  with j RunILStartupHook_succeeds [OF hook] tr h m show ?thesis by fastforce
qed

theorem startup_hook_runs_witness:
  "\<exists>t1. RunILStartupHook True sample_env process_info 5 0x06000001 0 = Some (S_OK, t1) \<and>
     JITCompilationStarted process_context 1 True storing_profiler 0 =
       instrument_caller process_context 5 0x06000001 run_method stored_module hooked_profiler t1"
proof -
  have "compiled_before process_context sample_history 1"
    using sample_compiled by (simp add: compiled_before_def compiles_def sample_history_def)
  from startup_hook_runs [OF sample_start sample_run this]
  obtain tr1 f safe q t tr2 module_id tk m caller t1 where w:
      "sample_history = tr1 @ (JITCompilation f safe, q, t) # tr2"
      "compilation process_context f safe q t = Some (module_id, tk, m, caller)"
      "RunILStartupHook True sample_env process_info module_id tk t = Some (S_OK, t1)"
      "JITCompilationStarted process_context f safe q t = instrument_caller process_context module_id tk caller m
        (q\<lparr>first_jit_compilation_app_domains := insert 1 (first_jit_compilation_app_domains q)\<rparr>) t1"
    by (auto simp: process_context_def)
  have "(JITCompilation f safe, q, t) \<in> set sample_history" unfolding w(1) by simp
  then have "f = 1" "safe" "q = storing_profiler" "t = 0" by (simp_all add: sample_history_def)
  moreover have "storing_profiler\<lparr>first_jit_compilation_app_domains := insert 1 (first_jit_compilation_app_domains storing_profiler)\<rparr> =
      hooked_profiler"
    by (simp add: hooked_profiler_def storing_profiler_def loaded_profiler_def attached_profiler_def CorProfiler_init_def)
  ultimately show ?thesis using w(2-4) by (simp add: sample_compilation)
qed

lemma check_call_loaded:
  assumes "check_call d info p module_id r arg m s = Some (Match target ref def, m', s')"
    "ar_name (mr_assembly (wrapper_method r)) = managed_assembly"
  shows "ProfilerAssemblyIsLoadedIntoAppDomain p (mm_app_domain_id m)"
proof -
  have "mm_app_domain_id m' = mm_app_domain_id m"
    using module_extends_fixed [OF check_call_extends [OF assms(1)]] by (simp add: fixed_part_def)
  with assms show ?thesis
    by (auto simp: check_call_def Let_def split: option.splits if_split_asm prod.splits bind_splits)
qed

text \<open>
  C11. A call is only redirected into the managed assembly if, earlier in the run, the runtime
  reported that this assembly, in the version of the profiler, was loaded: into the domain of
  the module that is rewritten, or, on the desktop runtime, into the shared domain of the core
  library.
\<close>

theorem managed_wrapper_needs_load:
  assumes "Initialize pf lib files env process query (jc_info c) (CorProfiler_init memory) s = Inr (hr, p0, s0)"
    "run (callback c) (p0, s0) tr (p, s1)"
    "check_call d info p module_id r arg m s2 = Some (Match target ref def, m', s3)"
    "ar_name (mr_assembly (wrapper_method r)) = managed_assembly"
  shows "\<exists>h \<in> set tr. managed_load c h (mm_app_domain_id m) \<or>
    is_desktop (runtime_information p) \<and> corlib_module_loaded p \<and> managed_load c h (corlib_app_domain_id p)"
proof -
  have "loads_inv c tr (p, s1)" "state_inv p0 tr (p, s1)"
    using load_history.run_keeps [OF assms(2) run_start(2) [OF assms(1)]]
      state_history.run_keeps [OF assms(2) run_start(3) [OF assms(1)]] by blast+
  with check_call_loaded [OF assms(3,4)] show ?thesis
    by (auto simp: loads_inv_def state_inv_def profiler_inv_def ProfilerAssemblyIsLoadedIntoAppDomain_def)
qed

theorem managed_wrapper_needs_load_witness:
  "\<exists>m h. check_call 6 sample_info hooked_profiler 5 sample_replacement 0x0a000001 cached_module 0 = Some (Match sample_target 0x0a000007 0x0a000001, m, 0) \<and>
     h \<in> set sample_history \<and> managed_load process_context h 1"
proof -
  have c: "check_call 6 sample_info hooked_profiler 5 sample_replacement 0x0a000001 cached_module 0 =
      Some (Match sample_target 0x0a000007 0x0a000001, cached_module, 0)"
    by (rule sample_check_in) (simp_all add: ProfilerAssemblyIsLoadedIntoAppDomain_def hooked_profiler_def storing_profiler_def
      loaded_profiler_def attached_profiler_def CorProfiler_init_def)
  have "mm_app_domain_id cached_module = 1" "ar_name (mr_assembly (wrapper_method sample_replacement)) = managed_assembly"
      "\<not> corlib_module_loaded hooked_profiler"
    by (simp_all add: cached_module_def SetWrapperMemberRef_def sample_module_def ModuleMetadata_init_def sample_replacement_def
      hooked_profiler_def storing_profiler_def loaded_profiler_def attached_profiler_def CorProfiler_init_def)
  with managed_wrapper_needs_load [OF sample_start sample_run c] c show ?thesis by auto
qed

definition silent_inv :: "'s jit_context \<Rightarrow> 's CorProfiler \<Rightarrow> (event \<times> 's CorProfiler \<times> 's) list \<Rightarrow> 's CorProfiler \<times> 's \<Rightarrow> bool" where
  "silent_inv c p0 tr st \<longleftrightarrow> \<not> is_attached_flag (fst st) \<and> hooks c tr = [] \<and>
     module_id_to_info_map (fst st) \<subseteq>\<^sub>m module_id_to_info_map p0"

lemma callback_detached:
  assumes "callback c e (p, s) (p', s')" "\<not> is_attached_flag p"
  shows "\<not> is_attached_flag p' \<and> hooks c [(e, p, s)] = [] \<and> module_id_to_info_map p' \<subseteq>\<^sub>m module_id_to_info_map p \<and>
    (e = Runtime_step \<or> s' = s)"
  using assms(1)
proof (cases rule: callback.cases)
  case (jit_compilation f safe hr)
  with assms(2) show ?thesis by (auto simp: JITCompilationStarted_def hooks_def hook_domain_def compiled_in_def compilation_def split: prod.splits)
next
  case (module_unload k hr)
  with assms(2) show ?thesis by (auto simp: ModuleUnloadStarted_def hooks_def map_le_def split: option.splits if_split_asm)
qed (use assms(2) in \<open>auto simp: AssemblyLoadFinished_def ModuleLoadFinished_def Shutdown_def hooks_def split: if_split_asm\<close>)

interpretation silent_history: history_invariant "callback c" "silent_inv c p0" for c p0
proof
  fix e st st' tr
  assume a: "callback c e st st'" "silent_inv c p0 tr st"
  obtain p s p' s' where st: "st = (p, s)" "st' = (p', s')" by (cases st; cases st')
  from callback_detached [OF a(1) [unfolded st]] a(2) show "silent_inv c p0 (tr @ [(e, st)]) st'"
    by (auto simp: silent_inv_def st hooks_def intro: map_le_trans)
qed

text \<open>
  C25. A profiler that is not attached, because Initialize refused or after Shutdown, is silent: it
  stays so in every run, no callback changes the state of the runtime, none stores metadata or
  runs the startup hook.
\<close>

theorem detached_is_silent:
  assumes "run (callback c) (p0, s0) tr (p, s)" "\<not> is_attached_flag p0"
  shows "\<not> is_attached_flag p \<and> hooks c tr = [] \<and> module_id_to_info_map p \<subseteq>\<^sub>m module_id_to_info_map p0 \<and>
    (\<forall>e p' s'. callback c e (p, s) (p', s') \<longrightarrow> e = Runtime_step \<or> s' = s)"
proof -
  have "silent_inv c p0 tr (p, s)"
    using silent_history.run_keeps [OF assms(1), of p0] assms(2) by (simp add: silent_inv_def hooks_def)
  then show ?thesis using callback_detached [of c _ p s] unfolding silent_inv_def by (metis fst_conv)
qed

theorem detached_is_silent_witness:
  "\<not> is_attached_flag (snd (Shutdown hooked_profiler)) \<and> run (callback process_context) (snd (Shutdown hooked_profiler), 1)
     [(JITCompilation 1 True, snd (Shutdown hooked_profiler), 1)] (snd (Shutdown hooked_profiler), 1) \<and>
   hooks process_context [(JITCompilation 1 True, snd (Shutdown hooked_profiler), 1)] = []"
proof -
  let ?p = "snd (Shutdown hooked_profiler)"
  have d: "\<not> is_attached_flag ?p" by (simp add: Shutdown_def)
  then have "JITCompilationStarted process_context 1 True ?p 1 = Some (S_OK, ?p, 1)" by (simp add: JITCompilationStarted_def)
  from run.more [of "callback process_context" "(?p, 1)" "[]" "(?p, 1)", OF run.start callback.jit_compilation [OF this]]
  have r: "run (callback process_context) (?p, 1) [(JITCompilation 1 True, ?p, 1)] (?p, 1)" by simp
  from detached_is_silent [OF r d] r d show ?thesis by blast
qed

definition attaches :: "environment \<Rightarrow> process \<Rightarrow> hresult \<Rightarrow> Integration list \<Rightarrow> bool" where
  "attaches env process query enabled \<longleftrightarrow>
     env_value env tracing_enabled \<notin> {W ''0'', W ''false''} \<and>
     (let name = GetCurrentProcessName process in
        (env_values env include_process_names = [] \<or> name \<in> set (env_values env include_process_names)) \<and>
        name \<notin> set (env_values env exclude_process_names)) \<and>
     \<not> FAILED query \<and> \<not> (env_value env azure_app_services = W ''1'' \<and> azure_reserved env) \<and>
     env_value env integrations_path \<noteq> [] \<and> enabled \<noteq> []"

lemma Contains_set: "Contains xs x \<longleftrightarrow> x \<in> set xs"
  by (auto simp: Contains_def find_None_iff find_Some_iff split: option.splits)

text \<open>
  C17. Initialize always comes back with S_OK or E_FAIL, unless the JSON parser throws something
  that is no standard exception. It attaches exactly if the configuration and the process lists
  allow it, the runtime has the interface, it is no reserved process of Azure App Services, at
  least one integration is enabled, and the runtime accepts the event mask; the mask asks for
  compilations and loads of modules and assemblies and switches native images off. The profiler
  then has the enabled integrations, otherwise it is not attached.
\<close>

theorem Initialize_attaches:
  assumes "\<not> is_attached_flag p" "LoadIntegrationsFromEnvironment pf lib files env = Inr all"
  defines "enabled \<equiv> filter (\<lambda>i. integration_name i \<notin> set (env_values env disabled_integrations)) all"
  shows "\<exists>hr p' s'. Initialize pf lib files env process query info p s = Inr (hr, p', s') \<and>
    (if attaches env process query enabled \<and> \<not> FAILED (fst (pi_SetEventMask info (event_mask (DisableOptimizations env)) s))
     then hr = S_OK \<and> is_attached_flag p' \<and> profiler p' \<and> integrations p' = enabled \<and>
       s' = snd (pi_SetEventMask info (event_mask (DisableOptimizations env)) s)
     else hr = E_FAIL \<and> \<not> is_attached_flag p' \<and> profiler p' = profiler p \<and>
       (s' = s \<or> attaches env process query enabled))"
proof -
  have f: "FilterIntegrationsByName all (env_values env disabled_integrations) = enabled"
    by (auto simp: FilterIntegrationsByName_def enabled_def list_ex_iff intro: filter_cong)
  obtain hr s1 where m: "pi_SetEventMask info (event_mask (DisableOptimizations env)) s = (hr, s1)" by fastforce
  show ?thesis
    using assms(1,2) by (auto simp: Initialize_def Let_def process_refused_def Contains_set attaches_def try_then_def f m)
qed

theorem Initialize_attaches_witness:
  "\<exists>p' s'. Initialize Win32 sample_lib sample_files sample_env (Comm []) S_OK process_info (CorProfiler_init 0) 0 = Inr (S_OK, p', s') \<and>
     is_attached_flag p' \<and> integrations p' = [sample_enabled]"
proof -
  have w: "W ''0'' \<noteq> []" "W ''1'' \<noteq> []" "W ''false'' \<noteq> []" "W ''a.json'' \<noteq> []" by code_simp+
  then have "attaches sample_env (Comm []) S_OK [sample_enabled]"
    using sample_names_differ by (simp add: attaches_def sample_values FAILED_def)
  moreover have "\<not> FAILED (fst (pi_SetEventMask process_info (event_mask (DisableOptimizations sample_env)) 0))"
    by (simp add: process_info_def sample_info_def)
  moreover have "\<not> is_attached_flag (CorProfiler_init 0)" by (simp add: CorProfiler_init_def)
  moreover have "env_values sample_env disabled_integrations = []" using sample_names_differ by (simp add: sample_values)
  ultimately show ?thesis
    using Initialize_attaches [of "CorProfiler_init 0 :: nat CorProfiler", OF _ sample_LoadIntegrations, of "Comm []" S_OK process_info 0]
    by auto
qed

definition applies :: "AssemblyInfo \<Rightarrow> AssemblyMetadata list \<Rightarrow> IntegrationMethod \<Rightarrow> bool" where
  "applies assembly targets i \<longleftrightarrow>
     (let caller = ar_name (mr_assembly (caller_method (replacement i))) in caller = [] \<or> caller = ai_name assembly) \<and>
     (ai_name assembly = hosting \<or> list_ex (required_version (replacement i)) targets)"

text \<open>
  C16. ModuleLoadFinished stores the metadata of a module exactly if some enabled integration
  applies to it: with the module as caller, and, except for Microsoft.AspNetCore.Hosting, with the
  module or an assembly it refers to as the target, in the right version. It then stores just
  these integrations, the module's name, domain and version id; otherwise nothing changes. This is
  for a module that has been loaded, is neither the first core library nor a Windows Runtime
  module nor on the list of assemblies to skip, and whose metadata can be opened.
\<close>

theorem ModuleLoadFinished_stores:
  assumes "is_attached_flag p" "\<not> FAILED status" "corlib_module_loaded p"
    "GetModuleInfo info s k = \<lparr>mi_id = k, mi_path = path, mi_assembly = assembly, mi_flags = flags\<rparr>" "k \<noteq> 0" "flags AND 0x40 = 0"
    "ai_name assembly \<notin> set skip_assemblies"
    "pi_GetModuleMetaData info s k = (hr, md)" "\<not> FAILED hr" "refers_to md P refs meta" "P s"
    "\<And>t. P t \<Longrightarrow> GetModuleFromScope md t = (S_OK, modul) \<and> GetScopeProps md t = (S_OK, mvid)"
  defines "is \<equiv> filter (applies assembly (GetAssemblyImportMetadata md s # map meta refs)) (FlattenIntegrations (integrations p))"
  shows "\<exists>s'. P s' \<and> ModuleLoadFinished info k status p s = Some (S_OK,
    if is = [] then p else p\<lparr>module_id_to_info_map := (module_id_to_info_map p)(k \<mapsto>
      ModuleMetadata_init md (ai_name assembly) (app_domain_id assembly) mvid is)\<rparr>, s')"
proof -
  let ?all = "FlattenIntegrations (integrations p)" and ?targets = "GetAssemblyImportMetadata md s # map meta refs"
  let ?callers = "FilterIntegrationsByCaller ?all assembly"
  let ?kept = "filter (\<lambda>i. list_ex (required_version (replacement i)) ?targets) ?callers"
  have split: "is = (if ai_name assembly = hosting then ?callers else ?kept)"
    by (auto simp: is_def applies_def FilterIntegrationsByCaller_def Let_def intro!: filter_cong)
  have start: "ModuleLoadFinished info k status p s =
      (if ?callers = [] then Some (S_OK, p, s)
       else do {
         (skip, is, s) \<leftarrow> (if ai_name assembly \<noteq> hosting then do {
             (is, s) \<leftarrow> FilterIntegrationsByTarget md ?callers s; Some (is = [], is, s) }
           else Some (False, ?callers, s));
         if skip then Some (S_OK, p, s)
         else (let (hr, p) = store_module md assembly k is p s in Some (hr, p, s)) })"
  proof -
    have "\<not> list_ex (\<lambda>skip_assembly. ai_name assembly = skip_assembly) skip_assemblies" using assms(7) by (auto simp: list_ex_iff)
    moreover have "mi_assembly (GetModuleInfo info s k) = assembly" "ModuleInfo_IsValid (GetModuleInfo info s k)"
        "\<not> IsWindowsRuntime (GetModuleInfo info s k)"
      using assms(4-6) by (simp_all add: ModuleInfo_IsValid_def IsWindowsRuntime_def)
    ultimately show ?thesis using assms(1-3,8,9) by (simp add: ModuleLoadFinished_def Let_def cong: if_cong)
  qed
  have store: "store_module md assembly k fs p t = (S_OK, p\<lparr>module_id_to_info_map := (module_id_to_info_map p)(k \<mapsto>
      ModuleMetadata_init md (ai_name assembly) (app_domain_id assembly) mvid fs)\<rparr>)" if "P t" for t fs
    using assms(12) [OF that] by (simp add: store_module_def)
  obtain s1 where s1: "P s1" "FilterIntegrationsByTarget md ?callers s = Some (?kept, s1)"
    using filter_by_target_spec [OF assms(10,11), of "GetAssemblyImportMetadata md s" ?callers "[]"]
    by (auto simp: FilterIntegrationsByTarget_def)
  show ?thesis
    using assms(11) s1 by (cases "ai_name assembly = hosting"; cases "?callers = []"; cases "?kept = []")
      (auto simp: start split store)
qed


theorem ModuleLoadFinished_stores_witness:
  "\<exists>s'. ModuleLoadFinished process_info 5 S_OK (loaded_profiler\<lparr>corlib_module_loaded := True\<rparr>) 0 = Some (S_OK,
     loaded_profiler\<lparr>corlib_module_loaded := True, module_id_to_info_map := [5 \<mapsto> stored_module]\<rparr>, s')"
proof -
  let ?p = "loaded_profiler\<lparr>corlib_module_loaded := True\<rparr>"
  let ?a = "\<lparr>ai_id = 3, ai_name = W ''App'', manifest_module_id = 5, app_domain_id = 1, app_domain_name = W ''Default''\<rparr>"
  have i: "GetModuleInfo process_info 0 5 = \<lparr>mi_id = 5, mi_path = W ''App.dll'', mi_assembly = ?a, mi_flags = 0\<rparr>"
    by (simp add: GetModuleInfo_def GetAssemblyInfo_def process_info_def sample_info_def)
  have n: "W ''App'' \<notin> set skip_assemblies" "W ''App'' \<noteq> hosting" by code_simp+
  have p: "is_attached_flag ?p" "integrations ?p = [sample_enabled]" "module_id_to_info_map ?p = Map.empty"
    by (simp_all add: loaded_profiler_def attached_profiler_def CorProfiler_init_def)
  have "pi_GetModuleMetaData process_info 0 5 = (S_OK, sample_interfaces)" "GetModuleFromScope sample_interfaces 0 = (S_OK, 1)"
      "GetScopeProps sample_interfaces 0 = (S_OK, 0)"
    by (simp_all add: process_info_def sample_interfaces_def metadata.extend_def)
  note s = ModuleLoadFinished_stores [OF p(1) _ _ i _ _ _ this(1) _ sample_interfaces_refer, of S_OK 1 0, simplified p(2), simplified n this(2,3)]
  have "filter (applies ?a (GetAssemblyImportMetadata sample_interfaces 0 #
      map (GetReferencedAssemblyMetadata sample_interfaces 0) [0x23000001])) (FlattenIntegrations [sample_enabled]) = [sample_method]"
  proof -
    have "required_version (replacement sample_method) (GetAssemblyImportMetadata sample_interfaces 0)"
      by (simp add: sample_method_def sample_replacement_A_def sample_reference_in_def required_version_def version_number_def
        sample_interfaces_def metadata.extend_def sample_metadata_def GetAssemblyImportMetadata_def MethodReference_nil_def
        AssemblyReference_nil_def Version_nil_def)
    moreover have "FlattenIntegrations [sample_enabled] = [sample_method]" by code_simp
    ultimately show ?thesis
      by (simp add: applies_def sample_method_def sample_replacement_A_def sample_reference_in_def MethodReference_nil_def
        AssemblyReference_nil_def)
  qed
  with s n(1) p(3) show ?thesis by (auto simp: stored_module_def)
qed

section \<open>What unloading a module forgets\<close>

text \<open>What is known of the managed assembly in a domain where nothing was known when the run began.\<close>

definition forgotten_inv :: "'s jit_context \<Rightarrow> u64 \<Rightarrow> (event \<times> 's CorProfiler \<times> 's) list \<Rightarrow> 's CorProfiler \<times> 's \<Rightarrow> bool" where
  "forgotten_inv c domain tr st \<longleftrightarrow>
     (ProfilerAssemblyIsLoadedIntoAppDomain (fst st) domain \<longrightarrow> (\<exists>h \<in> set tr. \<exists>other. managed_load c h other))"

interpretation forgotten_history: history_invariant "callback c" "forgotten_inv c domain" for c domain
proof
  fix e st st' tr
  assume a: "callback c e st st'" "forgotten_inv c domain tr st"
  obtain p s p' s' where st: "st = (p, s)" "st' = (p', s')" by (cases st; cases st')
  from callback_loads [OF a(1) [unfolded st]] a(2) show "forgotten_inv c domain (tr @ [(e, st)]) st'"
    by (auto simp: forgotten_inv_def st ProfilerAssemblyIsLoadedIntoAppDomain_def)
qed

text \<open>
  C26. Unloading any module whose metadata is kept makes the profiler forget that the managed
  assembly is loaded in the domain of that module, although the unloaded module is not the managed
  assembly: unless that one is domain-neutral, no call in any module of the domain is redirected
  into it any more, until the runtime reports it loaded again.
\<close>

theorem unload_forgets_domain:
  assumes "module_id_to_info_map p k = Some gone" "\<not> managed_profiler_loaded_domain_neutral p"
    "run (callback c) (snd (ModuleUnloadStarted k p), s) tr (q, t)" "\<not> (\<exists>h \<in> set tr. \<exists>other. managed_load c h other)"
    "mm_app_domain_id m = mm_app_domain_id gone" "ar_name (mr_assembly (wrapper_method r)) = managed_assembly"
  shows "\<not> ProfilerAssemblyIsLoadedIntoAppDomain q (mm_app_domain_id m) \<and>
    check_call d info q module_id r arg m s2 \<noteq> Some (Match target ref def, m', s3)"
proof -
  have "\<not> ProfilerAssemblyIsLoadedIntoAppDomain (snd (ModuleUnloadStarted k p)) (mm_app_domain_id m)"
    using assms(1,2,5) by (simp add: ModuleUnloadStarted_def ProfilerAssemblyIsLoadedIntoAppDomain_def)
  then have "forgotten_inv c (mm_app_domain_id m) tr (q, t)"
    using forgotten_history.run_keeps [OF assms(3)] by (simp add: forgotten_inv_def)
  with assms(4) have "\<not> ProfilerAssemblyIsLoadedIntoAppDomain q (mm_app_domain_id m)" by (simp add: forgotten_inv_def)
  moreover from this have "check_call d info q module_id r arg m s2 \<noteq> Some (Match target ref def, m', s3)"
    using check_call_loaded [OF _ assms(6), of d info q module_id arg m s2 target ref "def" m' s3] by blast
  ultimately show ?thesis ..
qed

text \<open>Modules 5 and 6 in one domain; a call in the one is redirected until the other is unloaded.\<close>

theorem unload_forgets_domain_witness:
  "\<exists>p. module_id_to_info_map p = [5 \<mapsto> cached_module, 6 \<mapsto> stored_module] \<and>
     check_call 6 sample_info p 5 sample_replacement 0x0a000001 cached_module 0 = Some (Match sample_target 0x0a000007 0x0a000001, cached_module, 0) \<and>
     check_call 6 sample_info (snd (ModuleUnloadStarted 6 p)) 5 sample_replacement 0x0a000001 cached_module 0 \<noteq>
       Some (Match sample_target 0x0a000007 0x0a000001, cached_module, 0)"
proof -
  let ?p = "loaded_profiler\<lparr>module_id_to_info_map := [5 \<mapsto> cached_module, 6 \<mapsto> stored_module]\<rparr>"
  have n: "\<not> managed_profiler_loaded_domain_neutral ?p"
    by (simp add: loaded_profiler_def attached_profiler_def CorProfiler_init_def)
  have d: "mm_app_domain_id cached_module = mm_app_domain_id stored_module"
    by (simp add: cached_module_def SetWrapperMemberRef_def sample_module_def stored_module_def ModuleMetadata_init_def)
  have w: "ar_name (mr_assembly (wrapper_method sample_replacement)) = managed_assembly" by (simp add: sample_replacement_def)
  have "check_call 6 sample_info (snd (ModuleUnloadStarted 6 ?p)) 5 sample_replacement 0x0a000001 cached_module 0 \<noteq>
      Some (Match sample_target 0x0a000007 0x0a000001, cached_module, 0)"
    using unload_forgets_domain [of ?p 6 stored_module process_context 0 "[]", OF _ n run.start _ d w] by simp
  moreover have "check_call 6 sample_info ?p 5 sample_replacement 0x0a000001 cached_module 0 =
      Some (Match sample_target 0x0a000007 0x0a000001, cached_module, 0)"
    by (rule sample_check_in) (simp_all add: ProfilerAssemblyIsLoadedIntoAppDomain_def
      loaded_profiler_def attached_profiler_def CorProfiler_init_def)
  ultimately show ?thesis by (intro exI [of _ ?p]) simp
qed

end
