(* ===== verification/First_Compilation.thy ===== *)
theory First_Compilation
  imports Rewritten_Bodies Profiler_Contracts
begin

text \<open>
  The first compilation in an application domain: the startup hook and the replacement of calls
  rewrite the same method, one behind the other. The runtime gives back the body it was handed last;
  the two rewritings compose, from the callback down to the body.
\<close>

section \<open>Rewriting does not look at labels\<close>

text \<open>
  An instruction as it comes back: a short branch may have become a long one, and labels are those
  of the new list. Instructions that have been put in are as they are.
\<close>

definition same_instr :: "addr list \<Rightarrow> addr list \<Rightarrow> opcode \<times> operand \<Rightarrow> opcode \<times> operand \<Rightarrow> bool" where
  "same_instr xs zs i j \<longleftrightarrow> j = i \<or> operand_ok i \<and> (\<exists>i'. widened i i' \<and> j = relabel xs zs (plain i'))"

lemma same_instr_refl [simp]: "same_instr xs zs i i"
  by (simp add: same_instr_def)

lemma same_instr_call:
  assumes "same_instr xs zs i j" "fst i = CEE_CALL \<or> fst i = CEE_CALLVIRT \<or> fst j = CEE_CALL \<or> fst j = CEE_CALLVIRT"
  shows "j = i"
proof (cases "j = i")
  case False
  then obtain i' where w: "operand_ok i" "widened i i'" "j = relabel xs zs (plain i')" using assms(1) by (auto simp: same_instr_def)
  have flags: "op_flags CEE_CALL = 4" "op_flags CEE_CALLVIRT = 4" "operand_size CEE_CALL = 4" "operand_size CEE_CALLVIRT = 4"
    by code_simp+
  have j: "fst j = fst i'" by (simp add: w(3) relabel_def)
  have "i' = i"
    using w(1,2) assms(2) j flags long_branch_flags(1) [of "fst i"] by (auto simp: widened_def operand_ok_def)
  then show ?thesis
    using w(1,3) assms(2) j flags by (cases i; cases "snd i") (auto simp: relabel_def plain_def operand_ok_def)
qed

lemma rewritten_same:
  "rewritten dec is ms modified = Some (js, r) \<Longrightarrow> list_all2 (same_instr xs zs) is is2 \<Longrightarrow>
   \<exists>js2. rewritten dec is2 ms modified = Some (js2, r) \<and> list_all2 (same_instr xs zs) js js2"
proof (induction dec "is" ms modified arbitrary: js is2 rule: rewritten.induct)
  case (2 dec op x "is" ms modified)
  from "2.prems"(2) obtain i2 is2' where is2: "is2 = i2 # is2'" "same_instr xs zs (op, x) i2" "list_all2 (same_instr xs zs) is is2'"
    by (auto simp: list_all2_Cons1)
  show ?case
  proof (cases "op \<noteq> CEE_CALL \<and> op \<noteq> CEE_CALLVIRT")
    case True
    then have "fst i2 \<noteq> CEE_CALL \<and> fst i2 \<noteq> CEE_CALLVIRT" using same_instr_call [OF is2(2)] by auto
    moreover obtain js' where "rewritten dec is ms modified = Some (js', r)" "js = (op, x) # js'"
      using "2.prems"(1) True by (auto split: bind_splits)
    moreover obtain js2 where "rewritten dec is2' ms modified = Some (js2, r)" "list_all2 (same_instr xs zs) js' js2"
      using "2.IH"(1) [OF True calculation(2) is2(3)] by blast
    ultimately show ?thesis using is2(1,2) by (cases i2) auto
  next
    case False
    then have i2: "i2 = (op, x)" using same_instr_call [OF is2(2)] by auto
    obtain arg code ms' where d: "m_Arg32 x = Some arg" "dec op arg ms = Some (code, ms')"
      using "2.prems"(1) False by (auto split: bind_splits)
    show ?thesis
    proof (cases code)
      case None
      then obtain js' where "rewritten dec is ms' modified = Some (js', r)" "js = (op, x) # js'"
        using "2.prems"(1) False d by (auto split: bind_splits)
      moreover obtain js2 where "rewritten dec is2' ms' modified = Some (js2, r)" "list_all2 (same_instr xs zs) js' js2"
        using "2.IH"(2) [OF False d refl None calculation(1) is2(3)] by blast
      ultimately show ?thesis using is2(1) i2 False d None by (auto split: bind_splits)
    next
      case (Some new)
      then obtain i is' js' where n: "is = i # is'" "rewritten dec is' ms' True = Some (js', r)"
          "js = (CEE_NOP, x) # new @ i # js'"
        using "2.prems"(1) False d by (auto split: bind_splits list.splits)
      then obtain j is2'' where j: "is2' = j # is2''" "same_instr xs zs i j" "list_all2 (same_instr xs zs) is' is2''"
        using is2(3) by (auto simp: list_all2_Cons1)
      obtain js2 where "rewritten dec is2'' ms' True = Some (js2, r)" "list_all2 (same_instr xs zs) js' js2"
        using "2.IH"(3) [OF False d refl Some n(1,2) j(3)] by blast
      then show ?thesis
        using is2(1) i2 False d Some n(3) j(1,2) by (auto split: bind_splits intro!: list_all2_appendI list.rel_refl)
    qed
  qed
qed simp

lemma rewritten_all_same:
  "rewritten_all d info p behind mvid_ptr module_id rs is modified m s = Some (js, r) \<Longrightarrow> list_all2 (same_instr xs zs) is is2 \<Longrightarrow>
   \<exists>js2. rewritten_all d info p behind mvid_ptr module_id rs is2 modified m s = Some (js2, r) \<and> list_all2 (same_instr xs zs) js js2"
proof (induction rs arbitrary: "is" is2 modified m s)
  case (Cons q rs)
  show ?case
  proof (cases "action (wrapper_method q) \<noteq> W ''ReplaceTargetMethod'' \<or>
      IsFailedWrapperMemberKey m (get_method_cache_key (wrapper_method q))")
    case True
    then show ?thesis using Cons.IH [OF _ Cons.prems(2)] Cons.prems(1) by auto
  next
    case False
    then obtain is1 modified1 m1 s1 where o: "rewritten (decide d info p behind mvid_ptr module_id q) is (m, s) modified =
          Some (is1, modified1, m1, s1)"
        "rewritten_all d info p behind mvid_ptr module_id rs is1 modified1 m1 s1 = Some (js, r)"
      using Cons.prems(1) by (auto split: bind_splits)
    obtain is3 where "rewritten (decide d info p behind mvid_ptr module_id q) is2 (m, s) modified = Some (is3, modified1, m1, s1)"
        "list_all2 (same_instr xs zs) is1 is3"
      using rewritten_same [OF o(1) Cons.prems(2)] by blast
    with Cons.IH [OF o(2)] False show ?thesis by auto
  qed
qed simp

section \<open>Taking a body back\<close>

lemma handed_over_imported:
  assumes r: "reads_back body cs is ehs sig flags" and g: "pi_GetILFunctionBody info s module_id tk = (S_OK, base, body)"
    and base: "base AND 3 = 0" and len: "length is = length cs"
  obtains rw zs raws ehs' where "rewriter_Import info s module_id tk = Some (S_OK, rw)" "il_list rw zs" "length zs = length cs"
    "valid_body base body raws ehs'" "imported (code_length base body) raws zs = map (relabel cs zs \<circ> plain) is"
    "m_pEH rw = map (relabel_clause cs zs) ehs" "m_tkLocalVarSig rw = sig" "m_flags rw = flags AND CorILMethod_InitLocals"
proof -
  have "il_list (ILRewriter_init False module_id tk) []" "m_pEH (ILRewriter_init False module_id tk) = []"
    by (simp_all add: ILRewriter_init_il_list) (simp add: ILRewriter_init_def)
  with r base obtain zs rw where rw: "Import S_OK base body (ILRewriter_init False module_id tk) = Some (S_OK, rw)"
      "program_at rw zs (map (relabel cs zs \<circ> plain) is)" "m_pEH rw = map (relabel_clause cs zs) ehs"
      "m_tkLocalVarSig rw = sig" "m_flags rw = flags AND CorILMethod_InitLocals"
    unfolding reads_back_def by blast
  from r base obtain raws ehs' where v: "valid_body base body raws ehs'" "code_length base body = code_size is"
      "\<And>zs. length zs = length cs \<Longrightarrow> imported (code_size is) raws zs = map (relabel cs zs \<circ> plain) is"
    unfolding reads_back_def decodes_to_def by blast
  have "rewriter_Import info s module_id tk = Some (S_OK, rw)" using rw(1) g by (simp add: rewriter_Import_def)
  moreover have l: "il_list rw zs" "length zs = length cs"
    using rw(2) program_at_length [OF rw(2)] len by (simp_all add: program_at_def)
  moreover have "imported (code_length base body) raws zs = map (relabel cs zs \<circ> plain) is"
    using v(2) v(3) [OF l(2)] by simp
  ultimately show thesis using that rw(3-5) v(1) by metis
qed

lemma replacements_only:
  "list_all (\<lambda>r. action (wrapper_method r) = W ''ReplaceTargetMethod'') rs \<Longrightarrow> inserted_refs info module_id rs m s = Some ([], m, s)"
  by (induction rs) simp_all

section \<open>A runtime that remembers\<close>

text \<open>The last body of the method is kept in the state, as a number.\<close>

fun body_number :: "byte list \<Rightarrow> nat" where
  "body_number [] = 0"
| "body_number (b # bs) = 256 * body_number bs + unat b + 1"

fun number_body :: "nat \<Rightarrow> byte list" where
  "number_body n = (if n = 0 then [] else word_of_nat ((n - 1) mod 256) # number_body ((n - 1) div 256))"

lemma number_body_number [simp]: "number_body (body_number bs) = bs"
proof (induction bs)
  case (Cons b bs)
  have "unat b < 256" using unsigned_less [of b] by simp
  then show ?case using Cons by simp
qed simp

definition remembering_info :: "nat profiler_info" where
  "remembering_info = sample_info
     \<lparr>pi_GetILFunctionBody := (\<lambda>s m t. (S_OK, 0, if even s then two_calls_body else number_body (s div 2))),
      pi_SetILFunctionBody := (\<lambda>m t b s. (S_OK, if t = 0x06000001 then Suc (2 * body_number b) else s))\<rparr>"

definition replacing_module :: "nat ModuleMetadata" where
  "replacing_module = cached_module
     \<lparr>mm_integrations := [\<lparr>im_integration_name = W ''A'', replacement = sample_replacement\<rparr>]\<rparr>"

definition compiling_profiler :: "nat CorProfiler" where
  "compiling_profiler = sample_profiler\<lparr>is_attached_flag := True, module_id_to_info_map := [5 \<mapsto> replacing_module]\<rparr>"

definition compiling_context :: "nat jit_context" where
  "compiling_context = \<lparr>jc_bit64 = True, jc_env = Windows (\<lambda>_ _. (0, [])), jc_info = remembering_info, jc_depth = 6,
     jc_behind = [0], jc_mvid_ptr = (\<lambda>_. 0x1000)\<rparr>"

lemma remembering:
  "snd (hand_over remembering_info 5 0x06000001 b s) = Suc (2 * body_number b)"
  "pi_GetILFunctionBody remembering_info (Suc (2 * body_number b)) 5 0x06000001 = (S_OK, 0, b)"
  "pi_GetILFunctionBody remembering_info 0 5 0x06000001 = (S_OK, 0, two_calls_body)"
  "\<not> FAILED (pi_GetILFunctionBodyAllocator remembering_info s 5)" "pi_Alloc remembering_info s"
  "pi_GetFunctionInfo remembering_info 0 1 = (S_OK, 5, 0x06000001)" "\<not> FAILED S_OK"
  by (simp_all add: remembering_info_def sample_info_def hand_over_def FAILED_def del: number_body.simps)

lemma replacing_module_cached: "sample_cached replacing_module" "IsFailedWrapperMemberKey replacing_module k \<longleftrightarrow> False"
  using cached_module_cached
  by (simp_all add: replacing_module_def sample_cached_def TryGetWrapperMemberRef_def)
    (simp add: cached_module_def sample_module_def ModuleMetadata_init_def IsFailedWrapperMemberKey_def SetWrapperMemberRef_def)

lemma remembering_generate: "GenerateVoidILStartupMethod True (Windows (\<lambda>_ _. (0, []))) remembering_info 5 0 = Some (Inr 0x06000005, 0)"
proof -
  have "pi_GetModuleMetaData remembering_info 0 5 = (S_OK, sample_interfaces)" "m_pEH startup_rewriter = []" "il_list startup_rewriter []"
    by (simp_all add: remembering_info_def sample_info_def startup_rewriter_def ILRewriter_init_il_list) (simp add: ILRewriter_init_def)
  from GenerateVoid_body [OF this(1) _ sample_define remembering(4,5) this(3,2), of 0]
  show ?thesis by (auto simp: remembering_info_def sample_tokens_def FAILED_def)
qed

lemma startup_call_kept:
  "decide 6 info p behind ptr module_id sample_replacement CEE_CALL 0x06000005 (replacing_module, s) =
   Some (None, replacing_module, s)"
proof -
  have md: "mm_metadata replacing_module = sample_interfaces" using replacing_module_cached(1) by (simp add: sample_cached_def)
  obtain target where t: "GetFunctionInfo 6 sample_interfaces s 0x06000005 = Some target" "fi_name target = W ''Run''"
  proof
    show "GetFunctionInfo 6 sample_interfaces s 0x06000005 = Some \<lparr>fi_id = 0x06000005, fi_name = W ''Run'',
     fi_type = \<lparr>ti_id = 0x02000002, ti_name = W ''App.Program''\<rparr>, is_generic = False, fi_signature = [0, 0, 1],
     function_spec_signature = [], method_def_id = 0\<rparr>"
      by code_simp
  qed simp
  have "method_name (target_method sample_replacement) \<noteq> W ''Run''"
    by code_simp
  then have "check_call 6 info p module_id sample_replacement 0x06000005 replacing_module s = Some (Skip, replacing_module, s)"
    using t by (simp add: check_call_def md Let_def)
  then show ?thesis by (simp add: decide_def)
qed

lemma remembering_rewritten:
  fixes p :: "nat CorProfiler"
  assumes "ProfilerAssemblyIsLoadedIntoAppDomain p 1" "\<not> corlib_module_loaded p"
  shows "rewritten_all 6 info p [0] 0x1000 5 [sample_replacement] ((CEE_CALL, arg32 0x06000005) # sample_instrs) False replacing_module s =
    Some ((CEE_CALL, arg32 0x06000005) # (CEE_NOP, Bits 0x0a000001) # wrapper_call CEE_CALL [] 0x0a000007 0x0a000001 0x1000 (Some 0x01000009) @
     [(CEE_CALL, Bits 0x0a000001), (CEE_RET, Bits 0)], True, replacing_module, s)"
proof -
  have "action (wrapper_method sample_replacement) = W ''ReplaceTargetMethod''" by (simp add: sample_replacement_def)
  then show ?thesis
    by (simp add: replacing_module_cached(2) sample_instrs_def arg32_def startup_call_kept
      sample_decide_at [OF replacing_module_cached(1) assms])
qed

section \<open>Contracts\<close>

text \<open>If nothing is to be replaced nothing is handed over.\<close>

lemma nothing_replaced:
  assumes "rewriter_Import info s module_id tk = Some (S_OK, rw)" "il_list rw xs" "map (instr_code rw) xs = map Some is"
    and "rewritten_all d info p behind mvid_ptr module_id rs is False m s = Some (js, False, m', s')"
  shows "ProcessReplacementCalls d info p behind mvid_ptr module_id tk rs m s = Some (S_OK, m', s')"
proof -
  obtain rw' where "all_replacements d info p behind mvid_ptr module_id rs False m s rw = Some (False, m', s', rw')"
    using all_replacements_refines [OF assms(4,2,3)] by blast
  with assms(1) show ?thesis by (simp add: ProcessReplacementCalls_def FAILED_def)
qed

text \<open>
  C2. The first compilation of a method of a kept module in an application domain. The module is
  not Microsoft.AspNetCore.Hosting, where only the hook is run, and there are integrations for the
  method, whose wrappers all are to replace their targets (none has the action InsertFirst: what
  those do is in C20). The startup method has been generated, the runtime has given a valid body
  and gives back what it was handed. Then JITCompilationStarted first hands over, under the token
  of the method, a valid body that is read as the call of the startup method followed by the
  decoded program. If a function on instruction sequences says that nothing is to be replaced in
  it, that is all. Otherwise a second body is handed over: it is valid, and an importer reads it
  as what this function makes of the first, but that short branches may have become
  long; branches and exception clauses lead to the same instructions as before.
\<close>

theorem first_compilation_rewrites:
  fixes c :: "'s jit_context" and p :: "'s CorProfiler"
  defines "info \<equiv> jc_info c"
  assumes attached: "is_attached_flag p" and fn: "pi_GetFunctionInfo info s function_id = (hr0, module_id, tk)" "\<not> FAILED hr0"
    and kept: "module_id_to_info_map p module_id = Some m" "mm_assemblyName m \<noteq> hosting"
      "mm_app_domain_id m \<notin> first_jit_compilation_app_domains p"
    and caller: "GetFunctionInfo (jc_depth c) (mm_metadata m) s tk = Some caller" "FunctionInfo_IsValid caller"
    and rs: "GetMethodReplacementsForCaller m caller = rs" "rs \<noteq> []"
      "list_all (\<lambda>r. action (wrapper_method r) = W ''ReplaceTargetMethod'') rs"
    and startup: "GenerateVoidILStartupMethod (jc_bit64 c) (jc_env c) info module_id s = Some (Inr startup, s1)"
    and body: "pi_GetILFunctionBody info s1 module_id tk = (S_OK, base, body)" "valid_body base body raws ehs"
    and rw: "rewriter_Import info s1 module_id tk = Some (S_OK, rw)" "il_list rw xs"
    and remembers: "\<And>b. pi_GetILFunctionBody info (snd (hand_over info module_id tk b s1)) module_id tk = (S_OK, base', b)"
      "base' AND 3 = 0"
    and memory: "\<And>s. \<not> FAILED (pi_GetILFunctionBodyAllocator info s module_id)" "\<And>s. pi_Alloc info s"
    and replaced: "\<And>b. rewritten_all (jc_depth c) info
        (p\<lparr>first_jit_compilation_app_domains := insert (mm_app_domain_id m) (first_jit_compilation_app_domains p)\<rparr>)
        (jc_behind c) (jc_mvid_ptr c module_id) module_id rs
        ((CEE_CALL, arg32 startup) # imported (code_length base body) raws xs) False m (snd (hand_over info module_id tk b s1)) =
      Some (js, modified, m', s2 b)"
    and size: "10 * (1 + length raws) + 12 < 2 ^ 32" "10 * length js + 12 < 2 ^ 32"
  shows "\<exists>n b1 is1. list_all2 widened ((CEE_CALL, arg32 startup) # imported (code_length base body) raws xs) is1 \<and>
    reads_back b1 (n # xs) is1 (m_pEH rw) (m_tkLocalVarSig rw) (m_flags rw) \<and>
    (let p' = p\<lparr>first_jit_compilation_app_domains := insert (mm_app_domain_id m) (first_jit_compilation_app_domains p),
        module_id_to_info_map := (module_id_to_info_map p)(module_id \<mapsto> m')\<rparr> in
     if modified
     then \<exists>zs b2 js1 js2 cs.
       JITCompilationStarted c function_id True p s = Some (S_OK, p', snd (hand_over info module_id tk b2 (s2 b1))) \<and>
       list_all2 (same_instr (n # xs) zs) js js1 \<and> list_all2 widened js1 js2 \<and> subseq zs cs \<and> length zs = length (n # xs) \<and>
       reads_back b2 cs js2 (map (relabel_clause (n # xs) zs) (m_pEH rw)) (m_tkLocalVarSig rw) (m_flags rw AND CorILMethod_InitLocals)
     else JITCompilationStarted c function_id True p s = Some (S_OK, p', s2 b1))"
proof -
  let ?is = "(CEE_CALL, arg32 startup) # imported (code_length base body) raws xs"
  let ?p = "p\<lparr>first_jit_compilation_app_domains := insert (mm_app_domain_id m) (first_jit_compilation_app_domains p)\<rparr>"
  have ok: "\<not> FAILED S_OK" by (simp add: FAILED_def)
  have map: "(module_id_to_info_map p)(module_id \<mapsto> m) = module_id_to_info_map p" using kept(1) by (rule map_upd_triv)
  obtain n b1 is1 where hook: "RunILStartupHook (jc_bit64 c) (jc_env c) info module_id tk s =
        Some (S_OK, snd (hand_over info module_id tk b1 s1))" "list_all2 widened ?is is1"
      "reads_back b1 (n # xs) is1 (m_pEH rw) (m_tkLocalVarSig rw) (m_flags rw)"
    using hooked_body_exported [OF startup body(1) ok body(2) rw size(1)] memory by (auto simp: export_result_def)
  let ?s = "snd (hand_over info module_id tk b1 s1)"
  have len: "length is1 = length (n # xs)"
    using list_all2_lengthD [OF hook(2)] rewriter_Import_valid_cells(1) [OF body(1) ok body(2) rw] by (simp add: imported_def)
  obtain rw1 zs raws1 ehs1 where i: "rewriter_Import info ?s module_id tk = Some (S_OK, rw1)" "il_list rw1 zs"
      "length zs = length (n # xs)" "valid_body base' b1 raws1 ehs1"
      "imported (code_length base' b1) raws1 zs = map (relabel (n # xs) zs \<circ> plain) is1"
      "m_pEH rw1 = map (relabel_clause (n # xs) zs) (m_pEH rw)" "m_tkLocalVarSig rw1 = m_tkLocalVarSig rw"
      "m_flags rw1 = m_flags rw AND CorILMethod_InitLocals"
    by (rule handed_over_imported [OF hook(3) remembers len])
  have "list_all operand_ok ?is"
  proof -
    have "body_ok xs (imported (code_length base body) raws xs) (m_pEH rw)"
      using rewriter_Import_valid_body [OF body(1) ok body(2)] rw GetILList_il_list [OF rw(2)] GetILList_il_list by fastforce
    then show ?thesis using calls_inserted [of "[startup]"] by (simp add: body_ok_def calls_of_def inserted_def)
  qed
  then have "list_all2 (same_instr (n # xs) zs) ?is (imported (code_length base' b1) raws1 zs)"
    using hook(2) unfolding i(5)
    by (auto simp: list_all2_conv_all_nth list_all_length same_instr_def simp del: split_paired_Ex)
  from rewritten_all_same [OF replaced this] obtain js1 where r: "rewritten_all (jc_depth c) info ?p (jc_behind c)
        (jc_mvid_ptr c module_id) module_id rs (imported (code_length base' b1) raws1 zs) False m ?s = Some (js1, modified, m', s2 b1)"
      "list_all2 (same_instr (n # xs) zs) js js1" by blast
  have ins: "ProcessInsertionCalls info module_id tk rs m ?s = Some (S_OK, m, ?s)"
    using ProcessInsertionCalls_prepends [OF i(1) ok i(2) rewriter_Import_valid_cells(2) [OF remembers(1) ok i(4,1,2)]
        replacements_only [OF rs(3)]] by auto
  have jit: "JITCompilationStarted c function_id True p s =
      Some (S_OK, ?p\<lparr>module_id_to_info_map := (module_id_to_info_map p)(module_id \<mapsto> m')\<rparr>, s')"
    if "ProcessReplacementCalls (jc_depth c) info ?p (jc_behind c) (jc_mvid_ptr c module_id) module_id tk rs m ?s = Some (S_OK, m', s')" for s'
  proof -
    have "instrument_caller c module_id tk caller m ?p ?s =
        Some (S_OK, ?p\<lparr>module_id_to_info_map := (module_id_to_info_map p)(module_id \<mapsto> m')\<rparr>, s')"
      using kept(1,2) rs(1,2) ins that ok by (simp add: instrument_caller_def info_def map)
    then show ?thesis
      using attached fn kept(1,3) caller hook(1) ok by (simp add: JITCompilationStarted_def info_def)
  qed
  show ?thesis
  proof (cases modified)
    case True
    have "10 * length js1 + 12 < 2 ^ 32" using size(2) list_all2_lengthD [OF r(2)] by simp
    from replaced_body_exported [OF remembers(1) ok i(4,1,2) r(1) [unfolded eqTrueI [OF True]] this memory] obtain b2 js2 cs where
      repl: "ProcessReplacementCalls (jc_depth c) info ?p (jc_behind c) (jc_mvid_ptr c module_id) module_id tk rs m ?s =
          Some (S_OK, m', snd (hand_over info module_id tk b2 (s2 b1)))"
        "subseq zs cs" "list_all2 widened js1 js2" "reads_back b2 cs js2 (m_pEH rw1) (m_tkLocalVarSig rw1) (m_flags rw1)"
      by blast
    from jit [OF repl(1)] r(2) repl(2,3) repl(4) [unfolded i(6-8)] i(3) have "\<exists>zs b2 js1 js2 cs.
       JITCompilationStarted c function_id True p s = Some (S_OK,
         ?p\<lparr>module_id_to_info_map := (module_id_to_info_map p)(module_id \<mapsto> m')\<rparr>, snd (hand_over info module_id tk b2 (s2 b1))) \<and>
       list_all2 (same_instr (n # xs) zs) js js1 \<and> list_all2 widened js1 js2 \<and> subseq zs cs \<and> length zs = length (n # xs) \<and>
       reads_back b2 cs js2 (map (relabel_clause (n # xs) zs) (m_pEH rw)) (m_tkLocalVarSig rw) (m_flags rw AND CorILMethod_InitLocals)"
      by blast
    with hook(2,3) show ?thesis using True by (intro exI [of _ n] exI [of _ b1] exI [of _ is1]) (simp add: Let_def)
  next
    case False
    have "ProcessReplacementCalls (jc_depth c) info ?p (jc_behind c) (jc_mvid_ptr c module_id) module_id tk rs m ?s = Some (S_OK, m', s2 b1)"
      by (rule nothing_replaced [OF i(1,2) rewriter_Import_valid_cells(2) [OF remembers(1) ok i(4,1,2)]])
        (use r(1) False in simp)
    from jit [OF this] hook(2,3) False show ?thesis
      by (intro exI [of _ n] exI [of _ b1] exI [of _ is1]) (simp add: Let_def)
  qed
qed

theorem first_compilation_rewrites_witness:
  "\<exists>b ns zs cs js1 js2 ehs sig flags p'. JITCompilationStarted compiling_context 1 True compiling_profiler 0 =
      Some (S_OK, p', Suc (2 * body_number b)) \<and> first_jit_compilation_app_domains p' = {1} \<and>
    list_all2 (same_instr ns zs) ((CEE_CALL, arg32 0x06000005) # (CEE_NOP, Bits 0x0a000001) #
      wrapper_call CEE_CALL [] 0x0a000007 0x0a000001 0x1000 (Some 0x01000009) @
      [(CEE_CALL, Bits 0x0a000001), (CEE_RET, Bits 0)]) js1 \<and>
    list_all2 widened js1 js2 \<and> reads_back b cs js2 ehs sig flags"
proof -
  let ?p = "compiling_profiler" and ?m = "replacing_module"
  have c: "jc_info compiling_context = remembering_info" "jc_depth compiling_context = 6" "jc_bit64 compiling_context = True"
    "jc_env compiling_context = Windows (\<lambda>_ _. (0, []))" "jc_behind compiling_context = [0]"
    "jc_mvid_ptr compiling_context module_id = 0x1000" for module_id
    by (simp_all add: compiling_context_def)
  have m: "mm_metadata ?m = sample_interfaces" "mm_app_domain_id ?m = 1"
    using replacing_module_cached(1) by (simp_all add: sample_cached_def)
  have name: "mm_assemblyName ?m = W ''App''" "mm_integrations ?m = [\<lparr>im_integration_name = W ''A'', replacement = sample_replacement\<rparr>]"
    by (simp_all add: replacing_module_def cached_module_def SetWrapperMemberRef_def sample_module_def ModuleMetadata_init_def)
  have p: "is_attached_flag ?p" "module_id_to_info_map ?p 5 = Some ?m" "first_jit_compilation_app_domains ?p = {}"
    by (simp_all add: compiling_profiler_def sample_profiler_def CorProfiler_init_def)
  have hosting: "mm_assemblyName ?m \<noteq> hosting" unfolding name by code_simp
  obtain caller where caller: "GetFunctionInfo 6 sample_interfaces 0 0x06000001 = Some caller" "FunctionInfo_IsValid caller"
    using sample_caller by (simp add: FunctionInfo_IsValid_def)
  have rs: "GetMethodReplacementsForCaller ?m caller = [sample_replacement]"
    by (simp add: GetMethodReplacementsForCaller_def name sample_replacement_def MethodReference_nil_def)
  have only: "list_all (\<lambda>r. action (wrapper_method r) = W ''ReplaceTargetMethod'') [sample_replacement]"
    by (simp add: sample_replacement_def)
  obtain rw xs where rw: "rewriter_Import remembering_info 0 5 0x06000001 = Some (S_OK, rw)" "il_list rw xs"
    using rewriter_Import_valid_body [OF remembering(3,7) two_calls_valid(1)] by blast
  have loaded: "ProfilerAssemblyIsLoadedIntoAppDomain (?p\<lparr>first_jit_compilation_app_domains := D\<rparr>) 1"
      "\<not> corlib_module_loaded (?p\<lparr>first_jit_compilation_app_domains := D\<rparr>)" for D
    by (simp_all add: compiling_profiler_def sample_profiler_def CorProfiler_init_def ProfilerAssemblyIsLoadedIntoAppDomain_def)
  have get: "pi_GetILFunctionBody remembering_info (snd (hand_over remembering_info 5 0x06000001 b 0)) 5 0x06000001 = (S_OK, 0, b)" for b
    by (simp add: remembering(1,2))
  have size: "10 * (1 + length two_calls_raws) + 12 < 2 ^ 32" by (simp add: two_calls_raws_def)
  let ?js = "(CEE_CALL, arg32 0x06000005) # (CEE_NOP, Bits 0x0a000001) #
      wrapper_call CEE_CALL [] 0x0a000007 0x0a000001 0x1000 (Some 0x01000009) @ [(CEE_CALL, Bits 0x0a000001), (CEE_RET, Bits 0)]"
  have js: "rewritten_all 6 remembering_info (?p\<lparr>first_jit_compilation_app_domains := insert (mm_app_domain_id ?m) (first_jit_compilation_app_domains ?p)\<rparr>)
      [0] 0x1000 5 [sample_replacement] ((CEE_CALL, arg32 0x06000005) # imported (code_length 0 two_calls_body) two_calls_raws xs) False ?m
      (snd (hand_over remembering_info 5 0x06000001 b 0)) = Some (?js, True, ?m, snd (hand_over remembering_info 5 0x06000001 b 0))" for b
    unfolding two_calls_valid(2,3) by (rule remembering_rewritten [OF loaded])
  have zero: "(0 :: nat) AND 3 = 0" by simp
  have fresh: "mm_app_domain_id ?m \<notin> first_jit_compilation_app_domains ?p" by (simp add: p(3))
  have "10 * length ?js + 12 < 2 ^ 32" by (simp add: wrapper_call_def)
  from first_compilation_rewrites [where c = compiling_context, unfolded c, OF p(1) remembering(6,7) p(2) hosting fresh
      caller(1) [folded m(1)] caller(2) rs list.distinct(2) only remembering_generate remembering(3) two_calls_valid(1) rw get zero
      remembering(4,5) js size this]
  obtain n zs b1 b2 js1 js2 cs where
    "JITCompilationStarted compiling_context 1 True ?p 0 = Some (S_OK,
      ?p\<lparr>first_jit_compilation_app_domains := insert (mm_app_domain_id ?m) (first_jit_compilation_app_domains ?p),
        module_id_to_info_map := (module_id_to_info_map ?p)(5 \<mapsto> ?m)\<rparr>,
      snd (hand_over remembering_info 5 0x06000001 b2 (snd (hand_over remembering_info 5 0x06000001 b1 0))))"
    "list_all2 (same_instr (n # xs) zs) ?js js1" "list_all2 widened js1 js2"
    "reads_back b2 cs js2 (map (relabel_clause (n # xs) zs) (m_pEH rw)) (m_tkLocalVarSig rw) (m_flags rw AND CorILMethod_InitLocals)"
    unfolding Let_def if_True by blast
  then show ?thesis unfolding remembering(1) m(2) p(3) by (intro exI conjI) (assumption | simp)+
qed

end
