(* ===== verification/Isolation.thy ===== *)
theory Isolation
  imports Profiler_Contracts
begin

text \<open>
  What the profiler does not touch. A rewriter hands over a body only for the method it was made
  for; and whatever can be observed of the runtime but the bodies of the method that is compiled
  and of the generated startup method stays as it is in every callback, as long as the functions on
  metadata leave it alone.
\<close>

section \<open>A rewriter keeps its method\<close>

definition method_of :: "ILRewriter \<Rightarrow> u64 \<times> mdToken" where
  "method_of rw = (m_moduleId rw, m_tkMethod rw)"

lemma method_of_simps [simp]:
  "method_of (ILRewriter_init control module_id tk) = (module_id, tk)" "method_of (InitializeTiny rw) = method_of rw"
  "method_of (SetTkLocalVarSig t rw) = method_of rw"
  by (simp_all add: method_of_def ILRewriter_init_def InitializeTiny_def SetTkLocalVarSig_def)

lemma upd_instr_method: "upd_instr a f rw = Some rw' \<Longrightarrow> method_of rw' = method_of rw"
  by (auto simp: upd_instr_def set_instr_def method_of_def split: bind_splits)

lemma NewILInstr_method: "NewILInstr rw = (a, rw') \<Longrightarrow> method_of rw' = method_of rw"
  by (auto simp: NewILInstr_def method_of_def)

lemma AdjustState_method: "AdjustState a rw = Some rw' \<Longrightarrow> method_of rw' = method_of rw"
  by (auto simp: AdjustState_def method_of_def split: bind_splits)

lemma InsertBefore_method: "InsertBefore a b rw = Some rw' \<Longrightarrow> method_of rw' = method_of rw"
  by (auto simp: InsertBefore_def split: bind_splits dest!: upd_instr_method AdjustState_method)

lemma InsertAfter_method: "InsertAfter a b rw = Some rw' \<Longrightarrow> method_of rw' = method_of rw"
  by (auto simp: InsertAfter_def split: bind_splits dest!: upd_instr_method AdjustState_method)

lemma emit_method: "emit a i rw = Some (w, rw') \<Longrightarrow> method_of rw' = method_of rw"
  by (auto simp: emit_def split: bind_splits prod.splits dest!: upd_instr_method InsertBefore_method NewILInstr_method)

lemma emit_all_method: "emit_all emit a is rw = Some (ws, rw') \<Longrightarrow> method_of rw' = method_of rw"
  by (induction "is" arbitrary: rw ws) (auto split: bind_splits dest!: emit_method)

lemma upd_operand_method: "upd_operand a f rw = Some rw' \<Longrightarrow> method_of rw' = method_of rw"
  by (auto simp: upd_operand_def split: bind_splits dest!: upd_instr_method)

lemma set_offset_instr_method: "set_offset_instr offset a rw = Some rw' \<Longrightarrow> method_of rw' = method_of rw"
  by (auto simp: set_offset_instr_def method_of_def split: if_split_asm)

lemmas instr_method = upd_instr_method NewILInstr_method InsertBefore_method InsertAfter_method emit_method upd_operand_method
  set_offset_instr_method

lemma insert_instr_method: "insert_instr opcode arg w = Some w' \<Longrightarrow> method_of (m_ILRewriter w') = method_of (m_ILRewriter w)"
  by (auto simp: insert_instr_def split: bind_splits dest!: emit_method)

lemma UnboxAnyAfter_method: "UnboxAnyAfter t w = Some w' \<Longrightarrow> method_of (m_ILRewriter w') = method_of (m_ILRewriter w)"
  by (auto simp: UnboxAnyAfter_def split: bind_splits prod.splits dest!: instr_method)

lemma emit_boxes_method: "emit_boxes ts w = Some w' \<Longrightarrow> method_of (m_ILRewriter w') = method_of (m_ILRewriter w)"
  by (induction ts arbitrary: w) (auto simp: Box_def split: bind_splits dest!: insert_instr_method)

lemma LoadInt32_method: "LoadInt32 v w = Some w' \<Longrightarrow> method_of (m_ILRewriter w') = method_of (m_ILRewriter w)"
  by (auto simp: LoadInt32_def split: if_split_asm dest!: insert_instr_method)

lemmas wrapper_method_of = insert_instr_method UnboxAnyAfter_method emit_boxes_method LoadInt32_method

lemma import_targets_method: "import_targets n p base offset rw = Some (hr, next, rw') \<Longrightarrow> method_of rw' = method_of rw"
  by (induction n arbitrary: offset rw) (auto split: if_split_asm bind_splits prod.splits dest!: instr_method)

lemma import_operand_method: "import_operand p flags a offset rw = Some (hr, next, br, rw') \<Longrightarrow> method_of rw' = method_of rw"
  by (auto simp: import_operand_def Let_def split: if_split_asm bind_splits dest!: upd_operand_method import_targets_method)

lemma import_loop_method: "import_loop n p offset br rw = Some (hr, br', rw') \<Longrightarrow> method_of rw' = method_of rw"
proof (induction n arbitrary: offset br rw)
  case (Suc n)
  from Suc.prems show ?case
    by (auto simp: import_loop.simps Let_def split: if_split_asm bind_splits sum.splits prod.splits
        dest!: Suc.IH import_operand_method instr_method)
qed (simp add: import_loop.simps)

lemma resolve_targets_method: "resolve_targets ps rw = Some rw' \<Longrightarrow> method_of rw' = method_of rw"
  by (induction ps arbitrary: rw) (auto split: if_split_asm bind_splits dest!: upd_instr_method)

lemma ImportIL_method: "ImportIL p rw = Some (hr, rw') \<Longrightarrow> method_of rw' = method_of rw"
proof -
  have "method_of (rw\<lparr>m_pOffsetToInstr := xs\<rparr>) = method_of rw" for xs by (simp add: method_of_def)
  then show "ImportIL p rw = Some (hr, rw') \<Longrightarrow> method_of rw' = method_of rw"
    by (auto simp: ImportIL_def split: if_split_asm bind_splits dest!: resolve_targets_method import_loop_method instr_method)
qed

lemma ImportEH_method: "ImportEH ehs rw = Some (hr, rw') \<Longrightarrow> method_of rw' = method_of rw"
  by (auto simp: ImportEH_def method_of_def Let_def split: if_split_asm bind_splits)

lemma rewriter_Import_method:
  assumes "rewriter_Import info s module_id tk = Some (hr, rw)"
  shows "method_of rw = (module_id, tk)"
proof -
  have "method_of (rw\<lparr>m_tkLocalVarSig := a, m_maxStack := b, m_flags := c, m_CodeSize := d\<rparr>) = method_of rw" for rw a b c d
    by (simp add: method_of_def)
  then show ?thesis
    using assms by (auto simp: rewriter_Import_def Import_def Let_def split: prod.splits if_split_asm bind_splits
        dest!: ImportIL_method ImportEH_method)
qed

lemma export_layout_method: "export_layout ps buf offset br rw = Some (buf', next, br', rw') \<Longrightarrow> method_of rw' = method_of rw"
  by (induction ps arbitrary: buf offset br rw) (auto split: bind_splits dest!: upd_instr_method)

lemma export_targets_method: "export_targets ps buf base again rw = Some (buf', again', rw') \<Longrightarrow> method_of rw' = method_of rw"
proof (induction ps arbitrary: buf base again rw)
  case (Cons p ps)
  from Cons.prems show ?case
    by (auto simp: Let_def split: if_split_asm bind_splits dest!: Cons.IH upd_instr_method)
qed simp

lemma export_again_method: "export_again n buf rw = Some (buf', sz, rw') \<Longrightarrow> method_of rw' = method_of rw"
proof (induction n arbitrary: buf rw)
  case (Suc n)
  from Suc.prems show ?case
    by (auto split: if_split_asm bind_splits dest!: Suc.IH export_layout_method export_targets_method upd_instr_method)
qed simp

lemma rewriter_Export_sets:
  assumes "rewriter_Export info rw s = Some (hr, s')"
  shows "s' = s \<or> (\<exists>body. s' = snd (pi_SetILFunctionBody info (fst (method_of rw)) (snd (method_of rw)) body s))"
proof -
  let ?env = "\<lparr>GetILFunctionBodyAllocator = pi_GetILFunctionBodyAllocator info s (m_moduleId rw), Alloc = pi_Alloc info s,
      SetILFunctionBody_rejit = (\<lambda>body. S_OK),
      SetILFunctionBody_info = (\<lambda>module_id token body. fst (pi_SetILFunctionBody info module_id token body s))\<rparr>"
  obtain body rw' where e: "Export (pi_memory info) (pi_padding info) ?env rw = Some (hr, body, rw')"
      "s' = (case body of None \<Rightarrow> s | Some b \<Rightarrow> snd (pi_SetILFunctionBody info (m_moduleId rw') (m_tkMethod rw') b s))"
    using assms by (auto simp: rewriter_Export_def split: bind_splits)
  from e(1) have "method_of rw' = method_of rw"
    by (auto simp: Export_def export_buffer_def Let_def split: bind_splits if_split_asm dest!: export_again_method)
  then have "m_moduleId rw' = fst (method_of rw)" "m_tkMethod rw' = snd (method_of rw)" by (auto simp: method_of_def)
  with e(2) show ?thesis by (auto split: option.splits)
qed

section \<open>Observing the runtime\<close>

text \<open>
  \<open>obs\<close> is some observation of the state of the runtime, the body of a method for instance. The
  functions on the metadata of a module leave it alone.
\<close>

definition metadata_silent :: "('s \<Rightarrow> 'o) \<Rightarrow> 's module_interfaces \<Rightarrow> bool" where
  "metadata_silent obs md \<longleftrightarrow> (\<forall>s.
     (\<forall>ptr n. obs (snd (snd (snd (EnumAssemblyRefs md ptr n s)))) = obs s) \<and> (\<forall>ptr. obs (CloseEnum md ptr s) = obs s) \<and>
     (\<forall>k n v l. obs (snd (snd (DefineAssemblyRef md k n v l s))) = obs s) \<and>
     (\<forall>t n. obs (snd (snd (DefineTypeRefByName md t n s))) = obs s) \<and>
     (\<forall>t n sig. obs (snd (snd (DefineMemberRef md t n sig s))) = obs s) \<and>
     (\<forall>t sig. obs (snd (snd (DefineMethodSpec_emit md t sig s))) = obs s) \<and>
     (\<forall>sig. obs (snd (snd (GetTokenFromTypeSpec md sig s))) = obs s) \<and>
     (\<forall>n f t. obs (snd (snd (DefineTypeDef md n f t s))) = obs s) \<and>
     (\<forall>t n f sig. obs (snd (snd (DefineMethod md t n f sig s))) = obs s) \<and>
     (\<forall>t f. obs (snd (SetMethodImplFlags md t f s)) = obs s) \<and>
     (\<forall>n. obs (snd (snd (DefineModuleRef md n s))) = obs s) \<and>
     (\<forall>t f n r. obs (snd (DefinePinvokeMap md t f n r s)) = obs s) \<and>
     (\<forall>str. obs (snd (snd (DefineUserString md str s))) = obs s) \<and>
     (\<forall>sig. obs (snd (snd (GetTokenFromSig md sig s))) = obs s))"

lemma metadata_silentD:
  assumes "metadata_silent obs md"
  shows "EnumAssemblyRefs md ptr n s = (hr, ts, ptr', s') \<Longrightarrow> obs s' = obs s"
    "DefineAssemblyRef md k name v l s = (hr, x, s') \<Longrightarrow> obs s' = obs s"
    "DefineTypeRefByName md t name s = (hr, x, s') \<Longrightarrow> obs s' = obs s"
    "DefineMemberRef md t name sig s = (hr, x, s') \<Longrightarrow> obs s' = obs s"
    "DefineMethodSpec_emit md t sig s = (hr, x, s') \<Longrightarrow> obs s' = obs s"
    "GetTokenFromTypeSpec md sig s = (hr, x, s') \<Longrightarrow> obs s' = obs s"
    "DefineTypeDef md name f t s = (hr, x, s') \<Longrightarrow> obs s' = obs s"
    "DefineMethod md t name f sig s = (hr, x, s') \<Longrightarrow> obs s' = obs s"
    "SetMethodImplFlags md t f s = (hr, s') \<Longrightarrow> obs s' = obs s"
    "DefineModuleRef md name s = (hr, x, s') \<Longrightarrow> obs s' = obs s"
    "DefinePinvokeMap md t f name r s = (hr, s') \<Longrightarrow> obs s' = obs s"
    "DefineUserString md name s = (hr, x, s') \<Longrightarrow> obs s' = obs s"
    "GetTokenFromSig md sig s = (hr, x, s') \<Longrightarrow> obs s' = obs s"
  using assms unfolding metadata_silent_def by (metis snd_conv)+

lemma CloseEnum_silent: "metadata_silent obs md \<Longrightarrow> obs (CloseEnum md ptr s) = obs s"
  by (simp add: metadata_silent_def)

lemma enum_loop_silent:
  assumes "\<And>ptr n s hr ts ptr' s'. enum_callback e ptr n s = (hr, ts, ptr', s') \<Longrightarrow> obs s' = obs s"
    "enum_loop e body it ptr s acc = Some r"
  shows "obs (snd (snd r)) = obs s"
proof -
  note fetch = assms(1)
  show ?thesis
  proof (rule enum_loop.raw_induct [where P = "\<lambda>e' body it ptr s acc r. e' = e \<longrightarrow> obs (snd (snd r)) = obs s", OF _ assms(2), rule_format, OF _ refl],
      goal_cases)
    case (1 rec e' body it ptr s acc r)
    note IH = 1(1)
    from 1(2,3) show ?case
      by (auto simp: iterator_inc_def fetch_def split: if_split_asm prod.splits dest!: IH fetch)
  qed
qed

lemma for_each_silent:
  assumes "metadata_silent obs md" "for_each (enum_assembly_refs md) body s acc = Some (acc', s')"
  shows "obs s' = obs s"
proof -
  have e: "enum_callback (enum_assembly_refs md) ptr n s = (hr, ts, ptr', s') \<Longrightarrow> obs s' = obs s" for ptr n s hr ts ptr' s'
    using metadata_silentD(1) [OF assms(1)] by (simp add: enum_assembly_refs_def)
  obtain it ptr s1 where b: "iterator_begin (enum_assembly_refs md) 0 s = (it, ptr, s1)" by (metis prod_cases3)
  then have "obs s1 = obs s" by (auto simp: iterator_begin_def fetch_def split: prod.splits dest: e)
  moreover obtain acc1 ptr1 s2 where l: "enum_loop (enum_assembly_refs md) body it ptr s1 acc = Some (acc1, ptr1, s2)"
      "s' = CloseEnum md ptr1 s2"
    using assms(2) b by (auto simp: for_each_def enum_assembly_refs_def split: bind_splits)
  moreover have "obs s2 = obs s1" using enum_loop_silent [OF e l(1)] by simp
  ultimately show ?thesis using CloseEnum_silent [OF assms(1)] by simp
qed

lemma FindAssemblyRef_silent:
  "metadata_silent obs md \<Longrightarrow> FindAssemblyRef md name s = Some (t, s') \<Longrightarrow> obs s' = obs s"
  by (auto simp: FindAssemblyRef_def dest: for_each_silent)

lemma EmitAssemblyRef_silent:
  "metadata_silent obs (mm_metadata m) \<Longrightarrow> EmitAssemblyRef m r s = (hr, s') \<Longrightarrow> obs s' = obs s"
  by (auto simp: EmitAssemblyRef_def Let_def split: prod.splits dest: metadata_silentD)

text \<open>The results are kept as tuples here, so that the module's metadata is not taken for its successor.\<close>

lemma FindWrapperTypeRef_silent:
  assumes "metadata_silent obs (mm_metadata m)" "FindWrapperTypeRef modul r m s = Some y"
  shows "obs (snd (snd (snd y))) = obs s"
  using assms(2) by (auto simp: FindWrapperTypeRef_def Let_def split: option.splits if_split_asm prod.splits bind_splits
      dest!: FindAssemblyRef_silent [OF assms(1)] metadata_silentD [OF assms(1)])

lemma StoreWrapperMethodRef_silent:
  assumes "metadata_silent obs (mm_metadata m)" "StoreWrapperMethodRef modul r m s = Some y"
  shows "obs (snd (snd y)) = obs s"
  using assms(2) by (auto simp: StoreWrapperMethodRef_def Let_def split: option.splits if_split_asm prod.splits bind_splits
        dest!: FindWrapperTypeRef_silent [OF assms(1)] metadata_silentD [OF assms(1)])

lemma GetWrapperMethodRef_silent:
  assumes "metadata_silent obs (mm_metadata m)" "GetWrapperMethodRef info module_id r m s = Some y"
  shows "obs (snd (snd (snd y))) = obs s"
  using assms(2) by (auto simp: GetWrapperMethodRef_def Let_def split: option.splits if_split_asm prod.splits bind_splits
      dest!: EmitAssemblyRef_silent [OF assms(1)] StoreWrapperMethodRef_silent [OF assms(1)])

lemma DefineMethodSpec_silent:
  assumes "metadata_silent obs md"
  shows "obs (snd (DefineMethodSpec md t sig s)) = obs s"
  by (auto simp: DefineMethodSpec_def split: prod.splits dest!: metadata_silentD [OF assms])

lemma check_call_silent:
  assumes "metadata_silent obs (mm_metadata m)" "check_call d info p module_id r arg m s = Some y"
  shows "obs (snd (snd y)) = obs s"
proof -
  have "obs s2 = obs s1" if "DefineMethodSpec (mm_metadata m) t sig s1 = (u, s2)" for t sig s1 u s2
    using DefineMethodSpec_silent [OF assms(1), of t sig s1] that by simp
  then show ?thesis
    using assms(2) by (auto simp: check_call_def Let_def split: option.splits if_split_asm prod.splits bind_splits
      dest!: GetWrapperMethodRef_silent [OF assms(1)])
qed

lemma last_argument_boxes_silent:
  assumes "metadata_silent obs md" "last_argument_boxes d behind md sig s = Some (boxes, s')"
  shows "obs s' = obs s"
  using assms(2) by (auto simp: last_argument_boxes_def read_only_memory_boxes_def Let_def
      split: option.splits if_split_asm prod.splits bind_splits parse.splits dest!: metadata_silentD [OF assms(1)])

lemma element_type_silent:
  assumes "metadata_silent obs md" "ReturnTypeTokenforValueTypeElementType p md tok s = Some (ok, t, s')"
  shows "obs s' = obs s"
  using assms(2) by (auto simp: ReturnTypeTokenforValueTypeElementType_def CreateAssemblyRefToMscorlib_def Let_def
      split: option.splits if_split_asm prod.splits bind_splits dest!: metadata_silentD [OF assms(1)])

lemma generic_instance_silent:
  assumes "metadata_silent obs md" "generic_instance p md tok s = Some (ok, t, s')"
  shows "obs s' = obs s"
  using assms(2) by (auto simp: generic_instance_def Let_def split: if_split_asm prod.splits bind_splits parse.splits
      dest!: metadata_silentD [OF assms(1)])

lemma generic_argument_silent:
  assumes "metadata_silent obs md" "generic_argument p md tok s = Some (ok, t, s')"
  shows "obs s' = obs s"
  using assms by (auto simp: generic_argument_def Let_def split: if_split_asm prod.splits bind_splits
      dest: generic_instance_silent element_type_silent metadata_silentD)

lemma argument_loop_silent:
  assumes "metadata_silent obs md"
  shows "argument_loop n k p md tok s = Some (ok, t, s') \<Longrightarrow> obs s' = obs s"
proof (induction n arbitrary: k p)
  case (Suc n)
  from Suc.prems show ?case
    by (cases k) (auto split: parse.splits dest: generic_argument_silent [OF assms] Suc.IH)
qed auto

lemma unbox_result_silent:
  assumes "metadata_silent obs md" "unbox_result md wrapper target s = Some (unbox, s')"
  shows "obs s' = obs s"
proof -
  have "obs s' = obs s" if "ReturnTypeIsValueTypeOrGeneric md f sig tok s = Some (ok, t, s')" for f sig tok ok t s'
    using that by (auto simp: ReturnTypeIsValueTypeOrGeneric_def generic_parameter_def Let_def
        split: if_split_asm bind_splits option.splits
        dest!: generic_instance_silent [OF assms(1)] element_type_silent [OF assms(1)] argument_loop_silent [OF assms(1)])
  with assms(2) show ?thesis by (auto simp: unbox_result_def split: bind_splits if_split_asm)
qed

lemma replace_call_silent:
  assumes "metadata_silent obs md"
    "replace_call d behind ptr md wrapper target ref def a s rw = Some (a', s', rw')"
  shows "obs s' = obs s \<and> method_of rw' = method_of rw"
proof -
  from assms(2) obtain i rw1 boxes s1 w1 w2 n w3 w4 w5 unbox s2 w6 where c:
      "get_instr a rw = Some i" "upd_instr a (m_opcode_update (\<lambda>_. CEE_NOP)) rw = Some rw1"
      "last_argument_boxes d behind md (fi_signature target) s = Some (boxes, s1)"
      "emit_boxes boxes \<lparr>m_ILRewriter = rw1, m_ILInstr = m_pNext i\<rparr> = Some w1" "CallMember ref False w1 = Some w2"
      "get_instr (m_pNext i) (m_ILRewriter w2) = Some n" "LoadInt32 (m_opcode i) (SetILPosition (m_pPrev n) w2) = Some w3"
      "LoadInt32 def w3 = Some w4" "LoadInt64 ptr w4 = Some w5" "unbox_result md wrapper target s1 = Some (unbox, s2)"
      "(case unbox of None \<Rightarrow> Some w5 | Some t \<Rightarrow> UnboxAnyAfter t w5) = Some w6" "s' = s2" "rw' = m_ILRewriter w6"
    by (auto simp: replace_call_def Let_def split: bind_splits)
  have "method_of (m_ILRewriter w6) = method_of (m_ILRewriter w5)" using c(11) by (auto split: option.splits dest: UnboxAnyAfter_method)
  moreover have "method_of (m_ILRewriter w5) = method_of (m_ILRewriter w2)"
    using c(7-9) by (auto simp: LoadInt64_def SetILPosition_def dest!: wrapper_method_of)
  moreover have "method_of (m_ILRewriter w2) = method_of rw" using c(2,4,5) by (auto simp: CallMember_def dest!: wrapper_method_of upd_instr_method)
  ultimately show ?thesis
    using c(12,13) last_argument_boxes_silent [OF assms(1) c(3)] unbox_result_silent [OF assms(1) c(10)] by simp
qed

lemma replace_loop_silent:
  assumes "replace_loop d info p behind ptr module_id r a modified m s rw = Some y" "metadata_silent obs (mm_metadata m)"
  shows "obs (fst (snd (snd y))) = obs s \<and> method_of (snd (snd (snd y))) = method_of rw"
proof (rule replace_loop.raw_induct [where P = "\<lambda>d info p behind ptr module_id r a modified m s rw y.
    metadata_silent obs (mm_metadata m) \<longrightarrow> obs (fst (snd (snd y))) = obs s \<and> method_of (snd (snd (snd y))) = method_of rw",
      OF _ assms(1), rule_format, OF _ assms(2)], goal_cases)
  case (1 rec d info p behind ptr module_id r a modified m s rw y)
  note IH = 1(1) [rule_format] and silent = 1(3)
  have same: "metadata_silent obs (mm_metadata m1)" if "check_call d info p module_id r arg m s = Some (c, m1, s1)" for arg c m1 s1
    using silent module_extends_fixed [OF check_call_extends [OF that]] by (simp add: fixed_part_def)
  show ?case
  proof (cases "a = m_IL")
    case True
    with 1(2) show ?thesis by auto
  next
    case False
    obtain i where i: "get_instr a rw = Some i" using 1(2) False by (auto split: bind_splits)
    show ?thesis
    proof (cases "m_opcode i \<noteq> CEE_CALL \<and> m_opcode i \<noteq> CEE_CALLVIRT")
      case True
      with 1(2) False i show ?thesis using IH [OF _ silent] by simp
    next
      case call: False
      with 1(2) False i obtain arg c m1 s1 where check: "m_Arg32 (m_operand i) = Some arg"
          "check_call d info p module_id r arg m s = Some (c, m1, s1)"
        by (auto split: bind_splits)
      note s1 = check_call_silent [OF silent check(2)] same [OF check(2)]
      show ?thesis
      proof (cases c)
        case Skip
        with 1(2) False i call check s1 IH show ?thesis by auto
      next
        case (Match target ref tk)
        have "do { (a2, s2, rw2) \<leftarrow> replace_call d behind ptr (mm_metadata m1) (wrapper_method r) target ref tk a s1 rw;
            n \<leftarrow> get_instr a2 rw2; rec d info p behind ptr module_id r (m_pNext n) True m1 s2 rw2 } = Some y"
          using 1(2) False i call check Match by auto
        then show ?thesis
          using s1(1) by (auto split: bind_splits dest!: replace_call_silent [OF s1(2)] IH [OF _ s1(2)])
      qed
    qed
  qed
qed

lemma all_replacements_silent:
  assumes "metadata_silent obs (mm_metadata m)"
    "all_replacements d info p behind ptr module_id rs modified m s rw = Some (modified', m', s', rw')"
  shows "obs s' = obs s \<and> method_of rw' = method_of rw"
  using assms
proof (induction rs arbitrary: modified m s rw)
  case (Cons r rs)
  show ?case
  proof (cases "action (wrapper_method r) \<noteq> W ''ReplaceTargetMethod'' \<or>
      IsFailedWrapperMemberKey m (get_method_cache_key (wrapper_method r))")
    case True
    with Cons.prems(2) Cons.IH [OF Cons.prems(1)] show ?thesis by (simp split: if_split_asm)
  next
    case False
    with Cons.prems(2) obtain i modified1 m1 s1 rw1 where l: "get_instr m_IL rw = Some i"
        "replace_loop d info p behind ptr module_id r (m_pNext i) modified m s rw = Some (modified1, m1, s1, rw1)"
        "all_replacements d info p behind ptr module_id rs modified1 m1 s1 rw1 = Some (modified', m', s', rw')"
      by (auto split: bind_splits if_split_asm)
    have "metadata_silent obs (mm_metadata m1)"
      using Cons.prems(1) module_extends_fixed [OF replace_loop_extends [OF l(2)]] by (simp add: fixed_part_def)
    from Cons.IH [OF this l(3)] replace_loop_silent [OF l(2) Cons.prems(1)] show ?thesis by simp
  qed
qed simp

lemma insertion_loop_silent:
  assumes "metadata_silent obs (mm_metadata m)"
    "insertion_loop info module_id rs modified a m s w = Some (modified', m', s', w')"
  shows "obs s' = obs s \<and> method_of (m_ILRewriter w') = method_of (m_ILRewriter w)"
  using assms
proof (induction rs arbitrary: modified a m s w)
  case (Cons r rs)
  show ?case
  proof (cases "action (wrapper_method r) = W ''ReplaceTargetMethod'' \<or>
      IsFailedWrapperMemberKey m (get_method_cache_key (wrapper_method r))")
    case True
    with Cons.prems(2) Cons.IH [OF Cons.prems(1)] show ?thesis by (simp split: if_split_asm)
  next
    case False
    with Cons.prems(2) obtain ok ref m1 s1 where g: "GetWrapperMethodRef info module_id r m s = Some (ok, ref, m1, s1)"
      by (auto split: bind_splits)
    have m1: "metadata_silent obs (mm_metadata m1)"
      using Cons.prems(1) module_extends_fixed [OF GetWrapperMethodRef_extends [OF g]] by (simp add: fixed_part_def)
    have s1: "obs s1 = obs s" using GetWrapperMethodRef_silent [OF Cons.prems(1) g] by simp
    from Cons.prems(2) False g Cons.IH [OF m1] s1 show ?thesis
      by (fastforce simp: CallMember_def SetILPosition_def split: bind_splits if_split_asm dest!: insert_instr_method)
  qed
qed simp

text \<open>The body of the method is the only one that is set.\<close>

lemma Export_silent:
  assumes "rewriter_Export info rw s = Some (hr, s')" "method_of rw = (module_id, tk)"
    "\<And>body s. obs (snd (pi_SetILFunctionBody info module_id tk body s)) = obs s"
  shows "obs s' = obs s"
  using rewriter_Export_sets [OF assms(1)] assms(2,3) by auto

lemma ProcessReplacementCalls_silent:
  assumes "metadata_silent obs (mm_metadata m)" "\<And>body s. obs (snd (pi_SetILFunctionBody info module_id tk body s)) = obs s"
    "ProcessReplacementCalls d info p behind ptr module_id tk rs m s = Some (hr, m', s')"
  shows "obs s' = obs s"
  using assms(3) by (auto simp: ProcessReplacementCalls_def split: bind_splits if_split_asm
      dest!: all_replacements_silent [OF assms(1)] rewriter_Import_method Export_silent [OF _ _ assms(2)])

lemma ProcessInsertionCalls_silent:
  assumes "metadata_silent obs (mm_metadata m)" "\<And>body s. obs (snd (pi_SetILFunctionBody info module_id tk body s)) = obs s"
    "ProcessInsertionCalls info module_id tk rs m s = Some (hr, m', s')"
  shows "obs s' = obs s"
  using assms(3) by (auto simp: ProcessInsertionCalls_def split: bind_splits if_split_asm
      dest!: insertion_loop_silent [OF assms(1)] rewriter_Import_method Export_silent [OF _ _ assms(2)])

section \<open>The startup hook\<close>

lemma attempt_silent:
  assumes "\<And>hr x s1. r = (hr, x, s1) \<Longrightarrow> obs s1 = v" "\<And>x s1. obs s1 = v \<Longrightarrow> obs (snd (f x s1)) = v"
  shows "obs (snd (attempt r f)) = v"
  using assms by (cases r) (auto simp: attempt_def)

lemma define_startup_method_silent:
  assumes "metadata_silent obs md"
  shows "obs (snd (define_startup_method bit64 env md s)) = obs s"
proof -
  note d = metadata_silentD [OF assms]
  have pinvoke: "result_only (DefinePinvokeMap md t f name r s1) = (hr, x, s2) \<Longrightarrow> obs s2 = obs s1" for t f name r s1 hr x s2
    using d(11) [of t f name r s1] by (cases "DefinePinvokeMap md t f name r s1") (auto simp: result_only_def)
  have flags: "obs (snd (SetMethodImplFlags md t f s1)) = obs s1" for t f s1
    using d(9) [of t f s1] by (cases "SetMethodImplFlags md t f s1") auto
  show ?thesis
    unfolding define_startup_method_def CreateAssemblyRefToMscorlib_def Let_def
    by (rule attempt_silent, (erule d pinvoke | (erule d [THEN trans] pinvoke [THEN trans], simp add: flags) | (elim Pair_inject, simp))+)+ simp
qed

lemma GenerateVoidILStartupMethod_silent:
  assumes "\<And>hr md. pi_GetModuleMetaData info s module_id = (hr, md) \<Longrightarrow> metadata_silent obs md"
    "\<And>t body s1. fst (define_startup_method bit64 env (snd (pi_GetModuleMetaData info s module_id)) s) = Inr t \<Longrightarrow>
      obs (snd (pi_SetILFunctionBody info module_id (ret_method_token t) body s1)) = obs s1"
    "GenerateVoidILStartupMethod bit64 env info module_id s = Some (r, s')"
  shows "obs s' = obs s"
proof -
  obtain hr md where md: "pi_GetModuleMetaData info s module_id = (hr, md)" by fastforce
  obtain res s1 where def: "define_startup_method bit64 env md s = (res, s1)" by fastforce
  have s1: "obs s1 = obs s" using define_startup_method_silent [OF assms(1) [OF md], of bit64 env s] def by simp
  show ?thesis
  proof (cases res)
    case (Inl hr1)
    with assms(3) md def s1 show ?thesis by (auto simp: GenerateVoidILStartupMethod_def split: if_split_asm)
  next
    case (Inr t)
    have set: "obs (snd (pi_SetILFunctionBody info module_id (ret_method_token t) body s1)) = obs s1" for body s1
      using assms(2) md def Inr by simp
    show ?thesis
      using assms(3) md def s1 Inr
      by (auto simp: GenerateVoidILStartupMethod_def Let_def split: if_split_asm bind_splits
          dest!: emit_all_method Export_silent [OF _ _ set])
  qed
qed

lemma RunILStartupHook_silent:
  assumes "\<And>hr md. pi_GetModuleMetaData info s module_id = (hr, md) \<Longrightarrow> metadata_silent obs md"
    "\<And>t body s1. fst (define_startup_method bit64 env (snd (pi_GetModuleMetaData info s module_id)) s) = Inr t \<Longrightarrow>
      obs (snd (pi_SetILFunctionBody info module_id (ret_method_token t) body s1)) = obs s1"
    "\<And>body s1. obs (snd (pi_SetILFunctionBody info module_id tk body s1)) = obs s1"
    "RunILStartupHook bit64 env info module_id tk s = Some (hr, s')"
  shows "obs s' = obs s"
proof -
  obtain r s1 where g: "GenerateVoidILStartupMethod bit64 env info module_id s = Some (r, s1)"
    using assms(4) by (auto simp: RunILStartupHook_def split: bind_splits)
  have "obs s1 = obs s" by (rule GenerateVoidILStartupMethod_silent [OF assms(1,2) g])
  with assms(4) g show ?thesis
    by (auto simp: RunILStartupHook_def CallMember_def SetILPosition_def Let_def split: bind_splits if_split_asm sum.splits
        dest!: rewriter_Import_method insert_instr_method Export_silent [OF _ _ assms(3)])
qed

section \<open>The callbacks\<close>

lemma instrument_caller_silent:
  assumes "metadata_silent obs (mm_metadata m)" "\<And>body s. obs (snd (pi_SetILFunctionBody (jc_info c) module_id tk body s)) = obs s"
    "instrument_caller c module_id tk caller m p s = Some (hr, p', s')"
  shows "obs s' = obs s"
proof -
  have insertion: "obs s1 = obs s0 \<and> metadata_silent obs (mm_metadata m1)"
    if "ProcessInsertionCalls (jc_info c) module_id tk rs m s0 = Some (hr0, m1, s1)" for rs s0 hr0 m1 s1
    using assms(1) ProcessInsertionCalls_silent [OF assms(1,2) that] module_extends_fixed [OF ProcessInsertionCalls_extends [OF that]]
    by (simp add: fixed_part_def)
  from assms(3) show ?thesis
    by (auto simp: instrument_caller_def Let_def split: if_split_asm bind_splits dest!: insertion
        dest!: ProcessReplacementCalls_silent [OF _ assms(2), rotated])
qed

lemma filter_by_target_silent:
  assumes "metadata_silent obs md"
  shows "filter_by_target md am is enabled s = Some (out, s') \<Longrightarrow> obs s' = obs s"
  by (induction "is" arbitrary: enabled s) (auto split: bind_splits dest!: for_each_silent [OF assms])

text \<open>The methods whose bodies a callback may set.\<close>

definition written :: "'s jit_context \<Rightarrow> event \<Rightarrow> 's \<Rightarrow> (u64 \<times> mdToken) set" where
  "written c e s =
     (case e of
        JITCompilation f safe \<Rightarrow>
          (let (hr, module_id, function_token) = pi_GetFunctionInfo (jc_info c) s f;
               md = snd (pi_GetModuleMetaData (jc_info c) s module_id) in
           insert (module_id, function_token)
             (case fst (define_startup_method (jc_bit64 c) (jc_env c) md s) of
                Inl hr \<Rightarrow> {}
              | Inr t \<Rightarrow> {(module_id, ret_method_token t)}))
      | _ \<Rightarrow> {})"

lemma JITCompilationStarted_silent:
  assumes "JITCompilationStarted c f safe p s = Some (hr, p', s')"
    "\<And>k m. module_id_to_info_map p k = Some m \<Longrightarrow> metadata_silent obs (mm_metadata m)"
    "\<And>k. metadata_silent obs (snd (pi_GetModuleMetaData (jc_info c) s k))"
    "\<And>k t body s1. (k, t) \<in> written c (JITCompilation f safe) s \<Longrightarrow> obs (snd (pi_SetILFunctionBody (jc_info c) k t body s1)) = obs s1"
  shows "obs s' = obs s"
proof -
  obtain hr0 k tk where f: "pi_GetFunctionInfo (jc_info c) s f = (hr0, k, tk)" by (metis prod_cases3)
  note sets = assms(4) [unfolded written_def, simplified f event.case Let_def split]
  show ?thesis
  proof (cases "\<not> is_attached_flag p \<or> \<not> safe \<or> FAILED hr0 \<or> module_id_to_info_map p k = None")
    case True
    with assms(1) f show ?thesis by (elim disjE) (simp_all add: JITCompilationStarted_def Let_def split: if_split_asm)
  next
    case False
    then obtain m where m: "module_id_to_info_map p k = Some m" by auto
    have "obs s1 = obs s" if "RunILStartupHook (jc_bit64 c) (jc_env c) (jc_info c) k tk s = Some (hr1, s1)" for hr1 s1
    proof (rule RunILStartupHook_silent [OF _ _ _ that])
      show "pi_GetModuleMetaData (jc_info c) s k = (hr, md) \<Longrightarrow> metadata_silent obs md" for hr md using assms(3) [of k] by simp
    qed (rule sets; simp)+
    note hook = this
    from assms(1) f False m show ?thesis
      by (auto simp: JITCompilationStarted_def Let_def split: if_split_asm bind_splits
          dest!: hook instrument_caller_silent [OF assms(2) [OF m] sets, rotated])
  qed
qed

text \<open>
  In the sample runtime, the bodies of the other methods: half of the state, which counts how often
  one of them has been set.
\<close>

definition other_bodies :: "nat \<Rightarrow> nat" where
  "other_bodies s = s div 2"

text \<open>
  C12. The profiler only writes to what it instruments: every observation of the runtime that the
  functions on metadata leave alone, and that does not depend on the body of the method that is
  compiled or of the startup method generated for it, is left alone by every callback. No other
  method is rewritten, and except in a compilation none is.
\<close>

theorem only_compiled_method_written:
  assumes "callback c e (p, s) (p', s')" "e \<noteq> Runtime_step"
    "\<forall>k m. module_id_to_info_map p k = Some m \<longrightarrow> metadata_silent obs (mm_metadata m)"
    "\<forall>k. metadata_silent obs (snd (pi_GetModuleMetaData (jc_info c) s k))"
    "\<forall>k t body s1. (k, t) \<in> written c e s \<longrightarrow> obs (snd (pi_SetILFunctionBody (jc_info c) k t body s1)) = obs s1"
  shows "obs s' = obs s"
  using assms(1)
proof (cases rule: callback.cases)
  case (module_load k status hr)
  have "obs s1 = obs s" if "FilterIntegrationsByTarget (snd (pi_GetModuleMetaData (jc_info c) s k)) is s = Some (out, s1)" for "is" out s1
    using filter_by_target_silent [OF assms(4) [rule_format]] that by (auto simp: FilterIntegrationsByTarget_def)
  with module_load show ?thesis
    by (cases "pi_GetModuleMetaData (jc_info c) s k") (fastforce simp: ModuleLoadFinished_def Let_def split: if_split_asm bind_splits prod.splits)
next
  case (jit_compilation f safe hr)
  with assms(3-5) show ?thesis by (auto intro: JITCompilationStarted_silent)
qed (use assms(2) in auto)

theorem only_compiled_method_written_witness:
  "callback process_context (JITCompilation 1 True) (storing_profiler, 0) (hooked_profiler, 1) \<and>
   other_bodies 1 = other_bodies 0 \<and> other_bodies (snd (pi_SetILFunctionBody process_info 5 0x06000002 [] 0)) \<noteq> other_bodies 0"
proof -
  have silent: "metadata_silent other_bodies (snd (pi_GetModuleMetaData process_info 0 k))"
    "metadata_silent other_bodies sample_interfaces" for k
    by (simp_all add: metadata_silent_def process_info_def managed_interfaces_def sample_interfaces_def metadata.extend_def
        sample_metadata_def)
  have "written process_context (JITCompilation 1 True) 0 = {(5, 0x06000001), (5, 0x06000005)}"
    by (simp add: written_def process_context_def process_info_def sample_info_def sample_define sample_tokens_def)
  then have w: "\<forall>k t body s1. (k, t) \<in> written process_context (JITCompilation 1 True) 0 \<longrightarrow>
      other_bodies (snd (pi_SetILFunctionBody (jc_info process_context) k t body s1)) = other_bodies s1"
    by (auto simp: process_context_def process_info_def other_bodies_def)
  have m: "\<forall>k m. module_id_to_info_map storing_profiler k = Some m \<longrightarrow> metadata_silent other_bodies (mm_metadata m)"
    using silent(2) by (simp add: storing_profiler_def loaded_profiler_def attached_profiler_def CorProfiler_init_def
        stored_module_def ModuleMetadata_init_def)
  have "other_bodies 1 = other_bodies 0"
    by (rule only_compiled_method_written [OF callback.jit_compilation [OF sample_JIT] _ m _ w])
      (use silent(1) in \<open>simp_all add: process_context_def\<close>)
  then show ?thesis
    using callback.jit_compilation [OF sample_JIT] by (simp add: process_info_def other_bodies_def)
qed

end
