(* ===== verification/Com.thy ===== *)
theory Com
  imports Prelude "HOL-Library.Monad_Syntax"
begin

text \<open>
  Reference counting. The smart pointer of com\_ptr.h, on an explicit store of pointer variables,
  since copies alias and a variable may be assigned to itself; the two classes the library
  defines, \<open>ClassFactory\<close> (class\_factory.cpp) and \<open>CorProfilerBase\<close> (cor\_profiler\_base.h), with
  their own counts; and the exported \<open>DllGetClassObject\<close> of dllmain.cpp. An address is a natural
  number, zero is \<open>nullptr\<close>. \<open>None\<close> stands for the use of an object that does not exist (any more).
\<close>

section \<open>ComPtr\<close>

type_synonym guid = "u32 \<times> 16 word \<times> 16 word \<times> byte list"

text \<open>What a pointer calls on the object it points to, over a memory \<open>'h\<close>.\<close>

record 'h com_methods =
  cm_AddRef :: "'h \<Rightarrow> nat \<Rightarrow> 'h option"
  cm_Release :: "'h \<Rightarrow> nat \<Rightarrow> 'h option"
  cm_QueryInterface :: "'h \<Rightarrow> nat \<Rightarrow> guid \<Rightarrow> (hresult \<times> nat \<times> 'h) option"

text \<open>The pointer in every \<open>ComPtr\<close> variable, and the memory.\<close>

record 'h com_state =
  cs_ptr :: "nat \<Rightarrow> nat"
  cs_memory :: 'h

definition set_ptr :: "nat \<Rightarrow> nat \<Rightarrow> 'h com_state \<Rightarrow> 'h com_state" where
  "set_ptr x p st = st\<lparr>cs_ptr := (cs_ptr st)(x := p)\<rparr>"

definition InternalAddRef :: "'h com_methods \<Rightarrow> nat \<Rightarrow> 'h com_state \<Rightarrow> 'h com_state option" where
  "InternalAddRef I x st =
     (if cs_ptr st x \<noteq> 0 then map_option (\<lambda>h. st\<lparr>cs_memory := h\<rparr>) (cm_AddRef I (cs_memory st) (cs_ptr st x)) else Some st)"

definition InternalRelease :: "'h com_methods \<Rightarrow> nat \<Rightarrow> 'h com_state \<Rightarrow> 'h com_state option" where
  "InternalRelease I x st =
     (let temp = cs_ptr st x in
      if temp \<noteq> 0
      then (let st = set_ptr x 0 st in map_option (\<lambda>h. st\<lparr>cs_memory := h\<rparr>) (cm_Release I (cs_memory st) temp))
      else Some st)"

definition InternalCopy :: "'h com_methods \<Rightarrow> nat \<Rightarrow> nat \<Rightarrow> 'h com_state \<Rightarrow> 'h com_state option" where
  "InternalCopy I x other st =
     (if cs_ptr st x \<noteq> other then do { st \<leftarrow> InternalRelease I x st; InternalAddRef I x (set_ptr x other st) } else Some st)"

definition InternalMove :: "'h com_methods \<Rightarrow> nat \<Rightarrow> nat \<Rightarrow> 'h com_state \<Rightarrow> 'h com_state option" where
  "InternalMove I x other st =
     (if cs_ptr st x \<noteq> cs_ptr st other
      then do { st \<leftarrow> InternalRelease I x st; Some (set_ptr other 0 (set_ptr x (cs_ptr st other) st)) }
      else Some st)"

text \<open>The constructors, the destructor and the other public operations.\<close>

definition ComPtr_init :: "nat \<Rightarrow> 'h com_state \<Rightarrow> 'h com_state" where
  "ComPtr_init x st = set_ptr x 0 st"

definition ComPtr_copy :: "'h com_methods \<Rightarrow> nat \<Rightarrow> nat \<Rightarrow> 'h com_state \<Rightarrow> 'h com_state option" where
  "ComPtr_copy I x other st = InternalAddRef I x (set_ptr x (cs_ptr st other) st)"

definition ComPtr_move :: "nat \<Rightarrow> nat \<Rightarrow> 'h com_state \<Rightarrow> 'h com_state" where
  "ComPtr_move x other st = set_ptr other 0 (set_ptr x (cs_ptr st other) st)"

definition ComPtr_delete :: "'h com_methods \<Rightarrow> nat \<Rightarrow> 'h com_state \<Rightarrow> 'h com_state option" where
  "ComPtr_delete I x st = InternalRelease I x st"

definition Swap :: "nat \<Rightarrow> nat \<Rightarrow> 'h com_state \<Rightarrow> 'h com_state" where
  "Swap x other st = (let temp = cs_ptr st x in set_ptr other temp (set_ptr x (cs_ptr st other) st))"

definition Reset :: "'h com_methods \<Rightarrow> nat \<Rightarrow> 'h com_state \<Rightarrow> 'h com_state option" where
  "Reset I x st = InternalRelease I x st"

definition Detach :: "nat \<Rightarrow> 'h com_state \<Rightarrow> nat \<times> 'h com_state" where
  "Detach x st = (let temp = cs_ptr st x in (temp, set_ptr x 0 st))"

definition Copy :: "'h com_methods \<Rightarrow> nat \<Rightarrow> nat \<Rightarrow> 'h com_state \<Rightarrow> 'h com_state option" where
  "Copy I x other st = InternalCopy I x other st"

definition Attach :: "'h com_methods \<Rightarrow> nat \<Rightarrow> nat \<Rightarrow> 'h com_state \<Rightarrow> 'h com_state option" where
  "Attach I x other st = map_option (set_ptr x other) (InternalRelease I x st)"

text \<open>The pointer stored through \<open>other\<close>.\<close>

definition CopyTo :: "'h com_methods \<Rightarrow> nat \<Rightarrow> 'h com_state \<Rightarrow> (nat \<times> 'h com_state) option" where
  "CopyTo I x st = map_option (\<lambda>st. (cs_ptr st x, st)) (InternalAddRef I x st)"

text \<open>
  \<open>temp\<close> is the variable that becomes the result. The called method writes through the address
  of its pointer; a call through a null pointer is not defined.
\<close>

definition As :: "'h com_methods \<Rightarrow> nat \<Rightarrow> guid \<Rightarrow> nat \<Rightarrow> 'h com_state \<Rightarrow> 'h com_state option" where
  "As I x iid temp st =
     (let st = ComPtr_init temp st in
      if cs_ptr st x = 0 then None
      else do {
        (hr, p, h) \<leftarrow> cm_QueryInterface I (cs_memory st) (cs_ptr st x) iid;
        Some (set_ptr temp p (st\<lparr>cs_memory := h\<rparr>)) })"

definition IsNull :: "nat \<Rightarrow> 'h com_state \<Rightarrow> bool" where
  "IsNull x st \<longleftrightarrow> cs_ptr st x = 0"

definition copy_assign :: "'h com_methods \<Rightarrow> nat \<Rightarrow> nat \<Rightarrow> 'h com_state \<Rightarrow> 'h com_state option" where
  "copy_assign I x other st = InternalCopy I x (cs_ptr st other) st"

definition move_assign :: "'h com_methods \<Rightarrow> nat \<Rightarrow> nat \<Rightarrow> 'h com_state \<Rightarrow> 'h com_state option" where
  "move_assign I x other st = InternalMove I x other st"

section \<open>Programs over ComPtr\<close>

text \<open>
  What a program may do with the class, and the references it holds in plain pointers: \<open>Detach\<close> and
  \<open>CopyTo\<close> hand one out, \<open>Attach\<close> takes one over. A variable that is not alive holds zero.
\<close>

datatype ptr_op = Construct nat | Copy_construct nat nat | Move_construct nat nat | Destroy nat | Swap_with nat nat
  | Reset_it nat | Detach_it nat | Copy_raw nat nat | Attach_raw nat nat | Copy_out nat | Query nat guid nat
  | Assign nat nat | Move_assign nat nat

fun perform :: "'h com_methods \<Rightarrow> ptr_op \<Rightarrow> 'h com_state \<Rightarrow> 'h com_state option" where
  "perform I (Construct x) st = Some (ComPtr_init x st)"
| "perform I (Copy_construct x y) st = ComPtr_copy I x y st"
| "perform I (Move_construct x y) st = Some (ComPtr_move x y st)"
| "perform I (Destroy x) st = ComPtr_delete I x st"
| "perform I (Swap_with x y) st = Some (Swap x y st)"
| "perform I (Reset_it x) st = Reset I x st"
| "perform I (Detach_it x) st = Some (snd (Detach x st))"
| "perform I (Copy_raw x p) st = Copy I x p st"
| "perform I (Attach_raw x p) st = Attach I x p st"
| "perform I (Copy_out x) st = map_option snd (CopyTo I x st)"
| "perform I (Query x iid y) st = As I x iid y st"
| "perform I (Assign x y) st = copy_assign I x y st"
| "perform I (Move_assign x y) st = move_assign I x y st"

fun transfer :: "ptr_op \<Rightarrow> 'h com_state \<Rightarrow> (nat \<Rightarrow> nat) \<Rightarrow> nat \<Rightarrow> nat" where
  "transfer (Detach_it x) st raw = raw(cs_ptr st x := raw (cs_ptr st x) + 1)"
| "transfer (Copy_out x) st raw = raw(cs_ptr st x := raw (cs_ptr st x) + 1)"
| "transfer (Attach_raw x p) st raw = raw(p := raw p - 1)"
| "transfer _ st raw = raw"

text \<open>
  The rules for the caller: constructors work on variables that are not alive, what is attached is
  a reference held outside, a plain pointer that is copied is referenced by somebody else, and no
  call goes through a null pointer.
\<close>

fun allowed :: "ptr_op \<Rightarrow> 'h com_state \<Rightarrow> (nat \<Rightarrow> nat) \<Rightarrow> bool" where
  "allowed (Construct x) st raw \<longleftrightarrow> cs_ptr st x = 0"
| "allowed (Copy_construct x y) st raw \<longleftrightarrow> cs_ptr st x = 0 \<and> x \<noteq> y"
| "allowed (Move_construct x y) st raw \<longleftrightarrow> cs_ptr st x = 0 \<and> x \<noteq> y"
| "allowed (Copy_raw x p) st raw \<longleftrightarrow> p = 0 \<or> 0 < raw p \<or> p \<in> range (cs_ptr st)"
| "allowed (Attach_raw x p) st raw \<longleftrightarrow> p = 0 \<or> 0 < raw p"
| "allowed (Query x iid y) st raw \<longleftrightarrow> cs_ptr st x \<noteq> 0 \<and> cs_ptr st y = 0"
| "allowed _ st raw \<longleftrightarrow> True"

fun program :: "'h com_methods \<Rightarrow> ptr_op list \<Rightarrow> 'h com_state \<times> (nat \<Rightarrow> nat) \<Rightarrow> ('h com_state \<times> (nat \<Rightarrow> nat)) option" where
  "program I [] (st, raw) = Some (st, raw)"
| "program I (op # ops) (st, raw) = do { st' \<leftarrow> perform I op st; program I ops (st', transfer op st raw) }"

fun obeys :: "'h com_methods \<Rightarrow> ptr_op list \<Rightarrow> 'h com_state \<times> (nat \<Rightarrow> nat) \<Rightarrow> bool" where
  "obeys I [] (st, raw) = True"
| "obeys I (op # ops) (st, raw) \<longleftrightarrow> allowed op st raw \<and>
     (case perform I op st of None \<Rightarrow> True | Some st' \<Rightarrow> obeys I ops (st', transfer op st raw))"

section \<open>What is counted\<close>

text \<open>How many variables hold an address.\<close>

definition owners :: "(nat \<Rightarrow> nat) \<Rightarrow> nat \<Rightarrow> nat" where
  "owners v a = card {x. v x = a}"

lemma owners_set:
  assumes "finite {x. v x \<noteq> 0}" "a \<noteq> 0"
  shows "owners (v(x := p)) a + of_bool (v x = a) = owners v a + of_bool (p = a)"
proof -
  have f: "finite {y. v y = a \<and> y \<noteq> x}" by (rule finite_subset [OF _ assms(1)]) (use assms(2) in auto)
  have "{y. (v(x := p)) y = a} = (if p = a then insert x {y. v y = a \<and> y \<noteq> x} else {y. v y = a \<and> y \<noteq> x})"
      "{y. v y = a} = (if v x = a then insert x {y. v y = a \<and> y \<noteq> x} else {y. v y = a \<and> y \<noteq> x})"
    by auto
  then show ?thesis using f by (simp add: owners_def)
qed

text \<open>
  Every reference is held by a variable or outside.
\<close>

definition balanced :: "('h \<Rightarrow> nat \<Rightarrow> nat) \<Rightarrow> 'h com_state \<Rightarrow> (nat \<Rightarrow> nat) \<Rightarrow> bool" where
  "balanced refs st raw \<longleftrightarrow> finite {x. cs_ptr st x \<noteq> 0} \<and>
     (\<forall>a. a \<noteq> 0 \<longrightarrow> refs (cs_memory st) a = owners (cs_ptr st) a + raw a)"

lemma balanced_refs:
  assumes "balanced refs st raw" "a \<noteq> 0"
  shows "refs (cs_memory st) a = owners (cs_ptr st) a + raw a"
  using assms by (simp add: balanced_def)

lemma balanced_owned:
  assumes "balanced refs st raw" "a \<noteq> 0" "a \<in> range (cs_ptr st)"
  shows "0 < refs (cs_memory st) a"
proof -
  from assms have "finite {x. cs_ptr st x = a}" "{x. cs_ptr st x = a} \<noteq> {}"
    by (auto simp: balanced_def elim!: finite_subset [rotated])
  with assms show ?thesis by (simp add: balanced_refs owners_def card_gt_0_iff)
qed

lemma set_ptr_simps [simp]:
  "cs_ptr (set_ptr x p st) = (cs_ptr st)(x := p)" "cs_memory (set_ptr x p st) = cs_memory st"
  by (simp_all add: set_ptr_def)

text \<open>Putting another pointer into a variable moves references between the variable and the outside.\<close>

lemma balanced_set:
  assumes "balanced refs st raw"
    "\<And>a. a \<noteq> 0 \<Longrightarrow> raw a + of_bool (cs_ptr st x = a) = raw' a + of_bool (p = a)"
  shows "balanced refs (set_ptr x p st) raw'"
proof -
  have f: "finite {y. cs_ptr st y \<noteq> 0}" using assms(1) by (simp add: balanced_def)
  have "finite {y. ((cs_ptr st)(x := p)) y \<noteq> 0}"
    by (rule finite_subset [of _ "insert x {y. cs_ptr st y \<noteq> 0}"]) (use f in auto)
  moreover have "refs (cs_memory st) a = owners ((cs_ptr st)(x := p)) a + raw' a" if "a \<noteq> 0" for a
    using balanced_refs [OF assms(1) that] owners_set [OF f that, of x p] assms(2) [OF that] by linarith
  ultimately show ?thesis by (simp add: balanced_def)
qed

text \<open>
  The rules of COM, as far as the class relies on them: a referenced object counts up and down, and
  a query either gives a new reference or a null pointer. At \<open>limit\<close> the count would overflow.
\<close>

locale com_rules =
  fixes I :: "'h com_methods" and refs :: "'h \<Rightarrow> nat \<Rightarrow> nat" and limit :: nat
  assumes AddRef: "a \<noteq> 0 \<Longrightarrow> 0 < refs h a \<Longrightarrow> refs h a < limit \<Longrightarrow>
      \<exists>h'. cm_AddRef I h a = Some h' \<and> refs h' = (refs h)(a := refs h a + 1)"
    and Release: "a \<noteq> 0 \<Longrightarrow> 0 < refs h a \<Longrightarrow> refs h a < limit \<Longrightarrow>
      \<exists>h'. cm_Release I h a = Some h' \<and> refs h' = (refs h)(a := refs h a - 1)"
    and QueryInterface: "a \<noteq> 0 \<Longrightarrow> 0 < refs h a \<Longrightarrow> \<forall>b. refs h b < limit \<Longrightarrow>
      \<exists>hr b h'. cm_QueryInterface I h a iid = Some (hr, b, h') \<and>
        refs h' = (if b = 0 then refs h else (refs h)(b := refs h b + 1))"
begin

lemma balanced_memory:
  assumes "balanced refs st raw" "\<And>a. a \<noteq> 0 \<Longrightarrow> refs h' a + raw a = refs (cs_memory st) a + raw' a"
  shows "balanced refs (st\<lparr>cs_memory := h'\<rparr>) raw'"
proof -
  have "refs h' a = owners (cs_ptr st) a + raw' a" if "a \<noteq> 0" for a
    using balanced_refs [OF assms(1) that] assms(2) [OF that] by linarith
  with assms(1) show ?thesis by (simp add: balanced_def)
qed

lemma release:
  assumes "balanced refs st raw" "\<forall>a. refs (cs_memory st) a < limit"
  shows "\<exists>h'. InternalRelease I x st = Some ((set_ptr x 0 st)\<lparr>cs_memory := h'\<rparr>) \<and>
    balanced refs ((set_ptr x 0 st)\<lparr>cs_memory := h'\<rparr>) raw \<and> (\<forall>a. refs h' a \<le> refs (cs_memory st) a)"
proof (cases "cs_ptr st x = 0")
  case True
  then have "(set_ptr x 0 st)\<lparr>cs_memory := cs_memory st\<rparr> = st" by (simp add: set_ptr_def fun_upd_idem)
  with True assms(1) show ?thesis by (intro exI [of _ "cs_memory st"]) (simp add: InternalRelease_def)
next
  case False
  let ?p = "cs_ptr st x"
  have "balanced refs (set_ptr x 0 st) (raw(?p := raw ?p + 1))" by (rule balanced_set [OF assms(1)]) auto
  moreover have pos: "0 < refs (cs_memory st) ?p" using balanced_owned [OF assms(1) False] by simp
  then obtain h' where h: "cm_Release I (cs_memory st) ?p = Some h'" "refs h' = (refs (cs_memory st))(?p := refs (cs_memory st) ?p - 1)"
    using Release False assms(2) by blast
  ultimately have "balanced refs ((set_ptr x 0 st)\<lparr>cs_memory := h'\<rparr>) raw"
    by (intro balanced_memory) (use pos in auto)
  with False h show ?thesis by (intro exI [of _ h']) (simp add: InternalRelease_def)
qed

lemma add_ref:
  assumes "balanced refs st raw" "\<forall>a. refs (cs_memory st) a < limit" "cs_ptr st x = 0" "p = 0 \<or> 0 < refs (cs_memory st) p"
  shows "\<exists>h'. InternalAddRef I x (set_ptr x p st) = Some ((set_ptr x p st)\<lparr>cs_memory := h'\<rparr>) \<and>
    balanced refs ((set_ptr x p st)\<lparr>cs_memory := h'\<rparr>) raw \<and> (\<forall>a. refs h' a \<le> refs (cs_memory st) a + 1)"
proof (cases "p = 0")
  case True
  with assms(3) have "set_ptr x p st = st" by (simp add: set_ptr_def fun_upd_idem)
  with assms True show ?thesis by (intro exI [of _ "cs_memory st"]) (simp add: InternalAddRef_def)
next
  case False
  with assms(2,4) obtain h' where h: "cm_AddRef I (cs_memory st) p = Some h'" "refs h' = (refs (cs_memory st))(p := refs (cs_memory st) p + 1)"
    using AddRef by blast
  have "balanced refs (st\<lparr>cs_memory := h'\<rparr>) (raw(p := raw p + 1))" by (rule balanced_memory [OF assms(1)]) (auto simp: h(2))
  then have "balanced refs (set_ptr x p (st\<lparr>cs_memory := h'\<rparr>)) raw" by (rule balanced_set) (use assms(3) in auto)
  moreover have "set_ptr x p (st\<lparr>cs_memory := h'\<rparr>) = (set_ptr x p st)\<lparr>cs_memory := h'\<rparr>" by (simp add: set_ptr_def)
  ultimately show ?thesis using False h by (intro exI [of _ h']) (simp add: InternalAddRef_def)
qed

lemma copy:
  assumes "balanced refs st raw" "\<forall>a. refs (cs_memory st) a < limit" "p = 0 \<or> 0 < raw p \<or> p \<in> range (cs_ptr st)"
  shows "\<exists>st'. InternalCopy I x p st = Some st' \<and> balanced refs st' raw \<and> (\<forall>a. refs (cs_memory st') a \<le> refs (cs_memory st) a + 1)"
proof (cases "cs_ptr st x = p")
  case False
  obtain h' where r: "InternalRelease I x st = Some ((set_ptr x 0 st)\<lparr>cs_memory := h'\<rparr>)"
      "balanced refs ((set_ptr x 0 st)\<lparr>cs_memory := h'\<rparr>) raw" "\<forall>a. refs h' a \<le> refs (cs_memory st) a"
    using release [OF assms(1,2)] by blast
  let ?st = "(set_ptr x 0 st)\<lparr>cs_memory := h'\<rparr>"
  have "p = 0 \<or> 0 < refs (cs_memory ?st) p"
  proof (cases "p = 0 \<or> 0 < raw p")
    case True
    then show ?thesis using balanced_refs [OF r(2), of p] by (cases "p = 0") auto
  next
    case no_raw: False
    then obtain y where "cs_ptr st y = p" using assms(3) by auto
    with False have "p \<in> range (cs_ptr ?st)" by (intro image_eqI [of _ _ y]) auto
    with no_raw show ?thesis using balanced_owned [OF r(2), of p] by auto
  qed
  moreover have "\<forall>a. refs (cs_memory ?st) a < limit" using r(3) assms(2) by (auto intro: le_less_trans)
  ultimately obtain h2 where h: "InternalAddRef I x (set_ptr x p ?st) = Some ((set_ptr x p ?st)\<lparr>cs_memory := h2\<rparr>)"
      "balanced refs ((set_ptr x p ?st)\<lparr>cs_memory := h2\<rparr>) raw" "\<forall>a. refs h2 a \<le> refs (cs_memory ?st) a + 1"
    using add_ref [OF r(2), of x p] by auto
  have "refs h2 a \<le> refs (cs_memory st) a + 1" for a using spec [OF h(3), of a] spec [OF r(3), of a] by simp
  with h(1,2) False show ?thesis by (simp add: InternalCopy_def r(1))
qed (use assms(1) in \<open>simp add: InternalCopy_def\<close>)

lemma move:
  assumes "balanced refs st raw" "cs_ptr st x = 0" "x \<noteq> y"
  shows "balanced refs (set_ptr y 0 (set_ptr x (cs_ptr st y) st)) raw"
proof -
  let ?p = "cs_ptr st y"
  have "balanced refs (set_ptr y 0 st) (raw(?p := raw ?p + 1))" by (rule balanced_set [OF assms(1)]) auto
  then have "balanced refs (set_ptr x ?p (set_ptr y 0 st)) raw" by (rule balanced_set) (use assms(2,3) in auto)
  moreover have "set_ptr y 0 (set_ptr x ?p st) = set_ptr x ?p (set_ptr y 0 st)" using assms(3) by (simp add: set_ptr_def fun_upd_twist)
  ultimately show ?thesis by simp
qed

lemma swap:
  assumes "balanced refs st raw"
  shows "balanced refs (Swap x y st) raw"
proof (cases "x = y")
  case True
  then have "Swap x y st = st" by (simp add: Swap_def set_ptr_def fun_upd_idem)
  with assms show ?thesis by simp
next
  case False
  let ?p = "cs_ptr st x" and ?q = "cs_ptr st y"
  have "balanced refs (set_ptr y 0 st) (raw(?q := raw ?q + 1))" by (rule balanced_set [OF assms]) auto
  then have "balanced refs (set_ptr x ?q (set_ptr y 0 st)) (raw(?p := raw ?p + 1))"
    by (rule balanced_set) (use False in auto)
  then have "balanced refs (set_ptr y ?p (set_ptr x ?q (set_ptr y 0 st))) raw" by (rule balanced_set) (use False in auto)
  moreover have "Swap x y st = set_ptr y ?p (set_ptr x ?q (set_ptr y 0 st))"
    using False by (simp add: Swap_def set_ptr_def fun_upd_twist)
  ultimately show ?thesis by simp
qed

lemma query:
  assumes "balanced refs st raw" "\<forall>a. refs (cs_memory st) a < limit" "cs_ptr st x \<noteq> 0" "cs_ptr st y = 0"
  shows "\<exists>st'. As I x iid y st = Some st' \<and> balanced refs st' raw \<and> (\<forall>a. refs (cs_memory st') a \<le> refs (cs_memory st) a + 1)"
proof -
  have i: "ComPtr_init y st = st" using assms(4) by (simp add: ComPtr_init_def set_ptr_def fun_upd_idem)
  have "0 < refs (cs_memory st) (cs_ptr st x)" using balanced_owned [OF assms(1,3)] by simp
  then obtain hr b h' where q: "cm_QueryInterface I (cs_memory st) (cs_ptr st x) iid = Some (hr, b, h')"
      "refs h' = (if b = 0 then refs (cs_memory st) else (refs (cs_memory st))(b := refs (cs_memory st) b + 1))"
    using QueryInterface assms(2,3) by blast
  have "balanced refs (st\<lparr>cs_memory := h'\<rparr>) (raw(b := raw b + 1))"
    by (rule balanced_memory [OF assms(1)]) (auto simp: q(2))
  then have "balanced refs (set_ptr y b (st\<lparr>cs_memory := h'\<rparr>)) raw" by (rule balanced_set) (use assms(4) in auto)
  with q assms(3) show ?thesis by (simp add: As_def i)
qed

lemma step:
  assumes "balanced refs st raw" "\<forall>a. refs (cs_memory st) a < limit" "allowed op st raw"
  shows "\<exists>st'. perform I op st = Some st' \<and> balanced refs st' (transfer op st raw) \<and>
    (\<forall>a. refs (cs_memory st') a \<le> refs (cs_memory st) a + 1)"
proof (cases op)
  case (Construct x)
  with assms(3) have "ComPtr_init x st = st" by (simp add: ComPtr_init_def set_ptr_def fun_upd_idem)
  with Construct assms(1) show ?thesis by simp
next
  case (Copy_construct x y)
  have "cs_ptr st x = 0" using assms(3) Copy_construct by simp
  moreover have "cs_ptr st y = 0 \<or> 0 < refs (cs_memory st) (cs_ptr st y)"
    using balanced_owned [OF assms(1) _ rangeI, of y] by (cases "cs_ptr st y = 0") auto
  ultimately obtain h' where h: "InternalAddRef I x (set_ptr x (cs_ptr st y) st) = Some ((set_ptr x (cs_ptr st y) st)\<lparr>cs_memory := h'\<rparr>)"
      "balanced refs ((set_ptr x (cs_ptr st y) st)\<lparr>cs_memory := h'\<rparr>) raw" "\<forall>a. refs h' a \<le> refs (cs_memory st) a + 1"
    using add_ref [OF assms(1,2), of x "cs_ptr st y"] by blast
  then show ?thesis by (intro exI [of _ "(set_ptr x (cs_ptr st y) st)\<lparr>cs_memory := h'\<rparr>"]) (simp add: ComPtr_copy_def Copy_construct)
next
  case (Move_construct x y)
  with assms(3) show ?thesis using move [OF assms(1), of x y] by (simp add: ComPtr_move_def)
next
  case (Destroy x)
  with release [OF assms(1,2), of x] show ?thesis by (auto simp: ComPtr_delete_def le_SucI)
next
  case (Swap_with x y)
  with swap [OF assms(1), of x y] show ?thesis by (simp add: Swap_def Let_def)
next
  case (Reset_it x)
  with release [OF assms(1,2), of x] show ?thesis by (auto simp: Reset_def le_SucI)
next
  case (Detach_it x)
  have "balanced refs (set_ptr x 0 st) (raw(cs_ptr st x := raw (cs_ptr st x) + 1))"
    by (rule balanced_set [OF assms(1)]) auto
  with Detach_it show ?thesis by (simp add: Detach_def)
next
  case (Copy_raw x p)
  with copy [OF assms(1,2), of p x] assms(3) show ?thesis by (simp add: Copy_def)
next
  case (Attach_raw x p)
  obtain h' where r: "InternalRelease I x st = Some ((set_ptr x 0 st)\<lparr>cs_memory := h'\<rparr>)"
      "balanced refs ((set_ptr x 0 st)\<lparr>cs_memory := h'\<rparr>) raw" "\<forall>a. refs h' a \<le> refs (cs_memory st) a"
    using release [OF assms(1,2)] by blast
  have "balanced refs (set_ptr x p ((set_ptr x 0 st)\<lparr>cs_memory := h'\<rparr>)) (raw(p := raw p - 1))"
    by (rule balanced_set [OF r(2)]) (use Attach_raw assms(3) in auto)
  with r Attach_raw show ?thesis by (simp add: Attach_def le_SucI)
next
  case (Copy_out x)
  show ?thesis
  proof (cases "cs_ptr st x = 0")
    case True
    with assms(1) Copy_out show ?thesis by (auto simp: CopyTo_def InternalAddRef_def balanced_def)
  next
    case False
    then obtain h' where h: "cm_AddRef I (cs_memory st) (cs_ptr st x) = Some h'"
        "refs h' = (refs (cs_memory st))(cs_ptr st x := refs (cs_memory st) (cs_ptr st x) + 1)"
      using AddRef [OF False balanced_owned [OF assms(1) False rangeI]] assms(2) by blast
    have "balanced refs (st\<lparr>cs_memory := h'\<rparr>) (raw(cs_ptr st x := raw (cs_ptr st x) + 1))"
      by (rule balanced_memory [OF assms(1)]) (auto simp: h(2))
    moreover have "perform I (Copy_out x) st = Some (st\<lparr>cs_memory := h'\<rparr>)" using False h(1) by (simp add: CopyTo_def InternalAddRef_def)
    ultimately show ?thesis unfolding Copy_out by (intro exI [of _ "st\<lparr>cs_memory := h'\<rparr>"]) (simp add: h(2))
  qed
next
  case (Query x iid y)
  with query [OF assms(1,2), of x y iid] assms(3) show ?thesis by simp
next
  case (Assign x y)
  with copy [OF assms(1,2), of "cs_ptr st y" x] show ?thesis by (auto simp: copy_assign_def)
next
  case (Move_assign x y)
  show ?thesis
  proof (cases "cs_ptr st x = cs_ptr st y")
    case True
    with assms(1) Move_assign show ?thesis by (simp add: move_assign_def InternalMove_def)
  next
    case False
    obtain h' where r: "InternalRelease I x st = Some ((set_ptr x 0 st)\<lparr>cs_memory := h'\<rparr>)"
        "balanced refs ((set_ptr x 0 st)\<lparr>cs_memory := h'\<rparr>) raw" "\<forall>a. refs h' a \<le> refs (cs_memory st) a"
      using release [OF assms(1,2)] by blast
    from move [OF r(2), of x y] False r Move_assign show ?thesis
      by (auto simp: move_assign_def InternalMove_def le_SucI)
  qed
qed

lemma program_balanced:
  assumes "balanced refs st raw" "\<forall>a. refs (cs_memory st) a + length ops < limit" "obeys I ops (st, raw)"
  shows "\<exists>st' raw'. program I ops (st, raw) = Some (st', raw') \<and> balanced refs st' raw'"
  using assms
proof (induction ops arbitrary: st raw)
  case (Cons op ops)
  have "\<forall>a. refs (cs_memory st) a < limit" using Cons.prems(2) by (metis add_lessD1)
  then obtain st' where s: "perform I op st = Some st'" "balanced refs st' (transfer op st raw)"
      "\<forall>a. refs (cs_memory st') a \<le> refs (cs_memory st) a + 1"
    using step [OF Cons.prems(1), of op] Cons.prems(3) by auto
  have "refs (cs_memory st') a + length ops < limit" for a
    using spec [OF Cons.prems(2), of a] spec [OF s(3), of a] by simp
  with Cons.IH [OF s(2)] Cons.prems(3) s(1) show ?case by simp
qed simp

end

section \<open>The objects of the library\<close>

text \<open>
  An object with its count, a C \<open>int\<close>. A profiler holds the pointer \<open>info_\<close> to an object of the
  runtime; releasing that one is a call into the runtime, whose state is \<open>'s\<close>.
\<close>

datatype com_class = ClassFactory | CorProfilerBase nat

record com_object =
  co_class :: com_class
  co_count :: u32

record 's library =
  lib_objects :: "nat \<Rightarrow> com_object option"
  lib_runtime :: 's

definition IID_IUnknown :: guid where
  "IID_IUnknown = (0, 0, 0, [0xC0, 0, 0, 0, 0, 0, 0, 0x46])"

definition IID_IClassFactory :: guid where
  "IID_IClassFactory = (1, 0, 0, [0xC0, 0, 0, 0, 0, 0, 0, 0x46])"

definition CLSID_CorProfiler :: guid where
  "CLSID_CorProfiler = (0xb4c89b0f, 0x9908, 0x4f73, [0x9f, 0x59, 0xd, 0x77, 0xc5, 0xa0, 0x68, 0x74])"

text \<open>The identifiers of \<open>ICorProfilerCallback8\<close> down to \<open>ICorProfilerCallback\<close>, from corprof.h.\<close>

definition profiler_iids :: "guid list" where
  "profiler_iids =
     [(0x5BED9B15, 0xC079, 0x4D47, [0xBF, 0xE2, 0x21, 0x5A, 0x14, 0x0C, 0x07, 0xE0]),
      (0xF76A2DBA, 0x1D52, 0x4539, [0x86, 0x6C, 0x2A, 0xA5, 0x18, 0xF9, 0xEF, 0xC3]),
      (0xFC13DF4B, 0x4448, 0x4F4F, [0x95, 0x0C, 0xBA, 0x8D, 0x19, 0xD0, 0x0C, 0x36]),
      (0x8DFBA405, 0x8C9F, 0x45F8, [0xBF, 0xFA, 0x83, 0xB1, 0x4C, 0xEF, 0x78, 0xB5]),
      (0x7B63B2E3, 0x107D, 0x4D48, [0xB2, 0xF6, 0xF6, 0x1E, 0x22, 0x94, 0x70, 0xD2]),
      (0x4FD2ED52, 0x7731, 0x4b8d, [0x94, 0x69, 0x03, 0xD2, 0xCC, 0x30, 0x86, 0xC5]),
      (0x8A8CC829, 0xCCF2, 0x49fe, [0xBB, 0xAE, 0x0F, 0x02, 0x22, 0x28, 0x07, 0x1A]),
      (0x176FBED1, 0xA55C, 0x4796, [0x98, 0xCA, 0xA9, 0xDA, 0x0E, 0xF8, 0x83, 0xE7])]"

definition AddRef :: "'s library \<Rightarrow> nat \<Rightarrow> (u32 \<times> 's library) option" where
  "AddRef h a =
     (case lib_objects h a of
        None \<Rightarrow> None
      | Some obj \<Rightarrow> Some (co_count obj + 1, h\<lparr>lib_objects := (lib_objects h)(a \<mapsto> obj\<lparr>co_count := co_count obj + 1\<rparr>)\<rparr>))"

text \<open>The destructors: only the profiler has something to release.\<close>

definition destroy :: "(nat \<Rightarrow> 's \<Rightarrow> 's) \<Rightarrow> com_class \<Rightarrow> 's \<Rightarrow> 's" where
  "destroy info_Release c s =
     (case c of ClassFactory \<Rightarrow> s | CorProfilerBase info \<Rightarrow> if info \<noteq> 0 then info_Release info s else s)"

definition Release :: "(nat \<Rightarrow> 's \<Rightarrow> 's) \<Rightarrow> 's library \<Rightarrow> nat \<Rightarrow> (u32 \<times> 's library) option" where
  "Release info_Release h a =
     (case lib_objects h a of
        None \<Rightarrow> None
      | Some obj \<Rightarrow>
          (let count = co_count obj - 1 in
           if sint count \<le> 0
           then Some (count, \<lparr>lib_objects = (lib_objects h)(a := None), lib_runtime = destroy info_Release (co_class obj) (lib_runtime h)\<rparr>)
           else Some (count, h\<lparr>lib_objects := (lib_objects h)(a \<mapsto> obj\<lparr>co_count := count\<rparr>)\<rparr>)))"

definition has_interface :: "com_class \<Rightarrow> guid \<Rightarrow> bool" where
  "has_interface c riid \<longleftrightarrow>
     (case c of
        ClassFactory \<Rightarrow> riid = IID_IUnknown \<or> riid = IID_IClassFactory
      | CorProfilerBase _ \<Rightarrow> list_ex (\<lambda>iid. riid = iid) profiler_iids \<or> riid = IID_IUnknown)"

text \<open>The result, the pointer stored through \<open>ppvObject\<close> and the new memory.\<close>

definition QueryInterface :: "'s library \<Rightarrow> nat \<Rightarrow> guid \<Rightarrow> (hresult \<times> nat \<times> 's library) option" where
  "QueryInterface h a riid =
     (case lib_objects h a of
        None \<Rightarrow> None
      | Some obj \<Rightarrow>
          if has_interface (co_class obj) riid then map_option (\<lambda>(n, h). (S_OK, a, h)) (AddRef h a)
          else Some (E_NOINTERFACE, 0, h))"

text \<open>
  \<open>a\<close> is the address \<open>new\<close> gives. \<open>outer\<close> is the object for aggregation, \<open>ppv\<close> says whether there
  is a place for the result.
\<close>

definition CreateInstance :: "nat \<Rightarrow> nat \<Rightarrow> guid \<Rightarrow> 's library \<Rightarrow> (hresult \<times> nat \<times> 's library) option" where
  "CreateInstance a outer riid h =
     (if outer \<noteq> 0 then Some (0x80040110, 0, h)
      else QueryInterface (h\<lparr>lib_objects := (lib_objects h)(a \<mapsto> \<lparr>co_class = CorProfilerBase 0, co_count = 0\<rparr>)\<rparr>) a riid)"

definition DllGetClassObject :: "nat \<Rightarrow> guid \<Rightarrow> guid \<Rightarrow> bool \<Rightarrow> 's library \<Rightarrow> (hresult \<times> nat option \<times> 's library) option" where
  "DllGetClassObject a rclsid riid ppv h =
     (if \<not> ppv \<or> rclsid \<noteq> CLSID_CorProfiler then Some (E_FAIL, None, h)
      else if a = 0 then Some (E_FAIL, None, h)
      else map_option (\<lambda>(hr, p, h). (hr, Some p, h))
        (QueryInterface (h\<lparr>lib_objects := (lib_objects h)(a \<mapsto> \<lparr>co_class = ClassFactory, co_count = 0\<rparr>)\<rparr>) a riid))"

definition DllCanUnloadNow :: hresult where
  "DllCanUnloadNow = S_OK"

section \<open>The objects keep the rules\<close>

definition library_methods :: "(nat \<Rightarrow> 's \<Rightarrow> 's) \<Rightarrow> 's library com_methods" where
  "library_methods info_Release = \<lparr>cm_AddRef = (\<lambda>h a. map_option snd (AddRef h a)),
     cm_Release = (\<lambda>h a. map_option snd (Release info_Release h a)), cm_QueryInterface = QueryInterface\<rparr>"

definition library_refs :: "'s library \<Rightarrow> nat \<Rightarrow> nat" where
  "library_refs h a = (case lib_objects h a of None \<Rightarrow> 0 | Some obj \<Rightarrow> unat (co_count obj))"

definition count_limit :: nat where
  "count_limit = 2 ^ 31 - 1"

lemma count_up: "unat (n :: u32) < 2 ^ 31 - 1 \<Longrightarrow> unat (n + 1) = unat n + 1"
  by (subst unat_word_ariths) simp

lemma count_down:
  fixes n :: u32
  assumes "0 < unat n" "unat n < 2 ^ 31 - 1"
  shows "unat (n - 1) = unat n - 1" "sint (n - 1) \<le> 0 \<longleftrightarrow> unat n = 1"
proof -
  have n: "n \<noteq> 0" using assms(1) by auto
  then show m: "unat (n - 1) = unat n - 1" by (simp add: unat_minus_one)
  have "uint (n - 1) = int (unat n - 1)" using m by (simp only: uint_nat)
  moreover have "int (unat n - 1) < 2 ^ 31" "- (2 ^ 31) \<le> int (unat n - 1)" using assms(2) by auto
  ultimately have "sint (n - 1) = int (unat n - 1)"
    by (simp only: sint_uint) (simp add: signed_take_bit_int_eq_self_iff)
  with assms show "sint (n - 1) \<le> 0 \<longleftrightarrow> unat n = 1" by linarith
qed

interpretation library: com_rules "library_methods info_Release" library_refs count_limit for info_Release :: "nat \<Rightarrow> 's \<Rightarrow> 's"
proof
  fix h :: "'s library" and a iid
  assume "a \<noteq> 0" "0 < library_refs h a"
  then obtain obj where obj: "lib_objects h a = Some obj" "0 < unat (co_count obj)" "library_refs h a = unat (co_count obj)"
    by (auto simp: library_refs_def split: option.splits)
  have up: "unat (co_count obj + 1) = unat (co_count obj) + 1" if "library_refs h a < count_limit"
    using that obj count_up by (simp add: count_limit_def)
  then show "library_refs h a < count_limit \<Longrightarrow>
      \<exists>h'. cm_AddRef (library_methods info_Release) h a = Some h' \<and> library_refs h' = (library_refs h)(a := library_refs h a + 1)"
    using obj by (auto simp: library_methods_def AddRef_def library_refs_def fun_eq_iff)
  show "library_refs h a < count_limit \<Longrightarrow>
      \<exists>h'. cm_Release (library_methods info_Release) h a = Some h' \<and> library_refs h' = (library_refs h)(a := library_refs h a - 1)"
    using obj count_down [of "co_count obj"]
    by (auto simp: library_methods_def Release_def library_refs_def fun_eq_iff count_limit_def Let_def)
  assume "\<forall>b. library_refs h b < count_limit"
  then have n: "unat (co_count obj + 1) = unat (co_count obj) + 1" using up by blast
  show "\<exists>hr b h'. cm_QueryInterface (library_methods info_Release) h a iid = Some (hr, b, h') \<and>
      library_refs h' = (if b = 0 then library_refs h else (library_refs h)(b := library_refs h b + 1))"
  proof (cases "has_interface (co_class obj) iid")
    case True
    with obj n \<open>a \<noteq> 0\<close> show ?thesis
      by (intro exI [of _ S_OK] exI [of _ a]) (auto simp: library_methods_def QueryInterface_def AddRef_def library_refs_def)
  next
    case False
    with obj show ?thesis by (simp add: library_methods_def QueryInterface_def)
  qed
qed

section \<open>Contracts\<close>

text \<open>
  C24. Programs over ComPtr neither use an object after its last reference is gone nor lose one: if
  every reference is held by a variable or outside, and the caller keeps the rules, then every
  sequence of operations, with aliases, self assignments and failing queries, runs to its end and
  leaves it so; once all variables are null, only the references outside are left. This holds for
  all objects that follow the rules of COM, as the objects of the library do.
\<close>

theorem ComPtr_counts:
  assumes "com_rules I refs limit" "balanced refs st raw" "\<forall>a. refs (cs_memory st) a + length ops < limit" "obeys I ops (st, raw)"
  shows "\<exists>st' raw'. program I ops (st, raw) = Some (st', raw') \<and> balanced refs st' raw' \<and>
    ((\<forall>x. IsNull x st') \<longrightarrow> (\<forall>a. a \<noteq> 0 \<longrightarrow> refs (cs_memory st') a = raw' a))"
proof -
  obtain st' raw' where "program I ops (st, raw) = Some (st', raw')" "balanced refs st' raw'"
    using com_rules.program_balanced [OF assms] by blast
  moreover from this have "\<forall>a. a \<noteq> 0 \<longrightarrow> refs (cs_memory st') a = raw' a" if "\<forall>x. IsNull x st'"
    using that by (simp add: IsNull_def balanced_def owners_def)
  ultimately show ?thesis by blast
qed

text \<open>A factory at address 4: attached, copied over itself, queried, moved, and all released.\<close>

definition sample_library :: "nat library" where
  "sample_library = \<lparr>lib_objects = [4 \<mapsto> \<lparr>co_class = ClassFactory, co_count = 1\<rparr>], lib_runtime = 0\<rparr>"

definition sample_program :: "ptr_op list" where
  "sample_program = [Construct 0, Attach_raw 0 4, Copy_construct 1 0, Assign 1 1, Query 0 IID_IUnknown 2, Query 0 CLSID_CorProfiler 3,
     Move_assign 2 0, Swap_with 1 3, Destroy 0, Reset_it 2, Destroy 1, Destroy 3]"

theorem ComPtr_counts_witness:
  "\<exists>st raw. program (library_methods (\<lambda>_ s. s)) sample_program (\<lparr>cs_ptr = \<lambda>_. 0, cs_memory = sample_library\<rparr>, (\<lambda>_. 0)(4 := 1)) =
       Some (st, raw) \<and> balanced library_refs st raw \<and> lib_objects (cs_memory st) 4 = None"
proof -
  let ?st = "\<lparr>cs_ptr = \<lambda>_. 0, cs_memory = sample_library\<rparr>" and ?raw = "(\<lambda>_. 0)(4 := 1) :: nat \<Rightarrow> nat"
  let ?I = "library_methods (\<lambda>_ s. s) :: nat library com_methods"
  have "balanced library_refs ?st ?raw" by (simp add: balanced_def owners_def library_refs_def sample_library_def)
  moreover have "\<forall>a. library_refs (cs_memory ?st) a + length sample_program < count_limit"
    by (simp add: library_refs_def sample_library_def sample_program_def count_limit_def)
  moreover have "obeys ?I sample_program (?st, ?raw)" by code_simp
  moreover have "map_option (\<lambda>(st, raw). lib_objects (cs_memory st) 4) (program ?I sample_program (?st, ?raw)) = Some None"
    by code_simp
  ultimately show ?thesis
    using ComPtr_counts [OF library.com_rules_axioms] by fastforce
qed

definition hands_out :: "(nat \<Rightarrow> 's \<Rightarrow> 's) \<Rightarrow> 's library \<Rightarrow> com_class \<Rightarrow> nat \<Rightarrow> guid \<Rightarrow> hresult \<times> nat \<times> 's library \<Rightarrow> bool" where
  "hands_out info_Release h c a riid r \<longleftrightarrow>
     (case r of (hr, p, h') \<Rightarrow>
        if has_interface c riid then hr = S_OK \<and> p = a \<and> library_refs h' a = 1 \<and> Release info_Release h' a = Some (0, h)
        else hr = E_NOINTERFACE \<and> p = 0 \<and> lib_objects h' = (lib_objects h)(a \<mapsto> \<lparr>co_class = c, co_count = 0\<rparr>))"

text \<open>
  The exported functions hand out an object with one reference, whose release gives back
  exactly the memory there was before; a request for an interface the object does not have is
  answered by E\_NOINTERFACE and a null pointer, but the object that has been made for it stays in
  memory with no reference, and nothing leads to it any more.
\<close>

theorem created_objects:
  assumes "lib_objects h a = None" "a \<noteq> 0"
  shows "(\<exists>r. CreateInstance a 0 riid h = Some r \<and> hands_out info_Release h (CorProfilerBase 0) a riid r) \<and>
    (\<exists>hr p h'. DllGetClassObject a CLSID_CorProfiler riid True h = Some (hr, Some p, h') \<and>
      hands_out info_Release h ClassFactory a riid (hr, p, h'))"
proof -
  have "(lib_objects h)(a := None) = lib_objects h" using assms(1) by (simp add: fun_upd_idem)
  then show ?thesis
    using assms(2) by (simp add: CreateInstance_def DllGetClassObject_def QueryInterface_def AddRef_def Release_def library_refs_def
      destroy_def hands_out_def)
qed

theorem created_objects_witness:
  "\<exists>h'. CreateInstance 8 0 IID_IUnknown sample_library = Some (S_OK, 8, h') \<and> Release (\<lambda>_ s. s) h' 8 = Some (0, sample_library)"
proof -
  have "lib_objects sample_library 8 = None" "has_interface (CorProfilerBase 0) IID_IUnknown"
    by (simp_all add: sample_library_def has_interface_def)
  with created_objects [of sample_library 8 IID_IUnknown "\<lambda>_ s. s"] show ?thesis by (auto simp: hands_out_def)
qed

end
