(* ===== verification/Spec2Isabelle.thy ===== *)
theory Spec2Isabelle
  imports Sig_Parser IL_Method IL_Wrapper Integration_Loader First_Compilation Isolation Com
begin

text \<open>
  Verification of the native CLR profiler of the SignalFx .NET tracing library, the directory
  src/src/Datadog.Trace.ClrProfiler.Native of the repository (below, file names without a directory
  are files of it).

  \<^bold>\<open>The program.\<close> The .NET runtime loads the library, asks its class factory for a profiler object
  and calls this object back. \<open>Initialize\<close> reads the configuration and the integrations, JSON files
  that say which calls in which assemblies are to be redirected to which wrapper methods. When a
  module is loaded, the profiler keeps its metadata if an integration applies to it. When a method
  of such a module is compiled for the first time, the profiler reads the byte code of the method
  into a linked list of instructions, replaces the calls of the targets by calls of the wrappers,
  for which it adds references to the metadata of the module, and gives the new byte code to the
  runtime. In the first method compiled in an application domain it inserts a call of a method
  which it has generated before and which loads the managed part of the tracer.

  \<^bold>\<open>The theories\<close>, from the bottom up, and what they model:

  \<^item> \<^verbatim>\<open>Prelude\<close>: machine types, HRESULTs, reads from memory, the locale of self-delimiting codes.
  \<^item> \<^verbatim>\<open>Cor_Sig\<close>: the compressed integers and tokens of signatures (lib/coreclr/src/inc/cor.h).
  \<^item> \<^verbatim>\<open>Sig_Parser\<close>: sig\_helpers.cpp, with the format of types that its comments document, and what
    the code makes of it, as the specification.
  \<^item> \<^verbatim>\<open>Opcodes\<close>, \<^verbatim>\<open>IL_List\<close>: the opcode tables, and \<open>ILRewriter\<close> (il\_rewriter.cpp) as a heap of
    instruction cells in a circular doubly linked list; the locale \<open>instruction_sequence\<close> is the
    list as its clients see it.
  \<^item> \<^verbatim>\<open>IL_Code\<close>, \<^verbatim>\<open>IL_Import\<close>, \<^verbatim>\<open>IL_Export\<close>, \<^verbatim>\<open>IL_Assemble\<close>, \<^verbatim>\<open>IL_Roundtrip\<close>, \<^verbatim>\<open>IL_Method\<close>: byte code
    as a function of the instructions and back; \<open>ImportIL\<close>, \<open>ImportEH\<close> and \<open>Export\<close> of
    il\_rewriter.cpp, compared with it; the headers and exception sections of method bodies
    (lib/coreclr/src/inc/corhlpr.h and corhlpr.cpp) and \<open>Import\<close> on whole bodies.
  \<^item> \<^verbatim>\<open>IL_Wrapper\<close>: il\_rewriter\_wrapper.cpp, the code generator on the list.
  \<^item> \<^verbatim>\<open>Mini_Utf\<close>, \<^verbatim>\<open>Str_Util\<close>: the conversions of miniutf.cpp and string.cpp; util.cpp, util.h.
  \<^item> \<^verbatim>\<open>Integrations\<close>, \<^verbatim>\<open>Integration_Loader\<close>: integration.h, integration.cpp, integration\_loader.cpp,
    with exceptions as values.
  \<^item> \<^verbatim>\<open>Clr_Enum\<close>, \<^verbatim>\<open>Clr_Helpers\<close>, \<^verbatim>\<open>Signature_Types\<close>, \<^verbatim>\<open>Return_Types\<close>: clr\_helpers.h and clr\_helpers.cpp,
    over a record of the metadata functions of a module.
  \<^item> \<^verbatim>\<open>Module_Meta\<close>: module\_metadata.h and metadata\_builder.cpp; the locale \<open>token_cache\<close> for the caches.
  \<^item> \<^verbatim>\<open>Profiler_State\<close>: the members of \<open>CorProfiler\<close> (cor\_profiler.h) and the profiling interface.
  \<^item> \<^verbatim>\<open>Call_Replacement\<close>, \<^verbatim>\<open>Replacement_Spec\<close>, \<^verbatim>\<open>Replacement_Contracts\<close>: \<open>ProcessReplacementCalls\<close> and
    \<open>ProcessInsertionCalls\<close> of cor\_profiler.cpp, their meaning on sequences of instructions, and
    their properties.
  \<^item> \<^verbatim>\<open>Startup\<close>, \<^verbatim>\<open>Startup_Contracts\<close>: \<open>GenerateVoidILStartupMethod\<close> and \<open>RunILStartupHook\<close>; a typing
    relation for the instructions used, and the properties.
  \<^item> \<^verbatim>\<open>Weaving\<close>, \<^verbatim>\<open>Imported_Bodies\<close>, \<^verbatim>\<open>Exported_Bodies\<close>, \<^verbatim>\<open>Rewritten_Bodies\<close>: instructions woven
    into a program and why branches and exception clauses survive it; the method bodies the importer
    takes, and that the exporter writes such bodies; from the body the runtime gives to the body it is handed.
  \<^item> \<^verbatim>\<open>Profiler\<close>, \<^verbatim>\<open>Profiler_Runs\<close>, \<^verbatim>\<open>Profiler_Contracts\<close>: the callbacks of cor\_profiler.cpp; the step
    relation \<open>callback\<close> and its runs with their history, the locale \<open>history_invariant\<close> and the
    invariants; the properties of whole runs.
  \<^item> \<^verbatim>\<open>First_Compilation\<close>: startup hook and replacement behind each other, from the callback to the body.
  \<^item> \<^verbatim>\<open>Isolation\<close>: what of the runtime no callback touches.
  \<^item> \<^verbatim>\<open>Com\<close>: com\_ptr.h, class\_factory.cpp, dllmain.cpp and the counts of cor\_profiler\_base.h.

  \<^bold>\<open>How the code is modelled.\<close> Definitions have the names of the source. A function that changes
  memory takes and returns it; the state of the runtime is a type variable that every call of the
  runtime may change, so that nothing is assumed of it but what a theorem says. Reads and writes
  out of bounds, calls through null pointers and uses of deleted objects are the value \<open>None\<close>, not
  given a meaning; HRESULTs and \<open>bool\<close> results are kept, exceptions are \<open>Inl\<close>. Integers have the
  width of the source. Hash tables are maps and sets; the code never iterates over one. The
  callbacks of the profiler hold a lock, so one callback is one step of a run, and between two steps
  the runtime may change its state at will. Asserts are not compiled into the release build.

  \<^bold>\<open>What the lemmas show.\<close>
  Reading and writing of method bodies: the importer does what a decoder of byte code says, the
  exporter leaves an assembled program, and importing an export gives the same program. Parsing of
  signatures: exactly the documented format is accepted, but for three departures that are shown, and
  the names found are those of the types.
  Rewriting: the loops over the linked list refine a function on sequences; a call is replaced only
  if everything fits; what is done behind a replaced call. Whole bodies: a valid body is imported as
  its decoders say; what replacement, insertion or the startup hook hand over is valid again and is
  read back as the rewritten program, with the exception clauses around the same instructions, so
  rewritings compose, as they do in the first compilation in a domain. The startup hook: the generated method is
  well typed, decoded as written, is called by the first compilation in a domain, whatever the run
  before it was, and by no other; a failure of it never reaches the runtime. Runs: what is kept
  of modules, that the settings do not change, that a detached profiler is silent, what must have been
  loaded before a call is redirected, what unloading forgets, and that only the compiled method is
  written. Strings, versions and integrations:
  round trips, bounds and errors. Reference counts: no use after release, no leak. A number of
  theorems show where the code does not do what it means to; they say so.

  \<^bold>\<open>Bounds.\<close> \<open>ParseType\<close> is the recursion of depth up to the length of its input, which is
  shown to be enough on every input. \<open>GetFunctionInfo\<close> and \<open>GetTypeInfo\<close> call each other without a
  bound in the source: their first argument bounds the nesting. With \<open>N\<close> type specifications in a
  module of the documented shape \<open>N + 6\<close> is shown to be enough, unless type specifications lead back
  to one of them; then no bound is enough. Loops over
  enumerators and over the instruction list end only if the runtime, or the list, lets them: they
  are \<open>partial_function\<close>s, with theorems that they return. The loops of \<open>Export\<close> have the number of
  instructions as their bound, enough because every repetition widens a branch.

  \<^bold>\<open>Parameters.\<close> The interfaces \<open>IMetaDataImport2\<close>, \<open>IMetaDataEmit2\<close>, \<open>IMetaDataAssemblyImport\<close>,
  \<open>IMetaDataAssemblyEmit\<close> (record \<open>module_interfaces\<close>) and \<open>ICorProfilerInfo3\<close> (record
  \<open>profiler_info\<close>), the JSON library, RE2, the environment, files and the contents of fresh memory.

  \<^bold>\<open>Not modelled.\<close> Logging; case folding, normalisation and collation in miniutf.cpp, which the profiler
  does not call; callbacks that only log; the declarations of the vendored runtime headers; the
  managed tracer, its integrations, tests, samples and scripts.
\<close>

end
